(* ===== verification/Prelude.thy ===== *)
theory Prelude
  imports Main
begin

section \<open>Prelude: computations with errors, tables, and invariants of operation sequences\<close>

text \<open>
  What every component shares. The exceptions of \<^verbatim>\<open>src/stockoutops\<close> (and those of the
  libraries it calls that the code lets through) are the datatype \<open>exn\<close>; a function that may
  raise returns \<open>exn + 'a\<close>, and a function with effects on a state \<open>'w\<close> is a \<open>comp\<close>: it
  returns the outcome together with the state it leaves, whether it returned or raised.
  Database tables are lists of rows in insertion order; \<open>select_one\<close>, \<open>select_last\<close> and
  \<open>update_where\<close> are the shapes of SQL statement the repositories issue.
\<close>

subsection \<open>Exceptions\<close>

text \<open>
  \<^verbatim>\<open>errors.py\<close>, \<^verbatim>\<open>evidence/contracts.py\<close> (\<open>EvidenceFailure\<close>) and
  \<^verbatim>\<open>reasoning/base.py\<close> (\<open>ReasoningFailure\<close>), with the Python built-ins and the
  library exceptions the modelled code raises or lets through. The constructors carry the
  arguments the code gives; the default messages of the source are the definitions below.
\<close>

datatype exn =
    AuthenticationError string
  | AuthorizationError string
  | NotFoundError
  | ConflictError string string
  | ValidationError string string
  | ConfigurationError string
  | EvidenceFailure string string
  | ReasoningFailure string string
  | PydanticValidationError
  | ValueError string
  | RuntimeError string
  | KeyError string
  | TypeError string
  | AttributeError string
  | StopIteration
  | DatabaseError string
  | FileNotFoundError string
  | OverflowError string
  | StillWaiting

text \<open>
  \<open>StillWaiting\<close> is no exception of the source: it is the end of a computation that has not returned,
  because a lock it waits for is held by somebody else. Nothing catches it, and the exit actions that
  would run on the way out do not run.
\<close>

fun is_waiting :: "exn \<Rightarrow> bool" where
  "is_waiting StillWaiting = True"
| "is_waiting _ = False"

lemma is_waiting_iff [simp]: "is_waiting e \<longleftrightarrow> e = StillWaiting"
  by (cases e) simp_all

type_synonym 'a result = "exn + 'a"

text \<open>Pure steps in sequence: the first exception ends them.\<close>

definition and_then :: "'a result \<Rightarrow> ('a \<Rightarrow> 'b result) \<Rightarrow> 'b result" where
  "and_then r f = (case r of Inl e \<Rightarrow> Inl e | Inr x \<Rightarrow> f x)"

lemma and_then_simps [simp]: "and_then (Inl e) f = Inl e" "and_then (Inr x) f = f x"
  by (simp_all add: and_then_def)

lemma and_then_Inr_iff: "and_then r f = Inr y \<longleftrightarrow> (\<exists>x. r = Inr x \<and> f x = Inr y)"
  by (cases r) simp_all

lemma and_then_Inl_iff: "and_then r f = Inl e \<longleftrightarrow> r = Inl e \<or> (\<exists>x. r = Inr x \<and> f x = Inl e)"
  by (cases r) simp_all

subsection \<open>Computations\<close>

type_synonym ('w, 'a) comp = "'w \<Rightarrow> 'a result \<times> 'w"

definition returnE :: "'a \<Rightarrow> ('w, 'a) comp" where
  "returnE x w = (Inr x, w)"

definition raiseE :: "exn \<Rightarrow> ('w, 'a) comp" where
  "raiseE e w = (Inl e, w)"

definition liftE :: "'a result \<Rightarrow> ('w, 'a) comp" where
  "liftE r w = (r, w)"

definition bindE :: "('w, 'a) comp \<Rightarrow> ('a \<Rightarrow> ('w, 'b) comp) \<Rightarrow> ('w, 'b) comp" where
  "bindE m f w = (case m w of (Inl e, w') \<Rightarrow> (Inl e, w') | (Inr x, w') \<Rightarrow> f x w')"

text \<open>\<open>with claim: m\<close>: the exit action runs however \<open>m\<close> ends, if it ends.\<close>

definition finallyE :: "('w, 'a) comp \<Rightarrow> ('w \<Rightarrow> 'w) \<Rightarrow> ('w, 'a) comp" where
  "finallyE m c w =
     (case m w of
        (Inl e, w') \<Rightarrow> (Inl e, if is_waiting e then w' else c w')
      | (Inr x, w') \<Rightarrow> (Inr x, c w'))"

text \<open>\<open>try: m except (those c): ...\<close>, as a value: the handler is chosen by what follows.\<close>

definition tryE :: "(exn \<Rightarrow> bool) \<Rightarrow> ('w, 'a) comp \<Rightarrow> ('w, exn + 'a) comp" where
  "tryE c m w =
     (case m w of
        (Inl e, w') \<Rightarrow> if c e then (Inr (Inl e), w') else (Inl e, w')
      | (Inr x, w') \<Rightarrow> (Inr (Inr x), w'))"

lemmas comp_defs = returnE_def raiseE_def liftE_def bindE_def finallyE_def tryE_def

lemma bind_lift: "bindE (liftE (Inr x)) f = f x"
  by (simp add: bindE_def liftE_def fun_eq_iff)

text \<open>
  \<open>wp m Q E w\<close>: run from \<open>w\<close>, the computation returns a value and state with \<open>Q\<close> or raises an
  exception leaving a state with \<open>E\<close>. The equations push it through the combinators.
\<close>

definition wp :: "('w, 'a) comp \<Rightarrow> ('a \<Rightarrow> 'w \<Rightarrow> bool) \<Rightarrow> (exn \<Rightarrow> 'w \<Rightarrow> bool) \<Rightarrow> 'w \<Rightarrow> bool" where
  "wp m Q E w = (case m w of (Inl e, w') \<Rightarrow> E e w' | (Inr x, w') \<Rightarrow> Q x w')"

lemma wp_return [simp]: "wp (returnE x) Q E w = Q x w"
  by (simp add: wp_def returnE_def)

lemma wp_raise [simp]: "wp (raiseE e) Q E w = E e w"
  by (simp add: wp_def raiseE_def)

lemma wp_lift [simp]: "wp (liftE r) Q E w = (case r of Inl e \<Rightarrow> E e w | Inr x \<Rightarrow> Q x w)"
  by (simp add: wp_def liftE_def split: sum.splits)

lemma wp_bind [simp]: "wp (bindE m f) Q E w = wp m (\<lambda>x. wp (f x) Q E) E w"
  by (simp add: wp_def bindE_def split: prod.splits sum.splits)

lemma wp_try [simp]:
  "wp (tryE c m) Q E w = wp m (\<lambda>x. Q (Inr x)) (\<lambda>e w'. if c e then Q (Inl e) w' else E e w') w"
  by (simp add: wp_def tryE_def split: prod.splits sum.splits)

lemma wp_finally [simp]:
  "wp (finallyE m c) Q E w = wp m (\<lambda>x w'. Q x (c w')) (\<lambda>e w'. E e (if e = StillWaiting then w' else c w')) w"
  by (simp add: wp_def finallyE_def split: prod.splits sum.splits)

lemma wp_mono:
  assumes "wp m Q E w" and "\<And>x w'. Q x w' \<Longrightarrow> Q' x w'" and "\<And>e w'. E e w' \<Longrightarrow> E' e w'"
  shows "wp m Q' E' w"
  using assms by (auto simp: wp_def split: prod.splits sum.splits)

lemma wpD: "wp m Q E w \<Longrightarrow> m w = (Inr x, w') \<Longrightarrow> Q x w'"
  by (simp add: wp_def)

lemma wpE: "wp m Q E w \<Longrightarrow> m w = (Inl e, w') \<Longrightarrow> E e w'"
  by (simp add: wp_def)

text \<open>
  \<open>preserves P m\<close>: the computation keeps \<open>P\<close>, whether it returns or raises. The rules for
  the combinators are the collection \<open>pres\<close>, to which each component adds its operations.
\<close>

named_theorems pres "computations that keep an invariant"

definition preserves :: "('w \<Rightarrow> bool) \<Rightarrow> ('w, 'a) comp \<Rightarrow> bool" where
  "preserves P m \<longleftrightarrow> (\<forall>w. P w \<longrightarrow> P (snd (m w)))"

lemma preservesI: "(\<And>w. P w \<Longrightarrow> P (snd (m w))) \<Longrightarrow> preserves P m"
  by (simp add: preserves_def)

lemma preservesD: "preserves P m \<Longrightarrow> P w \<Longrightarrow> P (snd (m w))"
  by (simp add: preserves_def)

lemma preserves_return [pres, intro!]: "preserves P (returnE x)"
  by (simp add: preserves_def returnE_def)

lemma preserves_raise [pres, intro!]: "preserves P (raiseE e)"
  by (simp add: preserves_def raiseE_def)

lemma preserves_lift [pres, intro!]: "preserves P (liftE r)"
  by (simp add: preserves_def liftE_def)

lemma preserves_bind [pres]:
  "preserves P m \<Longrightarrow> (\<And>x. preserves P (f x)) \<Longrightarrow> preserves P (bindE m f)"
  by (fastforce simp: preserves_def bindE_def split: prod.splits sum.splits)

lemma preserves_finally [pres]:
  "preserves P m \<Longrightarrow> (\<And>w. P w \<Longrightarrow> P (c w)) \<Longrightarrow> preserves P (finallyE m c)"
  by (fastforce simp: preserves_def finallyE_def split: prod.splits sum.splits)

lemma preserves_try [pres]: "preserves P m \<Longrightarrow> preserves P (tryE c m)"
  by (fastforce simp: preserves_def tryE_def split: prod.splits sum.splits)

text \<open>\<open>raises C m\<close>: whatever exception the computation raises satisfies \<open>C\<close>.\<close>

named_theorems raising "the exceptions of computations"

definition raises :: "(exn \<Rightarrow> bool) \<Rightarrow> ('w, 'a) comp \<Rightarrow> bool" where
  "raises C m \<longleftrightarrow> (\<forall>w. wp m (\<lambda>_ _. True) (\<lambda>e _. C e) w)"

lemma raises_return [raising]: "raises C (returnE x)"
  by (simp add: raises_def)

lemma raises_raise [raising]: "C e \<Longrightarrow> raises C (raiseE e)"
  by (simp add: raises_def)

lemma raises_lift [raising]: "(\<And>e. r = Inl e \<Longrightarrow> C e) \<Longrightarrow> raises C (liftE r)"
  by (simp add: raises_def split: sum.split)

lemma raises_bind [raising]: "raises C m \<Longrightarrow> (\<And>x. raises C (f x)) \<Longrightarrow> raises C (bindE m f)"
  by (auto simp: raises_def intro: wp_mono)

lemma raises_try [raising]: "raises C m \<Longrightarrow> raises C (tryE c m)"
  by (auto simp: raises_def intro: wp_mono)

lemma raises_finally [raising]: "raises C m \<Longrightarrow> raises C (finallyE m c)"
  by (auto simp: raises_def intro: wp_mono)

text \<open>What a \<^verbatim>\<open>try\<close> catches is again one of the exceptions of its body.\<close>

lemma raises_bind_try:
  assumes "raises C m" and "\<And>e. C e \<Longrightarrow> raises C (f (Inl e))" and "\<And>x. raises C (f (Inr x))"
  shows "raises C (bindE (tryE c m) f)"
  using assms unfolding raises_def wp_bind wp_try by (auto intro: wp_mono)

lemma raisesD: "raises C m \<Longrightarrow> m w = (Inl e, w') \<Longrightarrow> C e"
  by (auto simp: raises_def dest: wpE)

lemma preserves_wp: "preserves P m \<longleftrightarrow> (\<forall>w. P w \<longrightarrow> wp m (\<lambda>_. P) (\<lambda>_. P) w)"
  by (auto simp: preserves_def wp_def split: prod.splits sum.splits)
     (metis snd_conv sum.exhaust surj_pair)

subsection \<open>Tables\<close>

definition select_one :: "('a \<Rightarrow> bool) \<Rightarrow> 'a list \<Rightarrow> 'a option" where
  "select_one P xs = List.find P xs"

definition select_last :: "('a \<Rightarrow> bool) \<Rightarrow> 'a list \<Rightarrow> 'a option" where
  "select_last P xs = List.find P (rev xs)"

definition update_where :: "('a \<Rightarrow> bool) \<Rightarrow> ('a \<Rightarrow> 'a) \<Rightarrow> 'a list \<Rightarrow> 'a list" where
  "update_where P f xs = map (\<lambda>x. if P x then f x else x) xs"

text \<open>A primary or unique key: no two rows share it.\<close>

abbreviation keyed :: "('a \<Rightarrow> 'k) \<Rightarrow> 'a list \<Rightarrow> bool" where
  "keyed k xs \<equiv> distinct (map k xs)"

lemma select_one_Nil [simp]: "select_one P [] = None"
  by (simp add: select_one_def)

lemma select_one_Cons [simp]: "select_one P (x # xs) = (if P x then Some x else select_one P xs)"
  by (simp add: select_one_def)

lemma select_one_SomeD: "select_one P xs = Some x \<Longrightarrow> x \<in> set xs \<and> P x"
  by (induction xs) (auto split: if_splits)

lemma select_one_None_iff: "select_one P xs = None \<longleftrightarrow> (\<forall>x \<in> set xs. \<not> P x)"
  by (induction xs) auto

lemma select_one_append:
  "select_one P (xs @ ys) = (case select_one P xs of None \<Rightarrow> select_one P ys | Some x \<Rightarrow> Some x)"
  by (induction xs) auto

lemma select_one_key:
  assumes "keyed k xs" and "x \<in> set xs" and "P x" and "\<And>y. y \<in> set xs \<Longrightarrow> P y \<Longrightarrow> k y = k x"
  shows "select_one P xs = Some x"
  using assms
proof (induction xs)
  case Nil
  then show ?case by simp
next
  case (Cons a xs)
  show ?case
  proof (cases "P a")
    case True
    with Cons.prems(4) have "k a = k x" by simp
    with Cons.prems(1,2) have "a = x" by auto
    with True show ?thesis by simp
  next
    case False
    with Cons.prems(2,3) have "x \<in> set xs" by auto
    have "select_one P xs = Some x"
    proof (rule Cons.IH)
      show "keyed k xs" using Cons.prems(1) by simp
      show "\<And>y. y \<in> set xs \<Longrightarrow> P y \<Longrightarrow> k y = k x"
        by (rule Cons.prems(4)) simp_all
    qed fact+
    with False show ?thesis by simp
  qed
qed

lemma filter_only: "distinct xs \<Longrightarrow> x \<in> set xs \<Longrightarrow> filter (\<lambda>y. y = x) xs = [x]"
proof (induction xs)
  case (Cons y ys)
  then show ?case by (cases "y = x") (auto simp: filter_empty_conv)
qed simp

lemma select_last_SomeD: "select_last P xs = Some x \<Longrightarrow> x \<in> set xs \<and> P x"
  using select_one_SomeD [of P "rev xs" x] by (simp add: select_last_def select_one_def)

lemma select_last_None_iff: "select_last P xs = None \<longleftrightarrow> (\<forall>x \<in> set xs. \<not> P x)"
  using select_one_None_iff [of P "rev xs"] by (simp add: select_last_def select_one_def)

lemma select_last_Nil [simp]: "select_last P [] = None"
  by (simp add: select_last_def)

lemma select_last_snoc [simp]:
  "select_last P (xs @ [x]) = (if P x then Some x else select_last P xs)"
  by (simp add: select_last_def)

lemma update_where_Nil [simp]: "update_where P f [] = []"
  by (simp add: update_where_def)

lemma update_where_Cons [simp]:
  "update_where P f (x # xs) = (if P x then f x else x) # update_where P f xs"
  by (simp add: update_where_def)

lemma update_where_append [simp]:
  "update_where P f (xs @ ys) = update_where P f xs @ update_where P f ys"
  by (simp add: update_where_def)

lemma length_update_where [simp]: "length (update_where P f xs) = length xs"
  by (simp add: update_where_def)

lemma map_update_where:
  "(\<And>x. P x \<Longrightarrow> k (f x) = k x) \<Longrightarrow> map k (update_where P f xs) = map k xs"
  by (induction xs) auto

lemma set_update_where: "set (update_where P f xs) = (\<lambda>x. if P x then f x else x) ` set xs"
  by (simp add: update_where_def)

lemma update_where_idle: "(\<And>x. x \<in> set xs \<Longrightarrow> \<not> P x) \<Longrightarrow> update_where P f xs = xs"
  by (induction xs) auto

lemma select_one_update_other:
  assumes "\<And>x. x \<in> set xs \<Longrightarrow> P x \<Longrightarrow> \<not> Q x \<and> \<not> Q (f x)"
  shows "select_one Q (update_where P f xs) = select_one Q xs"
  using assms by (induction xs) auto

text \<open>An \<open>UPDATE ... WHERE\<close> on the row a key determines, read back by that key.\<close>

lemma select_one_update_same:
  assumes "select_one Q xs = Some x" and "P x"
    and "\<And>y. y \<in> set xs \<Longrightarrow> Q (if P y then f y else y) = Q y"
  shows "select_one Q (update_where P f xs) = Some (f x)"
  using assms by (induction xs) (auto split: if_splits)

lemma filter_update_other:
  assumes "\<And>x. x \<in> set xs \<Longrightarrow> P x \<Longrightarrow> \<not> Q x \<and> \<not> Q (f x)"
  shows "filter Q (update_where P f xs) = filter Q xs"
  using assms by (induction xs) auto

subsection \<open>Invariants of operation sequences\<close>

text \<open>
  The contract every stateful component has: an invariant that each of its operations keeps.
  Whatever the operations and their order, it then holds at the end and at every point on the
  way, which is what a set of concurrent callers whose transactions serialise can rely on.
\<close>

locale op_invariant =
  fixes step :: "'op \<Rightarrow> 's \<Rightarrow> 's"
    and inv :: "'s \<Rightarrow> bool"
  assumes step_inv: "inv s \<Longrightarrow> inv (step op s)"
begin

lemma run_inv: "inv s \<Longrightarrow> inv (fold step ops s)"
  by (induction ops arbitrary: s) (auto intro: step_inv)

lemma prefix_inv: "inv s \<Longrightarrow> inv (fold step (take n ops) s)"
  by (rule run_inv)

end

text \<open>
  An ordering every operation moves up: facts that, once true, stay true.
\<close>

locale op_progress = op_invariant step inv
  for step :: "'op \<Rightarrow> 's \<Rightarrow> 's" and inv :: "'s \<Rightarrow> bool" +
  fixes before :: "'s \<Rightarrow> 's \<Rightarrow> bool"
  assumes before_refl: "before s s"
    and before_trans: "before s t \<Longrightarrow> before t u \<Longrightarrow> before s u"
    and step_before: "inv s \<Longrightarrow> before s (step op s)"
begin

lemma run_before: "inv s \<Longrightarrow> before s (fold step ops s)"
proof (induction ops arbitrary: s)
  case Nil
  show ?case by (simp add: before_refl)
next
  case (Cons op ops)
  have "before (step op s) (fold step ops (step op s))"
    by (rule Cons.IH) (rule step_inv [OF Cons.prems])
  with step_before [OF Cons.prems] show ?case
    by (auto intro: before_trans)
qed

end

end
