(* ===== verification/StateMachine.thy ===== *)
theory StateMachine
  imports Prelude
begin

section \<open>The frozen transition table (\<^verbatim>\<open>state_machine.py\<close>)\<close>

text \<open>
  \<open>RunState\<close>, \<open>TRANSITIONS\<close>, \<open>DECISION_STATES\<close> and \<open>can_transition\<close> as the
  source has them, and what the table guarantees about every path through it: it is acyclic and
  no recommendation is approved, edited or rejected without passing through the human gate.
\<close>

datatype RunState =
    CREATED | VALIDATING | GATHERING_EVIDENCE | QUALITY_CHECKS | REASONING
  | DRAFTING_RECOMMENDATION | AWAITING_HUMAN | APPROVED | EDITED_AND_APPROVED
  | REJECTED | ESCALATED | CLOSED | FAILED_AUTHZ

fun state_value :: "RunState \<Rightarrow> string" where
  "state_value CREATED = ''created''"
| "state_value VALIDATING = ''validating''"
| "state_value GATHERING_EVIDENCE = ''gathering_evidence''"
| "state_value QUALITY_CHECKS = ''quality_checks''"
| "state_value REASONING = ''reasoning''"
| "state_value DRAFTING_RECOMMENDATION = ''drafting_recommendation''"
| "state_value AWAITING_HUMAN = ''awaiting_human''"
| "state_value APPROVED = ''approved''"
| "state_value EDITED_AND_APPROVED = ''edited_and_approved''"
| "state_value REJECTED = ''rejected''"
| "state_value ESCALATED = ''escalated''"
| "state_value CLOSED = ''closed''"
| "state_value FAILED_AUTHZ = ''failed_authz''"

fun TRANSITIONS :: "RunState \<Rightarrow> RunState set" where
  "TRANSITIONS CREATED = {VALIDATING, FAILED_AUTHZ}"
| "TRANSITIONS VALIDATING = {GATHERING_EVIDENCE, ESCALATED, FAILED_AUTHZ}"
| "TRANSITIONS GATHERING_EVIDENCE = {QUALITY_CHECKS, ESCALATED}"
| "TRANSITIONS QUALITY_CHECKS = {REASONING, ESCALATED}"
| "TRANSITIONS REASONING = {DRAFTING_RECOMMENDATION, ESCALATED}"
| "TRANSITIONS DRAFTING_RECOMMENDATION = {AWAITING_HUMAN, ESCALATED}"
| "TRANSITIONS AWAITING_HUMAN = {APPROVED, EDITED_AND_APPROVED, REJECTED, ESCALATED}"
| "TRANSITIONS APPROVED = {CLOSED}"
| "TRANSITIONS EDITED_AND_APPROVED = {CLOSED}"
| "TRANSITIONS REJECTED = {CLOSED}"
| "TRANSITIONS ESCALATED = {CLOSED}"
| "TRANSITIONS CLOSED = {}"
| "TRANSITIONS FAILED_AUTHZ = {}"

definition DECISION_STATES :: "RunState set" where
  "DECISION_STATES = {APPROVED, EDITED_AND_APPROVED, REJECTED, ESCALATED}"

definition can_transition :: "RunState \<Rightarrow> RunState \<Rightarrow> bool" where
  "can_transition current target \<longleftrightarrow> target \<in> TRANSITIONS current"

subsection \<open>Paths\<close>

text \<open>How many transitions a run can still make: every entry of the table lowers it.\<close>

fun remaining :: "RunState \<Rightarrow> nat" where
  "remaining CREATED = 8"
| "remaining VALIDATING = 7"
| "remaining GATHERING_EVIDENCE = 6"
| "remaining QUALITY_CHECKS = 5"
| "remaining REASONING = 4"
| "remaining DRAFTING_RECOMMENDATION = 3"
| "remaining AWAITING_HUMAN = 2"
| "remaining APPROVED = 1"
| "remaining EDITED_AND_APPROVED = 1"
| "remaining REJECTED = 1"
| "remaining ESCALATED = 1"
| "remaining CLOSED = 0"
| "remaining FAILED_AUTHZ = 0"

inductive path :: "RunState \<Rightarrow> RunState list \<Rightarrow> RunState \<Rightarrow> bool" where
  path_here: "path s [] s"
| path_step: "can_transition s t \<Longrightarrow> path t ts u \<Longrightarrow> path s (t # ts) u"

inductive_cases path_NilE: "path s [] u"
inductive_cases path_ConsE: "path s (t # ts) u"
inductive_simps path_Nil_iff [simp]: "path s [] u"
inductive_simps path_Cons_iff [simp]: "path s (t # ts) u"

lemma remaining_decreases: "can_transition s t \<Longrightarrow> remaining t < remaining s"
  by (cases s) (auto simp: can_transition_def)

lemma can_transition_irrefl [simp]: "\<not> can_transition s s"
  using remaining_decreases by blast

lemma remaining_0_iff: "remaining s = 0 \<longleftrightarrow> TRANSITIONS s = {}"
  by (cases s) auto

lemma path_length: "path s ts u \<Longrightarrow> length ts + remaining u \<le> remaining s"
  by (induction rule: path.induct) (auto dest: remaining_decreases)

lemma path_append: "path s ts t \<Longrightarrow> path t us u \<Longrightarrow> path s (ts @ us) u"
  by (induction rule: path.induct) auto

lemma before_gate:
  assumes "path s ts u" and "2 < remaining s" and "u \<in> {APPROVED, EDITED_AND_APPROVED, REJECTED}"
  shows "AWAITING_HUMAN \<in> set ts"
  using assms
proof (induction rule: path.induct)
  case (path_here s)
  then show ?case by auto
next
  case (path_step s t ts u)
  show ?case
  proof (cases "t = AWAITING_HUMAN")
    case True
    then show ?thesis by simp
  next
    case False
    with path_step have "2 < remaining t \<or> t \<in> {ESCALATED, FAILED_AUTHZ}"
      by (cases s) (auto simp: can_transition_def)
    then show ?thesis
    proof
      assume "2 < remaining t"
      with path_step show ?thesis by simp
    next
      assume dead: "t \<in> {ESCALATED, FAILED_AUTHZ}"
      from path_step.hyps(2) have "length ts + remaining u \<le> remaining t"
        by (rule path_length)
      with dead path_step.prems have "ts = []" by (auto simp: Suc_le_eq)
      with path_step.hyps(2) path_step.prems dead show ?thesis by auto
    qed
  qed
qed

end
