(* ===== verification/PyFloat.thy ===== *)
theory PyFloat
  imports Complex_Main Prelude
begin

section \<open>Python floats and decimal text\<close>

text \<open>
  What the code uses of Python's \<^verbatim>\<open>float\<close>: a finite float is modelled by the
  rational number it is exactly; \<open>fl\<close> rounds a rational to the nearest binary64 value, ties
  to even (what \<^verbatim>\<open>float(Decimal)\<close> and true division of integers do), and
  \<open>float_repr\<close> is the shortest decimal text that reads back as the same float, in the layout
  of \<^verbatim>\<open>float.__repr__\<close>, which \<^verbatim>\<open>json.dumps\<close> uses. Overflow to infinity
  and NaN are outside the model: every number the code handles is a count, a quantity or a
  duration. Decimal integers are written by \<open>int_text\<close>.
\<close>

subsection \<open>Integers as text\<close>

definition digit_char :: "nat \<Rightarrow> char" where
  "digit_char d = char_of (48 + d)"

fun nat_text :: "nat \<Rightarrow> string" where
  "nat_text n = (if n < 10 then [digit_char n] else nat_text (n div 10) @ [digit_char (n mod 10)])"

declare nat_text.simps [simp del]

definition int_text :: "int \<Rightarrow> string" where
  "int_text i = (if i < 0 then ''-'' @ nat_text (nat (- i)) else nat_text (nat i))"

text \<open>Zero-padded to a width, as the date fields are.\<close>

definition padded :: "nat \<Rightarrow> nat \<Rightarrow> string" where
  "padded width n = (let t = nat_text n in replicate (width - length t) (CHR ''0'') @ t)"

subsection \<open>Rounding to binary64\<close>

definition pow_int :: "rat \<Rightarrow> int \<Rightarrow> rat" where
  "pow_int b i = (if 0 \<le> i then b ^ nat i else 1 / b ^ nat (- i))"

fun num_digits :: "nat \<Rightarrow> nat \<Rightarrow> nat" where
  "num_digits base n = (if n = 0 \<or> base < 2 then 0 else Suc (num_digits base (n div base)))"

declare num_digits.simps [simp del]

text \<open>The exponent \<open>e\<close> with \<open>base ^ e \<le> x < base ^ (e + 1)\<close>, for \<open>x > 0\<close>.\<close>

definition floor_log :: "nat \<Rightarrow> rat \<Rightarrow> int" where
  "floor_log base x =
     (let (p, q) = quotient_of x;
          e = int (num_digits base (nat p)) - int (num_digits base (nat q))
      in if pow_int (of_nat base) e \<le> x then e else e - 1)"

definition round_half_even :: "rat \<Rightarrow> int" where
  "round_half_even y =
     (let f = \<lfloor>y\<rfloor>; d = y - of_int f
      in if d < 1 / 2 then f else if 1 / 2 < d then f + 1 else if even f then f else f + 1)"

definition fl_pos :: "rat \<Rightarrow> rat" where
  "fl_pos x =
     (let u = max (floor_log 2 x - 52) (- 1074)
      in of_int (round_half_even (x / pow_int 2 u)) * pow_int 2 u)"

definition fl :: "rat \<Rightarrow> rat" where
  "fl x = (if x = 0 then 0 else if x < 0 then - fl_pos (- x) else fl_pos x)"

text \<open>\<^verbatim>\<open>float(i)\<close> of an integer raises when the nearest binary64 value would be \<open>2^1024\<close> or more.\<close>

definition out_of_float :: "rat \<Rightarrow> bool" where
  "out_of_float x \<longleftrightarrow> 2 ^ 1024 \<le> \<bar>x\<bar>"

definition float_of_int :: "int \<Rightarrow> rat result" where
  "float_of_int i =
     (let x = fl (of_int i)
      in if out_of_float x then Inl (OverflowError ''int too large to convert to float'') else Inr x)"

subsection \<open>The shortest text\<close>

text \<open>The candidates with \<open>n\<close> digits: the decimals just below and just above.\<close>

definition decimal_candidate :: "rat \<Rightarrow> nat \<Rightarrow> (nat \<times> int) option" where
  "decimal_candidate x n =
     (let s = floor_log 10 x - int n + 1;
          y = x / pow_int 10 s;
          lo = \<lfloor>y\<rfloor>;
          ok_lo = (fl (of_int lo * pow_int 10 s) = x);
          ok_hi = (fl (of_int (lo + 1) * pow_int 10 s) = x)
      in if ok_lo \<and> (\<not> ok_hi \<or> y - of_int lo \<le> of_int (lo + 1) - y) then Some (nat lo, s)
         else if ok_hi then Some (nat (lo + 1), s)
         else None)"

fun shortest_from :: "rat \<Rightarrow> nat list \<Rightarrow> nat \<times> int" where
  "shortest_from x [] = (0, 0)"
| "shortest_from x (n # ns) =
     (case decimal_candidate x n of Some c \<Rightarrow> c | None \<Rightarrow> shortest_from x ns)"

fun strip_zeros :: "nat \<times> int \<Rightarrow> nat \<times> int" where
  "strip_zeros (c, s) = (if c \<noteq> 0 \<and> c mod 10 = 0 then strip_zeros (c div 10, s + 1) else (c, s))"

declare strip_zeros.simps [simp del]

definition shortest :: "rat \<Rightarrow> nat \<times> int" where
  "shortest x = strip_zeros (shortest_from x [1..<18])"

definition layout :: "string \<Rightarrow> int \<Rightarrow> string" where
  "layout ds point =
     (let n = int (length ds)
      in if point \<le> - 4 \<or> 16 < point then
           (let e = point - 1
            in take 1 ds @ (if n = 1 then [] else ''.'' @ drop 1 ds)
               @ (if e < 0 then ''e-'' else ''e+'') @ padded 2 (nat \<bar>e\<bar>))
         else if point \<le> 0 then ''0.'' @ replicate (nat (- point)) (CHR ''0'') @ ds
         else if n \<le> point then ds @ replicate (nat (point - n)) (CHR ''0'') @ ''.0''
         else take (nat point) ds @ ''.'' @ drop (nat point) ds)"

definition float_repr_pos :: "rat \<Rightarrow> string" where
  "float_repr_pos x =
     (let (c, s) = shortest x; ds = nat_text c in layout ds (int (length ds) + s))"

definition float_repr :: "rat \<Rightarrow> string" where
  "float_repr x =
     (if x = 0 then ''0.0'' else if x < 0 then ''-'' @ float_repr_pos (- x) else float_repr_pos x)"

end
