(* ===== verification/Sha256.thy ===== *)
theory Sha256
  imports Prelude "HOL-Library.Word"
begin

section \<open>SHA-256 (\<^verbatim>\<open>hashlib.sha256\<close>)\<close>

text \<open>
  The digest the code takes from Python's standard library, after FIPS 180-4, on lists of bytes
  and with 32-bit words that wrap. \<open>sha256_hex\<close> is \<^verbatim>\<open>hexdigest()\<close>. Nothing in the
  development assumes that digests do not collide.
\<close>

unbundle bit_operations_syntax

type_synonym byte = "8 word"
type_synonym w32 = "32 word"

text \<open>The constants of FIPS 180-4, written in decimal.\<close>

definition round_constants :: "w32 list" where
  "round_constants =
    [1116352408, 1899447441, 3049323471, 3921009573, 961987163, 1508970993, 2453635748, 2870763221,
     3624381080, 310598401, 607225278, 1426881987, 1925078388, 2162078206, 2614888103, 3248222580,
     3835390401, 4022224774, 264347078, 604807628, 770255983, 1249150122, 1555081692, 1996064986,
     2554220882, 2821834349, 2952996808, 3210313671, 3336571891, 3584528711, 113926993, 338241895,
     666307205, 773529912, 1294757372, 1396182291, 1695183700, 1986661051, 2177026350, 2456956037,
     2730485921, 2820302411, 3259730800, 3345764771, 3516065817, 3600352804, 4094571909, 275423344,
     430227734, 506948616, 659060556, 883997877, 958139571, 1322822218, 1537002063, 1747873779,
     1955562222, 2024104815, 2227730452, 2361852424, 2428436474, 2756734187, 3204031479, 3329325298]"

type_synonym chain = "w32 \<times> w32 \<times> w32 \<times> w32 \<times> w32 \<times> w32 \<times> w32 \<times> w32"

definition initial_chain :: chain where
  "initial_chain = (1779033703, 3144134277, 1013904242, 2773480762,
                    1359893119, 2600822924, 528734635, 1541459225)"

definition rotr :: "nat \<Rightarrow> w32 \<Rightarrow> w32" where
  "rotr n w = word_rotr n w"

definition big_sigma0 :: "w32 \<Rightarrow> w32" where
  "big_sigma0 x = rotr 2 x XOR rotr 13 x XOR rotr 22 x"

definition big_sigma1 :: "w32 \<Rightarrow> w32" where
  "big_sigma1 x = rotr 6 x XOR rotr 11 x XOR rotr 25 x"

definition small_sigma0 :: "w32 \<Rightarrow> w32" where
  "small_sigma0 x = rotr 7 x XOR rotr 18 x XOR drop_bit 3 x"

definition small_sigma1 :: "w32 \<Rightarrow> w32" where
  "small_sigma1 x = rotr 17 x XOR rotr 19 x XOR drop_bit 10 x"

definition sha_choose :: "w32 \<Rightarrow> w32 \<Rightarrow> w32 \<Rightarrow> w32" where
  "sha_choose x y z = (x AND y) XOR (NOT x AND z)"

definition sha_majority :: "w32 \<Rightarrow> w32 \<Rightarrow> w32 \<Rightarrow> w32" where
  "sha_majority x y z = (x AND y) XOR (x AND z) XOR (y AND z)"

text \<open>The message schedule, kept newest word first.\<close>

fun extend_schedule :: "nat \<Rightarrow> w32 list \<Rightarrow> w32 list" where
  "extend_schedule 0 ws = ws"
| "extend_schedule (Suc n) ws =
     extend_schedule n
       ((small_sigma1 (ws ! 1) + ws ! 6 + small_sigma0 (ws ! 14) + ws ! 15) # ws)"

definition schedule :: "w32 list \<Rightarrow> w32 list" where
  "schedule block = rev (extend_schedule 48 (rev block))"

fun sha_round :: "chain \<Rightarrow> w32 \<times> w32 \<Rightarrow> chain" where
  "sha_round (a, b, c, d, e, f, g, h) (k, w) =
     (let t1 = h + big_sigma1 e + sha_choose e f g + k + w;
          t2 = big_sigma0 a + sha_majority a b c
      in (t1 + t2, a, b, c, d + t1, e, f, g))"

fun add_chain :: "chain \<Rightarrow> chain \<Rightarrow> chain" where
  "add_chain (a, b, c, d, e, f, g, h) (a', b', c', d', e', f', g', h') =
     (a + a', b + b', c + c', d + d', e + e', f + f', g + g', h + h')"

definition compress :: "chain \<Rightarrow> w32 list \<Rightarrow> chain" where
  "compress st block = add_chain st (foldl sha_round st (zip round_constants (schedule block)))"

subsection \<open>Bytes, padding, blocks\<close>

fun be_bytes :: "nat \<Rightarrow> nat \<Rightarrow> byte list" where
  "be_bytes 0 n = []"
| "be_bytes (Suc k) n = be_bytes k (n div 256) @ [word_of_nat (n mod 256)]"

definition pad_message :: "byte list \<Rightarrow> byte list" where
  "pad_message msg =
     msg @ [0x80] @ replicate ((119 - length msg mod 64) mod 64) 0 @ be_bytes 8 (8 * length msg)"

fun words_of_bytes :: "byte list \<Rightarrow> w32 list" where
  "words_of_bytes (a # b # c # d # bs) =
     word_of_nat (((unat a * 256 + unat b) * 256 + unat c) * 256 + unat d) # words_of_bytes bs"
| "words_of_bytes _ = []"

fun blocks :: "w32 list \<Rightarrow> w32 list list" where
  "blocks ws = (if ws = [] then [] else take 16 ws # blocks (drop 16 ws))"

declare blocks.simps [simp del]

fun chain_words :: "chain \<Rightarrow> w32 list" where
  "chain_words (a, b, c, d, e, f, g, h) = [a, b, c, d, e, f, g, h]"

definition sha256_words :: "byte list \<Rightarrow> w32 list" where
  "sha256_words msg =
     chain_words (foldl compress initial_chain (blocks (words_of_bytes (pad_message msg))))"

subsection \<open>Hexadecimal\<close>

definition hex_char :: "nat \<Rightarrow> char" where
  "hex_char d = ''0123456789abcdef'' ! (d mod 16)"

fun hex_digits :: "nat \<Rightarrow> nat \<Rightarrow> string" where
  "hex_digits 0 n = []"
| "hex_digits (Suc k) n = hex_digits k (n div 16) @ [hex_char n]"

definition sha256_hex :: "byte list \<Rightarrow> string" where
  "sha256_hex msg = concat (map (\<lambda>w. hex_digits 8 (unat w)) (sha256_words msg))"

text \<open>The pattern \<^verbatim>\<open>^[0-9a-f]{64}$\<close> of the contracts and of the schema.\<close>

definition is_hex_char :: "char \<Rightarrow> bool" where
  "is_hex_char c \<longleftrightarrow> c \<in> set ''0123456789abcdef''"

definition is_hex64 :: "string \<Rightarrow> bool" where
  "is_hex64 s \<longleftrightarrow> length s = 64 \<and> list_all is_hex_char s"

lemma is_hex_char_hex_char [simp]: "is_hex_char (hex_char n)"
proof -
  have "n mod 16 < length ''0123456789abcdef''" by simp
  then have "''0123456789abcdef'' ! (n mod 16) \<in> set ''0123456789abcdef''"
    by (rule nth_mem)
  then show ?thesis by (simp only: is_hex_char_def hex_char_def)
qed

lemma length_hex_digits [simp]: "length (hex_digits k n) = k"
  by (induction k n rule: hex_digits.induct) auto

lemma hex_digits_hex [simp]: "list_all is_hex_char (hex_digits k n)"
  by (induction k n rule: hex_digits.induct) auto

lemma length_chain_words [simp]: "length (chain_words c) = 8"
  by (induction c rule: chain_words.induct) simp

lemma concat_hex_words:
  "length (concat (map (\<lambda>w. hex_digits 8 (unat (w :: w32))) ws)) = 8 * length ws"
  "list_all is_hex_char (concat (map (\<lambda>w. hex_digits 8 (unat (w :: w32))) ws))"
  by (induction ws) auto

lemma sha256_hex_shape: "is_hex64 (sha256_hex msg)"
  by (simp add: is_hex64_def sha256_hex_def sha256_words_def concat_hex_words)

text \<open>
  Padding fills whole blocks: after it the message is a multiple of 64 bytes long.
\<close>

lemma length_be_bytes [simp]: "length (be_bytes k n) = k"
  by (induction k n rule: be_bytes.induct) auto

lemma length_pad_message: "length (pad_message msg) mod 64 = 0"
proof -
  define r where "r = length msg mod 64"
  have r: "r < 64" by (simp add: r_def)
  have fill: "(119 - r) mod 64 = (if r \<le> 55 then 55 - r else 119 - r)"
  proof (cases "r \<le> 55")
    case True
    then have "119 - r = (55 - r) + 64" by simp
    with True show ?thesis by (simp only: mod_add_self2) simp
  qed (use r in simp)
  have len: "length (pad_message msg) = length msg + (9 + (119 - r) mod 64)"
    by (simp add: pad_message_def r_def)
  have "length (pad_message msg) mod 64 = (r + (9 + (119 - r) mod 64)) mod 64"
    unfolding len by (simp add: r_def mod_add_left_eq)
  with fill r show ?thesis by (auto split: if_splits)
qed

end
