(* ===== verification/Provenance.thy ===== *)
theory Provenance
  imports PyFloat Sha256 "HOL-Library.Char_ord" "HOL-Library.List_Lexorder" "HOL-Library.Multiset"
begin

section \<open>Canonical JSON and hashing (\<^verbatim>\<open>evidence/provenance.py\<close>)\<close>

text \<open>
  Python strings are lists of characters below code point 256. A \<open>datetime\<close> is an instant in
  microseconds since the Unix epoch with its UTC offset in minutes; a naive one has no offset and
  its instant is its wall clock read as UTC. JSON documents are the datatype \<open>json\<close>; a leaf that
  is the ISO-8601 text of a datetime is kept as \<open>JTime\<close>, and a float leaf as the rational it is.
  \<open>canonical_json\<close> is \<^verbatim>\<open>json.dumps\<close> with sorted keys, the compact separators and
  \<^verbatim>\<open>ensure_ascii\<close>, and \<open>canonical_hash\<close> the SHA-256 of its UTF-8 bytes.
\<close>

subsection \<open>Datetimes\<close>

datatype datetime = Datetime (instant: int) (utc_offset: "int option")

definition tz_naive :: "datetime \<Rightarrow> bool" where
  "tz_naive d \<longleftrightarrow> utc_offset d = None"

text \<open>A \<^verbatim>\<open>timestamptz\<close> column read back: aware, in the session's UTC.\<close>

definition utc :: "int \<Rightarrow> datetime" where
  "utc t = Datetime t (Some 0)"

definition microseconds :: int where "microseconds = 1000000"
definition hours :: "int \<Rightarrow> int" where "hours n = n * 3600 * microseconds"

text \<open>The civil date of a day number since 1970-01-01 (proleptic Gregorian calendar).\<close>

definition civil :: "int \<Rightarrow> int \<times> int \<times> int" where
  "civil days =
     (let z = days + 719468;
          era = z div 146097;
          doe = z mod 146097;
          yoe = (doe - doe div 1460 + doe div 36524 - doe div 146096) div 365;
          doy = doe - (365 * yoe + yoe div 4 - yoe div 100);
          mp = (5 * doy + 2) div 153;
          d = doy - (153 * mp + 2) div 5 + 1;
          m = (if mp < 10 then mp + 3 else mp - 9);
          y = yoe + era * 400
      in (if m \<le> 2 then y + 1 else y, m, d))"

definition wall_text :: "int \<Rightarrow> string" where
  "wall_text t =
     (let day = t div (86400 * microseconds); us = t mod (86400 * microseconds);
          secs = us div microseconds; frac = us mod microseconds;
          (y, m, d) = civil day
      in padded 4 (nat y) @ ''-'' @ padded 2 (nat m) @ ''-'' @ padded 2 (nat d) @ ''T''
         @ padded 2 (nat (secs div 3600)) @ '':'' @ padded 2 (nat (secs div 60 mod 60)) @ '':''
         @ padded 2 (nat (secs mod 60))
         @ (if frac = 0 then [] else ''.'' @ padded 6 (nat frac)))"

definition offset_text :: "int \<Rightarrow> string" where
  "offset_text off =
     (if off < 0 then ''-'' else ''+'') @ padded 2 (nat (\<bar>off\<bar> div 60)) @ '':''
       @ padded 2 (nat (\<bar>off\<bar> mod 60))"

text \<open>\<^verbatim>\<open>datetime.isoformat()\<close>, and the text Pydantic and \<open>_json_default\<close> write.\<close>

fun isoformat :: "datetime \<Rightarrow> string" where
  "isoformat (Datetime t None) = wall_text t"
| "isoformat (Datetime t (Some off)) = wall_text (t + off * 60 * microseconds) @ offset_text off"

fun json_time_text :: "datetime \<Rightarrow> string" where
  "json_time_text (Datetime t (Some off)) =
     (if off = 0 then wall_text t @ ''Z'' else isoformat (Datetime t (Some off)))"
| "json_time_text (Datetime t None) = wall_text t"

subsection \<open>JSON documents\<close>

text \<open>
  Texts are lists of HOL's 8-bit characters; the one constant of the code with a character
  outside them (the em dash of the shadow report's label) is \<open>JUni\<close>, a list of code points;
  one beyond the basic multilingual plane is written as a surrogate pair.
\<close>

datatype json =
    JNull
  | JBool bool
  | JInt int
  | JFloat rat
  | JStr string
  | JUni "nat list"
  | JTime datetime
  | JList "json list"
  | JObj "(string \<times> json) list"

fun field :: "string \<Rightarrow> json \<Rightarrow> json option" where
  "field k (JObj kvs) = map_of kvs k"
| "field k _ = None"

text \<open>A datetime object inside a hashed dictionary is normalised to UTC first.\<close>

definition json_default :: "datetime \<Rightarrow> json" where
  "json_default d = JTime (utc (instant d))"

subsection \<open>Canonical text\<close>

definition escape_char :: "char \<Rightarrow> string" where
  "escape_char c =
     (if c = CHR 34 then [CHR 92, CHR 34]
      else if c = CHR 92 then [CHR 92, CHR 92]
      else if c = CHR 10 then [CHR 92, CHR ''n'']
      else if c = CHR 13 then [CHR 92, CHR ''r'']
      else if c = CHR 9 then [CHR 92, CHR ''t'']
      else if c = CHR 12 then [CHR 92, CHR ''f'']
      else if c = CHR 8 then [CHR 92, CHR ''b'']
      else if 32 \<le> (of_char c :: nat) \<and> (of_char c :: nat) \<le> 126 then [c]
      else [CHR 92, CHR ''u''] @ hex_digits 4 (of_char c))"

definition escape_point :: "nat \<Rightarrow> string" where
  "escape_point n =
     (if n < 128 then escape_char (char_of n)
      else if n < 65536 then [CHR 92, CHR ''u''] @ hex_digits 4 n
      else let m = n - 65536
           in [CHR 92, CHR ''u''] @ hex_digits 4 (55296 + m div 1024)
              @ [CHR 92, CHR ''u''] @ hex_digits 4 (56320 + m mod 1024))"

definition json_string :: "string \<Rightarrow> string" where
  "json_string s = [CHR 34] @ concat (map escape_char s) @ [CHR 34]"

fun comma_sep :: "string list \<Rightarrow> string" where
  "comma_sep [] = []"
| "comma_sep [x] = x"
| "comma_sep (x # y # xs) = x @ '','' @ comma_sep (y # xs)"

fun canonical_json :: "json \<Rightarrow> string" where
  "canonical_json JNull = ''null''"
| "canonical_json (JBool b) = (if b then ''true'' else ''false'')"
| "canonical_json (JInt i) = int_text i"
| "canonical_json (JFloat x) = float_repr x"
| "canonical_json (JStr s) = json_string s"
| "canonical_json (JUni ns) = [CHR 34] @ concat (map escape_point ns) @ [CHR 34]"
| "canonical_json (JTime d) = json_string (json_time_text d)"
| "canonical_json (JList js) = ''['' @ comma_sep (map canonical_json js) @ '']''"
| "canonical_json (JObj kvs) =
     ''{'' @ comma_sep (map (\<lambda>(k, t). json_string k @ '':'' @ t)
                         (sort_key fst (map (\<lambda>(k, v). (k, canonical_json v)) kvs))) @ ''}''"

subsection \<open>Hashes\<close>

definition utf8_char :: "char \<Rightarrow> byte list" where
  "utf8_char c =
     (let n = of_char c :: nat
      in if n < 128 then [word_of_nat n]
         else [word_of_nat (192 + n div 64), word_of_nat (128 + n mod 64)])"

definition utf8 :: "string \<Rightarrow> byte list" where
  "utf8 s = concat (map utf8_char s)"

definition sha256_text :: "string \<Rightarrow> string" where
  "sha256_text value = sha256_hex (utf8 value)"

definition canonical_hash :: "json \<Rightarrow> string" where
  "canonical_hash value = sha256_text (canonical_json value)"

definition expected_evidence_id :: "string \<Rightarrow> string \<Rightarrow> string" where
  "expected_evidence_id source_ref content_hash =
     ''ev_'' @ sha256_text (source_ref @ '':'' @ content_hash)"

text \<open>
  The first eight bytes of a digest as a signed 64-bit integer: the advisory lock keys of
  \<^verbatim>\<open>_tool_lock_key\<close> and \<^verbatim>\<open>_lock_key\<close>.
\<close>

definition lock_key :: "string \<Rightarrow> int" where
  "lock_key value =
     (case sha256_words (utf8 value) of
        w0 # w1 # _ \<Rightarrow> sint (word_of_int (uint w0 * 2 ^ 32 + uint w1) :: 64 word)
      | _ \<Rightarrow> 0)"

subsection \<open>Facts about the canonical form\<close>

lemma is_hex64_sha256_text [simp]: "is_hex64 (sha256_text s)"
  by (simp add: sha256_text_def sha256_hex_shape)

lemma is_hex64_canonical_hash [simp]: "is_hex64 (canonical_hash j)"
  by (simp add: canonical_hash_def)

text \<open>
  Sorting by distinct keys forgets the order the entries came in, so neither the order a
  dictionary was built in nor the order a document was read in reaches the hash.
\<close>

lemma sort_entries_unique:
  assumes "mset xs = mset ys" and "distinct (map fst xs)"
  shows "sort_key fst xs = sort_key fst ys"
  by (rule sort_key_eq_sort_key) (use assms in \<open>simp_all add: distinct_map\<close>)

lemma canonical_json_order:
  assumes "mset kvs = mset kvs'" and "distinct (map fst kvs)"
  shows "canonical_json (JObj kvs) = canonical_json (JObj kvs')"
proof -
  let ?g = "\<lambda>(k, v). (k, canonical_json v)"
  have "mset (map ?g kvs) = mset (map ?g kvs')"
    using assms(1) by (simp add: mset_map)
  moreover have "map fst (map ?g kvs) = map fst kvs"
    by (simp add: case_prod_unfold comp_def)
  ultimately have "sort_key fst (map ?g kvs) = sort_key fst (map ?g kvs')"
    using assms(2) by (metis sort_entries_unique)
  then show ?thesis by simp
qed

lemma lock_key_range: "- (2 ^ 63) \<le> lock_key s \<and> lock_key s < 2 ^ 63"
proof -
  have "- (2 ^ 63) \<le> sint (w :: 64 word) \<and> sint w < 2 ^ 63" for w
    using sint_ge [of w] sint_lt [of w] by simp
  then show ?thesis by (simp add: lock_key_def split: list.splits)
qed

end
