(* ===== verification/Schemas.thy ===== *)
theory Schemas
  imports Provenance
begin

section \<open>Request contracts (\<^verbatim>\<open>schemas.py\<close>)\<close>

text \<open>
  The bodies of the two requests of the API. A record is what the request carries; the
  \<open>validate\<close> definitions are the field constraints and the \<^verbatim>\<open>model_validator\<close>s,
  whose failure Pydantic reports as one \<open>ValidationError\<close>. A value of these records that has not
  passed its validator never reaches the service.
\<close>

record IntakeRequest =
  req_sku_id :: string
  req_store_id :: string
  req_supplier_id :: string
  req_as_of_ts :: datetime
  req_window_start :: datetime
  req_window_end :: datetime

definition bounded_text :: "nat \<Rightarrow> nat \<Rightarrow> string \<Rightarrow> bool" where
  "bounded_text lo hi s \<longleftrightarrow> lo \<le> length s \<and> length s \<le> hi"

definition validate_timestamps :: "IntakeRequest \<Rightarrow> bool" where
  "validate_timestamps r =
     (let timestamps = [req_as_of_ts r, req_window_start r, req_window_end r]
      in if list_ex tz_naive timestamps then False
         else if instant (req_window_start r) \<ge> instant (req_window_end r)
              \<or> instant (req_window_end r) > instant (req_as_of_ts r) then False
         else True)"

definition validate_intake :: "IntakeRequest \<Rightarrow> unit result" where
  "validate_intake r =
     (if bounded_text 1 80 (req_sku_id r) \<and> bounded_text 1 80 (req_store_id r)
         \<and> bounded_text 1 80 (req_supplier_id r) \<and> validate_timestamps r
      then Inr () else Inl PydanticValidationError)"

text \<open>\<^verbatim>\<open>request.model_dump(mode="json")\<close>.\<close>

definition intake_dump :: "IntakeRequest \<Rightarrow> json" where
  "intake_dump r = JObj
     [(''sku_id'', JStr (req_sku_id r)), (''store_id'', JStr (req_store_id r)),
      (''supplier_id'', JStr (req_supplier_id r)), (''as_of_ts'', JTime (req_as_of_ts r)),
      (''window_start'', JTime (req_window_start r)), (''window_end'', JTime (req_window_end r))]"

datatype ReviewAction = APPROVE | EDIT_APPROVE | REJECT | ESCALATE

fun action_value :: "ReviewAction \<Rightarrow> string" where
  "action_value APPROVE = ''approve''"
| "action_value EDIT_APPROVE = ''edit_approve''"
| "action_value REJECT = ''reject''"
| "action_value ESCALATE = ''escalate''"

record ReviewRequest =
  rev_action :: ReviewAction
  rev_draft_hash :: string
  rev_edited_payload :: "json option"
  rev_reason :: "string option"

definition validate_action_fields :: "ReviewRequest \<Rightarrow> bool" where
  "validate_action_fields r =
     (if rev_action r = EDIT_APPROVE \<and> rev_edited_payload r = None then False
      else if rev_action r \<noteq> EDIT_APPROVE \<and> rev_edited_payload r \<noteq> None then False
      else if rev_action r \<in> {REJECT, ESCALATE} \<and> (rev_reason r = None \<or> rev_reason r = Some []) then False
      else if rev_action r \<in> {APPROVE, EDIT_APPROVE} \<and> rev_reason r \<noteq> None \<and> rev_reason r \<noteq> Some [] then False
      else True)"

definition validate_review :: "ReviewRequest \<Rightarrow> unit result" where
  "validate_review r =
     (if is_hex64 (rev_draft_hash r)
         \<and> (case rev_reason r of None \<Rightarrow> True | Some s \<Rightarrow> bounded_text 1 1000 s)
         \<and> (case rev_edited_payload r of None \<Rightarrow> True | Some (JObj kvs) \<Rightarrow> True | _ \<Rightarrow> False)
         \<and> validate_action_fields r
      then Inr () else Inl PydanticValidationError)"

lemma validate_intakeD:
  assumes "validate_intake r = Inr ()"
  shows "instant (req_window_start r) < instant (req_window_end r)"
    and "instant (req_window_end r) \<le> instant (req_as_of_ts r)"
    and "\<not> tz_naive (req_as_of_ts r)"
  using assms by (auto simp: validate_intake_def validate_timestamps_def Let_def split: if_splits)

text \<open>What the action and the other fields of an accepted review say of each other.\<close>

lemma validate_reviewD:
  assumes "validate_review r = Inr ()"
  shows "rev_edited_payload r \<noteq> None \<longleftrightarrow> rev_action r = EDIT_APPROVE"
    and "rev_reason r \<noteq> None \<longleftrightarrow> rev_action r \<in> {REJECT, ESCALATE}"
  using assms
  by (cases "rev_action r";
      auto simp: validate_review_def validate_action_fields_def bounded_text_def
           split: if_splits option.splits)+

end
