(* ===== verification/Evidence.thy ===== *)
theory Evidence
  imports Schemas Identity
begin

section \<open>Governed evidence (\<^verbatim>\<open>evidence/contracts.py\<close>, \<^verbatim>\<open>evidence/tools.py\<close>)\<close>

text \<open>
  The strict contracts of the three evidence classes, the bundle check that stands before
  reasoning, and the three read-only tools. The database the tools read is the interface
  \<open>fixture_reader\<close> (the source's \<^verbatim>\<open>FixtureReader\<close> protocol). Reading JSON back,
  a number is a float or integer leaf and a datetime a \<open>JTime\<close> leaf; Pydantic's coercions of
  other texts to numbers or datetimes are not used by any document the program writes.
\<close>

subsection \<open>Tool names\<close>

datatype ToolName = T1_inventory | T2_sales_demand | T3_supplier | Tool_reasoning

fun tool_value :: "ToolName \<Rightarrow> string" where
  "tool_value T1_inventory = ''T1_inventory''"
| "tool_value T2_sales_demand = ''T2_sales_demand''"
| "tool_value T3_supplier = ''T3_supplier''"
| "tool_value Tool_reasoning = ''reasoning''"

text \<open>Ordered as their names are, which \<^verbatim>\<open>ORDER BY tool_name\<close> and \<^verbatim>\<open>sorted\<close> use.\<close>

instantiation ToolName :: linorder
begin

definition less_eq_ToolName :: "ToolName \<Rightarrow> ToolName \<Rightarrow> bool" where
  "less_eq_ToolName a b \<longleftrightarrow> tool_value a \<le> tool_value b"

definition less_ToolName :: "ToolName \<Rightarrow> ToolName \<Rightarrow> bool" where
  "less_ToolName a b \<longleftrightarrow> tool_value a < tool_value b"

instance
proof
  fix a b c :: ToolName
  show "a < b \<longleftrightarrow> a \<le> b \<and> \<not> b \<le> a"
    by (auto simp: less_eq_ToolName_def less_ToolName_def)
  show "a \<le> a" by (simp add: less_eq_ToolName_def)
  show "a \<le> b \<Longrightarrow> b \<le> c \<Longrightarrow> a \<le> c" by (simp add: less_eq_ToolName_def)
  show "a \<le> b \<or> b \<le> a" by (auto simp: less_eq_ToolName_def)
  show "a \<le> b \<Longrightarrow> b \<le> a \<Longrightarrow> a = b"
    by (cases a; cases b) (auto simp: less_eq_ToolName_def dest!: antisym)
qed

end

definition evidence_tools :: "ToolName list" where
  "evidence_tools = [T1_inventory, T2_sales_demand, T3_supplier]"

subsection \<open>Contracts\<close>

datatype Facts =
    InventoryFacts (sku_id: string) (store_id: string)
      (on_hand: rat) (reserved: rat) (on_order: rat) (updated_at: datetime)
  | DemandFacts (sku_id: string) (store_id: string)
      (units_sold: rat) (average_daily_units: rat) (demand_signal: string) (updated_at: datetime)
  | SupplierFacts (sku_id: string) (supplier_id: string)
      (open_order_quantity: rat) (expected_receipt_at: datetime)
      (historical_lead_time_days: rat) (status: string) (updated_at: datetime)

record Evidence =
  evidence_id :: string
  source_ref :: string
  query_hash :: string
  content_hash :: string
  retrieved_at :: datetime
  freshness_ts :: datetime
  fixture_manifest_version :: string
  facts :: Facts

fun facts_tool :: "Facts \<Rightarrow> ToolName" where
  "facts_tool (InventoryFacts _ _ _ _ _ _) = T1_inventory"
| "facts_tool (DemandFacts _ _ _ _ _ _) = T2_sales_demand"
| "facts_tool (SupplierFacts _ _ _ _ _ _ _) = T3_supplier"

definition tool :: "Evidence \<Rightarrow> ToolName" where
  "tool e = facts_tool (facts e)"

text \<open>The fields of \<open>_FACT_FIELDS\<close>, with datetimes written by \<open>time\<close>.\<close>

fun facts_entries :: "(datetime \<Rightarrow> json) \<Rightarrow> Facts \<Rightarrow> (string \<times> json) list" where
  "facts_entries time (InventoryFacts sku store oh res oo upd) =
     [(''sku_id'', JStr sku), (''store_id'', JStr store), (''on_hand'', JFloat oh),
      (''reserved'', JFloat res), (''on_order'', JFloat oo), (''updated_at'', time upd)]"
| "facts_entries time (DemandFacts sku store us adu sig upd) =
     [(''sku_id'', JStr sku), (''store_id'', JStr store), (''units_sold'', JFloat us),
      (''average_daily_units'', JFloat adu), (''demand_signal'', JStr sig), (''updated_at'', time upd)]"
| "facts_entries time (SupplierFacts sku spl q recv lead st upd) =
     [(''sku_id'', JStr sku), (''supplier_id'', JStr spl), (''open_order_quantity'', JFloat q),
      (''expected_receipt_at'', time recv), (''historical_lead_time_days'', JFloat lead),
      (''status'', JStr st), (''updated_at'', time upd)]"

definition facts_hash :: "Facts \<Rightarrow> string" where
  "facts_hash f = canonical_hash (JObj (facts_entries json_default f))"

definition valid_evidence_id :: "string \<Rightarrow> bool" where
  "valid_evidence_id s \<longleftrightarrow> length s = 67 \<and> take 3 s = ''ev_'' \<and> is_hex64 (drop 3 s)"

fun valid_facts :: "Facts \<Rightarrow> bool" where
  "valid_facts (InventoryFacts sku store oh res oo upd) \<longleftrightarrow>
     sku \<noteq> [] \<and> store \<noteq> [] \<and> 0 \<le> oh \<and> 0 \<le> res \<and> 0 \<le> oo"
| "valid_facts (DemandFacts sku store us adu sig upd) \<longleftrightarrow>
     sku \<noteq> [] \<and> store \<noteq> [] \<and> 0 \<le> us \<and> 0 \<le> adu \<and> bounded_text 1 80 sig"
| "valid_facts (SupplierFacts sku spl q recv lead st upd) \<longleftrightarrow>
     sku \<noteq> [] \<and> spl \<noteq> [] \<and> 0 \<le> q \<and> 0 \<le> lead \<and> bounded_text 1 80 st"

definition valid_evidence :: "Evidence \<Rightarrow> bool" where
  "valid_evidence e \<longleftrightarrow>
     valid_evidence_id (evidence_id e) \<and> bounded_text 1 300 (source_ref e)
     \<and> is_hex64 (query_hash e) \<and> is_hex64 (content_hash e)
     \<and> bounded_text 1 80 (fixture_manifest_version e) \<and> valid_facts (facts e)"

text \<open>Building a contract model validates it.\<close>

definition make_evidence :: "Evidence \<Rightarrow> Evidence result" where
  "make_evidence e = (if valid_evidence e then Inr e else Inl PydanticValidationError)"

subsection \<open>Dump and parse\<close>

definition evidence_dump :: "Evidence \<Rightarrow> json" where
  "evidence_dump e = JObj
     ([(''tool_schema_version'', JStr ''v1''), (''evidence_id'', JStr (evidence_id e)),
       (''source_type'', JStr ''postgres_fixture''), (''source_ref'', JStr (source_ref e)),
       (''query_hash'', JStr (query_hash e)), (''content_hash'', JStr (content_hash e)),
       (''retrieved_at'', JTime (retrieved_at e)), (''freshness_ts'', JTime (freshness_ts e)),
       (''fixture_manifest_version'', JStr (fixture_manifest_version e)),
       (''tool'', JStr (tool_value (tool e)))]
      @ facts_entries JTime (facts e))"

fun as_str :: "json \<Rightarrow> string option" where
  "as_str (JStr s) = Some s"
| "as_str (JTime d) = Some (json_time_text d)"
| "as_str _ = None"

fun as_float :: "json \<Rightarrow> rat option" where
  "as_float (JFloat x) = Some x"
| "as_float (JInt i) = Some (of_int i)"
| "as_float _ = None"

fun as_time :: "json \<Rightarrow> datetime option" where
  "as_time (JTime d) = Some d"
| "as_time _ = None"

definition get :: "(json \<Rightarrow> 'a option) \<Rightarrow> string \<Rightarrow> json \<Rightarrow> 'a option" where
  "get conv k j = Option.bind (field k j) conv"

text \<open>\<^verbatim>\<open>extra="forbid"\<close>: no key outside the model's fields.\<close>

fun only_keys :: "string list \<Rightarrow> json \<Rightarrow> bool" where
  "only_keys ks (JObj kvs) = list_all (\<lambda>(k, _). k \<in> set ks) kvs"
| "only_keys ks _ = False"

definition base_keys :: "string list" where
  "base_keys = [''tool_schema_version'', ''evidence_id'', ''source_type'', ''source_ref'',
     ''query_hash'', ''content_hash'', ''retrieved_at'', ''freshness_ts'',
     ''fixture_manifest_version'', ''tool'']"

fun fact_keys :: "ToolName \<Rightarrow> string list" where
  "fact_keys T1_inventory =
     [''sku_id'', ''store_id'', ''on_hand'', ''reserved'', ''on_order'', ''updated_at'']"
| "fact_keys T2_sales_demand =
     [''sku_id'', ''store_id'', ''units_sold'', ''average_daily_units'', ''demand_signal'', ''updated_at'']"
| "fact_keys T3_supplier =
     [''sku_id'', ''supplier_id'', ''open_order_quantity'', ''expected_receipt_at'',
      ''historical_lead_time_days'', ''status'', ''updated_at'']"
| "fact_keys Tool_reasoning = []"

fun parse_facts :: "ToolName \<Rightarrow> json \<Rightarrow> Facts option" where
  "parse_facts T1_inventory j =
     (case (get as_str ''sku_id'' j, get as_str ''store_id'' j, get as_float ''on_hand'' j,
            get as_float ''reserved'' j, get as_float ''on_order'' j, get as_time ''updated_at'' j) of
        (Some sku, Some store, Some oh, Some res, Some oo, Some upd) \<Rightarrow>
          Some (InventoryFacts sku store oh res oo upd)
      | _ \<Rightarrow> None)"
| "parse_facts T2_sales_demand j =
     (case (get as_str ''sku_id'' j, get as_str ''store_id'' j, get as_float ''units_sold'' j,
            get as_float ''average_daily_units'' j, get as_str ''demand_signal'' j,
            get as_time ''updated_at'' j) of
        (Some sku, Some store, Some us, Some adu, Some sig, Some upd) \<Rightarrow>
          Some (DemandFacts sku store us adu sig upd)
      | _ \<Rightarrow> None)"
| "parse_facts T3_supplier j =
     (case (get as_str ''sku_id'' j, get as_str ''supplier_id'' j,
            get as_float ''open_order_quantity'' j, get as_time ''expected_receipt_at'' j,
            get as_float ''historical_lead_time_days'' j, get as_str ''status'' j,
            get as_time ''updated_at'' j) of
        (Some sku, Some spl, Some q, Some recv, Some lead, Some st, Some upd) \<Rightarrow>
          Some (SupplierFacts sku spl q recv lead st upd)
      | _ \<Rightarrow> None)"
| "parse_facts Tool_reasoning j = None"

definition tool_of_value :: "string \<Rightarrow> ToolName option" where
  "tool_of_value s = List.find (\<lambda>t. tool_value t = s) evidence_tools"

definition parse_fields :: "ToolName \<Rightarrow> json \<Rightarrow> Evidence option" where
  "parse_fields t j =
     (if only_keys (base_keys @ fact_keys t) j
         \<and> get as_str ''tool_schema_version'' j = Some ''v1''
         \<and> get as_str ''source_type'' j = Some ''postgres_fixture'' then
        (case (get as_str ''evidence_id'' j, get as_str ''source_ref'' j, get as_str ''query_hash'' j,
               get as_str ''content_hash'' j, get as_time ''retrieved_at'' j,
               get as_time ''freshness_ts'' j, get as_str ''fixture_manifest_version'' j,
               parse_facts t j) of
           (Some i, Some r, Some q, Some c, Some ret, Some fr, Some v, Some f) \<Rightarrow>
             Some \<lparr>evidence_id = i, source_ref = r, query_hash = q, content_hash = c,
                   retrieved_at = ret, freshness_ts = fr, fixture_manifest_version = v, facts = f\<rparr>
         | _ \<Rightarrow> None)
      else None)"

definition parse_evidence :: "json \<Rightarrow> Evidence result" where
  "parse_evidence j =
     (case Option.bind (get as_str ''tool'' j) tool_of_value of
        None \<Rightarrow> Inl PydanticValidationError
      | Some t \<Rightarrow> (case parse_fields t j of
                   None \<Rightarrow> Inl PydanticValidationError
                 | Some e \<Rightarrow> make_evidence e))"

lemma parse_dump_fields:
  "parse_fields (tool e) (evidence_dump e) = Some e"
  by (cases "facts e")
     (simp_all add: parse_fields_def evidence_dump_def tool_def get_def base_keys_def)

lemma tool_of_value_tool [simp]: "tool_of_value (tool_value (tool e)) = Some (tool e)"
  by (cases "facts e") (simp_all add: tool_of_value_def evidence_tools_def tool_def)

lemma get_tool_dump: "get as_str ''tool'' (evidence_dump e) = Some (tool_value (tool e))"
  by (simp add: get_def evidence_dump_def)

lemma parse_evidence_dump: "valid_evidence e \<Longrightarrow> parse_evidence (evidence_dump e) = Inr e"
  by (simp add: parse_evidence_def get_tool_dump parse_dump_fields make_evidence_def)

lemma parse_evidence_valid: "parse_evidence j = Inr e \<Longrightarrow> valid_evidence e"
  by (auto simp: parse_evidence_def make_evidence_def split: option.splits if_splits)

subsection \<open>The bundle check\<close>

fun freshness_limit :: "ToolName \<Rightarrow> int" where
  "freshness_limit T1_inventory = hours 24"
| "freshness_limit T2_sales_demand = hours 48"
| "freshness_limit T3_supplier = hours 72"
| "freshness_limit Tool_reasoning = 0"

definition check_item :: "datetime \<Rightarrow> Evidence \<Rightarrow> unit result" where
  "check_item as_of e =
     (if tz_naive (retrieved_at e) \<or> tz_naive (freshness_ts e) then
        Inl (EvidenceFailure ''PROVENANCE_INVALID'' ''Provenance timestamps must be aware'')
      else if facts_hash (facts e) \<noteq> content_hash e then
        Inl (EvidenceFailure ''PROVENANCE_INVALID'' ''Content hash does not match evidence'')
      else if expected_evidence_id (source_ref e) (content_hash e) \<noteq> evidence_id e then
        Inl (EvidenceFailure ''PROVENANCE_INVALID'' ''Evidence ID is not deterministic'')
      else (let age = instant as_of - instant (freshness_ts e)
            in if age < 0 \<or> age > freshness_limit (tool e) then
                 Inl (EvidenceFailure ''EVIDENCE_STALE''
                        (tool_value (tool e) @ '' evidence is outside policy''))
               else Inr ()))"

fun check_items :: "datetime \<Rightarrow> Evidence list \<Rightarrow> unit result" where
  "check_items as_of [] = Inr ()"
| "check_items as_of (e # es) =
     (case check_item as_of e of Inl x \<Rightarrow> Inl x | Inr _ \<Rightarrow> check_items as_of es)"

definition validate_bundle :: "Evidence list \<Rightarrow> datetime \<Rightarrow> unit result" where
  "validate_bundle bundle as_of =
     (let actual_tools = map tool bundle
      in if length actual_tools \<noteq> 3 \<or> set actual_tools \<noteq> set evidence_tools then
           Inl (EvidenceFailure ''EVIDENCE_INCOMPLETE'' ''T1, T2 and T3 evidence are all required'')
         else if card (set actual_tools) \<noteq> length actual_tools then
           Inl (EvidenceFailure ''EVIDENCE_DUPLICATE'' ''Evidence tools must be unique'')
         else check_items as_of bundle)"

text \<open>What the check promises: one fresh item with sound provenance from each tool.\<close>

definition sound_item :: "datetime \<Rightarrow> Evidence \<Rightarrow> bool" where
  "sound_item as_of e \<longleftrightarrow>
     \<not> tz_naive (retrieved_at e) \<and> \<not> tz_naive (freshness_ts e)
     \<and> content_hash e = facts_hash (facts e)
     \<and> evidence_id e = expected_evidence_id (source_ref e) (content_hash e)
     \<and> instant (freshness_ts e) \<le> instant as_of
     \<and> instant as_of - instant (freshness_ts e) \<le> freshness_limit (tool e)"

lemma check_item_iff: "check_item as_of e = Inr () \<longleftrightarrow> sound_item as_of e"
  by (auto simp: check_item_def sound_item_def Let_def)

lemma check_items_iff: "check_items as_of es = Inr () \<longleftrightarrow> (\<forall>e \<in> set es. sound_item as_of e)"
  by (induction es) (auto simp: check_item_iff [symmetric] split: sum.splits)

lemma three_tools: "card (set evidence_tools) = 3"
  by (simp add: evidence_tools_def)

lemma complete_tools_iff:
  "length ts = 3 \<and> set ts = set evidence_tools \<longleftrightarrow> mset ts = mset evidence_tools"
proof
  assume l: "length ts = 3 \<and> set ts = set evidence_tools"
  then have "distinct ts" using three_tools by (intro card_distinct) simp
  moreover have "distinct evidence_tools" by (simp add: evidence_tools_def)
  ultimately show "mset ts = mset evidence_tools"
    using l by (simp add: set_eq_iff_mset_eq_distinct)
next
  assume m: "mset ts = mset evidence_tools"
  then have "length ts = length evidence_tools" by (rule mset_eq_length)
  then show "length ts = 3 \<and> set ts = set evidence_tools"
    using mset_eq_setD [OF m] by (simp add: evidence_tools_def)
qed

lemma validate_bundle_accepts:
  "validate_bundle bundle as_of = Inr () \<longleftrightarrow>
     mset (map tool bundle) = mset evidence_tools \<and> (\<forall>e \<in> set bundle. sound_item as_of e)"
  using complete_tools_iff [of "map tool bundle"] three_tools
  by (auto simp: validate_bundle_def Let_def check_items_iff)

text \<open>Every refusal is an \<open>EvidenceFailure\<close>, which the caller turns into an escalation.\<close>

lemma check_items_failure: "check_items as_of es = Inl x \<Longrightarrow> \<exists>c m. x = EvidenceFailure c m"
  by (induction es) (auto simp: check_item_def Let_def split: sum.splits if_splits)

lemma validate_bundle_failure: "validate_bundle b t = Inl x \<Longrightarrow> \<exists>c m. x = EvidenceFailure c m"
  by (auto simp: validate_bundle_def Let_def dest: check_items_failure split: if_splits)

subsection \<open>The tools\<close>

record InventoryRow =
  ir_tenant :: string
  ir_sku :: string
  ir_store :: string
  ir_on_hand :: rat
  ir_reserved :: rat
  ir_on_order :: rat
  ir_updated_at :: int

record DemandRow =
  dr_tenant :: string
  dr_sku :: string
  dr_store :: string
  dr_window_start :: int
  dr_window_end :: int
  dr_units_sold :: rat
  dr_average_daily_units :: rat
  dr_demand_signal :: string
  dr_updated_at :: int

record SupplierRow =
  sr_tenant :: string
  sr_sku :: string
  sr_supplier :: string
  sr_open_order_quantity :: rat
  sr_expected_receipt_at :: int
  sr_historical_lead_time_days :: rat
  sr_status :: string
  sr_updated_at :: int

definition provenance_fields ::
  "string \<Rightarrow> json \<Rightarrow> Facts \<Rightarrow> datetime \<Rightarrow> datetime \<Rightarrow> string \<Rightarrow> Evidence"
where
  "provenance_fields ref query f retrieved fresh version =
     \<lparr>evidence_id = expected_evidence_id ref (facts_hash f), source_ref = ref,
      query_hash = canonical_hash query, content_hash = facts_hash f,
      retrieved_at = retrieved, freshness_ts = fresh,
      fixture_manifest_version = version, facts = f\<rparr>"

definition inventory_query :: "string \<Rightarrow> string \<Rightarrow> datetime \<Rightarrow> json" where
  "inventory_query sku store as_of =
     JObj [(''sku_id'', JStr sku), (''store_id'', JStr store), (''as_of_ts'', json_default as_of)]"

definition demand_query :: "string \<Rightarrow> string \<Rightarrow> datetime \<Rightarrow> datetime \<Rightarrow> datetime \<Rightarrow> json" where
  "demand_query sku store ws we as_of =
     JObj [(''sku_id'', JStr sku), (''store_id'', JStr store), (''window_start'', json_default ws),
           (''window_end'', json_default we), (''as_of_ts'', json_default as_of)]"

definition supplier_query :: "string \<Rightarrow> string \<Rightarrow> datetime \<Rightarrow> json" where
  "supplier_query sku spl as_of =
     JObj [(''sku_id'', JStr sku), (''supplier_id'', JStr spl), (''as_of_ts'', json_default as_of)]"

definition inventory_facts :: "InventoryRow \<Rightarrow> Facts" where
  "inventory_facts row =
     InventoryFacts (ir_sku row) (ir_store row) (fl (ir_on_hand row)) (fl (ir_reserved row))
       (fl (ir_on_order row)) (utc (ir_updated_at row))"

definition demand_facts :: "DemandRow \<Rightarrow> Facts" where
  "demand_facts row =
     DemandFacts (dr_sku row) (dr_store row) (fl (dr_units_sold row))
       (fl (dr_average_daily_units row)) (dr_demand_signal row) (utc (dr_updated_at row))"

definition supplier_facts :: "SupplierRow \<Rightarrow> Facts" where
  "supplier_facts row =
     SupplierFacts (sr_sku row) (sr_supplier row) (fl (sr_open_order_quantity row))
       (utc (sr_expected_receipt_at row)) (fl (sr_historical_lead_time_days row))
       (sr_status row) (utc (sr_updated_at row))"

definition inventory_tool ::
  "(Principal \<Rightarrow> string \<Rightarrow> string \<Rightarrow> InventoryRow option) \<Rightarrow> string \<Rightarrow> Principal \<Rightarrow> string \<Rightarrow> string
   \<Rightarrow> datetime \<Rightarrow> Evidence result"
where
  "inventory_tool fetch version p sku store as_of =
     (case fetch p sku store of
        None \<Rightarrow> Inl (EvidenceFailure ''EVIDENCE_MISSING'' ''T1 inventory evidence is missing'')
      | Some row \<Rightarrow>
          make_evidence (provenance_fields
            (''inventory:'' @ principal_tenant p @ '':'' @ sku @ '':'' @ store)
            (inventory_query sku store as_of) (inventory_facts row)
            as_of (utc (ir_updated_at row)) version))"

definition demand_tool ::
  "(Principal \<Rightarrow> string \<Rightarrow> string \<Rightarrow> int \<Rightarrow> int \<Rightarrow> DemandRow option) \<Rightarrow> string \<Rightarrow> Principal
   \<Rightarrow> string \<Rightarrow> string \<Rightarrow> datetime \<Rightarrow> datetime \<Rightarrow> datetime \<Rightarrow> Evidence result"
where
  "demand_tool fetch version p sku store ws we as_of =
     (case fetch p sku store (instant ws) (instant we) of
        None \<Rightarrow> Inl (EvidenceFailure ''EVIDENCE_MISSING'' ''T2 demand evidence is missing'')
      | Some row \<Rightarrow>
          make_evidence (provenance_fields
            (''demand:'' @ principal_tenant p @ '':'' @ sku @ '':'' @ store @ '':''
               @ isoformat ws @ '':'' @ isoformat we)
            (demand_query sku store ws we as_of) (demand_facts row)
            as_of (utc (dr_updated_at row)) version))"

definition supplier_tool ::
  "(Principal \<Rightarrow> string \<Rightarrow> string \<Rightarrow> SupplierRow option) \<Rightarrow> string \<Rightarrow> Principal \<Rightarrow> string \<Rightarrow> string
   \<Rightarrow> datetime \<Rightarrow> Evidence result"
where
  "supplier_tool fetch version p sku spl as_of =
     (case fetch p sku spl of
        None \<Rightarrow> Inl (EvidenceFailure ''EVIDENCE_MISSING'' ''T3 supplier evidence is missing'')
      | Some row \<Rightarrow>
          make_evidence (provenance_fields
            (''supplier:'' @ principal_tenant p @ '':'' @ sku @ '':'' @ spl)
            (supplier_query sku spl as_of) (supplier_facts row)
            as_of (utc (sr_updated_at row)) version))"

lemma make_evidence_InrD: "make_evidence e = Inr e' \<Longrightarrow> e' = e \<and> valid_evidence e"
  by (simp add: make_evidence_def split: if_splits)

lemma facts_tool_simps [simp]:
  "facts_tool (inventory_facts ir) = T1_inventory"
  "facts_tool (demand_facts dr) = T2_sales_demand"
  "facts_tool (supplier_facts sr) = T3_supplier"
  by (simp_all add: inventory_facts_def demand_facts_def supplier_facts_def)

lemma provenance_tool [simp]:
  "tool (provenance_fields ref query f retrieved fresh version) = facts_tool f"
  by (simp add: tool_def provenance_fields_def)

text \<open>The hashes and identifiers a tool computes satisfy the contract by construction.\<close>

lemma valid_expected_id [simp]: "valid_evidence_id (expected_evidence_id r c)"
  using is_hex64_sha256_text [of "r @ '':'' @ c"]
  by (simp add: valid_evidence_id_def expected_evidence_id_def is_hex64_def)

lemma valid_provenance [simp]:
  "valid_evidence (provenance_fields ref query f retrieved fresh version)
    \<longleftrightarrow> bounded_text 1 300 ref \<and> bounded_text 1 80 version \<and> valid_facts f"
  by (simp add: valid_evidence_def provenance_fields_def facts_hash_def)

text \<open>What a tool returns is sound evidence as soon as it is fresh.\<close>

lemma provenance_sound:
  assumes "e = provenance_fields ref query f (utc ret) (utc fresh) version"
  shows "sound_item as_of e \<longleftrightarrow>
    fresh \<le> instant as_of \<and> instant as_of - fresh \<le> freshness_limit (facts_tool f)"
  using assms by (auto simp: sound_item_def provenance_fields_def tool_def utc_def tz_naive_def)

subsection \<open>The fixture-reader interface\<close>

text \<open>
  The three reads return a row of the caller's own tenant with exactly the keys asked for. What
  the tools build from it is then about those keys, bears the caller's tenant in its reference,
  and is sound evidence exactly while it is fresh.
\<close>

locale fixture_reader =
  fixes fetch_inventory :: "Principal \<Rightarrow> string \<Rightarrow> string \<Rightarrow> InventoryRow option"
    and fetch_demand :: "Principal \<Rightarrow> string \<Rightarrow> string \<Rightarrow> int \<Rightarrow> int \<Rightarrow> DemandRow option"
    and fetch_supplier :: "Principal \<Rightarrow> string \<Rightarrow> string \<Rightarrow> SupplierRow option"
  assumes inventory_row: "fetch_inventory p sku store = Some ir \<Longrightarrow>
      ir_tenant ir = principal_tenant p \<and> ir_sku ir = sku \<and> ir_store ir = store"
    and demand_row: "fetch_demand p sku store ws we = Some dr \<Longrightarrow>
      dr_tenant dr = principal_tenant p \<and> dr_sku dr = sku \<and> dr_store dr = store
      \<and> dr_window_start dr = ws \<and> dr_window_end dr = we"
    and supplier_row: "fetch_supplier p sku spl = Some sr \<Longrightarrow>
      sr_tenant sr = principal_tenant p \<and> sr_sku sr = sku \<and> sr_supplier sr = spl"
begin

lemma inventory_tool_ok:
  assumes "inventory_tool fetch_inventory v p sku store (utc t) = Inr e"
  obtains ir where "fetch_inventory p sku store = Some ir"
    and "ir_tenant ir = principal_tenant p"
    and "sku_id (facts e) = sku" and "store_id (facts e) = store" and "tool e = T1_inventory"
    and "sound_item (utc t) e \<longleftrightarrow> ir_updated_at ir \<le> t \<and> t - ir_updated_at ir \<le> hours 24"
proof -
  from assms obtain ir where ir: "fetch_inventory p sku store = Some ir"
    and e: "e = provenance_fields (''inventory:'' @ principal_tenant p @ '':'' @ sku @ '':'' @ store)
              (inventory_query sku store (utc t)) (inventory_facts ir) (utc t)
              (utc (ir_updated_at ir)) v"
    by (auto simp: inventory_tool_def dest!: make_evidence_InrD split: option.splits)
  from inventory_row [OF ir] e provenance_sound [OF e, of "utc t"] show ?thesis
    by (intro that [OF ir]) (simp_all add: provenance_fields_def inventory_facts_def tool_def utc_def)
qed

lemma demand_tool_ok:
  assumes "demand_tool fetch_demand v p sku store (utc ws) (utc we) (utc t) = Inr e"
  obtains dr where "fetch_demand p sku store ws we = Some dr"
    and "dr_tenant dr = principal_tenant p"
    and "sku_id (facts e) = sku" and "store_id (facts e) = store" and "tool e = T2_sales_demand"
    and "sound_item (utc t) e \<longleftrightarrow> dr_updated_at dr \<le> t \<and> t - dr_updated_at dr \<le> hours 48"
proof -
  from assms obtain dr where dr: "fetch_demand p sku store ws we = Some dr"
    and e: "e = provenance_fields (''demand:'' @ principal_tenant p @ '':'' @ sku @ '':'' @ store @ '':''
                @ isoformat (utc ws) @ '':'' @ isoformat (utc we))
              (demand_query sku store (utc ws) (utc we) (utc t)) (demand_facts dr) (utc t)
              (utc (dr_updated_at dr)) v"
    by (auto simp: demand_tool_def utc_def dest!: make_evidence_InrD split: option.splits)
  from demand_row [OF dr] e provenance_sound [OF e, of "utc t"] show ?thesis
    by (intro that [OF dr]) (simp_all add: provenance_fields_def demand_facts_def tool_def utc_def)
qed

lemma supplier_tool_ok:
  assumes "supplier_tool fetch_supplier v p sku spl (utc t) = Inr e"
  obtains sr where "fetch_supplier p sku spl = Some sr"
    and "sr_tenant sr = principal_tenant p"
    and "sku_id (facts e) = sku" and "supplier_id (facts e) = spl" and "tool e = T3_supplier"
    and "sound_item (utc t) e \<longleftrightarrow> sr_updated_at sr \<le> t \<and> t - sr_updated_at sr \<le> hours 72"
proof -
  from assms obtain sr where sr: "fetch_supplier p sku spl = Some sr"
    and e: "e = provenance_fields (''supplier:'' @ principal_tenant p @ '':'' @ sku @ '':'' @ spl)
              (supplier_query sku spl (utc t)) (supplier_facts sr) (utc t)
              (utc (sr_updated_at sr)) v"
    by (auto simp: supplier_tool_def dest!: make_evidence_InrD split: option.splits)
  from supplier_row [OF sr] e provenance_sound [OF e, of "utc t"] show ?thesis
    by (intro that [OF sr]) (simp_all add: provenance_fields_def supplier_facts_def tool_def utc_def)
qed

end

end
