(* ===== verification/Reasoning.thy ===== *)
theory Reasoning
  imports Evidence
begin

section \<open>Reasoning (\<^verbatim>\<open>reasoning/schemas.py\<close>, \<^verbatim>\<open>base.py\<close>, \<^verbatim>\<open>deterministic_stub.py\<close>)\<close>

text \<open>
  The strict output contract of a reasoning adapter, the citation check, and the deterministic
  stub. What the service may rely on whichever adapter it is given is the interface
  \<open>reasoning_adapter\<close>: a returned outcome is well formed and cites nothing but the evidence.
\<close>

subsection \<open>The output contract\<close>

datatype Confidence = Low | Medium | High

fun confidence_value :: "Confidence \<Rightarrow> string" where
  "confidence_value Low = ''low''"
| "confidence_value Medium = ''medium''"
| "confidence_value High = ''high''"

datatype ActionType = Monitor | Review_replenishment | Review_transfer | Escalate_manual_investigation

fun action_type_value :: "ActionType \<Rightarrow> string" where
  "action_type_value Monitor = ''monitor''"
| "action_type_value Review_replenishment = ''review_replenishment''"
| "action_type_value Review_transfer = ''review_transfer''"
| "action_type_value Escalate_manual_investigation = ''escalate_manual_investigation''"

record RootCauseHypothesis =
  statement :: string
  confidence :: Confidence
  rc_citations :: "string list"

record RecommendationDraft =
  action_type :: ActionType
  rationale :: string
  rd_citations :: "string list"

record ReasoningResult =
  root_cause_hypothesis :: RootCauseHypothesis
  recommendation_draft :: RecommendationDraft

definition bounded_citations :: "string list \<Rightarrow> bool" where
  "bounded_citations cs \<longleftrightarrow> 1 \<le> length cs \<and> length cs \<le> 3"

definition valid_hypothesis :: "RootCauseHypothesis \<Rightarrow> bool" where
  "valid_hypothesis h \<longleftrightarrow> bounded_text 1 600 (statement h) \<and> bounded_citations (rc_citations h)"

definition valid_draft :: "RecommendationDraft \<Rightarrow> bool" where
  "valid_draft d \<longleftrightarrow> bounded_text 1 1000 (rationale d) \<and> bounded_citations (rd_citations d)"

definition valid_result :: "ReasoningResult \<Rightarrow> bool" where
  "valid_result r \<longleftrightarrow> valid_hypothesis (root_cause_hypothesis r) \<and> valid_draft (recommendation_draft r)"

text \<open>\<^verbatim>\<open>model_dump(mode="json")\<close> of the three models.\<close>

definition hypothesis_dump :: "RootCauseHypothesis \<Rightarrow> json" where
  "hypothesis_dump h = JObj
     [(''statement'', JStr (statement h)), (''confidence'', JStr (confidence_value (confidence h))),
      (''citations'', JList (map JStr (rc_citations h)))]"

definition draft_dump :: "RecommendationDraft \<Rightarrow> json" where
  "draft_dump d = JObj
     [(''action_type'', JStr (action_type_value (action_type d))), (''rationale'', JStr (rationale d)),
      (''citations'', JList (map JStr (rd_citations d)))]"

definition result_dump :: "ReasoningResult \<Rightarrow> json" where
  "result_dump r = JObj
     [(''root_cause_hypothesis'', hypothesis_dump (root_cause_hypothesis r)),
      (''recommendation_draft'', draft_dump (recommendation_draft r))]"

text \<open>\<^verbatim>\<open>model_validate\<close>: strict keys, literals, lengths.\<close>

fun as_str_list :: "json \<Rightarrow> string list option" where
  "as_str_list (JList js) =
     (let ss = map as_str js in if None \<in> set ss then None else Some (map the ss))"
| "as_str_list _ = None"

definition as_confidence :: "json \<Rightarrow> Confidence option" where
  "as_confidence j =
     Option.bind (as_str j) (\<lambda>s. List.find (\<lambda>c. confidence_value c = s) [Low, Medium, High])"

definition as_action_type :: "json \<Rightarrow> ActionType option" where
  "as_action_type j =
     Option.bind (as_str j)
       (\<lambda>s. List.find (\<lambda>a. action_type_value a = s)
              [Monitor, Review_replenishment, Review_transfer, Escalate_manual_investigation])"

definition parse_hypothesis :: "json \<Rightarrow> RootCauseHypothesis option" where
  "parse_hypothesis j =
     (if only_keys [''statement'', ''confidence'', ''citations''] j then
        (case (get as_str ''statement'' j, get as_confidence ''confidence'' j,
               get as_str_list ''citations'' j) of
           (Some s, Some c, Some cs) \<Rightarrow>
             (let h = \<lparr>statement = s, confidence = c, rc_citations = cs\<rparr>
              in if valid_hypothesis h then Some h else None)
         | _ \<Rightarrow> None)
      else None)"

definition parse_draft :: "json \<Rightarrow> RecommendationDraft option" where
  "parse_draft j =
     (if only_keys [''action_type'', ''rationale'', ''citations''] j then
        (case (get as_action_type ''action_type'' j, get as_str ''rationale'' j,
               get as_str_list ''citations'' j) of
           (Some a, Some r, Some cs) \<Rightarrow>
             (let d = \<lparr>action_type = a, rationale = r, rd_citations = cs\<rparr>
              in if valid_draft d then Some d else None)
         | _ \<Rightarrow> None)
      else None)"

definition model_validate :: "json \<Rightarrow> ReasoningResult result" where
  "model_validate j =
     (if only_keys [''root_cause_hypothesis'', ''recommendation_draft''] j then
        (case (get parse_hypothesis ''root_cause_hypothesis'' j,
               get parse_draft ''recommendation_draft'' j) of
           (Some h, Some d) \<Rightarrow> Inr \<lparr>root_cause_hypothesis = h, recommendation_draft = d\<rparr>
         | _ \<Rightarrow> Inl PydanticValidationError)
      else Inl PydanticValidationError)"

definition validate_citations :: "ReasoningResult \<Rightarrow> string set \<Rightarrow> unit result" where
  "validate_citations r evidence_ids =
     (let citations = rc_citations (root_cause_hypothesis r) @ rd_citations (recommendation_draft r)
      in if list_ex (\<lambda>c. c \<notin> evidence_ids) citations then
           Inl (ValueError ''Reasoning output contains an unknown evidence citation'')
         else Inr ())"

definition result_citations :: "ReasoningResult \<Rightarrow> string set" where
  "result_citations r =
     set (rc_citations (root_cause_hypothesis r)) \<union> set (rd_citations (recommendation_draft r))"

lemma validate_citations_iff: "validate_citations r ids = Inr () \<longleftrightarrow> result_citations r \<subseteq> ids"
  by (auto simp: validate_citations_def result_citations_def Let_def list_ex_iff)

lemma validate_citations_Inr [simp]: "validate_citations r ids = Inr u \<longleftrightarrow> result_citations r \<subseteq> ids"
  using validate_citations_iff by (cases u) simp

lemma as_str_list_dump [simp]: "as_str_list (JList (map JStr cs)) = Some cs"
  by (simp add: comp_def image_iff)

lemma as_confidence_value [simp]: "as_confidence (JStr (confidence_value c)) = Some c"
  by (cases c) (simp_all add: as_confidence_def)

lemma as_action_type_value [simp]: "as_action_type (JStr (action_type_value a)) = Some a"
  by (cases a) (simp_all add: as_action_type_def)

lemma parse_hypothesis_dump: "valid_hypothesis h \<Longrightarrow> parse_hypothesis (hypothesis_dump h) = Some h"
  by (cases h) (simp add: parse_hypothesis_def hypothesis_dump_def get_def Let_def del: as_str_list.simps)

lemma parse_draft_dump: "valid_draft d \<Longrightarrow> parse_draft (draft_dump d) = Some d"
  by (cases d) (simp add: parse_draft_def draft_dump_def get_def Let_def del: as_str_list.simps)

lemma model_validate_dump: "valid_result r \<Longrightarrow> model_validate (result_dump r) = Inr r"
  by (simp add: model_validate_def result_dump_def valid_result_def get_def
        parse_hypothesis_dump parse_draft_dump)

lemma parse_hypothesis_valid: "parse_hypothesis j = Some h \<Longrightarrow> valid_hypothesis h"
  by (auto simp: parse_hypothesis_def Let_def split: if_splits option.splits)

lemma parse_draft_valid: "parse_draft j = Some d \<Longrightarrow> valid_draft d"
  by (auto simp: parse_draft_def Let_def split: if_splits option.splits)

lemma model_validate_valid: "model_validate j = Inr r \<Longrightarrow> valid_result r"
  by (auto simp: model_validate_def valid_result_def get_def bind_eq_Some_conv
      dest: parse_hypothesis_valid parse_draft_valid split: if_splits option.splits)

lemma model_validate_refusal: "model_validate j = Inl e \<Longrightarrow> e = PydanticValidationError"
  by (auto simp: model_validate_def split: if_splits option.splits)

subsection \<open>Outcomes and the stub\<close>

record ReasoningOutcome =
  result :: ReasoningResult
  model_id :: string
  prompt_hash :: string
  input_hash :: string
  output_hash :: string
  input_tokens :: "int option"
  output_tokens :: "int option"
  latency_ms :: rat
  estimated_cost_usd :: "rat option"

definition stub_document :: "string list \<Rightarrow> json" where
  "stub_document evidence_ids = JObj
     [(''root_cause_hypothesis'', JObj
        [(''statement'', JStr (''Simulated inventory availability is below recent demand while ''
             @ ''supplier evidence indicates replenishment timing risk.'')),
         (''confidence'', JStr ''medium''),
         (''citations'', JList (map JStr (take 2 evidence_ids)))]),
      (''recommendation_draft'', JObj
        [(''action_type'', JStr ''review_replenishment''),
         (''rationale'', JStr (''A human reviewer should inspect the simulated replenishment plan ''
             @ ''against the cited inventory, demand, and supplier evidence.'')),
         (''citations'', JList (map JStr evidence_ids))])]"

definition stub_reason :: "Evidence list \<Rightarrow> ReasoningOutcome result" where
  "stub_reason evidence =
     (let ordered = sort_key tool evidence;
          evidence_ids = map evidence_id ordered
      in case model_validate (stub_document evidence_ids) of
           Inl e \<Rightarrow> Inl e
         | Inr r \<Rightarrow>
             (case validate_citations r (set evidence_ids) of
                Inl e \<Rightarrow> Inl e
              | Inr _ \<Rightarrow> Inr
                  \<lparr>result = r, model_id = ''deterministic-stub-v1'',
                   prompt_hash = canonical_hash (JStr ''deterministic-stub-v1''),
                   input_hash = canonical_hash (JList (map evidence_dump ordered)),
                   output_hash = canonical_hash (result_dump r),
                   input_tokens = None, output_tokens = None,
                   latency_ms = 0, estimated_cost_usd = Some 0\<rparr>))"

subsection \<open>The adapter interface\<close>

text \<open>
  An adapter may refuse with a \<open>ReasoningFailure\<close> or a \<^verbatim>\<open>ValueError\<close> (of which
  Pydantic's error is a subclass); the service turns both into an escalation.
\<close>

fun reasoning_refusal :: "exn \<Rightarrow> bool" where
  "reasoning_refusal (ReasoningFailure _ _) = True"
| "reasoning_refusal (ValueError _) = True"
| "reasoning_refusal PydanticValidationError = True"
| "reasoning_refusal _ = False"

locale reasoning_adapter =
  fixes reason :: "Evidence list \<Rightarrow> ReasoningOutcome result"
  assumes reason_valid: "reason es = Inr r \<Longrightarrow> valid_result (result r)"
    and reason_cites: "reason es = Inr r \<Longrightarrow> result_citations (result r) \<subseteq> evidence_id ` set es"
    and reason_refusal: "reason es = Inl e \<Longrightarrow> reasoning_refusal e"
begin

lemma reason_needs_evidence: "reason es = Inr r \<Longrightarrow> es \<noteq> []"
  using reason_valid [of es r] reason_cites [of es r]
  by (auto simp: valid_result_def valid_draft_def bounded_citations_def result_citations_def)

lemma dump_parses: "reason es = Inr r \<Longrightarrow> model_validate (result_dump (result r)) = Inr (result r)"
  by (rule model_validate_dump) (rule reason_valid)

end

interpretation stub: reasoning_adapter stub_reason
proof
  fix es r e
  show "stub_reason es = Inr r \<Longrightarrow> valid_result (result r)"
    by (auto simp: stub_reason_def Let_def dest: model_validate_valid split: sum.splits)
  show "stub_reason es = Inr r \<Longrightarrow> result_citations (result r) \<subseteq> evidence_id ` set es"
    by (auto simp: stub_reason_def Let_def split: sum.splits)
  show "stub_reason es = Inl e \<Longrightarrow> reasoning_refusal e"
    by (auto simp: stub_reason_def Let_def validate_citations_def
        dest!: model_validate_refusal split: sum.splits if_splits)
qed

text \<open>The stub answers on every bundle of one to three items.\<close>

definition stub_result :: "string list \<Rightarrow> ReasoningResult" where
  "stub_result ids =
     \<lparr>root_cause_hypothesis =
        \<lparr>statement = ''Simulated inventory availability is below recent demand while ''
             @ ''supplier evidence indicates replenishment timing risk.'',
         confidence = Medium, rc_citations = take 2 ids\<rparr>,
      recommendation_draft =
        \<lparr>action_type = Review_replenishment,
         rationale = ''A human reviewer should inspect the simulated replenishment plan ''
             @ ''against the cited inventory, demand, and supplier evidence.'',
         rd_citations = ids\<rparr>\<rparr>"

lemma stub_document_dump: "stub_document ids = result_dump (stub_result ids)"
  by (simp add: stub_document_def stub_result_def result_dump_def hypothesis_dump_def draft_dump_def)

lemma stub_result_valid: "valid_result (stub_result ids) \<longleftrightarrow> 1 \<le> length ids \<and> length ids \<le> 3"
  by (auto simp: stub_result_def valid_result_def valid_hypothesis_def valid_draft_def
      bounded_text_def bounded_citations_def min_def)

lemma stub_reason_answers:
  assumes "1 \<le> length es" and "length es \<le> 3"
  shows "\<exists>r. stub_reason es = Inr r \<and> result r = stub_result (map evidence_id (sort_key tool es))"
proof -
  let ?ids = "map evidence_id (sort_key tool es)"
  have "model_validate (stub_document ?ids) = Inr (stub_result ?ids)"
    unfolding stub_document_dump
    by (rule model_validate_dump) (use assms in \<open>simp add: stub_result_valid\<close>)
  moreover have "result_citations (stub_result ?ids) \<subseteq> set ?ids"
    by (auto simp: stub_result_def result_citations_def dest: in_set_takeD)
  ultimately show ?thesis
    by (simp add: stub_reason_def Let_def validate_citations_iff [THEN iffD2])
qed

end
