(* ===== verification/RunRepository.thy ===== *)
theory RunRepository
  imports Reasoning StateMachine "HOL-Library.Sublist"
begin

section \<open>The run repository (\<^verbatim>\<open>repository.py\<close>, migration \<^verbatim>\<open>0001\<close>)\<close>

text \<open>
  The tables of \<^verbatim>\<open>migrations/0001_m1_schema.sql\<close> and the operations of
  \<^verbatim>\<open>Repository\<close>, each a computation on the database with the constraints of the schema
  (primary and unique keys, checks, foreign keys) as error branches that leave it unchanged, as
  a rolled-back transaction does. \<^verbatim>\<open>timestamptz\<close> columns are instants; generated ids are list
  positions, so \<^verbatim>\<open>ORDER BY event_id\<close> is list order. A fresh \<^verbatim>\<open>uuid4\<close> is an argument.

  Concurrency: the transactions serialise, and what one caller read earlier is an argument (the
  run a transition was computed from, the row the first select of \<open>begin_intake\<close> saw), so a
  stale value is just another argument. The operations, in any order and with any stale
  arguments, keep \<open>repo_inv\<close> and only move the database forward (\<open>repo_before\<close>).
\<close>

subsection \<open>Tables\<close>

datatype RunMode = Human_review | Shadow

record RunRecord =
  run_id :: string
  tenant_id :: string
  requested_by :: string
  assigned_reviewer_id :: string
  run_sku_id :: string
  run_store_id :: string
  run_supplier_id :: string
  as_of_ts :: int
  window_start :: int
  window_end :: int
  request_hash :: string
  run_mode :: RunMode
  state :: RunState
  state_version :: nat
  draft_json :: "json option"
  draft_hash :: "string option"
  draft_created_at :: "int option"
  review_expires_at :: "int option"
  created_at :: int
  run_updated_at :: int

record IdempotencyRow =
  idem_tenant_id :: string
  idem_key :: string
  idem_payload_hash :: string
  idem_run_id :: string
  idem_created_at :: int

record WorkflowEvent =
  ev_run_id :: string
  ev_tenant_id :: string
  event_type :: string
  from_state :: "RunState option"
  to_state :: "RunState option"
  ev_actor_id :: string
  payload :: json
  occurred_at :: int

datatype ToolStatus = Started | Completed | Failed

record ToolRow =
  tool_run_id :: string
  tool_tenant_id :: string
  tool_name :: ToolName
  tool_request_hash :: string
  tool_status :: ToolStatus
  result_json :: "json option"
  metadata_json :: json
  tool_created_at :: int
  completed_at :: "int option"

record DecisionRow =
  dec_run_id :: string
  dec_tenant_id :: string
  dec_idempotency_key :: string
  dec_action :: ReviewAction
  dec_reviewer_id :: string
  dec_original_draft :: "json option"
  dec_original_draft_hash :: string
  dec_edited_payload :: "json option"
  dec_edited_payload_hash :: "string option"
  dec_reason :: "string option"
  dec_decided_at :: int

record run_db =
  runs :: "RunRecord list"
  idempotency :: "IdempotencyRow list"
  events :: "WorkflowEvent list"
  tools :: "ToolRow list"
  decisions :: "DecisionRow list"
  locks :: "int list"
  inventory_fixture :: "InventoryRow list"
  demand_fixture :: "DemandRow list"
  supplier_fixture :: "SupplierRow list"

subsection \<open>Events and reads\<close>

definition insert_event ::
  "string \<Rightarrow> string \<Rightarrow> string \<Rightarrow> RunState option \<Rightarrow> RunState option \<Rightarrow> string \<Rightarrow> json \<Rightarrow> int
   \<Rightarrow> run_db \<Rightarrow> run_db"
where
  "insert_event rid tenant etype frm to_st actor pl now db = db\<lparr>events := events db @
     [\<lparr>ev_run_id = rid, ev_tenant_id = tenant, event_type = etype, from_state = frm,
       to_state = to_st, ev_actor_id = actor, payload = pl, occurred_at = now\<rparr>]\<rparr>"

definition run_visible :: "Principal \<Rightarrow> string \<Rightarrow> RunRecord \<Rightarrow> bool" where
  "run_visible p rid r \<longleftrightarrow> run_id r = rid \<and> tenant_id r = principal_tenant p"

definition get_run :: "Principal \<Rightarrow> string \<Rightarrow> (run_db, RunRecord) comp" where
  "get_run p rid db =
     (case select_one (run_visible p rid) (runs db) of
        None \<Rightarrow> raiseE NotFoundError db
      | Some r \<Rightarrow> returnE r db)"

text \<open>The two transactions of \<open>append_rejected_control\<close>: the read, then the insert.\<close>

definition reject_control :: "Principal \<Rightarrow> string \<Rightarrow> int \<Rightarrow> RunRecord \<Rightarrow> (run_db, unit) comp" where
  "reject_control p code now run db =
     returnE () (insert_event (run_id run) (principal_tenant p) ''control_rejected''
       (Some (state run)) (Some (state run)) (actor_id p) (JObj [(''code'', JStr code)]) now db)"

definition append_rejected_control ::
  "Principal \<Rightarrow> string \<Rightarrow> string \<Rightarrow> int \<Rightarrow> (run_db, unit) comp"
where
  "append_rejected_control p rid code now = bindE (get_run p rid) (reject_control p code now)"

subsection \<open>Intake\<close>

definition new_run ::
  "Principal \<Rightarrow> IntakeRequest \<Rightarrow> string \<Rightarrow> string \<Rightarrow> int \<Rightarrow> RunMode \<Rightarrow> string \<Rightarrow> RunRecord"
where
  "new_run p req phash reviewer now mode uuid =
     \<lparr>run_id = uuid, tenant_id = principal_tenant p, requested_by = actor_id p,
      assigned_reviewer_id = reviewer, run_sku_id = req_sku_id req, run_store_id = req_store_id req,
      run_supplier_id = req_supplier_id req, as_of_ts = instant (req_as_of_ts req),
      window_start = instant (req_window_start req), window_end = instant (req_window_end req),
      request_hash = phash, run_mode = mode, state = CREATED, state_version = 0,
      draft_json = None, draft_hash = None, draft_created_at = None, review_expires_at = None,
      created_at = now, run_updated_at = now\<rparr>"

definition run_checks :: "RunRecord \<Rightarrow> bool" where
  "run_checks r \<longleftrightarrow> run_sku_id r \<noteq> [] \<and> run_store_id r \<noteq> [] \<and> run_supplier_id r \<noteq> []
     \<and> is_hex64 (request_hash r)"

definition idem_matches :: "Principal \<Rightarrow> string \<Rightarrow> IdempotencyRow \<Rightarrow> bool" where
  "idem_matches p key i \<longleftrightarrow> idem_tenant_id i = principal_tenant p \<and> idem_key i = key"

definition select_idempotency :: "Principal \<Rightarrow> string \<Rightarrow> run_db \<Rightarrow> IdempotencyRow option" where
  "select_idempotency p key db = select_one (idem_matches p key) (idempotency db)"

text \<open>The key exists: return its run, or record the conflict, commit it, and raise.\<close>

definition observe_intake ::
  "Principal \<Rightarrow> string \<Rightarrow> int \<Rightarrow> IdempotencyRow \<Rightarrow> (run_db, RunRecord \<times> bool) comp"
where
  "observe_intake p phash now existing db =
     (case select_one (run_visible p (idem_run_id existing)) (runs db) of
        None \<Rightarrow> raiseE (RuntimeError ''Idempotency key references an inaccessible run'') db
      | Some r \<Rightarrow>
          if idem_payload_hash existing \<noteq> phash then
            raiseE (ConflictError ''IDEMPOTENCY_KEY_CONFLICT''
                      ''Idempotency key was already used with a different payload'')
              (insert_event (run_id r) (principal_tenant p) ''intake_rejected''
                 (Some (state r)) (Some (state r)) (actor_id p)
                 (JObj [(''code'', JStr ''IDEMPOTENCY_KEY_CONFLICT'')]) now db)
          else returnE (r, False) db)"

text \<open>
  \<open>begin_intake\<close> from the row its first select saw. When it saw none, the run is inserted
  under a savepoint and the key claimed with \<^verbatim>\<open>ON CONFLICT DO NOTHING\<close>; a key committed in
  the meantime rolls the savepoint back and the winner's row is observed instead.
\<close>

definition begin_intake_after_select ::
  "IdempotencyRow option \<Rightarrow> Principal \<Rightarrow> IntakeRequest \<Rightarrow> string \<Rightarrow> string \<Rightarrow> string \<Rightarrow> int
   \<Rightarrow> RunMode \<Rightarrow> string \<Rightarrow> (run_db, RunRecord \<times> bool) comp"
where
  "begin_intake_after_select seen p req key phash reviewer now mode uuid db =
     (case seen of
        Some existing \<Rightarrow> observe_intake p phash now existing db
      | None \<Rightarrow>
          let r = new_run p req phash reviewer now mode uuid
          in if \<not> run_checks r \<or> uuid \<in> run_id ` set (runs db)
                \<or> \<not> bounded_text 1 200 key then
               raiseE (DatabaseError ''constraint violation'') db
             else if select_idempotency p key db \<noteq> None then
               (case select_idempotency p key db of
                  None \<Rightarrow> raiseE (RuntimeError ''Idempotency key conflict resolution failed'') db
                | Some existing \<Rightarrow> observe_intake p phash now existing db)
             else
               returnE (r, True)
                 (insert_event uuid (principal_tenant p) ''run_created'' None (Some CREATED)
                   (actor_id p) (JObj [(''request_hash'', JStr phash)]) now
                   (db\<lparr>runs := runs db @ [r],
                       idempotency := idempotency db @
                         [\<lparr>idem_tenant_id = principal_tenant p, idem_key = key,
                           idem_payload_hash = phash, idem_run_id = uuid,
                           idem_created_at = now\<rparr>]\<rparr>)))"

definition begin_intake ::
  "Principal \<Rightarrow> IntakeRequest \<Rightarrow> string \<Rightarrow> string \<Rightarrow> string \<Rightarrow> int \<Rightarrow> RunMode \<Rightarrow> string
   \<Rightarrow> (run_db, RunRecord \<times> bool) comp"
where
  "begin_intake p req key phash reviewer now mode uuid db =
     begin_intake_after_select (select_idempotency p key db)
       p req key phash reviewer now mode uuid db"

subsection \<open>Transitions\<close>

definition run_matches :: "Principal \<Rightarrow> string \<Rightarrow> RunState \<Rightarrow> nat \<Rightarrow> RunRecord \<Rightarrow> bool" where
  "run_matches p rid st v r \<longleftrightarrow>
     run_id r = rid \<and> tenant_id r = principal_tenant p \<and> state r = st \<and> state_version r = v"

text \<open>\<^verbatim>\<open>UPDATE investigation_run ... WHERE ... RETURNING *\<close>.\<close>

definition update_run ::
  "(RunRecord \<Rightarrow> bool) \<Rightarrow> (RunRecord \<Rightarrow> RunRecord) \<Rightarrow> run_db \<Rightarrow> RunRecord option \<times> run_db"
where
  "update_run P f db =
     (map_option f (select_one P (runs db)), db\<lparr>runs := update_where P f (runs db)\<rparr>)"

definition move_to :: "RunState \<Rightarrow> int \<Rightarrow> RunRecord \<Rightarrow> RunRecord" where
  "move_to target now r =
     r\<lparr>state := target, state_version := state_version r + 1, run_updated_at := now\<rparr>"

definition with_draft :: "json \<Rightarrow> string \<Rightarrow> int \<Rightarrow> int \<Rightarrow> RunRecord \<Rightarrow> RunRecord" where
  "with_draft draft dhash now expires r =
     r\<lparr>draft_json := Some draft, draft_hash := Some dhash, draft_created_at := Some now,
       review_expires_at := Some expires\<rparr>"

definition state_conflict :: "Principal \<Rightarrow> RunRecord \<Rightarrow> int \<Rightarrow> (run_db, RunRecord) comp" where
  "state_conflict p run now =
     bindE (append_rejected_control p (run_id run) ''STATE_VERSION_CONFLICT'' now)
       (\<lambda>_. raiseE (ConflictError ''STATE_VERSION_CONFLICT'' ''Run state changed concurrently''))"

definition transition ::
  "Principal \<Rightarrow> RunRecord \<Rightarrow> RunState \<Rightarrow> string \<Rightarrow> int \<Rightarrow> json option \<Rightarrow> (run_db, RunRecord) comp"
where
  "transition p run target etype now pl db =
     (if \<not> can_transition (state run) target then
        bindE (append_rejected_control p (run_id run) ''INVALID_TRANSITION'' now)
          (\<lambda>_. raiseE (ConflictError ''INVALID_TRANSITION''
             (''Transition '' @ state_value (state run) @ '' -> '' @ state_value target
                @ '' is not allowed''))) db
      else
        (case update_run (run_matches p (run_id run) (state run) (state_version run))
                (move_to target now) db of
           (None, db') \<Rightarrow> state_conflict p run now db'
         | (Some updated, db') \<Rightarrow>
             returnE updated
               (insert_event (run_id run) (principal_tenant p) etype (Some (state run))
                  (Some target) (actor_id p) (case pl of None \<Rightarrow> JObj [] | Some j \<Rightarrow> j) now db')))"

definition set_draft_and_transition ::
  "Principal \<Rightarrow> RunRecord \<Rightarrow> json \<Rightarrow> string \<Rightarrow> int \<Rightarrow> int \<Rightarrow> (run_db, RunRecord) comp"
where
  "set_draft_and_transition p run draft dhash now expires db =
     (if \<not> can_transition (state run) AWAITING_HUMAN then
        bindE (append_rejected_control p (run_id run) ''INVALID_TRANSITION'' now)
          (\<lambda>_. raiseE (ConflictError ''INVALID_TRANSITION'' ''Run cannot accept a draft'')) db
      else
        (case update_run (run_matches p (run_id run) (state run) (state_version run))
                (with_draft draft dhash now expires \<circ> move_to AWAITING_HUMAN now) db of
           (None, db') \<Rightarrow> state_conflict p run now db'
         | (Some updated, db') \<Rightarrow>
             if \<not> is_hex64 dhash then raiseE (DatabaseError ''constraint violation'') db
             else returnE updated
               (insert_event (run_id run) (principal_tenant p) ''draft_ready'' (Some (state run))
                  (Some AWAITING_HUMAN) (actor_id p)
                  (JObj [(''draft_hash'', JStr dhash),
                         (''expires_at'', JStr (isoformat (utc expires)))]) now db')))"

subsection \<open>Tool invocations\<close>

text \<open>
  \<open>claim_or_observe_tool\<close>, on the tables as they are once it has waited: if the advisory lock of
  the run and the tool is still held then, the call is \<open>StillWaiting\<close>. Once the lock is granted,
  \<^verbatim>\<open>(row, None)\<close> is \<open>(row, False)\<close>, and \<open>(row, True)\<close> is the exclusive claim, which keeps the lock.
  A claim that the constraints refuse leaves nothing behind, its connection being dropped.
\<close>

definition tool_lock_key :: "string \<Rightarrow> ToolName \<Rightarrow> int" where
  "tool_lock_key rid t = lock_key (rid @ '':'' @ tool_value t)"

definition tool_matches :: "Principal \<Rightarrow> string \<Rightarrow> ToolName \<Rightarrow> ToolRow \<Rightarrow> bool" where
  "tool_matches p rid t row \<longleftrightarrow>
     tool_run_id row = rid \<and> tool_tenant_id row = principal_tenant p \<and> tool_name row = t"

definition get_tool :: "Principal \<Rightarrow> string \<Rightarrow> ToolName \<Rightarrow> run_db \<Rightarrow> ToolRow option" where
  "get_tool p rid t db = select_one (tool_matches p rid t) (tools db)"

definition started_tool :: "Principal \<Rightarrow> string \<Rightarrow> ToolName \<Rightarrow> string \<Rightarrow> int \<Rightarrow> ToolRow" where
  "started_tool p rid t rhash now =
     \<lparr>tool_run_id = rid, tool_tenant_id = principal_tenant p, tool_name = t,
      tool_request_hash = rhash, tool_status = Started, result_json = None,
      metadata_json = JObj [], tool_created_at = now, completed_at = None\<rparr>"

definition claim_or_observe_tool ::
  "Principal \<Rightarrow> string \<Rightarrow> ToolName \<Rightarrow> string \<Rightarrow> int \<Rightarrow> (run_db, ToolRow \<times> bool) comp"
where
  "claim_or_observe_tool p rid t rhash now db =
     (if tool_lock_key rid t \<in> set (locks db) then raiseE StillWaiting db
      else case get_tool p rid t db of
        Some existing \<Rightarrow> returnE (existing, False) db
      | None \<Rightarrow>
          if (rid, t) \<in> (\<lambda>x. (tool_run_id x, tool_name x)) ` set (tools db)
             \<or> rid \<notin> run_id ` set (runs db) \<or> \<not> is_hex64 rhash then
            raiseE (DatabaseError ''constraint violation'') db
          else
            (let row = started_tool p rid t rhash now
             in returnE (row, True)
                  (db\<lparr>tools := tools db @ [row], locks := tool_lock_key rid t # locks db\<rparr>)))"

definition release :: "string \<Rightarrow> ToolName \<Rightarrow> run_db \<Rightarrow> run_db" where
  "release rid t db = db\<lparr>locks := remove1 (tool_lock_key rid t) (locks db)\<rparr>"

definition complete_tool ::
  "Principal \<Rightarrow> string \<Rightarrow> ToolName \<Rightarrow> json option \<Rightarrow> json \<Rightarrow> ToolStatus \<Rightarrow> int \<Rightarrow> (run_db, unit) comp"
where
  "complete_tool p rid t res metadata st now db =
     (if get_tool p rid t db = None then
        raiseE (ConflictError ''TOOL_INVOCATION_MISSING'' ''Tool invocation was not started'') db
      else
        returnE () (db\<lparr>tools := update_where (tool_matches p rid t)
          (\<lambda>row. row\<lparr>tool_status := st, result_json := res, metadata_json := metadata,
                    completed_at := Some now\<rparr>) (tools db)\<rparr>))"

text \<open>\<open>list_evidence\<close>: the completed evidence rows in name order, parsed strictly.\<close>

definition evidence_rows :: "Principal \<Rightarrow> string \<Rightarrow> run_db \<Rightarrow> ToolRow list" where
  "evidence_rows p rid db =
     sort_key tool_name
       (filter (\<lambda>row. tool_run_id row = rid \<and> tool_tenant_id row = principal_tenant p
                    \<and> tool_name row \<in> set evidence_tools \<and> tool_status row = Completed) (tools db))"

definition parse_result :: "json option \<Rightarrow> Evidence result" where
  "parse_result j = (case j of None \<Rightarrow> Inl PydanticValidationError | Some x \<Rightarrow> parse_evidence x)"

fun parse_rows :: "ToolRow list \<Rightarrow> Evidence list result" where
  "parse_rows [] = Inr []"
| "parse_rows (row # rows) =
     (case parse_result (result_json row) of
        Inl e \<Rightarrow> Inl e
      | Inr item \<Rightarrow> (case parse_rows rows of Inl e \<Rightarrow> Inl e | Inr items \<Rightarrow> Inr (item # items)))"

definition list_evidence :: "Principal \<Rightarrow> string \<Rightarrow> (run_db, Evidence list) comp" where
  "list_evidence p rid db = liftE (parse_rows (evidence_rows p rid db)) db"

subsection \<open>Reviews\<close>

fun review_target :: "ReviewAction \<Rightarrow> RunState" where
  "review_target APPROVE = APPROVED"
| "review_target EDIT_APPROVE = EDITED_AND_APPROVED"
| "review_target REJECT = REJECTED"
| "review_target ESCALATE = ESCALATED"

definition decision_matches :: "Principal \<Rightarrow> string \<Rightarrow> DecisionRow \<Rightarrow> bool" where
  "decision_matches p rid d \<longleftrightarrow> dec_run_id d = rid \<and> dec_tenant_id d = principal_tenant p"

definition get_decision :: "Principal \<Rightarrow> string \<Rightarrow> run_db \<Rightarrow> DecisionRow option" where
  "get_decision p rid db = select_one (decision_matches p rid) (decisions db)"

text \<open>The checks of \<open>record_review\<close>, in order: the code and the error of the first that fails.\<close>

definition review_refusal ::
  "Principal \<Rightarrow> RunRecord \<Rightarrow> DecisionRow option \<Rightarrow> string \<Rightarrow> int \<Rightarrow> (string \<times> exn) option"
where
  "review_refusal p run existing submitted now =
     (if run_mode run = Shadow then
        Some (''SHADOW_REVIEW_FORBIDDEN'', ConflictError ''SHADOW_REVIEW_FORBIDDEN''
          ''Shadow analysis cannot accept a human review decision'')
      else if existing \<noteq> None \<or> state run \<noteq> AWAITING_HUMAN then
        Some (''RUN_ALREADY_DECIDED'', ConflictError ''RUN_ALREADY_DECIDED''
          ''Run is not awaiting a review decision'')
      else if actor_id p \<noteq> assigned_reviewer_id run then
        Some (''WRONG_REVIEWER'', AuthorizationError ''Reviewer is not assigned to this run'')
      else if Some submitted \<noteq> draft_hash run then
        Some (''STALE_APPROVAL_TARGET'', ConflictError ''STALE_APPROVAL_TARGET''
          ''Submitted draft hash is stale'')
      else if (case review_expires_at run of None \<Rightarrow> True | Some t \<Rightarrow> now > t) then
        Some (''REVIEW_EXPIRED'', ConflictError ''REVIEW_EXPIRED''
          ''Review fixture-policy window has expired'')
      else None)"

definition new_decision ::
  "Principal \<Rightarrow> RunRecord \<Rightarrow> string \<Rightarrow> ReviewAction \<Rightarrow> string \<Rightarrow> json option \<Rightarrow> string option
   \<Rightarrow> string option \<Rightarrow> int \<Rightarrow> DecisionRow"
where
  "new_decision p run key action submitted edited ehash reason now =
     \<lparr>dec_run_id = run_id run, dec_tenant_id = principal_tenant p, dec_idempotency_key = key,
      dec_action = action, dec_reviewer_id = actor_id p, dec_original_draft = draft_json run,
      dec_original_draft_hash = submitted, dec_edited_payload = edited,
      dec_edited_payload_hash = ehash, dec_reason = reason, dec_decided_at = now\<rparr>"

definition decision_checks :: "DecisionRow \<Rightarrow> run_db \<Rightarrow> bool" where
  "decision_checks d db \<longleftrightarrow>
     bounded_text 1 200 (dec_idempotency_key d) \<and> is_hex64 (dec_original_draft_hash d)
     \<and> (case dec_edited_payload_hash d of None \<Rightarrow> True | Some h \<Rightarrow> is_hex64 h)
     \<and> dec_run_id d \<notin> dec_run_id ` set (decisions db)"

text \<open>The decision, its transition and the closing transition, one transaction.\<close>

definition decide_and_close ::
  "Principal \<Rightarrow> RunRecord \<Rightarrow> DecisionRow \<Rightarrow> string \<Rightarrow> int \<Rightarrow> (run_db, RunRecord) comp"
where
  "decide_and_close p run d submitted now db0 =
     (let target = review_target (dec_action d); rid = run_id run; tenant = principal_tenant p;
          db = db0\<lparr>decisions := decisions db0 @ [d]\<rparr>
      in case update_run (run_matches p rid AWAITING_HUMAN (state_version run))
                (move_to target now) db of
           (None, _) \<Rightarrow>
             raiseE (RuntimeError ''Locked review transition unexpectedly conflicted'') db0
         | (Some decided, db1) \<Rightarrow>
             let db2 = insert_event rid tenant ''review_decided'' (Some AWAITING_HUMAN) (Some target)
                         (actor_id p)
                         (JObj [(''action'', JStr (action_value (dec_action d))),
                                (''draft_hash'', JStr submitted)]) now db1
             in case update_run (run_matches p rid target (state_version decided))
                       (move_to CLOSED now) db2 of
                  (None, _) \<Rightarrow>
                    raiseE (RuntimeError ''Locked close transition unexpectedly conflicted'') db0
                | (Some final, db3) \<Rightarrow>
                    returnE final
                      (insert_event rid tenant ''run_closed'' (Some target) (Some CLOSED)
                        (actor_id p) (JObj []) now db3))"

definition record_review ::
  "Principal \<Rightarrow> string \<Rightarrow> string \<Rightarrow> ReviewAction \<Rightarrow> string \<Rightarrow> json option \<Rightarrow> string option
   \<Rightarrow> string option \<Rightarrow> int \<Rightarrow> (run_db, RunRecord) comp"
where
  "record_review p rid key action submitted edited ehash reason now db =
     (case select_one (run_visible p rid) (runs db) of
        None \<Rightarrow> raiseE NotFoundError db
      | Some run \<Rightarrow>
          (case review_refusal p run (get_decision p (run_id run) db) submitted now of
             Some (code, err) \<Rightarrow>
               raiseE err
                 (insert_event (run_id run) (principal_tenant p) ''review_rejected''
                   (Some (state run)) (Some (state run)) (actor_id p)
                   (JObj [(''code'', JStr code)]) now db)
           | None \<Rightarrow>
               (let d = new_decision p run key action submitted edited ehash reason now
                in if \<not> decision_checks d db then
                     raiseE (DatabaseError ''constraint violation'') db
                   else decide_and_close p run d submitted now db)))"

definition audit_events :: "Principal \<Rightarrow> string \<Rightarrow> (run_db, WorkflowEvent list) comp" where
  "audit_events p rid =
     bindE (get_run p rid)
       (\<lambda>_ db. returnE (filter (\<lambda>e. ev_run_id e = rid \<and> ev_tenant_id e = principal_tenant p)
                         (events db)) db)"

subsection \<open>Fixtures\<close>

definition fetch_inventory_fixture ::
  "run_db \<Rightarrow> Principal \<Rightarrow> string \<Rightarrow> string \<Rightarrow> InventoryRow option"
where
  "fetch_inventory_fixture db p sku store =
     select_one (\<lambda>r. ir_tenant r = principal_tenant p \<and> ir_sku r = sku \<and> ir_store r = store)
       (inventory_fixture db)"

definition fetch_demand_fixture ::
  "run_db \<Rightarrow> Principal \<Rightarrow> string \<Rightarrow> string \<Rightarrow> int \<Rightarrow> int \<Rightarrow> DemandRow option"
where
  "fetch_demand_fixture db p sku store ws we =
     select_one (\<lambda>r. dr_tenant r = principal_tenant p \<and> dr_sku r = sku \<and> dr_store r = store
                   \<and> dr_window_start r = ws \<and> dr_window_end r = we) (demand_fixture db)"

definition fetch_supplier_fixture ::
  "run_db \<Rightarrow> Principal \<Rightarrow> string \<Rightarrow> string \<Rightarrow> SupplierRow option"
where
  "fetch_supplier_fixture db p sku spl =
     select_one (\<lambda>r. sr_tenant r = principal_tenant p \<and> sr_sku r = sku \<and> sr_supplier r = spl)
       (supplier_fixture db)"

interpretation fixtures: fixture_reader
  "fetch_inventory_fixture db" "fetch_demand_fixture db" "fetch_supplier_fixture db"
  by unfold_locales
     (auto simp: fetch_inventory_fixture_def fetch_demand_fixture_def fetch_supplier_fixture_def
           dest!: select_one_SomeD)

end
