(* ===== verification/RunInvariants.thy ===== *)
theory RunInvariants
  imports RunRepository
begin

section \<open>What the run repository guarantees\<close>

text \<open>
  The invariant of the run tables: every run's genuine events are exactly the path of the
  transition table that leads from nothing to its current state, one event for each increment
  of its version; decisions are unique, made on human-reviewed runs by the assigned reviewer on
  the draft they were shown, and are the only way a run is closed; keys are unique and
  consistent with the runs they name. Each operation keeps it, and moves the database forward
  in the order \<open>repo_before\<close>: no event, decision or key is ever lost or changed, versions
  only grow, and a run with no transition left stays as it is.
\<close>

subsection \<open>The trail of a run\<close>

definition genuine :: "WorkflowEvent \<Rightarrow> bool" where
  "genuine e \<longleftrightarrow> to_state e \<noteq> None \<and> to_state e \<noteq> from_state e"

definition trail :: "string \<Rightarrow> WorkflowEvent list \<Rightarrow> WorkflowEvent list" where
  "trail rid es = filter (\<lambda>e. ev_run_id e = rid \<and> genuine e) es"

fun step_ok :: "RunState option \<Rightarrow> RunState option \<Rightarrow> bool" where
  "step_ok None t = (t = Some CREATED)"
| "step_ok (Some a) (Some b) = can_transition a b"
| "step_ok (Some a) None = False"

fun chain :: "RunState option \<Rightarrow> WorkflowEvent list \<Rightarrow> RunState option \<Rightarrow> bool" where
  "chain s [] u = (s = u)"
| "chain s (e # es) u = (from_state e = s \<and> step_ok s (to_state e) \<and> chain (to_state e) es u)"

lemma chain_snoc:
  "chain s (es @ [e]) u \<longleftrightarrow>
     (\<exists>m. chain s es m \<and> from_state e = m \<and> step_ok m (to_state e) \<and> to_state e = u)"
  by (induction es arbitrary: s) auto

lemma chain_path:
  "chain (Some s) es u \<Longrightarrow> \<exists>ts t. map to_state es = map Some ts \<and> u = Some t \<and> path s ts t"
proof (induction es arbitrary: s)
  case Nil
  then show ?case by (intro exI [of _ "[]"]) auto
next
  case (Cons e es)
  then obtain b where b: "to_state e = Some b" "can_transition s b" "chain (Some b) es u"
    by (cases "to_state e") auto
  from Cons.IH [OF b(3)] obtain ts t where "map to_state es = map Some ts" "u = Some t" "path b ts t"
    by blast
  with b show ?case by (intro exI [of _ "b # ts"] exI [of _ t]) simp
qed

lemma chain_from_start:
  assumes "chain None es (Some s)"
  obtains ts where "map to_state es = map Some (CREATED # ts)" and "path CREATED ts s"
proof (cases es)
  case Nil
  with assms show ?thesis by simp
next
  case (Cons e rest)
  with assms have "to_state e = Some CREATED" "chain (Some CREATED) rest (Some s)" by auto
  with chain_path [of CREATED rest "Some s"] Cons show ?thesis by (auto intro: that)
qed

definition trail_ok :: "WorkflowEvent list \<Rightarrow> RunRecord \<Rightarrow> bool" where
  "trail_ok es r \<longleftrightarrow>
     chain None (trail (run_id r) es) (Some (state r))
     \<and> length (trail (run_id r) es) = Suc (state_version r)"

subsection \<open>The invariant\<close>

definition event_owned :: "RunRecord list \<Rightarrow> WorkflowEvent \<Rightarrow> bool" where
  "event_owned rs e \<longleftrightarrow> (\<exists>r \<in> set rs. run_id r = ev_run_id e \<and> tenant_id r = ev_tenant_id e)"

definition trail_inv :: "RunRecord list \<Rightarrow> WorkflowEvent list \<Rightarrow> bool" where
  "trail_inv rs es \<longleftrightarrow>
     keyed run_id rs \<and> (\<forall>e \<in> set es. event_owned rs e) \<and> (\<forall>r \<in> set rs. trail_ok es r)"

definition idem_ok :: "RunRecord list \<Rightarrow> IdempotencyRow \<Rightarrow> bool" where
  "idem_ok rs i \<longleftrightarrow> (\<exists>r \<in> set rs. run_id r = idem_run_id i \<and> tenant_id r = idem_tenant_id i
     \<and> request_hash r = idem_payload_hash i)"

definition idem_inv :: "RunRecord list \<Rightarrow> IdempotencyRow list \<Rightarrow> bool" where
  "idem_inv rs is \<longleftrightarrow> keyed (\<lambda>i. (idem_tenant_id i, idem_key i)) is \<and> (\<forall>i \<in> set is. idem_ok rs i)"

definition tool_inv :: "RunRecord list \<Rightarrow> ToolRow list \<Rightarrow> bool" where
  "tool_inv rs ts \<longleftrightarrow> keyed (\<lambda>x. (tool_run_id x, tool_name x)) ts
     \<and> (\<forall>x \<in> set ts. tool_run_id x \<in> run_id ` set rs)"

definition decided_run :: "DecisionRow \<Rightarrow> RunRecord \<Rightarrow> bool" where
  "decided_run d r \<longleftrightarrow> run_id r = dec_run_id d \<and> tenant_id r = dec_tenant_id d
     \<and> state r = CLOSED \<and> run_mode r \<noteq> Shadow \<and> dec_reviewer_id d = assigned_reviewer_id r
     \<and> draft_hash r = Some (dec_original_draft_hash d)
     \<and> (case review_expires_at r of None \<Rightarrow> False | Some t \<Rightarrow> dec_decided_at d \<le> t)"

definition run_gated :: "DecisionRow list \<Rightarrow> RunRecord \<Rightarrow> bool" where
  "run_gated ds r \<longleftrightarrow> state r \<notin> {APPROVED, EDITED_AND_APPROVED, REJECTED}
     \<and> (state r = CLOSED \<longrightarrow> (\<exists>d \<in> set ds. dec_run_id d = run_id r))"

definition gate_inv :: "RunRecord list \<Rightarrow> DecisionRow list \<Rightarrow> bool" where
  "gate_inv rs ds \<longleftrightarrow> keyed dec_run_id ds
     \<and> (\<forall>d \<in> set ds. \<exists>r \<in> set rs. decided_run d r) \<and> (\<forall>r \<in> set rs. run_gated ds r)"

definition repo_inv :: "run_db \<Rightarrow> bool" where
  "repo_inv db \<longleftrightarrow> trail_inv (runs db) (events db) \<and> idem_inv (runs db) (idempotency db)
     \<and> tool_inv (runs db) (tools db) \<and> gate_inv (runs db) (decisions db)"

subsection \<open>Reads under the invariant\<close>

lemma trail_append [simp]: "trail rid (es @ fs) = trail rid es @ trail rid fs"
  by (simp add: trail_def)

lemma trail_Nil [simp]: "trail rid [] = []"
  by (simp add: trail_def)

lemma trail_Cons [simp]:
  "trail rid (e # es) = (if ev_run_id e = rid \<and> genuine e then e # trail rid es else trail rid es)"
  by (simp add: trail_def)

lemma keyed_unique: "keyed k xs \<Longrightarrow> x \<in> set xs \<Longrightarrow> y \<in> set xs \<Longrightarrow> k x = k y \<Longrightarrow> x = y"
  by (auto simp: distinct_map dest: inj_onD)

lemma run_visible_select:
  "select_one (run_visible p rid) rs = Some r \<Longrightarrow>
     r \<in> set rs \<and> run_id r = rid \<and> tenant_id r = principal_tenant p"
  by (auto simp: run_visible_def dest: select_one_SomeD)

lemma run_matches_select:
  "select_one (run_matches p rid st v) rs = Some r \<Longrightarrow>
     r \<in> set rs \<and> run_id r = rid \<and> tenant_id r = principal_tenant p \<and> state r = st \<and> state_version r = v"
  by (auto simp: run_matches_def dest: select_one_SomeD)

lemma select_run_visible:
  "keyed run_id rs \<Longrightarrow> r \<in> set rs \<Longrightarrow> tenant_id r = principal_tenant p \<Longrightarrow>
     select_one (run_visible p (run_id r)) rs = Some r"
  by (rule select_one_key [where k = run_id]) (auto simp: run_visible_def)

lemma select_run_matches:
  "keyed run_id rs \<Longrightarrow> r \<in> set rs \<Longrightarrow> run_matches p (run_id r) st v r \<Longrightarrow>
     select_one (run_matches p (run_id r) st v) rs = Some r"
  by (rule select_one_key [where k = run_id]) (auto simp: run_matches_def)

text \<open>An update of the one row a key determines.\<close>

lemma update_one_row:
  assumes "keyed run_id rs" and "select_one (run_matches p rid st v) rs = Some r"
  shows "update_where (run_matches p rid st v) f rs = map (\<lambda>x. if x = r then f x else x) rs"
proof -
  note r = run_matches_select [OF assms(2)]
  have "run_matches p rid st v x \<longleftrightarrow> x = r" if "x \<in> set rs" for x
    using that r keyed_unique [OF assms(1), of x r] by (auto simp: run_matches_def)
  then show ?thesis by (auto simp: update_where_def)
qed

subsection \<open>Changes that keep the invariant\<close>

text \<open>A control event: no transition, on a run the caller can see.\<close>

lemma repo_inv_control:
  assumes "repo_inv db" and "r \<in> set (runs db)" and "run_id r = rid" and "tenant_id r = t"
    and "to_st = frm"
  shows "repo_inv (insert_event rid t et frm to_st a pl now db)"
  using assms
  by (auto simp: repo_inv_def trail_inv_def trail_ok_def insert_event_def genuine_def event_owned_def)

lemma repo_inv_control_event:
  assumes "repo_inv db" and "\<exists>r \<in> set (runs db). run_id r = rid \<and> tenant_id r = t"
  shows "repo_inv (insert_event rid t et (Some s) (Some s) a pl now db)"
  using assms by (auto intro: repo_inv_control)

text \<open>A new run with its key and its creation event.\<close>

lemma trail_fresh:
  assumes "\<forall>e \<in> set es. event_owned rs e" and "rid \<notin> run_id ` set rs"
  shows "trail rid es = []"
proof -
  have "ev_run_id e \<noteq> rid" if "e \<in> set es" for e
    using that assms by (force simp: event_owned_def image_iff)
  then show ?thesis by (auto simp: trail_def filter_empty_conv)
qed

lemma trail_inv_create:
  assumes "trail_inv rs es" and "run_id r \<notin> run_id ` set rs"
    and "state r = CREATED" and "state_version r = 0"
    and "e = \<lparr>ev_run_id = run_id r, ev_tenant_id = tenant_id r, event_type = et, from_state = None,
              to_state = Some CREATED, ev_actor_id = a, payload = pl, occurred_at = now\<rparr>"
  shows "trail_inv (rs @ [r]) (es @ [e])"
proof -
  have fresh: "trail (run_id r) es = []"
    using assms(1,2) by (intro trail_fresh) (auto simp: trail_inv_def)
  have gen: "genuine e" "ev_run_id e = run_id r" "ev_tenant_id e = tenant_id r"
    using assms(5) by (auto simp: genuine_def)
  have "trail_ok (es @ [e]) r"
    using fresh gen assms by (simp add: trail_ok_def)
  moreover have "trail_ok (es @ [e]) x" if "x \<in> set rs" for x
    using that assms gen by (auto simp: trail_inv_def trail_ok_def image_iff)
  ultimately show ?thesis
    using assms(1,2) gen by (auto simp: trail_inv_def event_owned_def)
qed

text \<open>One transition of one row, recorded by one event.\<close>

lemma trail_inv_advance:
  assumes inv: "trail_inv rs es"
    and sel: "select_one (run_matches p rid st v) rs = Some r"
    and f: "run_id (f r) = run_id r" "tenant_id (f r) = tenant_id r" "state (f r) = target"
      "state_version (f r) = Suc (state_version r)"
    and ok: "can_transition st target"
    and e: "e = \<lparr>ev_run_id = rid, ev_tenant_id = principal_tenant p, event_type = et,
              from_state = Some st, to_state = Some target, ev_actor_id = a, payload = pl,
              occurred_at = now\<rparr>"
  shows "trail_inv (update_where (run_matches p rid st v) f rs) (es @ [e])"
proof -
  note r = run_matches_select [OF sel]
  have key: "keyed run_id rs" using inv by (simp add: trail_inv_def)
  let ?rs = "map (\<lambda>x. if x = r then f x else x) rs"
  have upd: "update_where (run_matches p rid st v) f rs = ?rs"
    by (rule update_one_row [OF key sel])
  have ids: "map run_id ?rs = map run_id rs" using f(1) by auto
  have gen: "genuine e" using ok e by (auto simp: genuine_def)
  have owned: "event_owned ?rs x" if "event_owned rs x" for x
  proof -
    from that obtain y where y: "y \<in> set rs" "run_id y = ev_run_id x" "tenant_id y = ev_tenant_id x"
      by (auto simp: event_owned_def)
    then show ?thesis
      using f(1,2) unfolding event_owned_def
      by (intro bexI [of _ "if y = r then f y else y"]) auto
  qed
  have own_e: "event_owned ?rs e"
    using r e f(1,2) by (force simp: event_owned_def)
  have "trail_ok (es @ [e]) (f r)"
    using inv r f ok gen e by (auto simp: trail_inv_def trail_ok_def chain_snoc)
  moreover have "trail_ok (es @ [e]) x" if "x \<in> set rs" "x \<noteq> r" for x
  proof -
    have "run_id x \<noteq> rid" using that r keyed_unique [OF key] by metis
    with inv that e show ?thesis by (auto simp: trail_inv_def trail_ok_def)
  qed
  ultimately have "\<forall>x \<in> set ?rs. trail_ok (es @ [e]) x" by auto
  moreover have "keyed run_id ?rs" unfolding ids by (rule key)
  moreover have "\<forall>x \<in> set (es @ [e]). event_owned ?rs x"
    using inv owned own_e by (simp add: trail_inv_def)
  ultimately show ?thesis
    unfolding upd trail_inv_def by blast
qed

text \<open>Rows whose identity fields survive an update keep what keys and events say of them.\<close>

definition same_run :: "RunRecord \<Rightarrow> RunRecord \<Rightarrow> bool" where
  "same_run r r' \<longleftrightarrow> run_id r' = run_id r \<and> tenant_id r' = tenant_id r
     \<and> requested_by r' = requested_by r \<and> assigned_reviewer_id r' = assigned_reviewer_id r
     \<and> request_hash r' = request_hash r \<and> run_mode r' = run_mode r
     \<and> run_sku_id r' = run_sku_id r \<and> run_store_id r' = run_store_id r
     \<and> run_supplier_id r' = run_supplier_id r \<and> as_of_ts r' = as_of_ts r
     \<and> window_start r' = window_start r \<and> window_end r' = window_end r"

lemma same_run_move [simp]: "same_run r (move_to t now r)"
  by (simp add: same_run_def move_to_def)

lemma same_run_draft [simp]: "same_run r (with_draft d h now x (move_to t now' r))"
  by (simp add: same_run_def move_to_def with_draft_def)

lemma run_ids_update:
  assumes "\<And>x. x \<in> set rs \<Longrightarrow> P x \<Longrightarrow> run_id (f x) = run_id x"
  shows "run_id ` set (update_where P f rs) = run_id ` set rs"
proof -
  have "map run_id (update_where P f rs) = map run_id rs"
    using assms by (induction rs) auto
  from arg_cong [OF this, of set] show ?thesis by simp
qed

lemma tool_inv_update:
  assumes "tool_inv rs ts" and "\<And>x. x \<in> set rs \<Longrightarrow> P x \<Longrightarrow> same_run x (f x)"
  shows "tool_inv (update_where P f rs) ts"
  using assms(1) run_ids_update [of rs P f] assms(2) by (simp add: tool_inv_def same_run_def)

lemma idem_inv_update:
  assumes "idem_inv rs is" and "\<And>x. x \<in> set rs \<Longrightarrow> P x \<Longrightarrow> same_run x (f x)"
  shows "idem_inv (update_where P f rs) is"
proof -
  have "idem_ok (update_where P f rs) i" if "idem_ok rs i" for i
  proof -
    from that obtain r where r: "r \<in> set rs" "run_id r = idem_run_id i"
        "tenant_id r = idem_tenant_id i" "request_hash r = idem_payload_hash i"
      by (auto simp: idem_ok_def)
    have "same_run r (if P r then f r else r)"
      using assms(2) r(1) by (auto simp: same_run_def)
    with r show ?thesis
      unfolding idem_ok_def
      by (intro bexI [of _ "if P r then f r else r"])
         (auto simp: same_run_def set_update_where)
  qed
  with assms(1) show ?thesis by (auto simp: idem_inv_def)
qed

text \<open>A transition that neither starts at nor reaches a decided state leaves the gate shut.\<close>

definition machine_states :: "RunState set" where
  "machine_states =
     {CREATED, VALIDATING, GATHERING_EVIDENCE, QUALITY_CHECKS, REASONING, DRAFTING_RECOMMENDATION}"

lemma machine_target:
  "st \<in> machine_states \<Longrightarrow> can_transition st target \<Longrightarrow>
     target \<notin> {APPROVED, EDITED_AND_APPROVED, REJECTED, CLOSED}"
  by (auto simp: machine_states_def can_transition_def)

lemma gate_inv_advance:
  assumes inv: "gate_inv rs ds"
    and P: "\<And>x. P x \<Longrightarrow> state x \<noteq> CLOSED"
    and f: "\<And>x. state (f x) \<notin> {APPROVED, EDITED_AND_APPROVED, REJECTED, CLOSED}"
  shows "gate_inv (update_where P f rs) ds"
proof -
  have "\<exists>r \<in> set (update_where P f rs). decided_run d r" if "d \<in> set ds" for d
  proof -
    from inv that obtain r where r: "r \<in> set rs" "decided_run d r" by (auto simp: gate_inv_def)
    then have "\<not> P r" using P by (auto simp: decided_run_def)
    with r show ?thesis by (force simp: set_update_where)
  qed
  moreover have "run_gated ds r" if "r \<in> set (update_where P f rs)" for r
    using that inv f by (auto simp: set_update_where run_gated_def gate_inv_def split: if_splits)
  ultimately show ?thesis using inv by (auto simp: gate_inv_def)
qed

subsection \<open>Every operation keeps it\<close>

lemma preserves_get_run [pres]: "preserves P (get_run p rid)"
  by (rule preservesI) (simp add: get_run_def returnE_def raiseE_def split: option.splits)

lemma get_run_Inr:
  "get_run p rid db = (Inr r, db') \<Longrightarrow>
     db' = db \<and> r \<in> set (runs db) \<and> run_id r = rid \<and> tenant_id r = principal_tenant p"
  by (auto simp: get_run_def returnE_def raiseE_def dest: run_visible_select split: option.splits)

lemma preserves_append_rejected [pres]: "preserves repo_inv (append_rejected_control p rid code now)"
proof (rule preservesI)
  fix db assume inv: "repo_inv db"
  show "repo_inv (snd (append_rejected_control p rid code now db))"
  proof (cases "select_one (run_visible p rid) (runs db)")
    case None
    with inv show ?thesis
      by (simp add: append_rejected_control_def get_run_def bindE_def raiseE_def)
  next
    case (Some r)
    with inv run_visible_select [OF Some] show ?thesis
      by (auto simp: append_rejected_control_def get_run_def reject_control_def bindE_def
            returnE_def intro!: repo_inv_control_event)
  qed
qed

lemma preserves_reject_control:
  "repo_inv db \<Longrightarrow> run \<in> set (runs db') \<Longrightarrow> tenant_id run = principal_tenant p \<Longrightarrow>
     \<exists>r \<in> set (runs db). run_id r = run_id run \<and> tenant_id r = tenant_id run \<Longrightarrow>
     repo_inv (snd (reject_control p code now run db))"
  by (auto simp: reject_control_def returnE_def intro!: repo_inv_control_event)

lemma preserves_observe_intake [pres]: "preserves repo_inv (observe_intake p phash now existing)"
proof (rule preservesI)
  fix db assume "repo_inv db"
  then show "repo_inv (snd (observe_intake p phash now existing db))"
    by (auto simp: observe_intake_def raiseE_def returnE_def
          dest!: run_visible_select intro!: repo_inv_control_event split: option.split)
qed

lemma repo_inv_create:
  assumes "repo_inv db" and "uuid \<notin> run_id ` set (runs db)" and "select_idempotency p key db = None"
    and "r = new_run p req phash reviewer now mode uuid"
    and "i = \<lparr>idem_tenant_id = principal_tenant p, idem_key = key, idem_payload_hash = phash,
              idem_run_id = uuid, idem_created_at = now\<rparr>"
  shows "repo_inv (insert_event uuid (principal_tenant p) ''run_created'' None (Some CREATED) a pl now
           (db\<lparr>runs := runs db @ [r], idempotency := idempotency db @ [i]\<rparr>))"
proof -
  have r: "run_id r = uuid" "tenant_id r = principal_tenant p" "state r = CREATED"
    "state_version r = 0" "request_hash r = phash"
    using assms(4) by (simp_all add: new_run_def)
  have "trail_inv (runs db @ [r]) (events db @
      [\<lparr>ev_run_id = uuid, ev_tenant_id = principal_tenant p, event_type = ''run_created'',
        from_state = None, to_state = Some CREATED, ev_actor_id = a, payload = pl, occurred_at = now\<rparr>])"
    using assms(1,2) r by (intro trail_inv_create) (auto simp: repo_inv_def)
  moreover have "idem_inv (runs db @ [r]) (idempotency db @ [i])"
    using assms(1,3,5) r
    by (auto simp: repo_inv_def idem_inv_def idem_ok_def select_idempotency_def
          select_one_None_iff idem_matches_def)
  moreover have "tool_inv (runs db @ [r]) (tools db)"
    using assms(1) by (auto simp: repo_inv_def tool_inv_def)
  moreover have "gate_inv (runs db @ [r]) (decisions db)"
    using assms(1) r by (auto simp: repo_inv_def gate_inv_def run_gated_def)
  ultimately show ?thesis
    using assms(1) by (simp add: repo_inv_def insert_event_def)
qed

lemma preserves_begin_intake_after_select [pres]:
  "preserves repo_inv (begin_intake_after_select seen p req key phash reviewer now mode uuid)"
proof (rule preservesI)
  fix db assume inv: "repo_inv db"
  note obs = preservesD [OF preserves_observe_intake inv]
  show "repo_inv (snd (begin_intake_after_select seen p req key phash reviewer now mode uuid db))"
  proof (cases seen)
    case (Some existing)
    then show ?thesis by (simp add: begin_intake_after_select_def obs)
  next
    case None
    show ?thesis
      using inv
      by (auto simp: begin_intake_after_select_def None Let_def raiseE_def returnE_def obs
            intro!: repo_inv_create split: option.split)
  qed
qed

lemma preserves_begin_intake [pres]:
  "preserves repo_inv (begin_intake p req key phash reviewer now mode uuid)"
  by (rule preservesI)
     (simp add: begin_intake_def preservesD [OF preserves_begin_intake_after_select])

lemma preserves_state_conflict [pres]: "preserves repo_inv (state_conflict p run now)"
  unfolding state_conflict_def by (intro pres)

text \<open>The update of a transition, whatever else it sets.\<close>

lemma repo_inv_advance:
  assumes inv: "repo_inv db"
    and sel: "select_one (run_matches p rid st v) (runs db) = Some r"
    and f: "\<And>x. same_run x (f x) \<and> state (f x) = target \<and> state_version (f x) = Suc (state_version x)"
    and st: "st \<in> machine_states" and ok: "can_transition st target"
  shows "repo_inv (insert_event rid (principal_tenant p) et (Some st) (Some target) a pl now
           (db\<lparr>runs := update_where (run_matches p rid st v) f (runs db)\<rparr>))"
proof -
  let ?rs = "update_where (run_matches p rid st v) f (runs db)"
  have "trail_inv ?rs (events db @
      [\<lparr>ev_run_id = rid, ev_tenant_id = principal_tenant p, event_type = et, from_state = Some st,
        to_state = Some target, ev_actor_id = a, payload = pl, occurred_at = now\<rparr>])"
    using inv f [of r] by (intro trail_inv_advance [OF _ sel _ _ _ _ ok])
      (auto simp: repo_inv_def same_run_def)
  moreover have "idem_inv ?rs (idempotency db)"
    using inv f by (intro idem_inv_update) (auto simp: repo_inv_def)
  moreover have "tool_inv ?rs (tools db)"
    using inv f by (intro tool_inv_update) (auto simp: repo_inv_def)
  moreover have "gate_inv ?rs (decisions db)"
    using inv f machine_target [OF st ok] st
    by (intro gate_inv_advance) (auto simp: repo_inv_def run_matches_def machine_states_def)
  ultimately show ?thesis
    using inv by (simp add: repo_inv_def insert_event_def)
qed

lemma idle_update: "select_one P xs = None \<Longrightarrow> update_where P f xs = xs"
  by (rule update_where_idle) (simp add: select_one_None_iff)

lemma update_run_cases:
  obtains (none) "update_run P f db = (None, db)" "select_one P (runs db) = None"
  | (some) r where "update_run P f db = (Some (f r), db\<lparr>runs := update_where P f (runs db)\<rparr>)"
      "select_one P (runs db) = Some r"
  by (cases "select_one P (runs db)") (simp_all add: update_run_def idle_update)

lemma preserves_transition:
  assumes "state run \<in> machine_states"
  shows "preserves repo_inv (transition p run target et now pl)"
proof (rule preservesI)
  fix db assume inv: "repo_inv db"
  show "repo_inv (snd (transition p run target et now pl db))"
  proof (cases "can_transition (state run) target")
    case False
    have "preserves repo_inv (bindE (append_rejected_control p (run_id run) ''INVALID_TRANSITION'' now)
        (\<lambda>_. raiseE e :: (run_db, RunRecord) comp))" for e
      by (intro pres)
    from preservesD [OF this inv] False show ?thesis by (simp add: transition_def)
  next
    case True
    show ?thesis
    proof (cases rule: update_run_cases [of "run_matches p (run_id run) (state run) (state_version run)"
          "move_to target now" db])
      case none
      with True show ?thesis
        by (simp add: transition_def preservesD [OF preserves_state_conflict inv])
    next
      case (some r)
      have "same_run x (move_to target now x) \<and> state (move_to target now x) = target
          \<and> state_version (move_to target now x) = Suc (state_version x)" for x
        by (simp add: move_to_def same_run_def)
      from repo_inv_advance [OF inv some(2) this assms True] True some(1) show ?thesis
        by (simp add: transition_def returnE_def)
    qed
  qed
qed

lemma into_awaiting: "can_transition st AWAITING_HUMAN \<Longrightarrow> st = DRAFTING_RECOMMENDATION"
  by (cases st) (auto simp: can_transition_def)

lemma preserves_set_draft [pres]:
  "preserves repo_inv (set_draft_and_transition p run draft dhash now expires)"
proof (rule preservesI)
  fix db assume inv: "repo_inv db"
  let ?f = "with_draft draft dhash now expires \<circ> move_to AWAITING_HUMAN now"
  show "repo_inv (snd (set_draft_and_transition p run draft dhash now expires db))"
  proof (cases "can_transition (state run) AWAITING_HUMAN")
    case False
    have "preserves repo_inv (bindE (append_rejected_control p (run_id run) ''INVALID_TRANSITION'' now)
        (\<lambda>_. raiseE e :: (run_db, RunRecord) comp))" for e
      by (intro pres)
    from preservesD [OF this inv] False show ?thesis by (simp add: set_draft_and_transition_def)
  next
    case True
    show ?thesis
    proof (cases rule: update_run_cases
        [of "run_matches p (run_id run) (state run) (state_version run)" ?f db])
      case none
      with True show ?thesis
        by (simp add: set_draft_and_transition_def preservesD [OF preserves_state_conflict inv])
    next
      case (some r)
      have f: "same_run x (?f x) \<and> state (?f x) = AWAITING_HUMAN
          \<and> state_version (?f x) = Suc (state_version x)" for x
        by (simp add: move_to_def with_draft_def same_run_def)
      have "state run \<in> machine_states"
        using into_awaiting [OF True] by (simp add: machine_states_def)
      from repo_inv_advance [OF inv some(2) f this True] True some(1) inv show ?thesis
        by (simp add: set_draft_and_transition_def returnE_def raiseE_def comp_def)
    qed
  qed
qed

lemma preserves_claim [pres]: "preserves repo_inv (claim_or_observe_tool p rid t rhash now)"
  by (rule preservesI)
     (auto simp: claim_or_observe_tool_def returnE_def raiseE_def repo_inv_def tool_inv_def
        started_tool_def Let_def split: option.splits)

lemma repo_inv_release [simp]: "repo_inv (release rid t db) = repo_inv db"
  by (simp add: release_def repo_inv_def)

lemma preserves_complete_tool [pres]: "preserves repo_inv (complete_tool p rid t res md st now)"
  by (rule preservesI)
     (auto simp: complete_tool_def returnE_def raiseE_def repo_inv_def tool_inv_def map_update_where
        set_update_where)

lemma preserves_list_evidence [pres]: "preserves P (list_evidence p rid)"
  by (rule preservesI) (simp add: list_evidence_def liftE_def)

subsection \<open>Reviews\<close>

text \<open>What a successful review does to the tables.\<close>

definition decided_row :: "RunState \<Rightarrow> int \<Rightarrow> RunRecord \<Rightarrow> RunRecord" where
  "decided_row target now r = move_to CLOSED now (move_to target now r)"

definition review_events :: "Principal \<Rightarrow> RunRecord \<Rightarrow> ReviewAction \<Rightarrow> string \<Rightarrow> int \<Rightarrow> WorkflowEvent list"
where
  "review_events p r action submitted now =
     [\<lparr>ev_run_id = run_id r, ev_tenant_id = principal_tenant p, event_type = ''review_decided'',
       from_state = Some AWAITING_HUMAN, to_state = Some (review_target action),
       ev_actor_id = actor_id p,
       payload = JObj [(''action'', JStr (action_value action)), (''draft_hash'', JStr submitted)],
       occurred_at = now\<rparr>,
      \<lparr>ev_run_id = run_id r, ev_tenant_id = principal_tenant p, event_type = ''run_closed'',
       from_state = Some (review_target action), to_state = Some CLOSED,
       ev_actor_id = actor_id p, payload = JObj [], occurred_at = now\<rparr>]"

lemma update_twice:
  assumes key: "keyed run_id rs" and r: "r \<in> set rs"
    and f: "\<And>x. run_id (f x) = run_id x"
  shows "map (\<lambda>x. if x = f r then g x else x) (map (\<lambda>x. if x = r then f x else x) rs)
       = map (\<lambda>x. if x = r then g (f x) else x) rs"
proof -
  have "x \<noteq> f r" if "x \<in> set rs" "x \<noteq> r" for x
    using that keyed_unique [OF key that(1) r] f by metis
  then show ?thesis by auto
qed

lemma map_id_map:
  "(\<And>x. run_id (f x) = run_id x) \<Longrightarrow>
     map run_id (map (\<lambda>x. if x = r then f x else x) rs) = map run_id rs"
  by (induction rs) auto

lemma keyed_map_id:
  assumes "keyed run_id rs" and "\<And>x. run_id (f x) = run_id x"
  shows "keyed run_id (map (\<lambda>x. if x = r then f x else x) rs)"
  unfolding map_id_map [OF assms(2)] by (rule assms(1))

lemma move_to_simps [simp]:
  "run_id (move_to t n r) = run_id r" "tenant_id (move_to t n r) = tenant_id r"
  "state (move_to t n r) = t" "state_version (move_to t n r) = Suc (state_version r)"
  by (simp_all add: move_to_def)

lemma review_updates:
  assumes key: "keyed run_id rs" and r: "r \<in> set rs"
    and t: "tenant_id r = principal_tenant p" and st: "state r = AWAITING_HUMAN"
    and rs1: "rs1 = map (\<lambda>x. if x = r then move_to tgt now x else x) rs"
  shows "select_one (run_matches p (run_id r) AWAITING_HUMAN (state_version r)) rs = Some r"
    and "update_where (run_matches p (run_id r) AWAITING_HUMAN (state_version r)) (move_to tgt now) rs
       = rs1"
    and "select_one (run_matches p (run_id r) tgt (Suc (state_version r))) rs1
       = Some (move_to tgt now r)"
    and "update_where (run_matches p (run_id r) tgt (Suc (state_version r))) (move_to CLOSED now) rs1
       = map (\<lambda>x. if x = r then decided_row tgt now x else x) rs"
proof -
  show s1: "select_one (run_matches p (run_id r) AWAITING_HUMAN (state_version r)) rs = Some r"
    using select_run_matches [OF key r] t st by (simp add: run_matches_def)
  show "update_where (run_matches p (run_id r) AWAITING_HUMAN (state_version r)) (move_to tgt now) rs
       = rs1"
    unfolding rs1 by (rule update_one_row [OF key s1])
  have key1: "keyed run_id rs1" unfolding rs1 by (rule keyed_map_id [OF key]) simp
  have "move_to tgt now r \<in> set rs1" using r unfolding rs1 by force
  then show s2: "select_one (run_matches p (run_id r) tgt (Suc (state_version r))) rs1
       = Some (move_to tgt now r)"
    using select_run_matches [OF key1, of "move_to tgt now r"] t by (simp add: run_matches_def)
  show "update_where (run_matches p (run_id r) tgt (Suc (state_version r))) (move_to CLOSED now) rs1
       = map (\<lambda>x. if x = r then decided_row tgt now x else x) rs"
    unfolding update_one_row [OF key1 s2] unfolding decided_row_def rs1
    by (rule update_twice [OF key r]) simp
qed

lemma decide_and_close_result:
  assumes "keyed run_id (runs db)" and "r \<in> set (runs db)"
    and "tenant_id r = principal_tenant p" and "state r = AWAITING_HUMAN"
  shows "decide_and_close p r d submitted now db =
    (Inr (decided_row (review_target (dec_action d)) now r),
     db\<lparr>runs := map (\<lambda>x. if x = r then decided_row (review_target (dec_action d)) now x else x) (runs db),
        events := events db @ review_events p r (dec_action d) submitted now,
        decisions := decisions db @ [d]\<rparr>)"
  using review_updates [where tgt = "review_target (dec_action d)" and now = now, OF assms refl]
  by (simp add: decide_and_close_def Let_def update_run_def insert_event_def returnE_def
      review_events_def decided_row_def)

lemma review_target_steps:
  "can_transition AWAITING_HUMAN (review_target a)" "can_transition (review_target a) CLOSED"
  by (cases a; simp add: can_transition_def)+

lemma trail_inv_decide:
  assumes inv: "trail_inv rs es" and r: "r \<in> set rs"
    and t: "tenant_id r = principal_tenant p" and st: "state r = AWAITING_HUMAN"
  shows "trail_inv (map (\<lambda>x. if x = r then decided_row (review_target a) now x else x) rs)
           (es @ review_events p r a submitted now)"
proof -
  have key: "keyed run_id rs" using inv by (simp add: trail_inv_def)
  note u = review_updates [where tgt = "review_target a" and now = now, OF key r t st refl]
  note first = trail_inv_advance [OF inv u(1) _ _ _ _ review_target_steps(1) refl,
      where f = "move_to (review_target a) now", unfolded u(2)]
  note second = trail_inv_advance [OF first u(3) _ _ _ _ review_target_steps(2) refl,
      where f = "move_to CLOSED now", unfolded u(4)]
  show ?thesis
    unfolding review_events_def using second by simp
qed

lemma review_refusal_None:
  "review_refusal p r existing submitted now = None \<longleftrightarrow>
     run_mode r \<noteq> Shadow \<and> existing = None \<and> state r = AWAITING_HUMAN
     \<and> actor_id p = assigned_reviewer_id r \<and> draft_hash r = Some submitted
     \<and> (\<exists>t. review_expires_at r = Some t \<and> now \<le> t)"
  by (auto simp: review_refusal_def split: option.splits)

text \<open>The four ways \<open>record_review\<close> can end.\<close>

lemma record_review_cases:
  assumes "keyed run_id (runs db)"
  obtains (missing) "record_review p rid key action submitted edited ehash reason now db
        = (Inl NotFoundError, db)" "select_one (run_visible p rid) (runs db) = None"
  | (refused) r code err where
      "select_one (run_visible p rid) (runs db) = Some r"
      "review_refusal p r (get_decision p rid db) submitted now = Some (code, err)"
      "record_review p rid key action submitted edited ehash reason now db =
         (Inl err, insert_event rid (principal_tenant p) ''review_rejected''
            (Some (state r)) (Some (state r)) (actor_id p) (JObj [(''code'', JStr code)]) now db)"
  | (constraint) "record_review p rid key action submitted edited ehash reason now db
        = (Inl (DatabaseError ''constraint violation''), db)"
  | (decided) r d where
      "select_one (run_visible p rid) (runs db) = Some r"
      "review_refusal p r (get_decision p rid db) submitted now = None"
      "d = new_decision p r key action submitted edited ehash reason now"
      "decision_checks d db"
      "record_review p rid key action submitted edited ehash reason now db =
         (Inr (decided_row (review_target action) now r),
          db\<lparr>runs := map (\<lambda>x. if x = r then decided_row (review_target action) now x else x) (runs db),
             events := events db @ review_events p r action submitted now,
             decisions := decisions db @ [d]\<rparr>)"
proof (cases "select_one (run_visible p rid) (runs db)")
  case None
  with missing show ?thesis by (simp add: record_review_def raiseE_def)
next
  case (Some r)
  note r = run_visible_select [OF Some]
  show ?thesis
  proof (cases "review_refusal p r (get_decision p rid db) submitted now")
    case (Some ce)
    with r \<open>select_one _ _ = Some r\<close> show ?thesis
      by (cases ce) (auto simp: record_review_def raiseE_def intro: refused)
  next
    case None
    let ?d = "new_decision p r key action submitted edited ehash reason now"
    show ?thesis
    proof (cases "decision_checks ?d db")
      case False
      with r None \<open>select_one _ _ = Some r\<close> constraint show ?thesis
        by (simp add: record_review_def raiseE_def Let_def)
    next
      case True
      have "state r = AWAITING_HUMAN" using None by (simp add: review_refusal_None)
      from decide_and_close_result [OF assms _ _ this, of p ?d submitted now] r
      have "record_review p rid key action submitted edited ehash reason now db =
         (Inr (decided_row (review_target action) now r),
          db\<lparr>runs := map (\<lambda>x. if x = r then decided_row (review_target action) now x else x) (runs db),
             events := events db @ review_events p r action submitted now,
             decisions := decisions db @ [?d]\<rparr>)"
        using None True \<open>select_one _ _ = Some r\<close>
        by (simp add: record_review_def Let_def new_decision_def)
      with decided [OF Some None refl True] show ?thesis by blast
    qed
  qed
qed

lemma decided_row_simps [simp]:
  "run_id (decided_row t n r) = run_id r" "tenant_id (decided_row t n r) = tenant_id r"
  "state (decided_row t n r) = CLOSED" "same_run r (decided_row t n r)"
  "draft_hash (decided_row t n r) = draft_hash r"
  "review_expires_at (decided_row t n r) = review_expires_at r"
  "draft_json (decided_row t n r) = draft_json r"
  "state_version (decided_row t n r) = state_version r + 2"
  by (simp_all add: decided_row_def move_to_def same_run_def)

lemma gate_inv_decide:
  assumes inv: "gate_inv rs ds" and r: "r \<in> set rs" and st: "state r = AWAITING_HUMAN"
    and d: "dec_run_id d \<notin> dec_run_id ` set ds" "decided_run d (decided_row tgt now r)"
  shows "gate_inv (map (\<lambda>x. if x = r then decided_row tgt now x else x) rs) (ds @ [d])"
proof -
  let ?rs = "map (\<lambda>x. if x = r then decided_row tgt now x else x) rs"
  have "\<exists>x \<in> set ?rs. decided_run e x" if e: "e \<in> set ds" for e
  proof -
    from inv e obtain x where x: "x \<in> set rs" "decided_run e x" by (auto simp: gate_inv_def)
    then have "x \<noteq> r" using st by (auto simp: decided_run_def)
    with x show ?thesis by force
  qed
  moreover have "decided_row tgt now r \<in> set ?rs" using r by force
  moreover have "run_gated (ds @ [d]) x" if "x \<in> set ?rs" for x
    using that inv d r by (auto simp: gate_inv_def run_gated_def decided_run_def)
  ultimately show ?thesis
    using inv d unfolding gate_inv_def by auto
qed

lemma preserves_record_review [pres]:
  "preserves repo_inv (record_review p rid key action submitted edited ehash reason now)"
proof (rule preservesI)
  fix db assume inv: "repo_inv db"
  then have keyed: "keyed run_id (runs db)" by (simp add: repo_inv_def trail_inv_def)
  from keyed show "repo_inv (snd (record_review p rid key action submitted edited ehash reason now db))"
  proof (cases rule: record_review_cases [where p = p and rid = rid and key = key and action = action
        and submitted = submitted and edited = edited and ehash = ehash and reason = reason and now = now])
    case missing
    with inv show ?thesis by simp
  next
    case (refused r code err)
    with inv run_visible_select [OF refused(1)] show ?thesis
      by (auto intro!: repo_inv_control_event)
  next
    case constraint
    with inv show ?thesis by simp
  next
    case (decided r d)
    note r = run_visible_select [OF decided(1)]
    note ok = decided(2) [unfolded review_refusal_None]
    have "decided_run d (decided_row (review_target action) now r)"
      using r ok decided(3) by (auto simp: decided_run_def new_decision_def decided_row_def move_to_def)
    then have "gate_inv (map (\<lambda>x. if x = r then decided_row (review_target action) now x else x) (runs db))
        (decisions db @ [d])"
      using inv r ok decided(4) by (intro gate_inv_decide) (auto simp: repo_inv_def decision_checks_def)
    moreover have "idem_inv (map (\<lambda>x. if x = r then decided_row (review_target action) now x else x) (runs db))
        (idempotency db)"
      using idem_inv_update [of "runs db" "idempotency db" "\<lambda>x. x = r" "decided_row (review_target action) now"]
        inv by (simp add: repo_inv_def update_where_def)
    moreover have "tool_inv (map (\<lambda>x. if x = r then decided_row (review_target action) now x else x) (runs db))
        (tools db)"
      using tool_inv_update [of "runs db" "tools db" "\<lambda>x. x = r" "decided_row (review_target action) now"]
        inv by (simp add: repo_inv_def update_where_def)
    ultimately show ?thesis
      using inv r ok decided(5) by (auto simp: repo_inv_def intro: trail_inv_decide)
  qed
qed

end
