(* ===== verification/RunHistory.thy ===== *)
theory RunHistory
  imports RunInvariants
begin

section \<open>The history of the run tables under any sequence of operations\<close>

text \<open>
  The order every operation of the repository moves the database up in, the operations as one
  step function, and the interpretation of the invariant and progress contracts on it. The
  properties of the repository follow.
\<close>

subsection \<open>Progress\<close>

definition run_advanced :: "RunRecord \<Rightarrow> RunRecord \<Rightarrow> bool" where
  "run_advanced r r' \<longleftrightarrow> same_run r r'
     \<and> (\<exists>ts. path (state r) ts (state r') \<and> state_version r' = state_version r + length ts
            \<and> (ts = [] \<longrightarrow> r' = r))"

definition runs_advanced :: "RunRecord list \<Rightarrow> RunRecord list \<Rightarrow> bool" where
  "runs_advanced rs rs' \<longleftrightarrow> (\<forall>r \<in> set rs. \<exists>r' \<in> set rs'. run_advanced r r')"

definition tool_keys :: "ToolRow list \<Rightarrow> (string \<times> ToolName) list" where
  "tool_keys ts = map (\<lambda>x. (tool_run_id x, tool_name x)) ts"

definition repo_before :: "run_db \<Rightarrow> run_db \<Rightarrow> bool" where
  "repo_before s t \<longleftrightarrow> prefix (events s) (events t) \<and> prefix (decisions s) (decisions t)
     \<and> prefix (idempotency s) (idempotency t) \<and> prefix (tool_keys (tools s)) (tool_keys (tools t))
     \<and> runs_advanced (runs s) (runs t)"

lemma same_run_refl [simp]: "same_run r r"
  by (simp add: same_run_def)

lemma same_run_trans: "same_run r s \<Longrightarrow> same_run s t \<Longrightarrow> same_run r t"
  by (simp add: same_run_def)

lemma run_advanced_refl [simp]: "run_advanced r r"
  by (auto simp: run_advanced_def intro: exI [of _ "[]"])

lemma run_advanced_by:
  "path (state r) (t # ts) (state r') \<Longrightarrow> same_run r r'
     \<Longrightarrow> state_version r' = state_version r + length (t # ts) \<Longrightarrow> run_advanced r r'"
  by (auto simp: run_advanced_def intro!: exI [of _ "t # ts"])

lemma run_advanced_trans:
  assumes "run_advanced r s" and "run_advanced s t"
  shows "run_advanced r t"
proof -
  from assms(1) obtain ts where ts: "path (state r) ts (state s)"
      "state_version s = state_version r + length ts" "ts = [] \<longrightarrow> s = r" "same_run r s"
    by (auto simp: run_advanced_def)
  from assms(2) obtain us where us: "path (state s) us (state t)"
      "state_version t = state_version s + length us" "us = [] \<longrightarrow> t = s" "same_run s t"
    by (auto simp: run_advanced_def)
  have "path (state r) (ts @ us) (state t)" by (rule path_append [OF ts(1) us(1)])
  moreover have "state_version t = state_version r + length (ts @ us)" using ts(2) us(2) by simp
  moreover have "ts @ us = [] \<longrightarrow> t = r" using ts(3) us(3) by simp
  moreover have "same_run r t" by (rule same_run_trans [OF ts(4) us(4)])
  ultimately show ?thesis unfolding run_advanced_def by blast
qed

lemma runs_advanced_refl [simp]: "runs_advanced rs rs"
  unfolding runs_advanced_def using run_advanced_refl by metis

lemma runs_advanced_trans: "runs_advanced rs ss \<Longrightarrow> runs_advanced ss ts \<Longrightarrow> runs_advanced rs ts"
  unfolding runs_advanced_def by (meson run_advanced_trans)

lemma runs_advanced_append [simp]: "runs_advanced rs (rs @ ss)"
  unfolding runs_advanced_def using run_advanced_refl by (metis Un_iff set_append)

lemma runs_advanced_map:
  assumes "\<And>x. x \<in> set rs \<Longrightarrow> run_advanced x (f x)"
  shows "runs_advanced rs (map f rs)"
  using assms by (auto simp: runs_advanced_def)

lemma repo_before_refl [simp]: "repo_before s s"
  by (simp add: repo_before_def)

lemma repo_before_trans: "repo_before s t \<Longrightarrow> repo_before t u \<Longrightarrow> repo_before s u"
  unfolding repo_before_def by (meson prefix_order.trans runs_advanced_trans)

lemma repo_before_event [simp]: "repo_before db (insert_event rid t et f u a pl now db)"
  by (simp add: repo_before_def insert_event_def)

lemma tool_keys_complete:
  "(\<And>x. tool_run_id (f x) = tool_run_id x \<and> tool_name (f x) = tool_name x) \<Longrightarrow>
     tool_keys (update_where P f ts) = tool_keys ts"
  by (simp add: tool_keys_def map_update_where)

text \<open>A step that only appends events, rows or keys, or takes rows one transition on.\<close>

lemma repo_before_step:
  assumes "runs_advanced (runs s) (runs t)" and "events t = events s @ es"
    and "decisions t = decisions s @ ds" and "idempotency t = idempotency s @ is"
    and "tool_keys (tools t) = tool_keys (tools s) @ ks"
  shows "repo_before s t"
  using assms by (simp add: repo_before_def)

subsection \<open>Every operation moves forward\<close>

lemma before_append_rejected: "repo_before db (snd (append_rejected_control p rid code now db))"
  by (simp add: append_rejected_control_def get_run_def reject_control_def comp_defs split: option.split)

lemma before_state_conflict: "repo_before db (snd (state_conflict p run now db))"
  using before_append_rejected [of db p "run_id run" "''STATE_VERSION_CONFLICT''" now]
  by (auto simp: state_conflict_def comp_defs split: prod.splits sum.splits)

lemma before_invalid:
  "repo_before db (snd (bindE (append_rejected_control p rid code now) (\<lambda>_. raiseE e) db))"
  using before_append_rejected [of db p rid code now]
  by (auto simp: comp_defs split: prod.splits sum.splits)

lemma before_begin_intake_after_select:
  "repo_before db (snd (begin_intake_after_select seen p req key phash reviewer now mode uuid db))"
proof -
  have obs: "repo_before db (snd (observe_intake p phash now e db))" for e
    by (simp add: observe_intake_def comp_defs split: option.split)
  show ?thesis
    by (auto simp: begin_intake_after_select_def Let_def raiseE_def returnE_def obs insert_event_def
        intro!: repo_before_step split: option.split)
qed

lemma before_update:
  assumes "\<And>x. same_run x (f x) \<and> state (f x) = target \<and> state_version (f x) = Suc (state_version x)"
    and "can_transition st target"
  shows "repo_before db (insert_event rid t et a b ac pl now
           (db\<lparr>runs := update_where (run_matches p rid' st v) f (runs db)\<rparr>))"
proof (rule repo_before_step)
  have "run_advanced x (if run_matches p rid' st v x then f x else x)" for x
    using assms by (auto simp: run_matches_def intro!: run_advanced_by [of _ target "[]"])
  then show "runs_advanced (runs db) (runs (insert_event rid t et a b ac pl now
      (db\<lparr>runs := update_where (run_matches p rid' st v) f (runs db)\<rparr>)))"
    by (simp add: insert_event_def update_where_def runs_advanced_map)
qed (simp_all add: insert_event_def)

lemma before_transition: "repo_before db (snd (transition p run target et now pl db))"
proof (cases "can_transition (state run) target")
  case False
  then show ?thesis by (simp add: transition_def before_invalid)
next
  case True
  note upd = before_update [OF _ True, where f = "move_to target now"]
  show ?thesis
    by (cases rule: update_run_cases [of "run_matches p (run_id run) (state run) (state_version run)"
          "move_to target now" db])
      (simp_all add: transition_def True returnE_def before_state_conflict upd)
qed

lemma before_set_draft: "repo_before db (snd (set_draft_and_transition p run draft dhash now expires db))"
proof (cases "can_transition (state run) AWAITING_HUMAN")
  case False
  then show ?thesis by (simp add: set_draft_and_transition_def before_invalid)
next
  case True
  let ?f = "with_draft draft dhash now expires \<circ> move_to AWAITING_HUMAN now"
  have f: "same_run x (?f x) \<and> state (?f x) = AWAITING_HUMAN
      \<and> state_version (?f x) = Suc (state_version x)" for x
    by (simp add: move_to_def with_draft_def same_run_def)
  note upd = before_update [OF f True]
  show ?thesis
    by (cases rule: update_run_cases [of "run_matches p (run_id run) (state run) (state_version run)" ?f db])
      (simp_all add: set_draft_and_transition_def True returnE_def raiseE_def before_state_conflict upd
        del: comp_apply)
qed

lemma before_claim: "repo_before db (snd (claim_or_observe_tool p rid t rhash now db))"
  by (auto simp: claim_or_observe_tool_def returnE_def raiseE_def Let_def tool_keys_def
      intro: repo_before_step split: option.split)

lemma before_release: "repo_before db (release rid t db)"
  by (simp add: release_def repo_before_def)

lemma before_complete: "repo_before db (snd (complete_tool p rid t res md st now db))"
  by (auto simp: complete_tool_def returnE_def raiseE_def repo_before_def tool_keys_complete)

lemma before_record_review:
  assumes "repo_inv db"
  shows "repo_before db (snd (record_review p rid key action submitted edited ehash reason now db))"
proof -
  have keyed: "keyed run_id (runs db)" using assms by (simp add: repo_inv_def trail_inv_def)
  from keyed show ?thesis
  proof (cases rule: record_review_cases [where p = p and rid = rid and key = key and action = action
        and submitted = submitted and edited = edited and ehash = ehash and reason = reason and now = now])
    case (decided r d)
    then have "state r = AWAITING_HUMAN" by (simp add: review_refusal_None)
    then have "run_advanced x (if x = r then decided_row (review_target action) now x else x)" for x
      using review_target_steps [of action]
      by (auto intro!: run_advanced_by [of _ "review_target action" "[CLOSED]"])
    then show ?thesis
      unfolding decided(5) by (intro repo_before_step) (auto intro: runs_advanced_map)
  qed simp_all
qed

subsection \<open>The operations as steps\<close>

text \<open>
  A call of any of the repository's operations, by any principal and with any arguments. The
  runs that \<open>transition\<close> and \<open>set_draft_and_transition\<close> take are snapshots that may be out of
  date; the service transitions only from the states its resume loop drives
  (\<open>machine_states\<close>), which is the guard of \<open>OpTransition\<close>. A claim that still waits for its
  lock has done nothing yet. \<open>OpBeginIntakeRaced\<close> is an
  intake whose first select saw no key although one may exist by now.
\<close>

datatype repo_op =
    OpBeginIntake Principal IntakeRequest string string string int RunMode string
  | OpBeginIntakeRaced Principal IntakeRequest string string string int RunMode string
  | OpRejectControl Principal string string int
  | OpTransition Principal RunRecord RunState string int "json option"
  | OpSetDraft Principal RunRecord json string int int
  | OpClaim Principal string ToolName string int
  | OpRelease string ToolName
  | OpComplete Principal string ToolName "json option" json ToolStatus int
  | OpReview Principal string string ReviewAction string "json option" "string option" "string option" int

fun repo_step :: "repo_op \<Rightarrow> run_db \<Rightarrow> run_db" where
  "repo_step (OpBeginIntake p req key h rv now mode uuid) db =
     snd (begin_intake p req key h rv now mode uuid db)"
| "repo_step (OpBeginIntakeRaced p req key h rv now mode uuid) db =
     snd (begin_intake_after_select None p req key h rv now mode uuid db)"
| "repo_step (OpRejectControl p rid code now) db = snd (append_rejected_control p rid code now db)"
| "repo_step (OpTransition p run target et now pl) db =
     (if state run \<in> machine_states then snd (transition p run target et now pl db) else db)"
| "repo_step (OpSetDraft p run draft h now x) db = snd (set_draft_and_transition p run draft h now x db)"
| "repo_step (OpClaim p rid t h now) db =
     snd (claim_or_observe_tool p rid t h now db)"
| "repo_step (OpRelease rid t) db = release rid t db"
| "repo_step (OpComplete p rid t res md st now) db = snd (complete_tool p rid t res md st now db)"
| "repo_step (OpReview p rid key a h ed eh rs now) db =
     snd (record_review p rid key a h ed eh rs now db)"

lemma repo_step_inv: "repo_inv db \<Longrightarrow> repo_inv (repo_step op db)"
  by (cases op)
     (simp_all add: preservesD [OF preserves_begin_intake] preservesD [OF preserves_begin_intake_after_select]
        preservesD [OF preserves_append_rejected] preservesD [OF preserves_transition]
        preservesD [OF preserves_set_draft] preservesD [OF preserves_claim]
        preservesD [OF preserves_complete_tool] preservesD [OF preserves_record_review])

lemma repo_step_before: "repo_inv db \<Longrightarrow> repo_before db (repo_step op db)"
  by (cases op)
     (simp_all add: begin_intake_def before_begin_intake_after_select before_append_rejected
        before_transition before_set_draft before_claim before_release before_complete
        before_record_review)

interpretation repo: op_progress repo_step repo_inv repo_before
  by unfold_locales
     (auto intro: repo_step_inv repo_step_before repo_before_trans)

definition empty_db :: "InventoryRow list \<Rightarrow> DemandRow list \<Rightarrow> SupplierRow list \<Rightarrow> run_db" where
  "empty_db invs dems sups =
     \<lparr>runs = [], idempotency = [], events = [], tools = [], decisions = [], locks = [],
      inventory_fixture = invs, demand_fixture = dems, supplier_fixture = sups\<rparr>"

lemma repo_inv_empty [simp]: "repo_inv (empty_db i d s)"
  by (simp add: repo_inv_def empty_db_def trail_inv_def idem_inv_def tool_inv_def gate_inv_def)

lemma reachable_inv: "repo_inv (fold repo_step ops (empty_db i d s))"
  by (rule repo.run_inv) simp

text \<open>What the invariant says of the row a caller reads.\<close>

lemma audit_events_visible:
  assumes inv: "repo_inv db" and r: "select_one (run_visible p rid) (runs db) = Some r"
  shows "audit_events p rid db = (Inr (filter (\<lambda>e. ev_run_id e = rid) (events db)), db)"
proof -
  note vis = run_visible_select [OF r]
  have "ev_tenant_id e = principal_tenant p" if e: "e \<in> set (events db)" "ev_run_id e = rid" for e
  proof -
    from inv e obtain x where "x \<in> set (runs db)" "run_id x = rid" "tenant_id x = ev_tenant_id e"
      by (auto simp: repo_inv_def trail_inv_def event_owned_def)
    with vis inv keyed_unique [of run_id "runs db" x r] show ?thesis
      by (auto simp: repo_inv_def trail_inv_def)
  qed
  then have "filter (\<lambda>e. ev_run_id e = rid \<and> ev_tenant_id e = principal_tenant p) (events db)
      = filter (\<lambda>e. ev_run_id e = rid) (events db)"
    by (auto intro: filter_cong)
  then show ?thesis
    by (simp add: audit_events_def get_run_def r comp_defs)
qed

lemma visible_path:
  assumes "repo_inv db" and "select_one (run_visible p rid) (runs db) = Some r"
  obtains ts where "map to_state (trail rid (events db)) = map Some (CREATED # ts)"
    and "path CREATED ts (state r)" and "length ts = state_version r"
proof -
  note vis = run_visible_select [OF assms(2)]
  with assms(1) have "trail_ok (events db) r"
    by (auto simp: repo_inv_def trail_inv_def)
  then have c: "chain None (trail rid (events db)) (Some (state r))"
    and l: "length (trail rid (events db)) = Suc (state_version r)"
    using vis by (auto simp: trail_ok_def)
  from chain_from_start [OF c] obtain ts
    where ts: "map to_state (trail rid (events db)) = map Some (CREATED # ts)" "path CREATED ts (state r)" .
  from arg_cong [OF ts(1), of length] l have "length ts = state_version r" by simp
  with ts that show ?thesis by blast
qed

lemma run_advanced_final:
  assumes "run_advanced r r'" and "TRANSITIONS (state r) = {}"
  shows "r' = r"
proof -
  from assms(1) obtain ts where "path (state r) ts (state r')" "ts = [] \<longrightarrow> r' = r"
    by (auto simp: run_advanced_def)
  with assms(2) show ?thesis by (cases ts) (auto simp: can_transition_def)
qed

end
