(* ===== verification/RunProperties.thy ===== *)
theory RunProperties
  imports RunHistory
begin

section \<open>Properties of the run repository\<close>

text \<open>
  Each property is stated on a database that some sequence of operations reached, and, where it
  says that something stays so, on the database any further operations \<open>later\<close> lead to. The
  witnesses run one concrete intake through the repository.
\<close>

subsection \<open>Lemmas\<close>

lemma later_inv: "repo_inv db \<Longrightarrow> repo_inv (fold repo_step later db)"
  by (rule repo.run_inv)

lemma later_run:
  assumes "repo_inv db" and "r \<in> set (runs db)"
  obtains r' where "r' \<in> set (runs (fold repo_step later db))" and "run_advanced r r'"
  using repo.run_before [OF assms(1), of later] assms(2)
  by (auto simp: repo_before_def runs_advanced_def)

lemma inv_keyed: "repo_inv db \<Longrightarrow> keyed run_id (runs db)"
  by (simp add: repo_inv_def trail_inv_def)

lemma later_select:
  assumes "repo_inv db" and "select_one (run_visible p rid) (runs db) = Some r"
  obtains r' where "select_one (run_visible p rid) (runs (fold repo_step later db)) = Some r'"
    and "run_advanced r r'"
proof -
  note r = run_visible_select [OF assms(2)]
  from r later_run [OF assms(1), of r later] obtain r'
    where r': "r' \<in> set (runs (fold repo_step later db))" "run_advanced r r'" by blast
  then have "run_id r' = rid" "tenant_id r' = principal_tenant p"
    using r by (auto simp: run_advanced_def same_run_def)
  with select_run_visible [OF inv_keyed [OF later_inv [OF assms(1)]] r'(1)] r'(2) that
  show ?thesis by auto
qed

text \<open>A snapshot whose version is behind the row's is refused, and changes no row.\<close>

lemma stale_update:
  assumes inv: "repo_inv db" and sel: "select_one (run_visible p (run_id run)) (runs db) = Some r"
    and behind: "state_version run < state_version r"
  shows "update_run (run_matches p (run_id run) st (state_version run)) f db = (None, db)"
proof -
  note r = run_visible_select [OF sel]
  have "\<not> run_matches p (run_id run) st (state_version run) x" if "x \<in> set (runs db)" for x
    using that r behind keyed_unique [OF inv_keyed [OF inv], of x r] by (auto simp: run_matches_def)
  then have none: "select_one (run_matches p (run_id run) st (state_version run)) (runs db) = None"
    by (simp add: select_one_None_iff)
  show ?thesis by (simp add: update_run_def none idle_update [OF none])
qed

lemma state_conflict_visible:
  assumes "select_one (run_visible p (run_id run)) (runs db) = Some r"
  shows "state_conflict p run now db =
    (Inl (ConflictError ''STATE_VERSION_CONFLICT'' ''Run state changed concurrently''),
     insert_event (run_id run) (principal_tenant p) ''control_rejected'' (Some (state r)) (Some (state r))
       (actor_id p) (JObj [(''code'', JStr ''STATE_VERSION_CONFLICT'')]) now db)"
  using assms run_visible_select [OF assms]
  by (simp add: state_conflict_def append_rejected_control_def get_run_def reject_control_def comp_defs)

lemma stale_transition:
  assumes "repo_inv db" and "select_one (run_visible p (run_id run)) (runs db) = Some r"
    and "state_version run < state_version r" and "can_transition (state run) target"
  shows "transition p run target et now pl db = state_conflict p run now db"
  using assms by (simp add: transition_def stale_update)

lemma stale_draft:
  assumes "repo_inv db" and "select_one (run_visible p (run_id run)) (runs db) = Some r"
    and "state_version run < state_version r" and "can_transition (state run) AWAITING_HUMAN"
  shows "set_draft_and_transition p run draft h now x db = state_conflict p run now db"
  using assms by (simp add: set_draft_and_transition_def stale_update)

lemma update_run_Some:
  assumes "repo_inv db"
    and "update_run (run_matches p (run_id run) (state run) (state_version run)) f db = (Some r', db')"
    and "\<And>x. same_run x (f x)"
  shows "\<exists>r. r' = f r \<and> r \<in> set (runs db) \<and> run_id r = run_id run
    \<and> tenant_id r = principal_tenant p \<and> state r = state run \<and> state_version r = state_version run
    \<and> select_one (run_visible p (run_id run)) (runs db') = Some r'"
proof (cases rule: update_run_cases [of "run_matches p (run_id run) (state run) (state_version run)" f db])
  case none
  with assms(2) show ?thesis by simp
next
  case (some r)
  note m = run_matches_select [OF some(2)]
  have k: "keyed run_id (runs db)" by (rule inv_keyed [OF assms(1)])
  have vis: "select_one (run_visible p (run_id run)) (runs db) = Some r"
    using select_run_visible [OF k, of r p] m by simp
  have "select_one (run_visible p (run_id run))
      (update_where (run_matches p (run_id run) (state run) (state_version run)) f (runs db)) = Some (f r)"
    by (rule select_one_update_same [OF vis])
      (use m assms(3) in \<open>auto simp: run_visible_def run_matches_def same_run_def\<close>)
  with some assms(2) m show ?thesis by auto
qed

lemma bind_raise_no_result: "bindE m (\<lambda>_. raiseE e) x = (Inr y, z) \<longleftrightarrow> False"
  by (auto simp: comp_defs split: prod.splits sum.splits)

lemma transition_Inr:
  assumes "repo_inv db" and "transition p run target et now pl db = (Inr r', db')"
  shows "can_transition (state run) target \<and> state r' = target
    \<and> state_version r' = Suc (state_version run) \<and> run_id r' = run_id run
    \<and> select_one (run_visible p (run_id run)) (runs db') = Some r'"
proof -
  have conf: "state_conflict p run now x \<noteq> (Inr y, z)" for x y z
    by (auto simp: state_conflict_def comp_defs split: prod.splits sum.splits)
  have ok: "can_transition (state run) target"
    using assms(2) by (auto simp: transition_def bind_raise_no_result split: if_splits)
  let ?u = "update_run (run_matches p (run_id run) (state run) (state_version run)) (move_to target now) db"
  from assms(2) ok conf obtain db1 where u: "?u = (Some r', db1)"
      and db': "runs db' = runs db1"
    by (auto simp: transition_def returnE_def insert_event_def split: prod.splits option.splits)
  from update_run_Some [OF assms(1) u] ok db' show ?thesis by auto
qed

lemma transition_keeps_inv:
  "repo_inv db \<Longrightarrow> state run \<in> machine_states \<Longrightarrow> repo_inv (snd (transition p run target et now pl db))"
  by (rule preservesD [OF preserves_transition])

lemma begin_intake_keeps_inv: "repo_inv db \<Longrightarrow> repo_inv (snd (begin_intake p req key h rv now mode uuid db))"
  by (rule preservesD [OF preserves_begin_intake])

lemma record_review_keeps_inv: "repo_inv db \<Longrightarrow> repo_inv (snd (record_review p rid k a h ed eh rs now db))"
  by (rule preservesD [OF preserves_record_review])

subsection \<open>A concrete run\<close>

definition w_operator :: Principal where
  "w_operator = \<lparr>actor_id = ''op-1'', principal_tenant = ''t1'', roles = {''operator''}\<rparr>"

definition w_reviewer :: Principal where
  "w_reviewer = \<lparr>actor_id = ''rev-1'', principal_tenant = ''t1'', roles = {''reviewer''}\<rparr>"

definition w_stranger :: Principal where
  "w_stranger = \<lparr>actor_id = ''op-2'', principal_tenant = ''t2'', roles = {''operator'', ''reviewer''}\<rparr>"

definition w_request :: IntakeRequest where
  "w_request = \<lparr>req_sku_id = ''SKU-1'', req_store_id = ''STORE-1'', req_supplier_id = ''SUP-1'',
     req_as_of_ts = utc 3000, req_window_start = utc 1000, req_window_end = utc 2000\<rparr>"

definition w_hash :: string where "w_hash = replicate 64 (CHR ''a'')"
definition w_hash' :: string where "w_hash' = replicate 64 (CHR ''b'')"

definition w_start :: run_db where "w_start = empty_db [] [] []"

definition w_create :: repo_op where
  "w_create = OpBeginIntake w_operator w_request ''key-1'' w_hash ''rev-1'' 3000 Human_review ''run-1''"

definition w_created :: run_db where "w_created = repo_step w_create w_start"

definition w_run :: RunRecord where
  "w_run = new_run w_operator w_request w_hash ''rev-1'' 3000 Human_review ''run-1''"

definition w_at :: "RunState \<Rightarrow> nat \<Rightarrow> RunRecord" where
  "w_at st v = w_run\<lparr>state := st, state_version := v\<rparr>"

definition w_draft_ops :: "repo_op list" where
  "w_draft_ops =
     [OpTransition w_operator (w_at CREATED 0) VALIDATING ''validation_started'' 3001 None,
      OpTransition w_operator (w_at VALIDATING 1) GATHERING_EVIDENCE ''evidence_gathering_started'' 3002 None,
      OpTransition w_operator (w_at GATHERING_EVIDENCE 2) QUALITY_CHECKS ''evidence_gathered'' 3003 None,
      OpTransition w_operator (w_at QUALITY_CHECKS 3) REASONING ''quality_checks_passed'' 3004 None,
      OpTransition w_operator (w_at REASONING 4) DRAFTING_RECOMMENDATION ''reasoning_completed'' 3005 None,
      OpSetDraft w_operator (w_at DRAFTING_RECOMMENDATION 5) (JObj []) w_hash' 3006 9000]"

definition w_drafted :: run_db where
  "w_drafted = fold repo_step w_draft_ops w_created"

lemma w_created_run: "select_one (run_visible w_operator ''run-1'') (runs w_created) = Some w_run"
  by code_simp

lemma w_created_ops: "w_created = fold repo_step [w_create] (empty_db [] [] [])"
  by (simp add: w_created_def w_start_def)

lemma w_drafted_ops: "w_drafted = fold repo_step (w_create # w_draft_ops) (empty_db [] [] [])"
  by (simp add: w_drafted_def w_created_def w_start_def)

text \<open>On a table of one run, an operation with the current snapshot takes that run on.\<close>

lemma single_run_transition:
  assumes "runs db = [r]" and "run_matches p (run_id run) (state run) (state_version run) r"
    and "can_transition (state run) target"
  shows "runs (snd (transition p run target et now pl db)) = [move_to target now r]"
    and "decisions (snd (transition p run target et now pl db)) = decisions db"
  using assms by (simp_all add: transition_def update_run_def returnE_def insert_event_def)

lemma single_run_draft:
  assumes "runs db = [r]" and "run_matches p (run_id run) (state run) (state_version run) r"
    and "can_transition (state run) AWAITING_HUMAN" and "is_hex64 h"
  shows "runs (snd (set_draft_and_transition p run d h now x db))
      = [with_draft d h now x (move_to AWAITING_HUMAN now r)]"
    and "decisions (snd (set_draft_and_transition p run d h now x db)) = decisions db"
  using assms by (simp_all add: set_draft_and_transition_def update_run_def returnE_def insert_event_def)

definition w_drafted_row :: RunRecord where
  "w_drafted_row = with_draft (JObj []) w_hash' 3006 9000 (w_at AWAITING_HUMAN 6\<lparr>run_updated_at := 3006\<rparr>)"

lemma w_created_tables: "runs w_created = [w_run]" "decisions w_created = []"
  by code_simp+

lemma w_hash_hex: "is_hex64 w_hash'"
  by code_simp

lemma w_drafted_tables: "runs w_drafted = [w_drafted_row]" "decisions w_drafted = []"
  by (simp_all add: w_drafted_def w_draft_ops_def single_run_transition single_run_draft
      w_created_tables w_hash_hex w_at_def w_run_def new_run_def run_matches_def machine_states_def
      can_transition_def w_operator_def move_to_def with_draft_def w_drafted_row_def)

lemma w_drafted_run: "select_one (run_visible w_reviewer ''run-1'') (runs w_drafted) = Some w_drafted_row"
  by (simp add: w_drafted_tables run_visible_def w_drafted_row_def with_draft_def w_at_def w_run_def
      new_run_def w_reviewer_def w_operator_def)

subsection \<open>Optimistic concurrency\<close>

text \<open>A draft that was set.\<close>

lemma set_draft_Inr:
  assumes "repo_inv db" and "set_draft_and_transition p run j h now x db = (Inr r', db')"
  shows "state_version r' = Suc (state_version run) \<and> run_id r' = run_id run
    \<and> select_one (run_visible p (run_id run)) (runs db') = Some r'"
proof -
  let ?f = "with_draft j h now x \<circ> move_to AWAITING_HUMAN now"
  have conf: "state_conflict p run now y \<noteq> (Inr u, z)" for u y z
    by (auto simp: state_conflict_def comp_defs split: prod.splits sum.splits)
  have ok: "can_transition (state run) AWAITING_HUMAN"
    using assms(2) by (auto simp: set_draft_and_transition_def bind_raise_no_result split: if_splits)
  let ?u = "update_run (run_matches p (run_id run) (state run) (state_version run)) ?f db"
  from assms(2) ok conf obtain db1 where u: "?u = (Some r', db1)" and db': "runs db' = runs db1"
    by (auto simp: set_draft_and_transition_def returnE_def raiseE_def insert_event_def
        split: prod.splits option.splits if_splits)
  have "same_run y (?f y)" for y by (simp add: with_draft_def move_to_def same_run_def)
  from update_run_Some [OF assms(1) u this] db' show ?thesis by (auto simp: with_draft_def)
qed

text \<open>The two ways a snapshot moves its run, and what the caller of a stale one is told.\<close>

definition moves_run ::
  "Principal \<Rightarrow> RunRecord \<Rightarrow> (run_db, RunRecord) comp \<Rightarrow> bool" where
  "moves_run p run m \<longleftrightarrow>
     (\<exists>target et now pl. can_transition (state run) target \<and> m = transition p run target et now pl)
     \<or> (\<exists>j h now x. can_transition (state run) AWAITING_HUMAN \<and> m = set_draft_and_transition p run j h now x)"

definition stale_answer :: "Principal \<Rightarrow> Principal \<Rightarrow> exn" where
  "stale_answer p q =
     (if principal_tenant q = principal_tenant p then
        ConflictError ''STATE_VERSION_CONFLICT'' ''Run state changed concurrently''
      else NotFoundError)"

lemma moves_run_winner:
  assumes inv: "repo_inv db" and m: "moves_run p run m" "m db = (Inr r', db')" and st: "state run \<in> machine_states"
  shows "repo_inv db' \<and> state_version r' = Suc (state_version run)
    \<and> select_one (run_visible p (run_id run)) (runs db') = Some r'"
  using m(1) unfolding moves_run_def
proof (elim disjE exE conjE)
  fix target et now pl assume t: "m = transition p run target et now pl"
  then show ?thesis
    using transition_Inr [OF inv m(2) [unfolded t]] transition_keeps_inv [OF inv st, of p target et now pl] m(2) by simp
next
  fix j h now x assume t: "m = set_draft_and_transition p run j h now x"
  then show ?thesis
    using set_draft_Inr [OF inv m(2) [unfolded t]] preservesD [OF preserves_set_draft inv, of p run j h now x] m(2) by simp
qed

lemma foreign_update:
  assumes "select_one (run_visible q (run_id run)) (runs db) = None"
  shows "update_run (run_matches q (run_id run) (state run) (state_version run)) f db = (None, db)"
proof -
  have "select_one (run_matches q (run_id run) (state run) (state_version run)) (runs db) = None"
    using assms by (auto simp: select_one_None_iff run_visible_def run_matches_def)
  then show ?thesis by (simp add: update_run_def idle_update)
qed

lemma foreign_moves:
  assumes none: "select_one (run_visible q (run_id run)) (runs db) = None"
  shows "transition q run target et now pl db = (Inl NotFoundError, db)"
    and "set_draft_and_transition q run j h now x db = (Inl NotFoundError, db)"
  by (simp_all add: transition_def set_draft_and_transition_def foreign_update [OF none] state_conflict_def
      append_rejected_control_def get_run_def none comp_defs)

lemma moves_run_loser:
  assumes inv: "repo_inv db" and r: "select_one (run_visible p (run_id run)) (runs db) = Some r"
    and v: "state_version run < state_version r" and m: "moves_run q run m"
  shows "fst (m db) = Inl (stale_answer p q) \<and> runs (snd (m db)) = runs db"
proof (cases "principal_tenant q = principal_tenant p")
  case True
  then have vis: "select_one (run_visible q (run_id run)) (runs db) = Some r"
    using r by (simp add: run_visible_def [abs_def])
  show ?thesis
    using m state_conflict_visible [OF vis] stale_transition [OF inv vis v] stale_draft [OF inv vis v] True
    by (auto simp: moves_run_def stale_answer_def insert_event_def)
next
  case False
  have none: "select_one (run_visible q (run_id run)) (runs db) = None"
  proof (rule ccontr)
    assume "select_one (run_visible q (run_id run)) (runs db) \<noteq> None"
    then obtain y where "select_one (run_visible q (run_id run)) (runs db) = Some y" by blast
    note y = run_visible_select [OF this] and x = run_visible_select [OF r]
    have "y = r" using inv_keyed [OF inv] x y by (auto simp: distinct_map inj_on_def)
    with x y False show False by simp
  qed
  show ?thesis
    using m foreign_moves [OF none] False by (auto simp: moves_run_def stale_answer_def)
qed

text \<open>C9. Of the callers holding the same snapshot of a run, at most one ever moves it: once a
  transition or a draft computed from the snapshot has succeeded, every later transition or draft
  from the same snapshot, by any caller and after whatever other operations, is refused and leaves every run
  as it is: with \<^verbatim>\<open>STATE_VERSION_CONFLICT\<close> for a caller of the run's tenant, and as not found for
  any other caller. (The snapshot is in a state the service drives on.)\<close>

theorem stale_snapshot_loses:
  assumes "db = fold repo_step ops (empty_db i d s)"
    and "moves_run p run winner" and "winner db = (Inr r', db')" and "state run \<in> machine_states"
    and "moves_run q run loser" and "db'' = fold repo_step later db'"
  shows "fst (loser db'') = Inl (stale_answer p q) \<and> runs (snd (loser db'')) = runs db''"
proof -
  have inv: "repo_inv db" unfolding assms(1) by (rule reachable_inv)
  from moves_run_winner [OF inv assms(2-4)] have t: "repo_inv db'" "state_version r' = Suc (state_version run)"
    "select_one (run_visible p (run_id run)) (runs db') = Some r'" by simp_all
  from later_select [OF t(1,3), of later] assms(6) obtain r''
    where r'': "select_one (run_visible p (run_id run)) (runs db'') = Some r''" "run_advanced r' r''" by blast
  then have "state_version run < state_version r''" using t(2) by (auto simp: run_advanced_def)
  moreover have "repo_inv db''" unfolding assms(6) by (rule later_inv [OF t(1)])
  ultimately show ?thesis using moves_run_loser r''(1) assms(5) by blast
qed

theorem stale_snapshot_loses_witness:
  "fst (transition w_operator w_run FAILED_AUTHZ ''x'' 3002 None (repo_step
     (OpTransition w_operator w_run VALIDATING ''validation_started'' 3001 None) w_created))
   = Inl (ConflictError ''STATE_VERSION_CONFLICT'' ''Run state changed concurrently'')
   \<and> fst (transition w_stranger w_run FAILED_AUTHZ ''x'' 3002 None (repo_step
     (OpTransition w_operator w_run VALIDATING ''validation_started'' 3001 None) w_created)) = Inl NotFoundError"
proof -
  let ?m = "transition w_operator w_run VALIDATING ''validation_started'' 3001 None"
  have st: "state w_run \<in> machine_states" "can_transition (state w_run) VALIDATING" "can_transition (state w_run) FAILED_AUTHZ"
    by (simp_all add: w_run_def new_run_def machine_states_def can_transition_def)
  then have m: "moves_run w_operator w_run ?m" "moves_run q w_run (transition q w_run FAILED_AUTHZ ''x'' 3002 None)" for q
    unfolding moves_run_def by blast+
  have "fst (?m w_created) = Inr (move_to VALIDATING 3001 w_run)" by code_simp
  then have win: "?m w_created = (Inr (move_to VALIDATING 3001 w_run), snd (?m w_created))" by (simp add: prod_eq_iff)
  have db: "snd (?m w_created) = fold repo_step [] (snd (?m w_created))" by simp
  note loses = stale_snapshot_loses [OF w_created_ops m(1) win st(1) m(2) db]
  have "stale_answer w_operator w_operator = ConflictError ''STATE_VERSION_CONFLICT'' ''Run state changed concurrently''"
    "stale_answer w_operator w_stranger = NotFoundError"
    by (simp_all add: stale_answer_def w_operator_def w_stranger_def)
  then show ?thesis using loses [of w_operator] loses [of w_stranger] st(1) by simp
qed

subsection \<open>Idempotent intake\<close>

lemma later_idempotency:
  assumes "repo_inv db" and "select_idempotency p key db = Some row"
  shows "select_idempotency p key (fold repo_step later db) = Some row"
proof -
  from repo.run_before [OF assms(1), of later]
  obtain ks where "idempotency (fold repo_step later db) = idempotency db @ ks"
    by (auto simp: repo_before_def prefix_def)
  with assms(2) show ?thesis by (simp add: select_idempotency_def select_one_append)
qed

lemma observe_intake_Inr:
  assumes "observe_intake p h now row db = (Inr (r, created), db')"
  shows "db' = db \<and> \<not> created \<and> idem_payload_hash row = h
    \<and> select_one (run_visible p (idem_run_id row)) (runs db) = Some r"
  using assms by (auto simp: observe_intake_def returnE_def raiseE_def split: option.splits if_splits)

lemma begin_intake_Inr:
  assumes "repo_inv db" and "begin_intake p req key h rv now mode uuid db = (Inr (r, created), db')"
  obtains row where "select_idempotency p key db' = Some row" and "idem_payload_hash row = h"
    and "select_one (run_visible p (idem_run_id row)) (runs db') = Some r"
    and "created = (select_idempotency p key db = None)"
proof (cases "select_idempotency p key db")
  case (Some row)
  with assms(2) observe_intake_Inr [of p h now row db r created db'] show ?thesis
    by (auto simp: begin_intake_def begin_intake_after_select_def intro: that)
next
  case None
  let ?r = "new_run p req h rv now mode uuid"
  from None assms(2) have r: "r = ?r" "created"
      and fresh: "uuid \<notin> run_id ` set (runs db)"
      and db': "runs db' = runs db @ [?r]"
        "idempotency db' = idempotency db @ [\<lparr>idem_tenant_id = principal_tenant p, idem_key = key,
           idem_payload_hash = h, idem_run_id = uuid, idem_created_at = now\<rparr>]"
    by (auto simp: begin_intake_def begin_intake_after_select_def Let_def returnE_def raiseE_def
          insert_event_def split: if_splits)
  have "select_one (run_visible p uuid) (runs db) = None"
    using fresh by (auto simp: select_one_None_iff run_visible_def)
  with None r db' show ?thesis
    by (intro that [of "\<lparr>idem_tenant_id = principal_tenant p, idem_key = key,
           idem_payload_hash = h, idem_run_id = uuid, idem_created_at = now\<rparr>"])
      (auto simp: select_idempotency_def select_one_append idem_matches_def run_visible_def new_run_def)
qed

text \<open>C11. Intake is idempotent: whatever happens after an accepted intake, repeating its key with
  the same payload hash returns the very same run (moved on along the transition table, never
  re-created) and changes nothing; repeating it with another hash is refused as
  \<^verbatim>\<open>IDEMPOTENCY_KEY_CONFLICT\<close> and creates no run.\<close>

theorem intake_idempotent:
  assumes "db = fold repo_step ops (empty_db i d s)"
    and "begin_intake p req key h rv now mode uuid db = (Inr (r, created), db')"
    and "db'' = fold repo_step later db'"
  shows "(\<exists>r'. begin_intake p req' key h rv' now' mode' uuid' db'' = (Inr (r', False), db'')
            \<and> run_advanced r r')
       \<and> (h' \<noteq> h \<longrightarrow>
            fst (begin_intake p req' key h' rv' now' mode' uuid' db'')
              = Inl (ConflictError ''IDEMPOTENCY_KEY_CONFLICT''
                       ''Idempotency key was already used with a different payload'')
            \<and> runs (snd (begin_intake p req' key h' rv' now' mode' uuid' db'')) = runs db'')"
proof -
  have inv: "repo_inv db" unfolding assms(1) by (rule reachable_inv)
  from begin_intake_Inr [OF inv assms(2)] obtain row where row:
      "select_idempotency p key db' = Some row" "idem_payload_hash row = h"
      "select_one (run_visible p (idem_run_id row)) (runs db') = Some r" by metis
  have inv': "repo_inv db'"
    using begin_intake_keeps_inv [OF inv, of p req key h rv now mode uuid] assms(2) by simp
  from later_select [OF inv' row(3), of later] assms(3) obtain r' where r':
      "select_one (run_visible p (idem_run_id row)) (runs db'') = Some r'" "run_advanced r r'" by blast
  have "select_idempotency p key db'' = Some row"
    unfolding assms(3) by (rule later_idempotency [OF inv' row(1)])
  with r' row show ?thesis
    by (auto simp: begin_intake_def begin_intake_after_select_def observe_intake_def returnE_def
        raiseE_def insert_event_def)
qed

theorem intake_idempotent_witness:
  "\<exists>r'. begin_intake w_operator w_request ''key-1'' w_hash ''rev-2'' 9 Shadow ''run-9'' w_drafted
         = (Inr (r', False), w_drafted) \<and> run_advanced w_run r'"
proof -
  let ?m = "begin_intake w_operator w_request ''key-1'' w_hash ''rev-1'' 3000 Human_review ''run-1'' w_start"
  have "fst ?m = Inr (w_run, True)" by code_simp
  then have m: "?m = (Inr (w_run, True), w_created)"
    by (simp add: prod_eq_iff w_created_def w_create_def)
  have "w_start = fold repo_step [] (empty_db [] [] [])" by (simp add: w_start_def)
  from intake_idempotent [OF this m w_drafted_def] show ?thesis by blast
qed

text \<open>The race of two first intakes converges: a caller whose first look saw no key, but whose
  insert then meets the key another transaction committed, ends exactly as if it had seen that
  key at once. Its own run is discarded, so no second run exists for the key.\<close>

theorem intake_race_converges:
  assumes "select_idempotency p key db = Some row"
    and "run_checks (new_run p req h rv now mode uuid)" and "uuid \<notin> run_id ` set (runs db)"
    and "bounded_text 1 200 key"
  shows "begin_intake_after_select None p req key h rv now mode uuid db
         = begin_intake_after_select (Some row) p req key h rv now mode uuid db
       \<and> runs (snd (begin_intake_after_select None p req key h rv now mode uuid db)) = runs db"
  using assms
  by (simp add: begin_intake_after_select_def Let_def observe_intake_def raiseE_def returnE_def
      insert_event_def split: option.split)

theorem intake_race_converges_witness:
  "begin_intake_after_select None w_operator w_request ''key-1'' w_hash ''rev-2'' 9 Human_review ''run-9''
     w_created = (Inr (w_run, False), w_created)"
proof -
  let ?row = "\<lparr>idem_tenant_id = ''t1'', idem_key = ''key-1'', idem_payload_hash = w_hash,
    idem_run_id = ''run-1'', idem_created_at = 3000\<rparr>"
  have "select_idempotency w_operator ''key-1'' w_created = Some ?row" by code_simp
  moreover have "run_checks (new_run w_operator w_request w_hash ''rev-2'' 9 Human_review ''run-9'')"
    by code_simp
  moreover have "''run-9'' \<notin> run_id ` set (runs w_created)" by code_simp
  moreover have "bounded_text 1 200 ''key-1''" by (simp add: bounded_text_def)
  ultimately have "begin_intake_after_select None w_operator w_request ''key-1'' w_hash ''rev-2'' 9
      Human_review ''run-9'' w_created
    = begin_intake_after_select (Some ?row) w_operator w_request ''key-1'' w_hash ''rev-2'' 9
      Human_review ''run-9'' w_created"
    using intake_race_converges by blast
  then show ?thesis
    by (simp add: begin_intake_after_select_def observe_intake_def w_created_run returnE_def)
qed

subsection \<open>Tenant isolation\<close>

definition others :: "string \<Rightarrow> run_db \<Rightarrow>
  RunRecord list \<times> IdempotencyRow list \<times> WorkflowEvent list \<times> ToolRow list \<times> DecisionRow list"
where
  "others t db =
     (filter (\<lambda>r. tenant_id r \<noteq> t) (runs db), filter (\<lambda>i. idem_tenant_id i \<noteq> t) (idempotency db),
      filter (\<lambda>e. ev_tenant_id e \<noteq> t) (events db), filter (\<lambda>x. tool_tenant_id x \<noteq> t) (tools db),
      filter (\<lambda>d. dec_tenant_id d \<noteq> t) (decisions db))"

fun op_tenant :: "repo_op \<Rightarrow> string option" where
  "op_tenant (OpBeginIntake p req key h rv now mode uuid) = Some (principal_tenant p)"
| "op_tenant (OpBeginIntakeRaced p req key h rv now mode uuid) = Some (principal_tenant p)"
| "op_tenant (OpRejectControl p rid code now) = Some (principal_tenant p)"
| "op_tenant (OpTransition p run target et now pl) = Some (principal_tenant p)"
| "op_tenant (OpSetDraft p run draft h now x) = Some (principal_tenant p)"
| "op_tenant (OpClaim p rid t h now) = Some (principal_tenant p)"
| "op_tenant (OpRelease rid t) = None"
| "op_tenant (OpComplete p rid t res md st now) = Some (principal_tenant p)"
| "op_tenant (OpReview p rid key a h ed eh rs now) = Some (principal_tenant p)"

lemma others_event [simp]: "others t (insert_event rid t et f u a pl now db) = others t db"
  by (simp add: others_def insert_event_def)

lemma others_runs_update:
  assumes "t = principal_tenant p" and "rs = runs db" and "\<And>x. tenant_id (f x) = tenant_id x"
  shows "others t (db\<lparr>runs := update_where (run_matches p rid st v) f rs\<rparr>) = others t db"
proof -
  have "filter (\<lambda>r. tenant_id r \<noteq> t) (update_where (run_matches p rid st v) f (runs db))
      = filter (\<lambda>r. tenant_id r \<noteq> t) (runs db)"
    by (rule filter_update_other) (use assms in \<open>auto simp: run_matches_def\<close>)
  with assms(2) show ?thesis by (simp add: others_def)
qed

lemma others_append_rejected [simp]:
  "others (principal_tenant p) (snd (append_rejected_control p rid code now db))
     = others (principal_tenant p) db"
  by (simp add: append_rejected_control_def get_run_def reject_control_def comp_defs split: option.split)

lemma snd_bind_raise [simp]: "snd (bindE m (\<lambda>_. raiseE e) db) = snd (m db)"
  by (simp add: comp_defs split: prod.split sum.split)

lemma others_state_conflict [simp]:
  "others (principal_tenant p) (snd (state_conflict p run now db)) = others (principal_tenant p) db"
  by (simp add: state_conflict_def)

lemma others_transition:
  "others (principal_tenant p) (snd (transition p run target et now pl db)) = others (principal_tenant p) db"
  by (auto simp: transition_def update_run_def returnE_def others_runs_update split: option.splits)

lemma others_set_draft:
  "others (principal_tenant p) (snd (set_draft_and_transition p run draft h now x db))
     = others (principal_tenant p) db"
  by (auto simp: set_draft_and_transition_def update_run_def returnE_def raiseE_def others_runs_update
        with_draft_def split: option.splits)

lemma others_intake:
  "others (principal_tenant p) (snd (begin_intake_after_select seen p req key h rv now mode uuid db))
     = others (principal_tenant p) db"
proof -
  have obs: "others (principal_tenant p) (snd (observe_intake p h now row db))
      = others (principal_tenant p) db" for row
    by (simp add: observe_intake_def returnE_def raiseE_def split: option.split)
  show ?thesis
    by (auto simp: begin_intake_after_select_def Let_def returnE_def raiseE_def obs split: option.split)
       (simp add: others_def new_run_def)
qed

lemma others_claim:
  "others (principal_tenant p) (snd (claim_or_observe_tool p rid t h now db)) = others (principal_tenant p) db"
  by (auto simp: claim_or_observe_tool_def returnE_def raiseE_def Let_def others_def started_tool_def
        split: option.split)

lemma others_complete:
  "others (principal_tenant p) (snd (complete_tool p rid t res md st now db)) = others (principal_tenant p) db"
proof -
  have "filter (\<lambda>x. tool_tenant_id x \<noteq> principal_tenant p) (update_where (tool_matches p rid t) f (tools db))
      = filter (\<lambda>x. tool_tenant_id x \<noteq> principal_tenant p) (tools db)"
    if "\<And>x. tool_tenant_id (f x) = tool_tenant_id x" for f
    by (rule filter_update_other) (use that in \<open>auto simp: tool_matches_def\<close>)
  then show ?thesis
    by (simp add: complete_tool_def returnE_def raiseE_def others_def)
qed

lemma others_decide:
  assumes "dec_tenant_id d = principal_tenant p"
  shows "others (principal_tenant p) (snd (decide_and_close p run d submitted now db))
       = others (principal_tenant p) db"
proof -
  have "others (principal_tenant p) (db\<lparr>decisions := decisions db @ [d]\<rparr>) = others (principal_tenant p) db"
    using assms by (simp add: others_def)
  then show ?thesis
    by (simp add: decide_and_close_def update_run_def Let_def returnE_def raiseE_def others_runs_update
        split: option.split)
qed

lemma others_review:
  "others (principal_tenant p) (snd (record_review p rid k a h ed eh rs now db))
     = others (principal_tenant p) db"
  by (auto simp: record_review_def returnE_def raiseE_def Let_def others_decide new_decision_def
      split: option.split)

lemma others_step: "op_tenant op = Some t \<Longrightarrow> others t (repo_step op db) = others t db"
  by (cases op)
     (auto simp: others_intake begin_intake_def others_transition others_set_draft others_claim
        others_complete others_review)

text \<open>What a tenant's own rows are, and that they alone decide what its principals read.\<close>

definition own :: "string \<Rightarrow> run_db \<Rightarrow> RunRecord list \<times> WorkflowEvent list \<times> ToolRow list \<times> DecisionRow list" where
  "own t db =
     (filter (\<lambda>r. tenant_id r = t) (runs db), filter (\<lambda>e. ev_tenant_id e = t) (events db),
      filter (\<lambda>x. tool_tenant_id x = t) (tools db), filter (\<lambda>d. dec_tenant_id d = t) (decisions db))"

lemma select_one_own: "(\<And>x. P x \<Longrightarrow> Q x) \<Longrightarrow> select_one P (filter Q xs) = select_one P xs"
  by (induction xs) auto

lemma filter_own: "(\<And>x. P x \<Longrightarrow> Q x) \<Longrightarrow> filter P (filter Q xs) = filter P xs"
  by (induction xs) auto

lemma own_reads:
  assumes "own (principal_tenant p) db2 = own (principal_tenant p) db"
  shows "select_one (run_visible p rid) (runs db2) = select_one (run_visible p rid) (runs db)"
    and "filter (\<lambda>e. ev_run_id e = rid \<and> ev_tenant_id e = principal_tenant p) (events db2)
       = filter (\<lambda>e. ev_run_id e = rid \<and> ev_tenant_id e = principal_tenant p) (events db)"
    and "evidence_rows p rid db2 = evidence_rows p rid db"
    and "get_tool p rid t db2 = get_tool p rid t db"
    and "get_decision p rid db2 = get_decision p rid db"
proof -
  note own = assms [unfolded own_def prod.inject]
  show "select_one (run_visible p rid) (runs db2) = select_one (run_visible p rid) (runs db)"
    using own select_one_own [of "run_visible p rid" "\<lambda>r. tenant_id r = principal_tenant p"]
    by (metis (mono_tags, lifting) run_visible_def)
  show "filter (\<lambda>e. ev_run_id e = rid \<and> ev_tenant_id e = principal_tenant p) (events db2)
       = filter (\<lambda>e. ev_run_id e = rid \<and> ev_tenant_id e = principal_tenant p) (events db)"
    using own filter_own [of "\<lambda>e. ev_run_id e = rid \<and> ev_tenant_id e = principal_tenant p" "\<lambda>e. ev_tenant_id e = principal_tenant p"]
    by (metis (mono_tags, lifting))
  show "evidence_rows p rid db2 = evidence_rows p rid db"
    unfolding evidence_rows_def
    using own filter_own [of "\<lambda>row. tool_run_id row = rid \<and> tool_tenant_id row = principal_tenant p
        \<and> tool_name row \<in> set evidence_tools \<and> tool_status row = Completed" "\<lambda>x. tool_tenant_id x = principal_tenant p"]
    by (metis (mono_tags, lifting))
  show "get_tool p rid t db2 = get_tool p rid t db"
    unfolding get_tool_def
    using own select_one_own [of "tool_matches p rid t" "\<lambda>x. tool_tenant_id x = principal_tenant p"]
    by (metis (mono_tags, lifting) tool_matches_def)
  show "get_decision p rid db2 = get_decision p rid db"
    unfolding get_decision_def
    using own select_one_own [of "decision_matches p rid" "\<lambda>d. dec_tenant_id d = principal_tenant p"]
    by (metis (mono_tags, lifting) decision_matches_def)
qed

text \<open>C7. Tenants are isolated. Whatever a tenant's principals do, in any number of operations with
  any arguments, no run, event, key, tool invocation or decision of another tenant is added,
  removed or changed. A principal that names a run of other tenants only, to read it or its audit, to
  move it, to set its draft, to record a refusal or to review it, is told that there is no such run
  and leaves no trace. And what a principal is answered on reading a run, its audit, its evidence or its
  decision, and on completing a tool, is decided by the rows of its own tenant alone. (A tool claim is the
  one operation that other tenants' rows can refuse: its key has no tenant.)\<close>

theorem tenant_isolation:
  assumes "\<forall>op \<in> set ops. op_tenant op = Some t"
  shows "others t (fold repo_step ops db) = others t db
       \<and> (\<forall>p rid. (\<forall>r \<in> set (runs db). run_id r = rid \<longrightarrow> tenant_id r \<noteq> principal_tenant p) \<longrightarrow>
            get_run p rid db = (Inl NotFoundError, db)
            \<and> audit_events p rid db = (Inl NotFoundError, db)
            \<and> append_rejected_control p rid code now db = (Inl NotFoundError, db)
            \<and> record_review p rid k a h ed eh rs now db = (Inl NotFoundError, db)
            \<and> (\<forall>run :: RunRecord. run_id run = rid \<longrightarrow>
                 transition p run target et now pl db = (Inl NotFoundError, db)
                 \<and> set_draft_and_transition p run j dh now x db = (Inl NotFoundError, db)))
       \<and> (\<forall>p rid db2. own (principal_tenant p) db2 = own (principal_tenant p) db \<longrightarrow>
            fst (get_run p rid db2) = fst (get_run p rid db)
            \<and> fst (audit_events p rid db2) = fst (audit_events p rid db)
            \<and> fst (list_evidence p rid db2) = fst (list_evidence p rid db)
            \<and> get_decision p rid db2 = get_decision p rid db
            \<and> fst (complete_tool p rid tn res md st now db2) = fst (complete_tool p rid tn res md st now db))"
proof (intro conjI allI impI)
  show "others t (fold repo_step ops db) = others t db"
    using assms by (induction ops arbitrary: db) (auto simp: others_step)
next
  fix p :: Principal and rid
  assume "\<forall>r \<in> set (runs db). run_id r = rid \<longrightarrow> tenant_id r \<noteq> principal_tenant p"
  then have none: "select_one (run_visible p rid) (runs db) = None"
    by (auto simp: select_one_None_iff run_visible_def)
  show "get_run p rid db = (Inl NotFoundError, db)" "audit_events p rid db = (Inl NotFoundError, db)"
    "append_rejected_control p rid code now db = (Inl NotFoundError, db)"
    "record_review p rid k a h ed eh rs now db = (Inl NotFoundError, db)"
    by (simp_all add: get_run_def audit_events_def append_rejected_control_def record_review_def none comp_defs)
  fix run :: RunRecord assume "run_id run = rid"
  then have none: "select_one (run_visible p (run_id run)) (runs db) = None" using none by simp
  show "transition p run target et now pl db = (Inl NotFoundError, db)"
    "set_draft_and_transition p run j dh now x db = (Inl NotFoundError, db)"
    by (rule foreign_moves [OF none])+
next
  fix p :: Principal and rid db2
  assume "own (principal_tenant p) db2 = own (principal_tenant p) db"
  note same = own_reads [OF this]
  show "fst (get_run p rid db2) = fst (get_run p rid db)" "fst (audit_events p rid db2) = fst (audit_events p rid db)"
    "fst (list_evidence p rid db2) = fst (list_evidence p rid db)" "get_decision p rid db2 = get_decision p rid db"
    "fst (complete_tool p rid tn res md st now db2) = fst (complete_tool p rid tn res md st now db)"
    by (simp_all add: get_run_def audit_events_def list_evidence_def complete_tool_def same comp_defs split: option.split)
qed

theorem tenant_isolation_witness:
  "others ''t1'' (fold repo_step [w_create] w_drafted) = others ''t1'' w_drafted
   \<and> get_run w_stranger ''run-1'' w_drafted = (Inl NotFoundError, w_drafted)
   \<and> record_review w_stranger ''run-1'' ''k'' APPROVE w_hash' None None None 3007 w_drafted
       = (Inl NotFoundError, w_drafted)"
proof -
  have "\<forall>op \<in> set [w_create]. op_tenant op = Some ''t1''"
    by (simp add: w_create_def w_operator_def)
  note iso = tenant_isolation [OF this, of w_drafted]
  have "\<forall>r \<in> set (runs w_drafted). run_id r = ''run-1'' \<longrightarrow> tenant_id r \<noteq> principal_tenant w_stranger"
    by (simp add: w_drafted_tables w_drafted_row_def with_draft_def w_at_def w_run_def new_run_def
        w_stranger_def w_operator_def)
  with iso show ?thesis by blast
qed

subsection \<open>Reviews\<close>

lemma review_guards:
  assumes "repo_inv db"
  shows "(\<exists>r' db'. record_review p rid key action submitted edited ehash reason now db = (Inr r', db'))
     \<longleftrightarrow> (\<exists>r. select_one (run_visible p rid) (runs db) = Some r \<and> run_mode r = Human_review
           \<and> state r = AWAITING_HUMAN \<and> get_decision p rid db = None
           \<and> actor_id p = assigned_reviewer_id r \<and> draft_hash r = Some submitted
           \<and> (\<exists>t. review_expires_at r = Some t \<and> now \<le> t)
           \<and> decision_checks (new_decision p r key action submitted edited ehash reason now) db)"
    (is "?accepted \<longleftrightarrow> ?guards")
proof -
  note inv = assms
  have mode: "run_mode r = Human_review \<longleftrightarrow> run_mode r \<noteq> Shadow" for r by (cases "run_mode r") auto
  from inv_keyed [OF inv] show ?thesis
  proof (cases rule: record_review_cases [where p = p and rid = rid and key = key and action = action
        and submitted = submitted and edited = edited and ehash = ehash and reason = reason and now = now])
    case (refused r code err)
    have "review_refusal p r (get_decision p rid db) submitted now \<noteq> None"
      using refused(2) by simp
    then have "\<not> ?guards"
      unfolding review_refusal_None using refused(1) mode by auto
    with refused(3) show ?thesis by simp
  next
    case (decided r d')
    have ?guards
      using decided(1,2,4) mode unfolding decided(3) review_refusal_None by blast
    with decided(5) show ?thesis by simp
  next
    case missing
    then show ?thesis by simp
  next
    case constraint
    have "\<not> ?guards"
    proof
      assume ?guards
      then obtain r where r: "select_one (run_visible p rid) (runs db) = Some r"
          "review_refusal p r (get_decision p rid db) submitted now = None"
          "decision_checks (new_decision p r key action submitted edited ehash reason now) db"
          "state r = AWAITING_HUMAN"
        unfolding review_refusal_None using mode by auto
      from run_visible_select [OF r(1)] constraint r
        decide_and_close_result [OF inv_keyed [OF inv], of r p
          "new_decision p r key action submitted edited ehash reason now" submitted now]
      show False by (simp add: record_review_def Let_def)
    qed
    with constraint show ?thesis by simp
  qed
qed

lemma review_writes:
  assumes inv: "repo_inv db" and run: "record_review p rid key action submitted edited ehash reason now db = (Inr r', db')"
  shows "\<exists>r. select_one (run_visible p rid) (runs db) = Some r
        \<and> r' = move_to CLOSED now (move_to (review_target action) now r)
        \<and> db' = db\<lparr>runs := map (\<lambda>x. if x = r then r' else x) (runs db),
             events := events db @
               [\<lparr>ev_run_id = rid, ev_tenant_id = principal_tenant p, event_type = ''review_decided'',
                 from_state = Some AWAITING_HUMAN, to_state = Some (review_target action), ev_actor_id = actor_id p,
                 payload = JObj [(''action'', JStr (action_value action)), (''draft_hash'', JStr submitted)],
                 occurred_at = now\<rparr>,
                \<lparr>ev_run_id = rid, ev_tenant_id = principal_tenant p, event_type = ''run_closed'',
                 from_state = Some (review_target action), to_state = Some CLOSED, ev_actor_id = actor_id p,
                 payload = JObj [], occurred_at = now\<rparr>],
             decisions := decisions db @ [new_decision p r key action submitted edited ehash reason now]\<rparr>"
  using inv_keyed [OF inv]
proof (cases rule: record_review_cases [where p = p and rid = rid and key = key and action = action
      and submitted = submitted and edited = edited and ehash = ehash and reason = reason and now = now])
  case (decided r d')
  have "run_id r = rid" using run_visible_select [OF decided(1)] by simp
  with run decided(1) show ?thesis
    unfolding decided(3,5) by (auto simp: decided_row_def review_events_def cong: if_cong)
qed (use run in simp_all)

text \<open>C13. A review is accepted exactly when the caller can see the run, the run is a human-reviewed
  one awaiting its first decision, the caller is the reviewer the server assigned, the submitted
  hash is that of the current draft and the review window is open (and the stored texts meet the
  schema's checks). What it then writes is exactly this: the run's row moved to the decided state and on to
  closed, the two events of these transitions, and the one decision.\<close>

theorem review_accepted_iff:
  assumes "db = fold repo_step ops (empty_db i d s)"
  shows "((\<exists>r' db'. record_review p rid key action submitted edited ehash reason now db = (Inr r', db'))
     \<longleftrightarrow> (\<exists>r. select_one (run_visible p rid) (runs db) = Some r \<and> run_mode r = Human_review
           \<and> state r = AWAITING_HUMAN \<and> get_decision p rid db = None
           \<and> actor_id p = assigned_reviewer_id r \<and> draft_hash r = Some submitted
           \<and> (\<exists>t. review_expires_at r = Some t \<and> now \<le> t)
           \<and> decision_checks (new_decision p r key action submitted edited ehash reason now) db))
    \<and> (\<forall>r' db'. record_review p rid key action submitted edited ehash reason now db = (Inr r', db') \<longrightarrow>
      (\<exists>r. select_one (run_visible p rid) (runs db) = Some r
        \<and> r' = move_to CLOSED now (move_to (review_target action) now r)
        \<and> db' = db\<lparr>runs := map (\<lambda>x. if x = r then r' else x) (runs db),
             events := events db @
               [\<lparr>ev_run_id = rid, ev_tenant_id = principal_tenant p, event_type = ''review_decided'',
                 from_state = Some AWAITING_HUMAN, to_state = Some (review_target action), ev_actor_id = actor_id p,
                 payload = JObj [(''action'', JStr (action_value action)), (''draft_hash'', JStr submitted)],
                 occurred_at = now\<rparr>,
                \<lparr>ev_run_id = rid, ev_tenant_id = principal_tenant p, event_type = ''run_closed'',
                 from_state = Some (review_target action), to_state = Some CLOSED, ev_actor_id = actor_id p,
                 payload = JObj [], occurred_at = now\<rparr>],
             decisions := decisions db @ [new_decision p r key action submitted edited ehash reason now]\<rparr>))"
proof -
  have inv: "repo_inv db" unfolding assms by (rule reachable_inv)
  show ?thesis by (intro conjI allI impI review_guards [OF inv] review_writes [OF inv])
qed

theorem review_accepted_iff_witness:
  "\<exists>r' db'. record_review w_reviewer ''run-1'' ''rk'' APPROVE w_hash' None None None 3007 w_drafted
      = (Inr r', db')"
proof -
  have "get_decision w_reviewer ''run-1'' w_drafted = None"
    by (simp add: get_decision_def w_drafted_tables)
  moreover have "decision_checks (new_decision w_reviewer w_drafted_row ''rk'' APPROVE w_hash' None None None 3007)
      w_drafted"
    by (simp add: decision_checks_def w_drafted_tables new_decision_def bounded_text_def w_hash_hex)
  moreover have "run_mode w_drafted_row = Human_review \<and> state w_drafted_row = AWAITING_HUMAN
      \<and> draft_hash w_drafted_row = Some w_hash' \<and> review_expires_at w_drafted_row = Some 9000
      \<and> actor_id w_reviewer = assigned_reviewer_id w_drafted_row"
    by (simp add: w_drafted_row_def with_draft_def w_at_def w_run_def new_run_def w_reviewer_def)
  ultimately show ?thesis
    using review_accepted_iff [OF w_drafted_ops, of w_reviewer "''run-1''" "''rk''" APPROVE w_hash' None None None 3007]
      w_drafted_run by auto
qed

lemma filter_key_single:
  "keyed k xs \<Longrightarrow> x \<in> set xs \<Longrightarrow> k x = a \<Longrightarrow> filter (\<lambda>y. k y = a) xs = [x]"
proof (induction xs)
  case (Cons y ys)
  have none: "filter (\<lambda>z. k z = k y) ys = []"
    using Cons.prems(1) by (auto simp: filter_empty_conv image_iff)
  show ?case
  proof (cases "x = y")
    case True
    with Cons.prems(3) none show ?thesis by simp
  next
    case False
    with Cons.prems have "x \<in> set ys" "k y \<noteq> a" by auto
    with Cons show ?thesis by simp
  qed
qed simp

text \<open>C15. A decision is final: after an accepted review, whatever else is done, the run's row never
  changes again, every further review of it by anyone of its tenant is refused as
  \<^verbatim>\<open>RUN_ALREADY_DECIDED\<close> and the decision stays the only one of the run.\<close>

theorem decision_final:
  assumes "db = fold repo_step ops (empty_db i d s)"
    and "record_review p rid key action submitted edited ehash reason now db = (Inr r', db')"
    and "db'' = fold repo_step later db'" and "principal_tenant q = principal_tenant p"
  shows "select_one (run_visible q rid) (runs db'') = Some r' \<and> state r' = CLOSED
       \<and> fst (record_review q rid key' action' submitted' edited' ehash' reason' now' db'')
           = Inl (ConflictError ''RUN_ALREADY_DECIDED'' ''Run is not awaiting a review decision'')
       \<and> length (filter (\<lambda>x. dec_run_id x = rid) (decisions db'')) = 1
       \<and> get_decision q rid db'' = get_decision p rid db'"
proof -
  have inv: "repo_inv db" unfolding assms(1) by (rule reachable_inv)
  have inv': "repo_inv db'"
    using record_review_keeps_inv [OF inv, of p rid key action submitted edited ehash reason now] assms(2)
    by simp
  have inv'': "repo_inv db''" unfolding assms(3) by (rule later_inv [OF inv'])
  from inv_keyed [OF inv] obtain d r where
      d: "get_decision p rid db = None" "dec_run_id d = rid" "dec_tenant_id d = principal_tenant p"
        "decisions db' = decisions db @ [d]"
      and mode: "run_mode r \<noteq> Shadow"
      and r: "select_one (run_visible p rid) (runs db) = Some r" "r' = decided_row (review_target action) now r"
        "runs db' = map (\<lambda>x. if x = r then decided_row (review_target action) now x else x) (runs db)"
  proof (cases rule: record_review_cases [where p = p and rid = rid and key = key and action = action
        and submitted = submitted and edited = edited and ehash = ehash and reason = reason and now = now])
    case (decided r d)
    have "run_id r = rid" using run_visible_select [OF decided(1)] by simp
    with decided assms(2) show ?thesis
      by (intro that [of d r]) (auto simp: review_refusal_None new_decision_def)
  qed (use assms(2) in simp_all)
  note vis = run_visible_select [OF r(1)]
  have "r' \<in> set (runs db')" using vis r by force
  then have sel': "select_one (run_visible p rid) (runs db') = Some r'"
    using select_run_visible [OF inv_keyed [OF inv'], of r' p] vis r(2) by simp
  have same: "run_visible q rid = run_visible p rid" "decision_matches q rid = decision_matches p rid"
    using assms(4) by (auto simp: run_visible_def decision_matches_def)
  from later_select [OF inv' sel', of later] obtain r''
    where r'': "select_one (run_visible p rid) (runs db'') = Some r''" "run_advanced r' r''"
    unfolding assms(3) by blast
  have [simp]: "r'' = r'" by (rule run_advanced_final [OF r''(2)]) (simp add: r(2))
  from repo.run_before [OF inv', of later] obtain ds where ds: "decisions db'' = decisions db' @ ds"
    unfolding assms(3) by (auto simp: repo_before_def prefix_def)
  have dec: "get_decision p rid db' = Some d" "get_decision q rid db'' = Some d"
    using d ds by (auto simp: get_decision_def same select_one_append decision_matches_def)
  have one: "filter (\<lambda>x. dec_run_id x = rid) (decisions db'') = [d]"
    using inv'' d ds by (intro filter_key_single) (auto simp: repo_inv_def gate_inv_def)
  have mode': "run_mode r' \<noteq> Shadow"
    using mode by (simp add: r(2) decided_row_def move_to_def)
  show ?thesis
    using r'' dec one r(2) mode' by (simp add: same record_review_def review_refusal_def raiseE_def)
qed

lemma w_drafted_facts:
  "run_mode w_drafted_row = Human_review" "state w_drafted_row = AWAITING_HUMAN"
  "draft_hash w_drafted_row = Some w_hash'" "review_expires_at w_drafted_row = Some 9000"
  "assigned_reviewer_id w_drafted_row = actor_id w_reviewer" "run_id w_drafted_row = ''run-1''"
  "tenant_id w_drafted_row = principal_tenant w_reviewer"
  by (simp_all add: w_drafted_row_def with_draft_def w_at_def w_run_def new_run_def w_reviewer_def
      w_operator_def)

lemma w_reviewed:
  "\<exists>db'. record_review w_reviewer ''run-1'' ''rk'' APPROVE w_hash' None None None 3007 w_drafted
      = (Inr (decided_row APPROVED 3007 w_drafted_row), db')"
proof -
  have "review_refusal w_reviewer w_drafted_row None w_hash' 3007 = None"
    by (simp add: review_refusal_None w_drafted_facts)
  moreover have "get_decision w_reviewer ''run-1'' w_drafted = None"
    by (simp add: get_decision_def w_drafted_tables)
  ultimately show ?thesis
    using decide_and_close_result [of w_drafted w_drafted_row w_reviewer
        "new_decision w_reviewer w_drafted_row ''rk'' APPROVE w_hash' None None None 3007" w_hash' 3007]
    by (simp add: record_review_def run_visible_def w_drafted_facts w_drafted_tables Let_def
        decision_checks_def new_decision_def bounded_text_def w_hash_hex)
qed

theorem decision_final_witness:
  "\<exists>db'. fst (record_review w_reviewer ''run-1'' ''rk2'' REJECT w_hash' None None (Some ''no'') 3009
             (fold repo_step [w_create] db'))
      = Inl (ConflictError ''RUN_ALREADY_DECIDED'' ''Run is not awaiting a review decision'')"
proof -
  from w_reviewed obtain db' where "record_review w_reviewer ''run-1'' ''rk'' APPROVE w_hash' None None
      None 3007 w_drafted = (Inr (decided_row APPROVED 3007 w_drafted_row), db')" by blast
  from decision_final [where later = "[w_create]", OF w_drafted_ops this refl refl] show ?thesis by blast
qed

text \<open>C3. The human gate: in every reachable database a run is closed exactly when it has a decision,
  that decision is the only one and was made by the assigned reviewer, on the draft the run still
  carries, before the review expired; no shadow run has any; and no run is ever left standing in
  an approved, edited or rejected state.\<close>

theorem closed_iff_decided:
  assumes "db = fold repo_step ops (empty_db i d s)" and "r \<in> set (runs db)"
  shows "(state r = CLOSED \<longleftrightarrow> (\<exists>x \<in> set (decisions db). dec_run_id x = run_id r))
       \<and> (\<forall>x \<in> set (decisions db). dec_run_id x = run_id r \<longrightarrow>
            decided_run x r \<and> filter (\<lambda>y. dec_run_id y = run_id r) (decisions db) = [x])
       \<and> state r \<notin> {APPROVED, EDITED_AND_APPROVED, REJECTED}"
proof -
  have inv: "repo_inv db" unfolding assms(1) by (rule reachable_inv)
  then have gate: "gate_inv (runs db) (decisions db)" by (simp add: repo_inv_def)
  have mine: "decided_run x r" if x: "x \<in> set (decisions db)" "dec_run_id x = run_id r" for x
  proof -
    from gate x obtain r' where r': "r' \<in> set (runs db)" "decided_run x r'"
      by (auto simp: gate_inv_def)
    then have "run_id r' = run_id r" using x by (simp add: decided_run_def)
    with keyed_unique [OF inv_keyed [OF inv] r'(1) assms(2)] r'(2) show ?thesis by simp
  qed
  have single: "filter (\<lambda>y. dec_run_id y = run_id r) (decisions db) = [x]"
    if "x \<in> set (decisions db)" "dec_run_id x = run_id r" for x
    using gate that by (intro filter_key_single) (auto simp: gate_inv_def)
  have gated: "run_gated (decisions db) r" using gate assms(2) by (simp add: gate_inv_def)
  show ?thesis
    using mine single gated by (auto simp: run_gated_def decided_run_def)
qed

theorem closed_iff_decided_witness:
  "\<not> (\<exists>x \<in> set (decisions w_drafted). dec_run_id x = run_id w_drafted_row)"
proof -
  have "w_drafted_row \<in> set (runs w_drafted)" by (simp add: w_drafted_tables)
  from closed_iff_decided [OF w_drafted_ops this] show ?thesis by (simp add: w_drafted_facts)
qed

subsection \<open>Tool claims\<close>

text \<open>C18. A tool is invoked at most once for a run: after a claim was granted, whatever happens
  (completion, failure, a crash that leaves the invocation started, the lock's release), no
  principal is ever granted a claim of the same run and tool again.\<close>

theorem claim_at_most_once:
  assumes "db = fold repo_step ops (empty_db i d s)"
    and "claim_or_observe_tool p rid t h now db = (Inr (row, True), db')"
    and "db'' = fold repo_step later db'"
  shows "fst (claim_or_observe_tool q rid t h' now' db'') \<noteq> Inr (row', True)
       \<and> length (filter (\<lambda>x. tool_run_id x = rid \<and> tool_name x = t) (tools db'')) = 1"
proof -
  have inv: "repo_inv db" unfolding assms(1) by (rule reachable_inv)
  have inv': "repo_inv db'"
    using preservesD [OF preserves_claim inv, of p rid t h now] assms(2) by simp
  have inv'': "repo_inv db''" unfolding assms(3) by (rule later_inv [OF inv'])
  have "(rid, t) \<in> set (tool_keys (tools db'))"
    using assms(2)
    by (auto simp: claim_or_observe_tool_def returnE_def raiseE_def Let_def tool_keys_def started_tool_def
        split: option.splits if_splits)
  with repo.run_before [OF inv', of later] have key: "(rid, t) \<in> set (tool_keys (tools db''))"
    unfolding assms(3) by (auto simp: repo_before_def dest!: set_mono_prefix)
  then obtain x where x: "x \<in> set (tools db'')" "tool_run_id x = rid" "tool_name x = t"
    by (auto simp: tool_keys_def)
  have "filter (\<lambda>y. (tool_run_id y, tool_name y) = (rid, t)) (tools db'') = [x]"
    using inv'' x by (intro filter_key_single) (auto simp: repo_inv_def tool_inv_def)
  moreover have "fst (claim_or_observe_tool q rid t h' now' db'') \<noteq> Inr (row', True)"
    using key by (auto simp: claim_or_observe_tool_def returnE_def raiseE_def tool_keys_def
        split: option.split)
  ultimately show ?thesis by simp
qed

theorem claim_at_most_once_witness:
  "\<exists>row db'. claim_or_observe_tool w_operator ''run-1'' T1_inventory w_hash 5 w_created = (Inr (row, True), db')
     \<and> fst (claim_or_observe_tool w_operator ''run-1'' T1_inventory w_hash 6
              (fold repo_step [OpRelease ''run-1'' T1_inventory] db')) \<noteq> Inr (row, True)"
proof -
  have "tools w_created = []" "locks w_created = []" by code_simp+
  moreover have "is_hex64 w_hash" by code_simp
  ultimately obtain row db' where c:
      "claim_or_observe_tool w_operator ''run-1'' T1_inventory w_hash 5 w_created = (Inr (row, True), db')"
    by (simp add: claim_or_observe_tool_def get_tool_def w_created_tables w_run_def new_run_def
        returnE_def Let_def)
  from claim_at_most_once [where later = "[OpRelease ''run-1'' T1_inventory]", OF w_created_ops c refl] c
  show ?thesis by blast
qed

end
