(* ===== verification/InvestigationService.thy ===== *)
theory InvestigationService
  imports RunProperties
begin

section \<open>The investigation service (\<^verbatim>\<open>service.py\<close>)\<close>

text \<open>
  The control spine: intake, the resume loop that drives a run from creation to a draft awaiting
  a human (or to an escalation), the review, and the audit report. The world is the database, the
  number of clock reads and repository calls so far, and the evidence bundles the reasoning
  adapter was called with, in order. The environment gives the clock's readings, the adapter,
  the reviewer assignment, and \<open>interfere k\<close>: what other callers do to the database right before
  the \<open>k\<close>-th repository call. The two \<^verbatim>\<open>while True\<close> loops run on fuel and return
  \<open>None\<close> when it runs out; \<open>step_fuel\<close> is enough for the inner one whatever happens, and the
  number of transitions the run has left for the outer one.
\<close>

subsection \<open>World and environment\<close>

record world =
  db :: run_db
  clock_reads :: nat
  repo_calls :: nat
  reasoned :: "Evidence list list"

record env =
  clock :: "nat \<Rightarrow> int"
  interfere :: "nat \<Rightarrow> run_db \<Rightarrow> run_db"
  reasoning :: "Evidence list \<Rightarrow> ReasoningOutcome result"
  reviewer_of :: "string \<Rightarrow> string result"
  manifest_version :: string

definition read_clock :: "env \<Rightarrow> (world, int) comp" where
  "read_clock env w = returnE (clock env (clock_reads w)) (w\<lparr>clock_reads := Suc (clock_reads w)\<rparr>)"

definition call_repo :: "env \<Rightarrow> (run_db, 'a) comp \<Rightarrow> (world, 'a) comp" where
  "call_repo env m w =
     (case m (interfere env (repo_calls w) (db w)) of
        (r, db') \<Rightarrow> (r, w\<lparr>db := db', repo_calls := Suc (repo_calls w)\<rparr>))"

text \<open>A repository call with \<^verbatim>\<open>now=self.clock()\<close> among its arguments.\<close>

definition call_at :: "env \<Rightarrow> (int \<Rightarrow> (run_db, 'a) comp) \<Rightarrow> (world, 'a) comp" where
  "call_at env m = bindE (read_clock env) (\<lambda>now. call_repo env (m now))"

definition call_reasoning :: "env \<Rightarrow> Evidence list \<Rightarrow> (world, ReasoningOutcome) comp" where
  "call_reasoning env es w = (reasoning env es, w\<lparr>reasoned := reasoned w @ [es]\<rparr>)"

definition release_claim :: "RunRecord \<Rightarrow> ToolName \<Rightarrow> world \<Rightarrow> world" where
  "release_claim run t w = w\<lparr>db := release (run_id run) t (db w)\<rparr>"

definition REVIEW_POLICY :: int where "REVIEW_POLICY = hours 24"

subsection \<open>Exceptions caught\<close>

fun is_evidence_failure :: "exn \<Rightarrow> bool" where
  "is_evidence_failure (EvidenceFailure _ _) = True"
| "is_evidence_failure _ = False"

fun is_reasoning_failure :: "exn \<Rightarrow> bool" where
  "is_reasoning_failure (ReasoningFailure _ _) = True"
| "is_reasoning_failure _ = False"

fun is_pydantic :: "exn \<Rightarrow> bool" where
  "is_pydantic PydanticValidationError = True"
| "is_pydantic _ = False"

text \<open>Pydantic's error is a \<^verbatim>\<open>ValueError\<close>.\<close>

fun is_value_error :: "exn \<Rightarrow> bool" where
  "is_value_error (ValueError _) = True"
| "is_value_error PydanticValidationError = True"
| "is_value_error _ = False"

fun is_state_conflict :: "exn \<Rightarrow> bool" where
  "is_state_conflict (ConflictError c _) = (c = ''STATE_VERSION_CONFLICT'')"
| "is_state_conflict _ = False"

text \<open>\<^verbatim>\<open>getattr(exc, "code", default)\<close>.\<close>

definition code_or :: "string \<Rightarrow> exn \<Rightarrow> string" where
  "code_or d e = (case error_code e of None \<Rightarrow> d | Some c \<Rightarrow> c)"

subsection \<open>Transitions\<close>

definition advance :: "env \<Rightarrow> Principal \<Rightarrow> RunRecord \<Rightarrow> RunState \<Rightarrow> string \<Rightarrow> (world, RunRecord) comp" where
  "advance env p run target et = call_at env (\<lambda>now. transition p run target et now None)"

definition escalate :: "env \<Rightarrow> Principal \<Rightarrow> RunRecord \<Rightarrow> string \<Rightarrow> (world, RunRecord) comp" where
  "escalate env p run code =
     call_at env (\<lambda>now. transition p run ESCALATED ''run_escalated'' now
       (Some (JObj [(''code'', JStr code)])))"

subsection \<open>Evidence\<close>

definition forbidden_retry_code :: "ToolRow \<Rightarrow> string \<Rightarrow> string" where
  "forbidden_retry_code existing d =
     (if tool_status existing = Failed then
        (case get as_str ''error_code'' (metadata_json existing) of None \<Rightarrow> d | Some c \<Rightarrow> c)
      else d)"

text \<open>The three specs of \<open>_gather_evidence\<close>: tool, query, and the tool's read of the fixtures.\<close>

type_synonym evidence_spec = "ToolName \<times> json \<times> (run_db \<Rightarrow> Evidence result)"

definition evidence_specs :: "string \<Rightarrow> Principal \<Rightarrow> RunRecord \<Rightarrow> evidence_spec list" where
  "evidence_specs version p run =
     (let as_of = utc (as_of_ts run); ws = utc (window_start run); we = utc (window_end run)
      in [(T1_inventory, inventory_query (run_sku_id run) (run_store_id run) as_of,
             \<lambda>d. inventory_tool (fetch_inventory_fixture d) version p
                   (run_sku_id run) (run_store_id run) as_of),
          (T2_sales_demand, demand_query (run_sku_id run) (run_store_id run) ws we as_of,
             \<lambda>d. demand_tool (fetch_demand_fixture d) version p
                   (run_sku_id run) (run_store_id run) ws we as_of),
          (T3_supplier, supplier_query (run_sku_id run) (run_supplier_id run) as_of,
             \<lambda>d. supplier_tool (fetch_supplier_fixture d) version p
                   (run_sku_id run) (run_supplier_id run) as_of)])"

definition read_fixture :: "(run_db \<Rightarrow> Evidence result) \<Rightarrow> (run_db, Evidence) comp" where
  "read_fixture f d = liftE (f d) d"

text \<open>The body of \<^verbatim>\<open>with claim:\<close>.\<close>

definition invoke_claimed ::
  "env \<Rightarrow> Principal \<Rightarrow> RunRecord \<Rightarrow> ToolName \<Rightarrow> (run_db \<Rightarrow> Evidence result) \<Rightarrow> (world, Evidence) comp"
where
  "invoke_claimed env p run t invoke =
     bindE (tryE is_evidence_failure (call_repo env (read_fixture invoke))) (\<lambda>outcome. case outcome of
        Inl exc \<Rightarrow>
          bindE (call_at env (complete_tool p (run_id run) t None
                   (JObj [(''error_code'', JStr (code_or [] exc))]) Failed))
            (\<lambda>_. raiseE exc)
      | Inr item \<Rightarrow>
          bindE (call_at env (complete_tool p (run_id run) t (Some (evidence_dump item))
                   (JObj [(''evidence_id'', JStr (evidence_id item))]) Completed))
            (\<lambda>_. returnE item))"

definition gather_one :: "env \<Rightarrow> Principal \<Rightarrow> RunRecord \<Rightarrow> evidence_spec \<Rightarrow> (world, Evidence) comp" where
  "gather_one env p run = (\<lambda>(t, query, invoke).
     bindE (call_at env (claim_or_observe_tool p (run_id run) t (canonical_hash query)))
       (\<lambda>(existing, claimed).
          if \<not> claimed then
            if tool_status existing = Completed \<and> result_json existing \<noteq> None then
              liftE (parse_result (result_json existing))
            else
              raiseE (EvidenceFailure (forbidden_retry_code existing ''EVIDENCE_RETRY_FORBIDDEN'')
                (tool_value t @ '' was already attempted and will not be retried''))
          else finallyE (invoke_claimed env p run t invoke) (release_claim run t)))"

fun gather_specs :: "env \<Rightarrow> Principal \<Rightarrow> RunRecord \<Rightarrow> evidence_spec list \<Rightarrow> (world, Evidence list) comp" where
  "gather_specs env p run [] = returnE []"
| "gather_specs env p run (spec # specs) =
     bindE (gather_one env p run spec)
       (\<lambda>item. bindE (gather_specs env p run specs) (\<lambda>items. returnE (item # items)))"

definition gather_evidence :: "env \<Rightarrow> Principal \<Rightarrow> RunRecord \<Rightarrow> (world, Evidence list) comp" where
  "gather_evidence env p run = gather_specs env p run (evidence_specs (manifest_version env) p run)"

text \<open>The check that stands between evidence and reasoning.\<close>

definition quality_check :: "env \<Rightarrow> Principal \<Rightarrow> RunRecord \<Rightarrow> (world, unit) comp" where
  "quality_check env p run =
     bindE (call_repo env (list_evidence p (run_id run)))
       (\<lambda>bundle. liftE (validate_bundle bundle (utc (as_of_ts run))))"

subsection \<open>Reasoning\<close>

fun as_int :: "json \<Rightarrow> int option" where
  "as_int (JInt i) = Some i"
| "as_int _ = None"

definition opt_json :: "('a \<Rightarrow> json) \<Rightarrow> 'a option \<Rightarrow> json" where
  "opt_json f x = (case x of None \<Rightarrow> JNull | Some y \<Rightarrow> f y)"

definition reasoning_metadata :: "ReasoningOutcome \<Rightarrow> json" where
  "reasoning_metadata o1 = JObj
     [(''model_id'', JStr (model_id o1)), (''prompt_hash'', JStr (prompt_hash o1)),
      (''input_hash'', JStr (input_hash o1)), (''output_hash'', JStr (output_hash o1)),
      (''input_tokens'', opt_json JInt (input_tokens o1)),
      (''output_tokens'', opt_json JInt (output_tokens o1)),
      (''latency_ms'', JFloat (latency_ms o1)),
      (''estimated_cost_usd'', opt_json JFloat (estimated_cost_usd o1))]"

definition required :: "(json \<Rightarrow> 'a option) \<Rightarrow> string \<Rightarrow> json \<Rightarrow> 'a result" where
  "required conv k j = (case get conv k j of None \<Rightarrow> Inl (KeyError k) | Some x \<Rightarrow> Inr x)"

definition reason_outcome_from_row :: "ToolRow \<Rightarrow> ReasoningOutcome result" where
  "reason_outcome_from_row row =
     (let md = metadata_json row in
      and_then (case result_json row of None \<Rightarrow> Inl PydanticValidationError | Some j \<Rightarrow> model_validate j) (\<lambda>res.
      and_then (required as_str ''model_id'' md) (\<lambda>mid.
      and_then (required as_str ''prompt_hash'' md) (\<lambda>ph.
      and_then (required as_str ''input_hash'' md) (\<lambda>ih.
      and_then (required as_str ''output_hash'' md) (\<lambda>oh.
      and_then (required as_float ''latency_ms'' md) (\<lambda>lat.
        Inr \<lparr>result = res, model_id = mid, prompt_hash = ph, input_hash = ih, output_hash = oh,
             input_tokens = get as_int ''input_tokens'' md,
             output_tokens = get as_int ''output_tokens'' md, latency_ms = lat,
             estimated_cost_usd = get as_float ''estimated_cost_usd'' md\<rparr>)))))))"

text \<open>\<^verbatim>\<open>existing["result_json"]\<close> is truthy unless it is null or empty.\<close>

fun truthy :: "json option \<Rightarrow> bool" where
  "truthy None = False"
| "truthy (Some (JObj kvs)) = (kvs \<noteq> [])"
| "truthy (Some (JList js)) = (js \<noteq> [])"
| "truthy (Some (JStr s)) = (s \<noteq> [])"
| "truthy (Some JNull) = False"
| "truthy (Some (JBool b)) = b"
| "truthy (Some (JInt i)) = (i \<noteq> 0)"
| "truthy (Some (JFloat x)) = (x \<noteq> 0)"
| "truthy (Some (JUni ns)) = (ns \<noteq> [])"
| "truthy (Some (JTime d)) = True"

definition checked_reasoning :: "env \<Rightarrow> Evidence list \<Rightarrow> (world, ReasoningOutcome) comp" where
  "checked_reasoning env evidence =
     bindE (call_reasoning env evidence) (\<lambda>outcome.
     bindE (liftE (validate_citations (result outcome) (evidence_id ` set evidence)))
       (\<lambda>_. returnE outcome))"

definition reason_claimed ::
  "env \<Rightarrow> Principal \<Rightarrow> RunRecord \<Rightarrow> Evidence list \<Rightarrow> (world, ReasoningOutcome) comp"
where
  "reason_claimed env p run evidence =
     bindE (tryE (\<lambda>e. is_reasoning_failure e \<or> is_value_error e) (checked_reasoning env evidence))
       (\<lambda>r. case r of
          Inl exc \<Rightarrow>
            (let code = code_or ''INVALID_REASONING_OUTPUT'' exc in
             bindE (call_at env (complete_tool p (run_id run) Tool_reasoning None
                      (JObj [(''error_code'', JStr code)]) Failed))
               (\<lambda>_. raiseE (if is_reasoning_failure exc then exc
                          else ReasoningFailure code ''Reasoning citation validation failed'')))
        | Inr outcome \<Rightarrow>
            bindE (call_at env (complete_tool p (run_id run) Tool_reasoning
                     (Some (result_dump (result outcome))) (reasoning_metadata outcome) Completed))
              (\<lambda>_. returnE outcome))"

definition reason_once :: "env \<Rightarrow> Principal \<Rightarrow> RunRecord \<Rightarrow> (world, ReasoningOutcome) comp" where
  "reason_once env p run =
     bindE (call_repo env (list_evidence p (run_id run))) (\<lambda>evidence.
     bindE (call_at env (claim_or_observe_tool p (run_id run) Tool_reasoning
              (canonical_hash (JList (map evidence_dump evidence)))))
       (\<lambda>(existing, claimed).
          if \<not> claimed then
            if tool_status existing = Completed \<and> truthy (result_json existing) then
              liftE (reason_outcome_from_row existing)
            else
              raiseE (ReasoningFailure (forbidden_retry_code existing ''REASONING_RETRY_FORBIDDEN'')
                ''A reasoning invocation already exists and will not be retried'')
          else finallyE (reason_claimed env p run evidence) (release_claim run Tool_reasoning)))"

subsection \<open>Drafting\<close>

definition read_reasoning :: "Principal \<Rightarrow> string \<Rightarrow> (run_db, ToolRow option) comp" where
  "read_reasoning p rid d = returnE (get_tool p rid Tool_reasoning d) d"

definition checked_result :: "env \<Rightarrow> Principal \<Rightarrow> RunRecord \<Rightarrow> ToolRow \<Rightarrow> (world, ReasoningResult) comp" where
  "checked_result env p run invocation =
     bindE (liftE (case result_json invocation of
                     None \<Rightarrow> Inl PydanticValidationError | Some j \<Rightarrow> model_validate j)) (\<lambda>res.
     bindE (call_repo env (list_evidence p (run_id run))) (\<lambda>evidence.
     bindE (liftE (validate_citations res (evidence_id ` set evidence))) (\<lambda>_. returnE res)))"

definition draft :: "env \<Rightarrow> Principal \<Rightarrow> RunRecord \<Rightarrow> ReasoningResult \<Rightarrow> (world, RunRecord) comp" where
  "draft env p run res =
     call_at env (\<lambda>now. set_draft_and_transition p run (result_dump res)
       (canonical_hash (result_dump res)) now (now + REVIEW_POLICY))"

subsection \<open>The resume loop\<close>

definition finish :: "(world, RunRecord) comp \<Rightarrow> (world, RunRecord option) comp" where
  "finish m = bindE m (\<lambda>r. returnE (Some r))"

fun resume_step :: "env \<Rightarrow> nat \<Rightarrow> Principal \<Rightarrow> RunRecord \<Rightarrow> (world, RunRecord option) comp" where
  "resume_step env 0 p run = returnE None"
| "resume_step env (Suc n) p run =
     (case state run of
        CREATED \<Rightarrow>
          bindE (advance env p run VALIDATING ''validation_started'') (resume_step env n p)
      | VALIDATING \<Rightarrow>
          bindE (advance env p run GATHERING_EVIDENCE ''evidence_gathering_started'')
            (resume_step env n p)
      | GATHERING_EVIDENCE \<Rightarrow>
          bindE (tryE is_evidence_failure (gather_evidence env p run)) (\<lambda>r. case r of
             Inl exc \<Rightarrow> finish (escalate env p run (code_or [] exc))
           | Inr _ \<Rightarrow> bindE (advance env p run QUALITY_CHECKS ''evidence_gathered'')
                       (resume_step env n p))
      | QUALITY_CHECKS \<Rightarrow>
          bindE (tryE (\<lambda>e. is_evidence_failure e \<or> is_pydantic e) (quality_check env p run)) (\<lambda>r. case r of
             Inl exc \<Rightarrow> finish (escalate env p run (code_or ''EVIDENCE_SCHEMA_INVALID'' exc))
           | Inr _ \<Rightarrow> bindE (advance env p run REASONING ''quality_checks_passed'')
                       (resume_step env n p))
      | REASONING \<Rightarrow>
          bindE (tryE is_reasoning_failure (reason_once env p run)) (\<lambda>r. case r of
             Inl exc \<Rightarrow> finish (escalate env p run (code_or [] exc))
           | Inr _ \<Rightarrow> bindE (advance env p run DRAFTING_RECOMMENDATION ''reasoning_completed'')
                       (resume_step env n p))
      | DRAFTING_RECOMMENDATION \<Rightarrow>
          bindE (call_repo env (read_reasoning p (run_id run))) (\<lambda>invocation.
            case invocation of
              None \<Rightarrow> finish (escalate env p run ''REASONING_RESULT_UNAVAILABLE'')
            | Some row \<Rightarrow>
                if tool_status row \<noteq> Completed then
                  finish (escalate env p run ''REASONING_RESULT_UNAVAILABLE'')
                else
                  bindE (tryE is_value_error (checked_result env p run row)) (\<lambda>r. case r of
                     Inl exc \<Rightarrow> finish (escalate env p run ''INVALID_REASONING_OUTPUT'')
                   | Inr res \<Rightarrow> bindE (draft env p run res) (resume_step env n p)))
      | _ \<Rightarrow> returnE (Some run))"

definition step_fuel :: nat where "step_fuel = 8"

fun resume :: "env \<Rightarrow> nat \<Rightarrow> Principal \<Rightarrow> RunRecord \<Rightarrow> (world, RunRecord option) comp" where
  "resume env 0 p run = returnE None"
| "resume env (Suc n) p run =
     bindE (tryE is_state_conflict (resume_step env step_fuel p run)) (\<lambda>r. case r of
        Inl _ \<Rightarrow> bindE (call_repo env (get_run p (run_id run))) (resume env n p)
      | Inr x \<Rightarrow> returnE x)"

subsection \<open>Intake and review\<close>

definition check_idempotency_key :: "string \<Rightarrow> unit result" where
  "check_idempotency_key key =
     (if key = [] \<or> 200 < length key then
        Inl (ValidationError ''INVALID_IDEMPOTENCY_KEY'' ''Idempotency-Key must contain 1-200 characters'')
      else Inr ())"

definition intake ::
  "env \<Rightarrow> nat \<Rightarrow> Principal \<Rightarrow> IntakeRequest \<Rightarrow> string \<Rightarrow> RunMode \<Rightarrow> string
   \<Rightarrow> (world, RunRecord option \<times> bool) comp"
where
  "intake env fuel p req key mode uuid =
     (if \<not> has_role p ''operator'' then
        raiseE (AuthorizationError ''Operator role is required for intake'')
      else
        bindE (liftE (check_idempotency_key key)) (\<lambda>_.
        bindE (liftE (reviewer_of env (principal_tenant p))) (\<lambda>reviewer.
        bindE (call_at env (\<lambda>now. begin_intake p req key (canonical_hash (intake_dump req))
                 reviewer now mode uuid)) (\<lambda>(run, created).
        bindE (resume env fuel p run) (\<lambda>r. returnE (r, created))))))"

definition checked_edit :: "env \<Rightarrow> Principal \<Rightarrow> string \<Rightarrow> json \<Rightarrow> (world, ReasoningResult) comp" where
  "checked_edit env p rid payload1 =
     bindE (liftE (model_validate payload1)) (\<lambda>edited.
     bindE (call_repo env (list_evidence p rid)) (\<lambda>evidence.
     bindE (liftE (validate_citations edited (evidence_id ` set evidence))) (\<lambda>_. returnE edited)))"

definition review_edit ::
  "env \<Rightarrow> Principal \<Rightarrow> string \<Rightarrow> ReviewRequest \<Rightarrow> (world, ReasoningResult option) comp"
where
  "review_edit env p rid req =
     (case rev_edited_payload req of
        None \<Rightarrow> returnE None
      | Some payload1 \<Rightarrow>
          bindE (tryE is_value_error (checked_edit env p rid payload1)) (\<lambda>r. case r of
             Inl _ \<Rightarrow>
               bindE (call_at env (append_rejected_control p rid ''INVALID_EDITED_PAYLOAD''))
                 (\<lambda>_. raiseE (ValidationError ''INVALID_EDITED_PAYLOAD''
                    ''Edited payload failed strict schema or citation validation''))
           | Inr edited \<Rightarrow> returnE (Some edited)))"

definition review ::
  "env \<Rightarrow> Principal \<Rightarrow> string \<Rightarrow> ReviewRequest \<Rightarrow> string \<Rightarrow> (world, RunRecord) comp"
where
  "review env p rid req key =
     (if \<not> has_role p ''reviewer'' then
        bindE (tryE is_stockoutops_error
                 (call_at env (append_rejected_control p rid ''REVIEWER_ROLE_REQUIRED'')))
          (\<lambda>_. raiseE (AuthorizationError ''Reviewer role is required''))
      else
        bindE (liftE (check_idempotency_key key)) (\<lambda>_.
        bindE (review_edit env p rid req) (\<lambda>edited.
        call_at env (record_review p rid key (rev_action req) (rev_draft_hash req)
          (map_option result_dump edited) (map_option (canonical_hash \<circ> result_dump) edited)
          (rev_reason req)))))"

subsection \<open>Reads\<close>

record RunDetail =
  det_run :: RunRecord
  det_evidence :: "json list"
  det_decision :: "DecisionRow option"

definition detail :: "env \<Rightarrow> Principal \<Rightarrow> string \<Rightarrow> (world, RunDetail) comp" where
  "detail env p rid =
     bindE (call_repo env (get_run p rid)) (\<lambda>run.
     bindE (call_repo env (list_evidence p (run_id run))) (\<lambda>evidence.
     bindE (call_repo env (\<lambda>d. returnE (get_decision p (run_id run) d) d)) (\<lambda>decision.
       returnE \<lparr>det_run = run, det_evidence = map evidence_dump evidence, det_decision = decision\<rparr>)))"

record AuditReport =
  rep_run_id :: string
  rep_current_state :: RunState
  rep_replayed_state :: "RunState option"
  rep_events :: "WorkflowEvent list"

definition replay :: "WorkflowEvent list \<Rightarrow> RunState option" where
  "replay es =
     foldl (\<lambda>replayed e. if to_state e \<noteq> None \<and> to_state e \<noteq> from_state e then to_state e else replayed)
       None es"

definition audit :: "env \<Rightarrow> Principal \<Rightarrow> string \<Rightarrow> (world, AuditReport) comp" where
  "audit env p rid =
     bindE (call_repo env (audit_events p rid)) (\<lambda>es.
     bindE (call_repo env (get_run p rid)) (\<lambda>current.
       returnE \<lparr>rep_run_id = run_id current, rep_current_state = state current,
                rep_replayed_state = replay es, rep_events = es\<rparr>))"

end
