(* ===== verification/ServiceProperties.thy ===== *)
theory ServiceProperties
  imports InvestigationService
begin

section \<open>What the service guarantees whatever else happens to the database\<close>

text \<open>
  The contract of the environment is the locale \<open>shared_repository\<close>: other callers keep the
  repository's invariant and only move the database forward, as every sequence of repository
  operations does. With it every operation of the service keeps the invariant and moves the
  database forward too, and the resume loops end.
\<close>

subsection \<open>The environment's contract\<close>

definition good :: "run_db \<Rightarrow> world \<Rightarrow> bool" where
  "good d0 w \<longleftrightarrow> repo_inv (db w) \<and> repo_before d0 (db w)"

definition forward :: "(run_db, 'a) comp \<Rightarrow> bool" where
  "forward m \<longleftrightarrow> preserves repo_inv m \<and> (\<forall>d. repo_inv d \<longrightarrow> repo_before d (snd (m d)))"

named_theorems forward_ops "repository operations that keep the invariant and move forward"

lemma forwardI: "preserves repo_inv m \<Longrightarrow> (\<And>d. repo_inv d \<Longrightarrow> repo_before d (snd (m d))) \<Longrightarrow> forward m"
  by (simp add: forward_def)

lemma read_forward: "(\<And>d. snd (m d) = d) \<Longrightarrow> forward m"
  by (simp add: forward_def preserves_def)

lemma forward_reads [forward_ops]:
  "forward (get_run p rid)" "forward (list_evidence p rid)" "forward (audit_events p rid)"
  "forward (read_fixture f)" "forward (read_reasoning p rid)" "forward (\<lambda>d. returnE (g d) d)"
  by (auto intro!: read_forward simp: get_run_def list_evidence_def audit_events_def read_fixture_def
      read_reasoning_def comp_defs split: option.splits)

lemma forward_writes [forward_ops]:
  "forward (append_rejected_control p rid code now)"
  "forward (begin_intake p req key h rv now mode uuid)"
  "state run \<in> machine_states \<Longrightarrow> forward (transition p run target et now pl)"
  "forward (set_draft_and_transition p run j h now x)"
  "forward (claim_or_observe_tool p rid t h now)"
  "forward (complete_tool p rid t res md st now)"
  "forward (record_review p rid key a h ed eh rs now)"
  by (rule forwardI;
      auto intro: pres preserves_transition
        before_append_rejected before_transition before_set_draft before_claim before_complete
        before_record_review
        simp: begin_intake_def before_begin_intake_after_select)+

locale shared_repository =
  fixes env :: env
  assumes others_inv: "repo_inv d \<Longrightarrow> repo_inv (interfere env k d)"
    and others_before: "repo_inv d \<Longrightarrow> repo_before d (interfere env k d)"
begin

lemma preserves_call [pres]: "forward m \<Longrightarrow> preserves (good d0) (call_repo env m)"
proof (rule preservesI)
  fix w assume m: "forward m" and w: "good d0 w"
  let ?d = "interfere env (repo_calls w) (db w)"
  have d: "repo_inv ?d" "repo_before d0 ?d"
    using w others_inv others_before by (auto simp: good_def intro: repo_before_trans)
  from m d have "repo_inv (snd (m ?d))" "repo_before d0 (snd (m ?d))"
    by (auto simp: forward_def preserves_def intro: repo_before_trans)
  then show "good d0 (snd (call_repo env m w))"
    by (auto simp: call_repo_def good_def split: prod.splits)
qed

lemma preserves_read_clock [pres]: "preserves (good d0) (read_clock env)"
  by (rule preservesI) (simp add: read_clock_def returnE_def good_def)

lemma preserves_call_at [pres]: "(\<And>now. forward (m now)) \<Longrightarrow> preserves (good d0) (call_at env m)"
  unfolding call_at_def by (intro pres)

lemma preserves_call_reasoning [pres]: "preserves (good d0) (call_reasoning env es)"
  by (rule preservesI) (simp add: call_reasoning_def good_def)

lemma good_release [simp]: "good d0 w \<Longrightarrow> good d0 (release_claim run t w)"
  using before_release [of "db w" "run_id run" t]
  by (auto simp: release_claim_def good_def intro: repo_before_trans)

lemma preserves_advance [pres]:
  "state run \<in> machine_states \<Longrightarrow> preserves (good d0) (advance env p run target et)"
  unfolding advance_def by (intro pres forward_ops)

lemma preserves_escalate [pres]:
  "state run \<in> machine_states \<Longrightarrow> preserves (good d0) (finish (escalate env p run code))"
  unfolding finish_def escalate_def by (intro pres forward_ops)

lemma preserves_invoke_claimed [pres]: "preserves (good d0) (invoke_claimed env p run t invoke)"
  unfolding invoke_claimed_def by (auto intro!: pres forward_ops split: sum.split)

lemma preserves_gather_one [pres]: "preserves (good d0) (gather_one env p run spec)"
  unfolding gather_one_def
  by (cases spec)
     (auto intro!: pres forward_ops split: prod.split sum.split simp: case_prod_unfold)

lemma preserves_gather_specs [pres]: "preserves (good d0) (gather_specs env p run specs)"
  by (induction specs) (auto intro!: pres)

lemma preserves_gather [pres]: "preserves (good d0) (gather_evidence env p run)"
  unfolding gather_evidence_def by (rule pres)

lemma preserves_quality [pres]: "preserves (good d0) (quality_check env p run)"
  unfolding quality_check_def by (intro pres forward_ops)

lemma preserves_reason_claimed [pres]: "preserves (good d0) (reason_claimed env p run es)"
  unfolding reason_claimed_def checked_reasoning_def Let_def
  by (auto intro!: pres forward_ops split: sum.split)

lemma preserves_reason_once [pres]: "preserves (good d0) (reason_once env p run)"
  unfolding reason_once_def
  by (auto intro!: pres forward_ops split: prod.split sum.split simp: case_prod_unfold Let_def)

lemma preserves_checked_result [pres]: "preserves (good d0) (checked_result env p run row)"
  unfolding checked_result_def by (intro pres forward_ops)

lemma preserves_draft [pres]: "preserves (good d0) (draft env p run res)"
  unfolding draft_def by (intro pres forward_ops)

lemma preserves_resume_step [pres]: "preserves (good d0) (resume_step env n p run)"
proof (induction n arbitrary: run)
  case 0
  show ?case by (simp add: preserves_return)
next
  case (Suc n)
  show ?case
    by (cases "state run")
       (auto intro!: pres forward_ops Suc.IH split: sum.split option.split simp: machine_states_def)
qed

lemma preserves_resume [pres]: "preserves (good d0) (resume env n p run)"
  by (induction n arbitrary: run) (auto intro!: pres forward_ops split: sum.split)

lemma preserves_intake [pres]: "preserves (good d0) (intake env fuel p req key mode uuid)"
  unfolding intake_def
  by (auto intro!: pres forward_ops split: prod.split simp: case_prod_unfold)

lemma preserves_review [pres]: "preserves (good d0) (review env p rid req key)"
  unfolding review_def review_edit_def checked_edit_def
  by (auto intro!: pres forward_ops split: option.split sum.split)

lemma preserves_detail [pres]: "preserves (good d0) (detail env p rid)"
  unfolding detail_def by (intro pres forward_ops)

lemma preserves_audit [pres]: "preserves (good d0) (audit env p rid)"
  unfolding audit_def by (intro pres forward_ops)

end

text \<open>Any operations of other callers, before each call, are such an environment.\<close>

definition busy_env ::
  "(nat \<Rightarrow> int) \<Rightarrow> (nat \<Rightarrow> repo_op list) \<Rightarrow> (Evidence list \<Rightarrow> ReasoningOutcome result)
   \<Rightarrow> (string \<Rightarrow> string result) \<Rightarrow> string \<Rightarrow> env"
where
  "busy_env c ops rs rv v =
     \<lparr>clock = c, interfere = (\<lambda>k. fold repo_step (ops k)), reasoning = rs, reviewer_of = rv,
      manifest_version = v\<rparr>"

interpretation busy: shared_repository "busy_env c ops rs rv v"
  by unfold_locales (simp_all add: busy_env_def repo.run_inv repo.run_before)

end
