(* ===== verification/ServiceTermination.thy ===== *)
theory ServiceTermination
  imports ServiceProperties
begin

section \<open>The resume loops end\<close>

text \<open>
  A caller's snapshot of a run may fall behind, but it never gets ahead: some row of the database
  is always the snapshot moved on along the transition table. A transition from the snapshot
  either succeeds or finds the row strictly further on, and the table has no cycle, so the
  retries of \<open>_resume\<close> end.
\<close>

subsection \<open>Snapshots\<close>

definition snap :: "Principal \<Rightarrow> RunRecord \<Rightarrow> run_db \<Rightarrow> bool" where
  "snap p run d \<longleftrightarrow> repo_inv d \<and> tenant_id run = principal_tenant p
     \<and> (\<exists>r \<in> set (runs d). run_advanced run r)"

definition moved :: "RunRecord \<Rightarrow> run_db \<Rightarrow> bool" where
  "moved run d \<longleftrightarrow> (\<exists>r \<in> set (runs d). run_advanced run r \<and> remaining (state r) < remaining (state run))"

lemma run_advanced_cases:
  assumes "run_advanced run r"
  obtains "r = run" | "state_version run < state_version r" "remaining (state r) < remaining (state run)"
proof -
  from assms obtain ts where ts: "path (state run) ts (state r)"
      "state_version r = state_version run + length ts" "ts = [] \<longrightarrow> r = run"
    by (auto simp: run_advanced_def)
  show ?thesis
  proof (cases ts)
    case Nil
    with ts that show ?thesis by simp
  next
    case (Cons t us)
    with ts path_length [of t us "state r"] remaining_decreases [of "state run" t] that show ?thesis
      by auto
  qed
qed

lemma snap_select:
  assumes "snap p run d"
  obtains r where "select_one (run_visible p (run_id run)) (runs d) = Some r" and "run_advanced run r"
proof -
  from assms obtain r where r: "r \<in> set (runs d)" "run_advanced run r" "repo_inv d"
      "tenant_id run = principal_tenant p"
    by (auto simp: snap_def)
  with select_run_visible [OF inv_keyed [OF r(3)] r(1), of p] that show ?thesis
    by (auto simp: run_advanced_def same_run_def)
qed

lemma snap_later: "snap p run d \<Longrightarrow> repo_inv d' \<Longrightarrow> repo_before d d' \<Longrightarrow> snap p run d'"
  unfolding snap_def repo_before_def runs_advanced_def by (meson run_advanced_trans)

lemma run_advanced_remaining: "run_advanced run r \<Longrightarrow> remaining (state r) \<le> remaining (state run)"
  by (erule run_advanced_cases) auto

lemma moved_later: "moved run d \<Longrightarrow> repo_before d d' \<Longrightarrow> moved run d'"
  unfolding moved_def repo_before_def runs_advanced_def
  by (meson run_advanced_trans run_advanced_remaining le_less_trans)

lemma moved_earlier: "moved r d \<Longrightarrow> run_advanced run r \<Longrightarrow> moved run d"
  unfolding moved_def by (meson run_advanced_trans run_advanced_remaining less_le_trans)

lemma snap_behind: "snap p r d \<Longrightarrow> run_advanced run r \<Longrightarrow> remaining (state r) < remaining (state run) \<Longrightarrow> moved run d"
  unfolding snap_def moved_def by (meson run_advanced_trans run_advanced_remaining le_less_trans)

lemma snap_earlier: "snap p r d \<Longrightarrow> run_advanced run r \<Longrightarrow> snap p run d"
  unfolding snap_def by (metis run_advanced_def run_advanced_trans same_run_def)

text \<open>A transition from a snapshot.\<close>

definition progressed :: "Principal \<Rightarrow> RunRecord \<Rightarrow> RunState \<Rightarrow> RunRecord \<Rightarrow> run_db \<Rightarrow> bool" where
  "progressed p run target r d \<longleftrightarrow> snap p r d \<and> state r = target \<and> run_advanced run r
     \<and> remaining (state r) < remaining (state run)"

lemma moved_event [simp]: "moved run (insert_event rid t et f u a pl now d) = moved run d"
  by (simp add: moved_def insert_event_def)

lemma wp_state_conflict:
  assumes "snap p run d" and "select_one (run_visible p (run_id run)) (runs d) = Some r"
    and "run_advanced run r" and "remaining (state r) < remaining (state run)"
  shows "wp (state_conflict p run now) Q (\<lambda>e d'. moved run d') d"
proof -
  have "moved run d"
    using run_visible_select [OF assms(2)] assms(3,4) by (auto simp: moved_def)
  then show ?thesis
    by (simp add: wp_def state_conflict_visible [OF assms(2)])
qed

lemma update_run_progress:
  assumes sn: "snap p run d" and ok: "can_transition (state run) target"
    and st: "state run \<in> machine_states"
    and f: "\<And>x. same_run x (f x) \<and> state (f x) = target \<and> state_version (f x) = Suc (state_version x)"
    and cur: "select_one (run_visible p (run_id run)) (runs d) = Some run"
  shows "update_run (run_matches p (run_id run) (state run) (state_version run)) f d
      = (Some (f run), d\<lparr>runs := update_where (run_matches p (run_id run) (state run) (state_version run)) f (runs d)\<rparr>)"
    and "progressed p run target (f run) (insert_event (run_id run) (principal_tenant p) et
           (Some (state run)) (Some target) a pl now (d\<lparr>runs := update_where
             (run_matches p (run_id run) (state run) (state_version run)) f (runs d)\<rparr>))"
proof -
  let ?P = "run_matches p (run_id run) (state run) (state_version run)"
  note v = run_visible_select [OF cur]
  have inv: "repo_inv d" using sn by (simp add: snap_def)
  have sel: "select_one ?P (runs d) = Some run"
    using select_run_matches [OF inv_keyed [OF inv], of run p] v by (simp add: run_matches_def)
  then show "update_run ?P f d = (Some (f run), d\<lparr>runs := update_where ?P f (runs d)\<rparr>)"
    by (simp add: update_run_def)
  have "f run \<in> set (update_where ?P f (runs d))"
    using run_matches_select [OF sel] v by (auto simp: set_update_where run_matches_def image_iff intro!: bexI [of _ run])
  moreover have "run_advanced run (f run)"
    using f [of run] ok by (intro run_advanced_by [of _ target "[]"]) auto
  moreover have "tenant_id (f run) = principal_tenant p"
    using f [of run] v by (simp add: same_run_def)
  moreover have "repo_inv (insert_event (run_id run) (principal_tenant p) et
           (Some (state run)) (Some target) a pl now (d\<lparr>runs := update_where ?P f (runs d)\<rparr>))"
    by (rule repo_inv_advance [OF inv sel f st ok])
  ultimately show "progressed p run target (f run) (insert_event (run_id run) (principal_tenant p) et
           (Some (state run)) (Some target) a pl now (d\<lparr>runs := update_where ?P f (runs d)\<rparr>))"
    using f [of run] remaining_decreases [OF ok] unfolding progressed_def snap_def
    by (auto simp: insert_event_def intro!: bexI [of _ "f run"])
qed

lemma wp_transition:
  assumes sn: "snap p run d" and st: "state run \<in> machine_states" and ok: "can_transition (state run) target"
  shows "wp (transition p run target et now pl) (progressed p run target) (\<lambda>e d'. moved run d') d"
proof -
  have inv: "repo_inv d" using sn by (simp add: snap_def)
  from snap_select [OF sn] obtain r
    where r: "select_one (run_visible p (run_id run)) (runs d) = Some r" "run_advanced run r" .
  from r(2) show ?thesis
  proof (cases rule: run_advanced_cases)
    case 1
    have f: "same_run x (move_to target now x) \<and> state (move_to target now x) = target
        \<and> state_version (move_to target now x) = Suc (state_version x)" for x by simp
    note u = update_run_progress [OF sn ok st f r(1) [unfolded 1]]
    show ?thesis
      by (simp add: wp_def transition_def ok u(1) returnE_def u(2))
  next
    case 2
    from wp_state_conflict [OF sn r 2(2)] stale_transition [OF inv r(1) 2(1) ok]
    show ?thesis by (simp add: wp_def)
  qed
qed

lemma wp_set_draft:
  assumes sn: "snap p run d" and st: "state run = DRAFTING_RECOMMENDATION" and h: "is_hex64 h"
  shows "wp (set_draft_and_transition p run j h now x) (progressed p run AWAITING_HUMAN)
           (\<lambda>e d'. moved run d') d"
proof -
  have inv: "repo_inv d" using sn by (simp add: snap_def)
  have ok: "can_transition (state run) AWAITING_HUMAN" "state run \<in> machine_states"
    using st by (simp_all add: can_transition_def machine_states_def)
  from snap_select [OF sn] obtain r
    where r: "select_one (run_visible p (run_id run)) (runs d) = Some r" "run_advanced run r" .
  from r(2) show ?thesis
  proof (cases rule: run_advanced_cases)
    case 1
    have f: "same_run y ((with_draft j h now x \<circ> move_to AWAITING_HUMAN now) y)
        \<and> state ((with_draft j h now x \<circ> move_to AWAITING_HUMAN now) y) = AWAITING_HUMAN
        \<and> state_version ((with_draft j h now x \<circ> move_to AWAITING_HUMAN now) y) = Suc (state_version y)" for y
      by (simp add: with_draft_def move_to_def same_run_def)
    note u = update_run_progress [OF sn ok f r(1) [unfolded 1]]
    show ?thesis
      using u(2) by (simp add: wp_def set_draft_and_transition_def ok(1) u(1) returnE_def h del: comp_apply)
  next
    case 2
    from wp_state_conflict [OF sn r 2(2)] stale_draft [OF inv r(1) 2(1) ok(1)]
    show ?thesis by (simp add: wp_def)
  qed
qed

subsection \<open>Which exceptions are raised\<close>

definition orderly :: "exn \<Rightarrow> bool" where
  "orderly e \<longleftrightarrow> \<not> is_state_conflict e"

lemma orderly_simps [simp]:
  "orderly (EvidenceFailure c m)" "orderly (ReasoningFailure c m)" "orderly (DatabaseError m)"
  "orderly PydanticValidationError" "orderly StillWaiting" "orderly (ValueError m)" "orderly (KeyError m)"
  "orderly NotFoundError" "orderly (RuntimeError m)" "orderly (AuthorizationError m)"
  "orderly (ValidationError c m)" "orderly (ConfigurationError m)"
  "orderly (ConflictError ''TOOL_INVOCATION_MISSING'' m)" "orderly (ConflictError ''IDEMPOTENCY_KEY_CONFLICT'' m)"
  by (simp_all add: orderly_def)

lemma make_evidence_orderly: "make_evidence e = Inl x \<Longrightarrow> orderly x"
  by (auto simp: make_evidence_def split: if_splits)

lemma parse_result_orderly: "parse_result j = Inl e \<Longrightarrow> orderly e"
  by (auto simp: parse_result_def parse_evidence_def dest: make_evidence_orderly split: option.splits)

lemma parse_rows_orderly: "parse_rows rows = Inl e \<Longrightarrow> orderly e"
  by (induction rows) (auto dest: parse_result_orderly split: sum.splits)

lemma spec_orderly:
  "(t, q, f) \<in> set (evidence_specs v p run) \<Longrightarrow> f d = Inl e \<Longrightarrow> orderly e"
  by (auto simp: evidence_specs_def Let_def inventory_tool_def demand_tool_def supplier_tool_def
      dest: make_evidence_orderly split: option.splits)

lemma raises_repo [raising]:
  "raises orderly (get_run p rid)"
  "raises orderly (claim_or_observe_tool p rid t h now)"
  "raises orderly (complete_tool p rid t res md st now)"
  "raises orderly (list_evidence p rid)"
  "raises orderly (read_reasoning p rid)"
  by (auto simp: raises_def wp_def get_run_def claim_or_observe_tool_def complete_tool_def list_evidence_def
      read_reasoning_def returnE_def raiseE_def liftE_def Let_def
      dest: parse_rows_orderly split: option.split sum.split)

lemma raises_call [raising]: "raises C m \<Longrightarrow> raises C (call_repo env m)"
  by (auto simp: raises_def wp_def call_repo_def split: prod.splits sum.splits)

lemma raises_read_clock [raising]: "raises C (read_clock env)"
  by (simp add: raises_def wp_def read_clock_def returnE_def)

lemma raises_call_at [raising]: "(\<And>now. raises C (m now)) \<Longrightarrow> raises C (call_at env m)"
  unfolding call_at_def by (intro raising)

lemma raises_invoke_claimed [raising]:
  assumes "\<And>d e. f d = Inl e \<Longrightarrow> orderly e"
  shows "raises orderly (invoke_claimed env p run t f)"
proof -
  have "raises orderly (read_fixture f)"
    using assms by (auto simp: raises_def wp_def read_fixture_def liftE_def split: sum.split)
  then have "raises orderly (call_repo env (read_fixture f))" by (rule raises_call)
  then show ?thesis
    unfolding invoke_claimed_def by (rule raises_bind_try) (auto intro!: raising)
qed

lemma raises_gather_one [raising]:
  "(\<And>t q f d e. spec = (t, q, f) \<Longrightarrow> f d = Inl e \<Longrightarrow> orderly e) \<Longrightarrow> raises orderly (gather_one env p run spec)"
  unfolding gather_one_def
  by (cases spec) (auto intro!: raising dest: parse_result_orderly)

lemma raises_gather_specs:
  "(\<And>t q f d e. (t, q, f) \<in> set specs \<Longrightarrow> f d = Inl e \<Longrightarrow> orderly e) \<Longrightarrow>
     raises orderly (gather_specs env p run specs)"
proof (induction specs)
  case Nil
  show ?case by (simp add: raising)
next
  case (Cons spec specs)
  have "raises orderly (gather_one env p run spec)"
  proof (rule raises_gather_one)
    fix t q f d e assume "spec = (t, q, f)" and "f d = Inl e"
    then show "orderly e" using Cons.prems [of t q f d e] by simp
  qed
  moreover have "raises orderly (gather_specs env p run specs)"
    by (rule Cons.IH) (meson Cons.prems list.set_intros(2))
  ultimately show ?case by (auto intro!: raising)
qed

lemma raises_gather [raising]: "raises orderly (gather_evidence env p run)"
  unfolding gather_evidence_def by (rule raises_gather_specs) (rule spec_orderly)

lemma raises_quality [raising]: "raises orderly (quality_check env p run)"
  unfolding quality_check_def
  by (auto intro!: raising dest: validate_bundle_failure)

lemma validate_citations_orderly: "validate_citations r ids = Inl e \<Longrightarrow> orderly e"
  by (auto simp: validate_citations_def Let_def split: if_splits)

lemma model_validate_orderly: "model_validate j = Inl e \<Longrightarrow> orderly e"
  by (auto dest: model_validate_refusal)

lemma raises_checked_result [raising]: "raises orderly (checked_result env p run row)"
  unfolding checked_result_def
  by (auto intro!: raising dest: validate_citations_orderly model_validate_orderly split: option.splits)

lemma reason_outcome_orderly: "reason_outcome_from_row row = Inl e \<Longrightarrow> orderly e"
  by (auto simp: reason_outcome_from_row_def and_then_def required_def Let_def
      dest: model_validate_orderly split: sum.splits option.splits)

subsection \<open>The loops\<close>

text \<open>What a pass of \<open>_resume_step\<close> with fuel \<open>n\<close> leaves: a run no step is left for, or an
  exception, where a version conflict means that the row has moved on.\<close>

definition stepped :: "nat \<Rightarrow> Principal \<Rightarrow> RunRecord \<Rightarrow> RunRecord option \<Rightarrow> world \<Rightarrow> bool" where
  "stepped n p run res w \<longleftrightarrow>
     (case res of
        None \<Rightarrow> \<not> (0 < n \<and> remaining (state run) \<le> n)
      | Some r \<Rightarrow> snap p r (db w) \<and> run_advanced run r \<and> state r \<notin> machine_states)"

definition stopped :: "Principal \<Rightarrow> RunRecord \<Rightarrow> exn \<Rightarrow> world \<Rightarrow> bool" where
  "stopped p run e w \<longleftrightarrow> (is_state_conflict e \<longrightarrow> moved run (db w))"

lemma stopped_orderly [simp]: "orderly e \<Longrightarrow> stopped p run e w"
  by (simp add: stopped_def orderly_def)

lemma stopped_moved [simp]: "moved run (db w) \<Longrightarrow> stopped p run e w"
  by (simp add: stopped_def)

lemma stepped_from:
  assumes "progressed p run target r d" and "stepped n p r res w" and "target \<noteq> CLOSED" "target \<noteq> FAILED_AUTHZ"
  shows "stepped (Suc n) p run res w"
proof -
  have r: "run_advanced run r" "state r = target" "remaining (state r) < remaining (state run)"
    using assms(1) by (auto simp: progressed_def)
  have "0 < remaining target" using assms(3,4) by (cases target) auto
  with r assms(2) show ?thesis
    by (auto simp: stepped_def intro: run_advanced_trans split: option.splits)
qed

lemma stopped_from:
  "progressed p run target r d \<Longrightarrow> stopped p r e w \<Longrightarrow> stopped p run e w"
  by (auto simp: progressed_def stopped_def intro: moved_earlier)

lemma stepped_here: "snap p run (db w) \<Longrightarrow> state run \<notin> machine_states \<Longrightarrow> stepped n p run (Some run) w"
  by (simp add: stepped_def)

lemma stepped_done: "progressed p run target r (db w) \<Longrightarrow> target \<notin> machine_states \<Longrightarrow> stepped n p run (Some r) w"
  by (auto simp: progressed_def stepped_def)

locale service_env = shared_repository env + adapter: reasoning_adapter "reasoning env" for env :: env
begin

lemma refusal_orderly: "reasoning env es = Inl e \<Longrightarrow> orderly e"
  using adapter.reason_refusal [of es e] by (cases e) auto

lemma raises_call_reasoning [raising]: "raises orderly (call_reasoning env es)"
  by (auto simp: raises_def wp_def call_reasoning_def dest: refusal_orderly split: sum.split)

lemma raises_reason_claimed [raising]: "raises orderly (reason_claimed env p run es)"
proof -
  have "raises orderly (checked_reasoning env es)"
    unfolding checked_reasoning_def by (auto intro!: raising dest: validate_citations_orderly)
  then show ?thesis
    unfolding reason_claimed_def Let_def by (rule raises_bind_try) (auto intro!: raising)
qed

lemma raises_reason_once [raising]: "raises orderly (reason_once env p run)"
  unfolding reason_once_def
  by (auto intro!: raising intro: reason_outcome_orderly split: prod.split)

text \<open>What a call that is not a transition leaves of a snapshot.\<close>

lemma wp_stable:
  assumes "\<And>d0. preserves (good d0) m" and "raises orderly m" and "snap p run (db w)"
  shows "wp m (\<lambda>_ w'. snap p run (db w')) (\<lambda>e w'. snap p run (db w') \<and> orderly e) w"
proof -
  have "good (db w) w" using assms(3) by (simp add: good_def snap_def)
  then have "good (db w) (snd (m w))" by (rule preservesD [OF assms(1)])
  then have "snap p run (db (snd (m w)))"
    using assms(3) by (auto simp: good_def intro: snap_later)
  moreover have "orderly e" if "m w = (Inl e, w')" for e w'
    using raisesD [OF assms(2) that] .
  ultimately show ?thesis by (auto simp: wp_def split: prod.split sum.split)
qed

lemma wp_call_at:
  assumes "\<And>now d. snap p run d \<Longrightarrow> wp (m now) Q (\<lambda>_. R) d" and "snap p run (db w)"
  shows "wp (call_at env m) (\<lambda>x w'. Q x (db w')) (\<lambda>_ w'. R (db w')) w"
proof -
  let ?d = "interfere env (repo_calls w) (db w)"
  have "snap p run ?d"
    using assms(2) others_inv others_before by (meson snap_def snap_later)
  from assms(1) [OF this, of "clock env (clock_reads w)"] show ?thesis
    by (simp add: call_at_def read_clock_def call_repo_def wp_def bindE_def returnE_def split: prod.splits sum.splits)
qed

lemma wp_advance:
  "snap p run (db w) \<Longrightarrow> state run \<in> machine_states \<Longrightarrow> can_transition (state run) target \<Longrightarrow>
     wp (advance env p run target et) (\<lambda>r w'. progressed p run target r (db w')) (\<lambda>_ w'. moved run (db w')) w"
  unfolding advance_def by (rule wp_call_at) (auto intro: wp_transition)

lemma wp_escalate:
  "snap p run (db w) \<Longrightarrow> state run \<in> machine_states \<Longrightarrow> can_transition (state run) ESCALATED \<Longrightarrow>
     wp (escalate env p run code) (\<lambda>r w'. progressed p run ESCALATED r (db w')) (\<lambda>_ w'. moved run (db w')) w"
  unfolding escalate_def by (rule wp_call_at) (auto intro: wp_transition)

lemma wp_draft:
  "snap p run (db w) \<Longrightarrow> state run = DRAFTING_RECOMMENDATION \<Longrightarrow>
     wp (draft env p run res) (\<lambda>r w'. progressed p run AWAITING_HUMAN r (db w')) (\<lambda>_ w'. moved run (db w')) w"
  unfolding draft_def by (rule wp_call_at) (auto intro: wp_set_draft)

text \<open>One transition followed by the rest of the loop, or by the return of the run.\<close>

lemma wp_then_loop:
  fixes m :: "(world, RunRecord) comp"
  assumes "wp m (\<lambda>r w'. progressed p run target r (db w')) (\<lambda>_ w'. moved run (db w')) w"
    and "\<And>r w. snap p r (db w) \<Longrightarrow> wp (resume_step env n p r) (stepped n p r) (stopped p r) w"
    and "target \<noteq> CLOSED" "target \<noteq> FAILED_AUTHZ"
  shows "wp m (\<lambda>r. wp (resume_step env n p r) (stepped (Suc n) p run) (stopped p run)) (stopped p run) w"
proof (rule wp_mono [OF assms(1)])
  fix r and w' :: world assume r: "progressed p run target r (db w')"
  then have "snap p r (db w')" by (simp add: progressed_def)
  from assms(2) [OF this] show "wp (resume_step env n p r) (stepped (Suc n) p run) (stopped p run) w'"
    by (rule wp_mono) (auto intro: stepped_from [OF r _ assms(3,4)] stopped_from [OF r])
qed simp

lemma wp_finish:
  fixes m :: "(world, RunRecord) comp"
  assumes "wp m (\<lambda>r w'. progressed p run target r (db w')) (\<lambda>_ w'. moved run (db w')) w"
    and "target \<notin> machine_states"
  shows "wp (finish m) (stepped n p run) (stopped p run) w"
  unfolding finish_def wp_bind
  by (rule wp_mono [OF assms(1)]) (simp_all add: stepped_done assms(2))

text \<open>A handled call, whose two outcomes both go on from the snapshot.\<close>

lemma wp_handled:
  fixes m :: "(world, 'a) comp"
  assumes "\<And>d0. preserves (good d0) m" and "raises orderly m" and "snap p run (db w)"
    and "\<And>e w. snap p run (db w) \<Longrightarrow> wp (f (Inl e)) (stepped n p run) (stopped p run) w"
    and "\<And>x w. snap p run (db w) \<Longrightarrow> wp (f (Inr x)) (stepped n p run) (stopped p run) w"
  shows "wp (bindE (tryE c m) f) (stepped n p run) (stopped p run) w"
  unfolding wp_bind wp_try
  by (rule wp_mono [OF wp_stable [OF assms(1-3)]]) (auto intro: assms(4,5))

lemma resume_step_ends:
  "snap p run (db w) \<Longrightarrow> wp (resume_step env n p run) (stepped n p run) (stopped p run) w"
proof (induction n arbitrary: run w)
  case 0
  show ?case by (simp add: stepped_def)
next
  case (Suc n)
  note loop = wp_then_loop [OF _ Suc.IH]
  have adv: "wp (bindE (advance env p run target et) (resume_step env n p)) (stepped (Suc n) p run)
      (stopped p run) w'"
    if "snap p run (db w')" "state run \<in> machine_states" "can_transition (state run) target"
      "target \<noteq> CLOSED" "target \<noteq> FAILED_AUTHZ" for target et w'
    unfolding wp_bind by (rule loop [OF wp_advance [OF that(1-3)] _ that(4,5)])
  have esc: "wp (finish (escalate env p run code)) (stepped (Suc n) p run) (stopped p run) w'"
    if "snap p run (db w')" "state run \<in> machine_states" "can_transition (state run) ESCALATED" for code w'
    using that by (intro wp_finish [OF wp_escalate]) (auto simp: machine_states_def)
  have drf: "wp (bindE (draft env p run res) (resume_step env n p)) (stepped (Suc n) p run) (stopped p run) w'"
    if "snap p run (db w')" "state run = DRAFTING_RECOMMENDATION" for res w'
    unfolding wp_bind by (rule loop [OF wp_draft [OF that]]) auto
  show ?case
  proof (cases "state run")
    case GATHERING_EVIDENCE
    then show ?thesis
      by (simp del: wp_bind)
         (rule wp_handled [OF preserves_gather raises_gather Suc.prems];
          simp add: adv esc machine_states_def can_transition_def del: wp_bind)
  next
    case QUALITY_CHECKS
    then show ?thesis
      by (simp del: wp_bind)
         (rule wp_handled [OF preserves_quality raises_quality Suc.prems];
          simp add: adv esc machine_states_def can_transition_def del: wp_bind)
  next
    case REASONING
    then show ?thesis
      by (simp del: wp_bind)
         (rule wp_handled [OF preserves_reason_once raises_reason_once Suc.prems];
          simp add: adv esc machine_states_def can_transition_def del: wp_bind)
  next
    case DRAFTING_RECOMMENDATION
    have read: "wp (call_repo env (read_reasoning p (run_id run))) (\<lambda>_ w'. snap p run (db w'))
        (\<lambda>e w'. snap p run (db w') \<and> orderly e) w"
      by (rule wp_stable [OF _ _ Suc.prems]) (auto intro: pres forward_ops raising)
    have checked: "wp (bindE (tryE is_value_error (checked_result env p run row)) (\<lambda>r. case r of
          Inl exc \<Rightarrow> finish (escalate env p run ''INVALID_REASONING_OUTPUT'')
        | Inr res \<Rightarrow> bindE (draft env p run res) (resume_step env n p)))
        (stepped (Suc n) p run) (stopped p run) w'" if "snap p run (db w')" for row w'
      by (rule wp_handled [OF preserves_checked_result raises_checked_result that])
         (simp_all add: esc drf DRAFTING_RECOMMENDATION machine_states_def can_transition_def del: wp_bind)
    from DRAFTING_RECOMMENDATION show ?thesis
      by (simp only: resume_step.simps RunState.case wp_bind [of "call_repo _ _"])
         (rule wp_mono [OF read],
          auto simp: esc checked DRAFTING_RECOMMENDATION machine_states_def can_transition_def
            simp del: wp_bind split: option.split)
  qed (use Suc.prems in \<open>simp_all add: adv machine_states_def can_transition_def stepped_here del: wp_bind\<close>)
qed

lemma resume_ends:
  assumes "snap p run (db w)" and "remaining (state run) < n"
  shows "wp (resume env n p run)
    (\<lambda>res w'. \<exists>r. res = Some r \<and> snap p r (db w') \<and> run_advanced run r \<and> state r \<notin> machine_states)
    (\<lambda>e _. \<not> is_state_conflict e) w"
  using assms
proof (induction n arbitrary: run w)
  case 0
  then show ?case by simp
next
  case (Suc n)
  have fuel: "0 < step_fuel \<and> remaining (state run) \<le> step_fuel"
    by (cases "state run") (simp_all add: step_fuel_def)
  have again: "wp (bindE (call_repo env (get_run p (run_id run))) (resume env n p))
      (\<lambda>res w'. \<exists>r. res = Some r \<and> snap p r (db w') \<and> run_advanced run r \<and> state r \<notin> machine_states)
      (\<lambda>e _. \<not> is_state_conflict e) w'" if m: "moved run (db w')" and sn: "snap p run (db w')" for w'
  proof -
    let ?d = "interfere env (repo_calls w') (db w')"
    have d: "repo_inv ?d" "repo_before (db w') ?d"
      using sn others_inv others_before by (auto simp: snap_def)
    from moved_later [OF m d(2)] obtain r where r: "r \<in> set (runs ?d)" "run_advanced run r"
        "remaining (state r) < remaining (state run)"
      by (auto simp: moved_def)
    have t: "tenant_id r = principal_tenant p" "run_id r = run_id run"
      using sn r(2) by (auto simp: snap_def run_advanced_def same_run_def)
    have sel: "select_one (run_visible p (run_id run)) (runs ?d) = Some r"
      using select_run_visible [OF inv_keyed [OF d(1)] r(1), of p] t by simp
    have "snap p r ?d" using d(1) t r(1) by (auto simp: snap_def intro: bexI [of _ r])
    then have "wp (resume env n p r)
        (\<lambda>res w'. \<exists>x. res = Some x \<and> snap p x (db w') \<and> run_advanced r x \<and> state x \<notin> machine_states)
        (\<lambda>e _. \<not> is_state_conflict e) (w'\<lparr>db := ?d, repo_calls := Suc (repo_calls w')\<rparr>)"
      using r(3) Suc.prems(2) by (intro Suc.IH) auto
    then have "wp (resume env n p r)
        (\<lambda>res w'. \<exists>x. res = Some x \<and> snap p x (db w') \<and> run_advanced run x \<and> state x \<notin> machine_states)
        (\<lambda>e _. \<not> is_state_conflict e) (w'\<lparr>db := ?d, repo_calls := Suc (repo_calls w')\<rparr>)"
      by (rule wp_mono) (auto intro: run_advanced_trans [OF r(2)])
    then show ?thesis
      unfolding wp_bind by (simp add: wp_def call_repo_def get_run_def sel returnE_def)
  qed
  have "wp (resume_step env step_fuel p run) (stepped step_fuel p run)
      (\<lambda>e w'. stopped p run e w' \<and> snap p run (db w')) w"
  proof -
    have "wp (resume_step env step_fuel p run) (stepped step_fuel p run) (stopped p run) w"
      by (rule resume_step_ends [OF Suc.prems(1)])
    moreover have "good (db w) (snd (resume_step env step_fuel p run w))"
      using Suc.prems(1) by (intro preservesD [OF preserves_resume_step]) (auto simp: good_def snap_def)
    then have "snap p run (db (snd (resume_step env step_fuel p run w)))"
      using snap_later [OF Suc.prems(1)] by (simp add: good_def)
    ultimately show ?thesis by (auto simp: wp_def split: prod.splits sum.splits)
  qed
  then show ?case
    unfolding resume.simps wp_bind [of "tryE _ _"] wp_try
    by (rule wp_mono)
       (use fuel again in \<open>auto simp: stepped_def stopped_def simp del: wp_bind split: option.splits\<close>)
qed

lemma intake_ends:
  assumes inv: "repo_inv (db w)" and fuel: "8 < fuel"
    and rv: "\<And>t e. reviewer_of env t = Inl e \<Longrightarrow> orderly e"
  shows "wp (intake env fuel p req key mode uuid)
    (\<lambda>(res, created) w'. \<exists>r. res = Some r \<and> snap p r (db w') \<and> state r \<notin> machine_states)
    (\<lambda>e _. \<not> is_state_conflict e) w"
proof -
  let ?Q = "\<lambda>(res, created) w'. \<exists>r. res = Some r \<and> snap p r (db w') \<and> state r \<notin> machine_states"
  let ?E = "\<lambda>e (_ :: world). \<not> is_state_conflict e"
  have entry: "wp (begin_intake p req key h reviewer now mode uuid)
      (\<lambda>(r, created) d. snap p r d) (\<lambda>e _. orderly e) d" if d: "repo_inv d" for d h reviewer now
  proof -
    let ?m = "begin_intake p req key h reviewer now mode uuid"
    have inv': "repo_inv (snd (?m d))" by (rule begin_intake_keeps_inv [OF d])
    show ?thesis
    proof (cases "?m d")
      case (Pair res d')
      show ?thesis
      proof (cases res)
        case (Inl e)
        with Pair have "orderly e"
          by (auto simp: begin_intake_def begin_intake_after_select_def observe_intake_def raiseE_def
              returnE_def Let_def split: option.splits if_splits)
        with Pair Inl show ?thesis by (simp add: wp_def)
      next
        case (Inr rc)
        obtain r created where rc: "rc = (r, created)" by (cases rc) auto
        obtain row :: IdempotencyRow where
            "select_one (run_visible p (idem_run_id row)) (runs d') = Some r"
          by (rule begin_intake_Inr [OF d Pair [unfolded Inr rc]]) blast
        from run_visible_select [OF this] inv' Pair have "snap p r d'"
          by (auto simp: snap_def intro: bexI [of _ r])
        with Pair Inr rc show ?thesis by (simp add: wp_def)
      qed
    qed
  qed
  have loop: "wp (bindE (resume env fuel p r) (\<lambda>x. returnE (x, created))) ?Q ?E w'"
    if "snap p r (db w')" for r created w'
  proof -
    have "remaining (state r) < fuel" using fuel by (cases "state r") simp_all
    from resume_ends [OF that this] show ?thesis
      unfolding wp_bind by (rule wp_mono) auto
  qed
  have start: "wp (call_at env (\<lambda>now. begin_intake p req key h reviewer now mode uuid))
      (\<lambda>(r, created) w'. snap p r (db w')) (\<lambda>e _. \<not> is_state_conflict e) w" for h reviewer
  proof -
    have "repo_inv (interfere env (repo_calls w) (db w))" by (rule others_inv [OF inv])
    from entry [OF this, of h reviewer "clock env (clock_reads w)"] show ?thesis
      by (auto simp: call_at_def read_clock_def call_repo_def wp_def bindE_def returnE_def orderly_def
          split: prod.splits sum.splits)
  qed
  show ?thesis
  proof (cases "has_role p ''operator''")
    case False
    then show ?thesis by (simp add: intake_def)
  next
    case True
    have "wp (bindE (call_at env (\<lambda>now. begin_intake p req key (canonical_hash (intake_dump req))
            reviewer now mode uuid))
          (\<lambda>(run, created). bindE (resume env fuel p run) (\<lambda>r. returnE (r, created)))) ?Q ?E w" for reviewer
      unfolding wp_bind [of "call_at _ _"]
      by (rule wp_mono [OF start]) (auto intro: loop simp del: wp_bind)
    with True rv show ?thesis
      by (auto simp: intake_def check_idempotency_key_def orderly_def simp del: wp_bind
          simp: wp_bind [of "liftE _"] split: sum.split)
  qed
qed

end

lemma busy_service_env: "reasoning_adapter rs \<Longrightarrow> service_env (busy_env c ops rs rv v)"
  by (intro service_env.intro busy.shared_repository_axioms) (simp add: busy_env_def)

interpretation busy_stub: service_env "busy_env c ops stub_reason rv v"
  by (rule busy_service_env) (rule stub.reasoning_adapter_axioms)

lemma assigned_reviewer_orderly: "assigned_reviewer idp t = Inl e \<Longrightarrow> orderly e"
  by (auto dest: sim.reviewer_refusal)

subsection \<open>A concrete world\<close>

definition w_idp :: SimulatedIdentityProvider where
  "w_idp = \<lparr>token_map = [], reviewer_assignments = [(''t1'', ''rev-1'')]\<rparr>"

definition w_world :: world where
  "w_world = \<lparr>db = w_created, clock_reads = 0, repo_calls = 0, reasoned = []\<rparr>"

end
