(* ===== verification/Investigation.thy ===== *)
theory Investigation
  imports ServiceTermination
begin

section \<open>What an investigation promises, and that the service delivers it\<close>

text \<open>
  The abstract specification of an intake: from the fixtures, the evidence policy and the
  reasoning adapter alone it says whether the run ends with a draft, an escalation or an
  exception, and what the adapter was asked. The database-level service of
  \<open>InvestigationService\<close>, run without interference on a fresh key, refines it.
\<close>

subsection \<open>The specification\<close>

datatype verdict = Escalated string | Drafted ReasoningResult | Crashed exn

fun collect :: "'a result list \<Rightarrow> 'a list result" where
  "collect [] = Inr []"
| "collect (r # rs) =
     (case r of Inl e \<Rightarrow> Inl e
      | Inr x \<Rightarrow> (case collect rs of Inl e \<Rightarrow> Inl e | Inr xs \<Rightarrow> Inr (x # xs)))"

definition judge :: "(Evidence list \<Rightarrow> ReasoningOutcome result) \<Rightarrow> Evidence list \<Rightarrow> verdict" where
  "judge rs items =
     (case rs items of
        Inl e \<Rightarrow> Escalated (code_or ''INVALID_REASONING_OUTPUT'' e)
      | Inr outcome \<Rightarrow> Drafted (result outcome))"

definition bundle_of :: "string \<Rightarrow> Principal \<Rightarrow> RunRecord \<Rightarrow> run_db \<Rightarrow> Evidence list result" where
  "bundle_of v p run d = collect (map (\<lambda>(t, q, f). f d) (evidence_specs v p run))"

definition investigate ::
  "(Evidence list \<Rightarrow> ReasoningOutcome result) \<Rightarrow> string \<Rightarrow> Principal \<Rightarrow> RunRecord \<Rightarrow> run_db
   \<Rightarrow> verdict \<times> Evidence list list"
where
  "investigate rs v p run d =
     (case bundle_of v p run d of
        Inl e \<Rightarrow> (if is_evidence_failure e then Escalated (code_or [] e) else Crashed e, [])
      | Inr items \<Rightarrow>
          (case validate_bundle items (utc (as_of_ts run)) of
             Inl e \<Rightarrow> (Escalated (code_or [] e), [])
           | Inr _ \<Rightarrow> (judge rs items, [items])))"

text \<open>What the caller sees for each verdict.\<close>

definition delivered :: "verdict \<Rightarrow> exn + RunRecord option \<Rightarrow> run_db \<Rightarrow> bool" where
  "delivered vd res d =
     (case vd of
        Crashed e \<Rightarrow> res = Inl e
      | Escalated c \<Rightarrow>
          (\<exists>r e. res = Inr (Some r) \<and> state r = ESCALATED \<and> r \<in> set (runs d) \<and> events d \<noteq> []
             \<and> e = last (events d) \<and> event_type e = ''run_escalated'' \<and> ev_run_id e = run_id r
             \<and> payload e = JObj [(''code'', JStr c)])
      | Drafted rr \<Rightarrow>
          (\<exists>r t. res = Inr (Some r) \<and> state r = AWAITING_HUMAN \<and> r \<in> set (runs d)
             \<and> draft_json r = Some (result_dump rr)
             \<and> draft_hash r = Some (canonical_hash (result_dump rr))
             \<and> draft_created_at r = Some t \<and> review_expires_at r = Some (t + REVIEW_POLICY)))"

subsection \<open>A run on its course\<close>

definition fixtures_of :: "run_db \<Rightarrow> InventoryRow list \<times> DemandRow list \<times> SupplierRow list" where
  "fixtures_of d = (inventory_fixture d, demand_fixture d, supplier_fixture d)"

definition course ::
  "Principal \<Rightarrow> RunRecord \<Rightarrow> ToolRow list \<Rightarrow> int list \<Rightarrow> run_db \<Rightarrow> run_db \<Rightarrow> bool"
where
  "course p run ts lk d0 d \<longleftrightarrow>
     repo_inv d \<and> run \<in> set (runs d) \<and> tenant_id run = principal_tenant p
     \<and> tools d = ts \<and> locks d = lk \<and> fixtures_of d = fixtures_of d0"

lemma course_snap: "course p run ts lk d0 d \<Longrightarrow> snap p run d"
  unfolding course_def snap_def using run_advanced_refl by metis

lemma course_select:
  "course p run ts lk d0 d \<Longrightarrow> select_one (run_visible p (run_id run)) (runs d) = Some run"
  unfolding course_def using select_run_visible inv_keyed by metis

lemma course_update:
  assumes c: "course p run ts lk d0 d" and ok: "can_transition (state run) target"
    and st: "state run \<in> machine_states"
    and f: "\<And>x. same_run x (f x) \<and> state (f x) = target \<and> state_version (f x) = Suc (state_version x)"
  shows "update_run (run_matches p (run_id run) (state run) (state_version run)) f d
      = (Some (f run), d\<lparr>runs := update_where (run_matches p (run_id run) (state run) (state_version run)) f (runs d)\<rparr>)"
    and "course p (f run) ts lk d0 (insert_event (run_id run) (principal_tenant p) et
           (Some (state run)) (Some target) a pl now (d\<lparr>runs := update_where
             (run_matches p (run_id run) (state run) (state_version run)) f (runs d)\<rparr>))"
proof -
  let ?P = "run_matches p (run_id run) (state run) (state_version run)"
  note u = update_run_progress [OF course_snap [OF c] ok st f course_select [OF c]]
  show "update_run ?P f d = (Some (f run), d\<lparr>runs := update_where ?P f (runs d)\<rparr>)"
    by (rule u(1))
  have P: "?P run" using c by (simp add: run_matches_def course_def)
  have "f run \<in> set (update_where ?P f (runs d))"
    using P c by (auto simp: set_update_where image_iff course_def intro!: bexI [of _ run])
  moreover have "repo_inv (insert_event (run_id run) (principal_tenant p) et
      (Some (state run)) (Some target) a pl now (d\<lparr>runs := update_where ?P f (runs d)\<rparr>))"
    using u(2) [of et a pl now] by (simp add: progressed_def snap_def)
  ultimately show "course p (f run) ts lk d0 (insert_event (run_id run) (principal_tenant p) et
           (Some (state run)) (Some target) a pl now (d\<lparr>runs := update_where ?P f (runs d)\<rparr>))"
    using c f [of run] by (simp add: course_def insert_event_def same_run_def fixtures_of_def)
qed

lemma course_transition:
  assumes c: "course p run ts lk d0 d" and ok: "can_transition (state run) target"
    and st: "state run \<in> machine_states"
  shows "wp (transition p run target et now pl)
    (\<lambda>r d'. course p r ts lk d0 d' \<and> (\<exists>n. r = move_to target n run) \<and> events d' \<noteq> []
        \<and> event_type (last (events d')) = et \<and> ev_run_id (last (events d')) = run_id run
        \<and> payload (last (events d')) = (case pl of None \<Rightarrow> JObj [] | Some j \<Rightarrow> j))
    (\<lambda>_ _. False) d"
proof -
  have f: "same_run x (move_to target now x) \<and> state (move_to target now x) = target
      \<and> state_version (move_to target now x) = Suc (state_version x)" for x by simp
  note u = course_update [OF c ok st f]
  show ?thesis
    using u(2) [of et "actor_id p" "case pl of None \<Rightarrow> JObj [] | Some j \<Rightarrow> j" now]
    by (auto simp: wp_def transition_def ok u(1) returnE_def insert_event_def)
qed

lemma course_set_draft:
  assumes c: "course p run ts lk d0 d" and st: "state run = DRAFTING_RECOMMENDATION" and h: "is_hex64 h"
  shows "wp (set_draft_and_transition p run j h now x)
    (\<lambda>r d'. course p r ts lk d0 d' \<and> r = with_draft j h now x (move_to AWAITING_HUMAN now run))
    (\<lambda>_ _. False) d"
proof -
  have ok: "can_transition (state run) AWAITING_HUMAN" "state run \<in> machine_states"
    using st by (simp_all add: can_transition_def machine_states_def)
  have f: "same_run y ((with_draft j h now x \<circ> move_to AWAITING_HUMAN now) y)
      \<and> state ((with_draft j h now x \<circ> move_to AWAITING_HUMAN now) y) = AWAITING_HUMAN
      \<and> state_version ((with_draft j h now x \<circ> move_to AWAITING_HUMAN now) y) = Suc (state_version y)" for y
    by (simp add: with_draft_def move_to_def same_run_def)
  note u = course_update [OF c ok f]
  show ?thesis
    using u(2) [of "''draft_ready''" "actor_id p"
        "JObj [(''draft_hash'', JStr h), (''expires_at'', JStr (isoformat (utc x)))]" now]
    by (simp add: wp_def set_draft_and_transition_def ok(1) u(1) returnE_def h del: comp_apply)
       (simp add: comp_def)
qed

subsection \<open>Tool rows\<close>

definition tool_free :: "RunRecord \<Rightarrow> ToolName \<Rightarrow> ToolRow list \<Rightarrow> bool" where
  "tool_free run t ts \<longleftrightarrow> (\<forall>x \<in> set ts. tool_run_id x = run_id run \<longrightarrow> tool_name x \<noteq> t)"

definition owned_row :: "Principal \<Rightarrow> RunRecord \<Rightarrow> ToolName \<Rightarrow> ToolRow \<Rightarrow> bool" where
  "owned_row p run t row \<longleftrightarrow>
     tool_run_id row = run_id run \<and> tool_tenant_id row = principal_tenant p \<and> tool_name row = t"

definition done_row :: "Principal \<Rightarrow> RunRecord \<Rightarrow> ToolName \<Rightarrow> json \<Rightarrow> ToolRow \<Rightarrow> bool" where
  "done_row p run t j row \<longleftrightarrow> owned_row p run t row \<and> tool_status row = Completed \<and> result_json row = Some j"

definition unheld :: "RunRecord \<Rightarrow> int list \<Rightarrow> bool" where
  "unheld run lk \<longleftrightarrow> (\<forall>t. tool_lock_key (run_id run) t \<notin> set lk)"

lemma unheld_key [simp]: "unheld run lk \<Longrightarrow> tool_lock_key (run_id run) t \<notin> set lk"
  by (simp add: unheld_def)

lemma unheld_same: "same_run run r \<Longrightarrow> unheld r lk = unheld run lk"
  by (simp add: unheld_def same_run_def)

lemma tool_free_snoc: "tool_free run t (ts @ [row]) \<longleftrightarrow> tool_free run t ts \<and> \<not> (tool_run_id row = run_id run \<and> tool_name row = t)"
  by (auto simp: tool_free_def)

lemma course_claim:
  assumes c: "course p run ts lk d0 d" and t: "tool_free run t ts" and h: "is_hex64 h" and lk: "unheld run lk"
  shows "wp (claim_or_observe_tool p (run_id run) t h now)
    (\<lambda>(row, claimed) d'. claimed \<and> owned_row p run t row
       \<and> course p run (ts @ [row]) (tool_lock_key (run_id run) t # lk) d0 d')
    (\<lambda>_ _. False) d"
proof -
  have none: "get_tool p (run_id run) t d = None"
    using c t by (auto simp: get_tool_def select_one_None_iff tool_matches_def tool_free_def course_def)
  have new: "(run_id run, t) \<notin> (\<lambda>x. (tool_run_id x, tool_name x)) ` set (tools d)"
    using c t by (auto simp: tool_free_def course_def)
  have rid: "run_id run \<in> run_id ` set (runs d)" and held: "tool_lock_key (run_id run) t \<notin> set (locks d)"
    using c lk by (simp_all add: course_def)
  have eq: "claim_or_observe_tool p (run_id run) t h now d =
      (Inr (started_tool p (run_id run) t h now, True),
       d\<lparr>tools := tools d @ [started_tool p (run_id run) t h now],
         locks := tool_lock_key (run_id run) t # locks d\<rparr>)"
    using none new rid h held by (simp add: claim_or_observe_tool_def returnE_def Let_def)
  have "repo_inv (snd (claim_or_observe_tool p (run_id run) t h now d))"
    using c by (intro preservesD [OF preserves_claim]) (simp add: course_def)
  with c show ?thesis
    unfolding eq by (simp add: wp_def eq course_def fixtures_of_def owned_row_def started_tool_def)
qed

lemma course_complete:
  assumes c: "course p run (ts @ [row]) lk d0 d" and t: "tool_free run t ts" and row: "owned_row p run t row"
  shows "wp (complete_tool p (run_id run) t res md st now)
    (\<lambda>_ d'. \<exists>row'. owned_row p run t row' \<and> tool_status row' = st \<and> result_json row' = res
       \<and> course p run (ts @ [row']) lk d0 d')
    (\<lambda>_ _. False) d"
proof -
  let ?f = "\<lambda>row. row\<lparr>tool_status := st, result_json := res, metadata_json := md, completed_at := Some now\<rparr>"
  have m: "tool_matches p (run_id run) t row" using row by (simp add: tool_matches_def owned_row_def)
  have idle: "update_where (tool_matches p (run_id run) t) ?f ts = ts"
    by (rule update_where_idle) (use t in \<open>auto simp: tool_matches_def tool_free_def\<close>)
  have "tools d = ts @ [row]" using c by (simp add: course_def)
  with m have some: "get_tool p (run_id run) t d \<noteq> None"
    by (auto simp: get_tool_def select_one_None_iff)
  have eq: "complete_tool p (run_id run) t res md st now d = (Inr (), d\<lparr>tools := ts @ [?f row]\<rparr>)"
    using some idle m \<open>tools d = ts @ [row]\<close> by (auto simp: complete_tool_def returnE_def)
  have "repo_inv (snd (complete_tool p (run_id run) t res md st now d))"
    using c by (intro preservesD [OF preserves_complete_tool]) (simp add: course_def)
  with c row show ?thesis
    unfolding eq wp_def by (auto simp: course_def fixtures_of_def owned_row_def intro!: exI [of _ "?f row"])
qed

lemma course_release:
  "course p run ts (tool_lock_key (run_id run) t # lk) d0 d \<Longrightarrow> course p run ts lk d0 (release (run_id run) t d)"
  by (simp add: course_def fixtures_of_def) (simp add: release_def)

subsection \<open>The specs and the evidence they leave\<close>

lemma evidence_specs_fixtures:
  assumes "fixtures_of d = fixtures_of d0" and "(t, q, f) \<in> set (evidence_specs v p run)"
  shows "f d = f d0"
  using assms by (auto simp: evidence_specs_def Let_def fixtures_of_def fetch_inventory_fixture_def
      fetch_demand_fixture_def fetch_supplier_fixture_def inventory_tool_def demand_tool_def supplier_tool_def)

lemma evidence_specs_same: "same_run run r \<Longrightarrow> evidence_specs v p r = evidence_specs v p run"
  by (simp add: evidence_specs_def same_run_def)

lemma evidence_specs_valid:
  "(t, q, f) \<in> set (evidence_specs v p run) \<Longrightarrow> f d = Inr e \<Longrightarrow> valid_evidence e \<and> tool e = t"
  by (auto simp: evidence_specs_def Let_def inventory_tool_def demand_tool_def supplier_tool_def
      dest!: make_evidence_InrD split: option.splits)

lemma evidence_specs_ends:
  "(t, q, f) \<in> set (evidence_specs v p run) \<Longrightarrow> f d = Inl e \<Longrightarrow> e \<noteq> StillWaiting"
  by (auto simp: evidence_specs_def Let_def inventory_tool_def demand_tool_def supplier_tool_def
      make_evidence_def split: option.splits if_splits)

lemma evidence_specs_tools: "map fst (evidence_specs v p run) = evidence_tools"
  by (simp add: evidence_specs_def Let_def evidence_tools_def)

lemma collect_orderly:
  "collect (map (\<lambda>(t, q, f). f d) specs) = Inl e \<Longrightarrow> set specs \<subseteq> set (evidence_specs v p run) \<Longrightarrow> orderly e"
proof (induction specs)
  case (Cons spec specs)
  then show ?case by (cases spec) (auto intro: spec_orderly split: sum.splits)
qed simp

lemma bundle_orderly: "bundle_of v p run d = Inl e \<Longrightarrow> orderly e"
  unfolding bundle_of_def by (erule collect_orderly) (rule subset_refl)

text \<open>The rows of a gathered bundle: one completed row for each item, in the order of the specs.\<close>

definition bundle_rows :: "Principal \<Rightarrow> RunRecord \<Rightarrow> Evidence list \<Rightarrow> ToolRow list \<Rightarrow> bool" where
  "bundle_rows p run items rows \<longleftrightarrow>
     list_all2 (\<lambda>item row. done_row p run (tool item) (evidence_dump item) row) items rows
     \<and> list_all valid_evidence items"

lemma bundle_rows_Nil [simp]: "bundle_rows p run [] rows \<longleftrightarrow> rows = []"
  by (simp add: bundle_rows_def)

lemma bundle_rows_Cons:
  "bundle_rows p run (i # is) (r # rs) \<longleftrightarrow>
     done_row p run (tool i) (evidence_dump i) r \<and> valid_evidence i \<and> bundle_rows p run is rs"
  by (auto simp: bundle_rows_def)

lemma bundle_rows_parse: "bundle_rows p run items rows \<Longrightarrow> parse_rows rows = Inr items"
proof (induction items arbitrary: rows)
  case Nil
  then show ?case by simp
next
  case (Cons i "is")
  from Cons.prems obtain r rs where rows: "rows = r # rs" by (cases rows) (auto simp: bundle_rows_def)
  with Cons show ?case
    by (simp add: bundle_rows_Cons done_row_def parse_result_def parse_evidence_dump)
qed

lemma bundle_rows_names: "bundle_rows p run items rows \<Longrightarrow> map tool_name rows = map tool items"
proof (induction items arbitrary: rows)
  case (Cons i "is")
  then show ?case by (cases rows) (auto simp: bundle_rows_Cons done_row_def owned_row_def bundle_rows_def)
qed simp

lemma evidence_tools_sorted: "sorted evidence_tools"
  by (simp add: evidence_tools_def less_eq_ToolName_def)

lemma evidence_tool_item [simp]: "tool i \<in> set evidence_tools"
  by (cases "facts i") (simp_all add: tool_def evidence_tools_def)

lemma bundle_rows_filter:
  assumes "bundle_rows p run items rows"
  shows "filter (\<lambda>row. tool_run_id row = run_id run \<and> tool_tenant_id row = principal_tenant p
           \<and> tool_name row \<in> set evidence_tools \<and> tool_status row = Completed) rows = rows"
  using assms
proof (induction items arbitrary: rows)
  case (Cons i "is")
  then show ?case by (cases rows) (auto simp: bundle_rows_Cons done_row_def owned_row_def bundle_rows_def)
qed simp

text \<open>Whatever other rows the run has, as long as they are not evidence, the bundle reads back.\<close>

lemma bundle_reads_back:
  assumes rows: "bundle_rows p run items rows" and names: "map tool items = evidence_tools"
    and d: "tools d = ts @ rows @ us"
    and other: "\<forall>x \<in> set ts \<union> set us. tool_run_id x = run_id run \<longrightarrow> tool_name x = Tool_reasoning"
  shows "list_evidence p (run_id run) d = (Inr items, d)"
proof -
  have none: "filter (\<lambda>row. tool_run_id row = run_id run \<and> tool_tenant_id row = principal_tenant p
           \<and> tool_name row \<in> set evidence_tools \<and> tool_status row = Completed) xs = []"
    if "set xs \<subseteq> set ts \<union> set us" for xs
    using that other by (auto simp: filter_empty_conv evidence_tools_def)
  have "evidence_rows p (run_id run) d = sort_key tool_name rows"
    by (simp add: evidence_rows_def d none bundle_rows_filter [OF rows])
  also have "\<dots> = rows"
    by (rule sort_key_id_if_sorted)
       (use evidence_tools_sorted names bundle_rows_names [OF rows] in simp)
  finally show ?thesis
    by (simp add: list_evidence_def bundle_rows_parse [OF rows] liftE_def)
qed

subsection \<open>The service without interference\<close>

definition on_course ::
  "Principal \<Rightarrow> RunRecord \<Rightarrow> ToolRow list \<Rightarrow> int list \<Rightarrow> run_db \<Rightarrow> Evidence list list \<Rightarrow> world \<Rightarrow> bool"
where
  "on_course p run ts lk d0 R w \<longleftrightarrow> course p run ts lk d0 (db w) \<and> reasoned w = R"

definition ends :: "verdict \<Rightarrow> Evidence list list \<Rightarrow> int list \<Rightarrow> (world, RunRecord option) comp \<Rightarrow> world \<Rightarrow> bool" where
  "ends vd R lk m w \<longleftrightarrow>
     wp m (\<lambda>res w'. delivered vd (Inr res) (db w') \<and> locks (db w') = lk \<and> reasoned w' = R)
       (\<lambda>e w'. vd = Crashed e \<and> locks (db w') = lk \<and> reasoned w' = R) w"

lemma ends_bind:
  assumes "wp m Q E w" and "\<And>x w'. Q x w' \<Longrightarrow> ends vd R lk (f x) w'"
    and "\<And>e w'. E e w' \<Longrightarrow> vd = Crashed e \<and> locks (db w') = lk \<and> reasoned w' = R"
  shows "ends vd R lk (bindE m f) w"
  unfolding ends_def wp_bind
  by (rule wp_mono [OF assms(1)]) (use assms(2,3) in \<open>simp_all add: ends_def\<close>)

lemma ends_try:
  assumes "wp m Q E w" and "\<And>x w'. Q x w' \<Longrightarrow> ends vd R lk (f (Inr x)) w'"
    and "\<And>e w'. E e w' \<Longrightarrow> c e \<Longrightarrow> ends vd R lk (f (Inl e)) w'"
    and "\<And>e w'. E e w' \<Longrightarrow> \<not> c e \<Longrightarrow> vd = Crashed e \<and> locks (db w') = lk \<and> reasoned w' = R"
  shows "ends vd R lk (bindE (tryE c m) f) w"
  unfolding ends_def wp_bind wp_try
  by (rule wp_mono [OF assms(1)]) (use assms(2-4) in \<open>auto simp: ends_def\<close>)

lemma same_run_id: "same_run run r \<Longrightarrow> run_id r = run_id run"
  by (simp add: same_run_def)

lemma bundle_rows_same: "same_run run r \<Longrightarrow> bundle_rows p r items rows = bundle_rows p run items rows"
  by (simp add: bundle_rows_def done_row_def owned_row_def same_run_def)

lemma done_row_same: "same_run run r \<Longrightarrow> done_row p r t j row = done_row p run t j row"
  by (simp add: done_row_def owned_row_def same_run_def)

lemma investigate_same:
  assumes "same_run run r"
  shows "investigate rs v p r d = investigate rs v p run d"
proof -
  have "as_of_ts r = as_of_ts run" using assms by (simp add: same_run_def)
  then show ?thesis
    unfolding investigate_def bundle_of_def evidence_specs_same [OF assms] by (simp only:)
qed

lemma code_of_failure:
  "is_reasoning_failure e \<Longrightarrow> code_or d e = code_or d' e"
  by (cases e) (auto simp: code_or_def)

lemma code_of_reasoning_failure [simp]: "code_or d (ReasoningFailure c m) = c"
  by (simp add: code_or_def)

locale quiet_service = service_env env for env +
  assumes quiet: "interfere env k d = d"
begin

lemma quiet_call:
  assumes "wp m Q E (db w)"
  shows "wp (call_repo env m) (\<lambda>x w'. Q x (db w') \<and> reasoned w' = reasoned w)
           (\<lambda>e w'. E e (db w') \<and> reasoned w' = reasoned w) w"
  using assms by (simp add: wp_def call_repo_def quiet split: prod.splits sum.splits)

lemma quiet_call_at:
  assumes "\<And>now. wp (m now) Q E (db w)"
  shows "wp (call_at env m) (\<lambda>x w'. Q x (db w') \<and> reasoned w' = reasoned w)
           (\<lambda>e w'. E e (db w') \<and> reasoned w' = reasoned w) w"
  using assms [of "clock env (clock_reads w)"]
  by (simp add: wp_def call_at_def call_repo_def read_clock_def bindE_def returnE_def quiet
      split: prod.splits sum.splits)

lemma quiet_advance:
  assumes "on_course p run ts lk d0 R w" and "can_transition (state run) target" and "state run \<in> machine_states"
  shows "wp (advance env p run target et)
    (\<lambda>r w'. on_course p r ts lk d0 R w' \<and> same_run run r \<and> state r = target) (\<lambda>_ _. False) w"
proof -
  have "course p run ts lk d0 (db w)" using assms(1) by (simp add: on_course_def)
  show ?thesis
    unfolding advance_def
    by (rule wp_mono [OF quiet_call_at], rule course_transition [OF \<open>course _ _ _ _ _ _\<close> assms(2,3)])
       (use assms(1) in \<open>auto simp: on_course_def\<close>)
qed

lemma quiet_escalate:
  assumes "on_course p run ts lk d0 R w" and "can_transition (state run) ESCALATED"
    and "state run \<in> machine_states"
  shows "wp (finish (escalate env p run code))
    (\<lambda>res w'. delivered (Escalated code) (Inr res) (db w') \<and> locks (db w') = lk \<and> reasoned w' = R)
    (\<lambda>_ _. False) w"
proof -
  have "course p run ts lk d0 (db w)" using assms(1) by (simp add: on_course_def)
  show ?thesis
    unfolding escalate_def finish_def wp_bind
    by (rule wp_mono [OF quiet_call_at], rule course_transition [OF \<open>course _ _ _ _ _ _\<close> assms(2,3)])
       (use assms(1) in \<open>auto simp: on_course_def delivered_def course_def\<close>)
qed

lemma quiet_gather_one:
  assumes c: "on_course p run ts lk d0 R w" and free: "tool_free run t ts" and lk: "unheld run lk"
    and spec: "(t, q, f) \<in> set (evidence_specs v p run)"
  shows "wp (gather_one env p run (t, q, f))
    (\<lambda>item w'. f d0 = Inr item \<and> (\<exists>row. done_row p run t (evidence_dump item) row
        \<and> on_course p run (ts @ [row]) lk d0 R w'))
    (\<lambda>e w'. f d0 = Inl e \<and> (\<exists>row. owned_row p run t row \<and> on_course p run (ts @ [row]) lk d0 R w')) w"
proof -
  let ?key = "tool_lock_key (run_id run) t"
  have claim: "wp (call_at env (claim_or_observe_tool p (run_id run) t (canonical_hash q)))
      (\<lambda>(row, claimed) w'. claimed \<and> owned_row p run t row \<and> on_course p run (ts @ [row]) (?key # lk) d0 R w')
      (\<lambda>_ _. False) w"
  proof -
    have "course p run ts lk d0 (db w)" using c by (simp add: on_course_def)
    show ?thesis
      by (rule wp_mono [OF quiet_call_at], rule course_claim [OF \<open>course _ _ _ _ _ _\<close> free _ lk])
         (use c in \<open>auto simp: on_course_def\<close>)
  qed
  have fin: "wp (call_at env (complete_tool p (run_id run) t res md st))
      (\<lambda>_ w'. \<exists>row'. owned_row p run t row' \<and> tool_status row' = st \<and> result_json row' = res
         \<and> on_course p run (ts @ [row']) (?key # lk) d0 R w') (\<lambda>_ _. False) w'"
    if "on_course p run (ts @ [row]) (?key # lk) d0 R w'" "owned_row p run t row" for row res md st w'
  proof -
    have "course p run (ts @ [row]) (?key # lk) d0 (db w')" using that by (simp add: on_course_def)
    show ?thesis
      by (rule wp_mono [OF quiet_call_at], rule course_complete [OF \<open>course _ _ _ _ _ _\<close> free that(2)])
         (use that(1) in \<open>auto simp: on_course_def\<close>)
  qed
  have rel: "on_course p run us lk d0 R (release_claim run t w')"
    if "on_course p run us (?key # lk) d0 R w'" for us w'
    using that course_release by (simp add: on_course_def release_claim_def)
  have claimed: "wp (finallyE (invoke_claimed env p run t f) (release_claim run t))
      (\<lambda>item w'. f d0 = Inr item \<and> (\<exists>row. done_row p run t (evidence_dump item) row
          \<and> on_course p run (ts @ [row]) lk d0 R w'))
      (\<lambda>e w'. f d0 = Inl e \<and> (\<exists>row. owned_row p run t row \<and> on_course p run (ts @ [row]) lk d0 R w')) w'"
    if at: "on_course p run (ts @ [row]) (?key # lk) d0 R w'" and own: "owned_row p run t row" for row w'
  proof -
    have f: "f (db w') = f d0"
      using at by (intro evidence_specs_fixtures [OF _ spec]) (simp add: on_course_def course_def)
    have read: "wp (call_repo env (read_fixture f)) (\<lambda>item w''. f d0 = Inr item \<and> on_course p run (ts @ [row]) (?key # lk) d0 R w'')
        (\<lambda>e w''. f d0 = Inl e \<and> on_course p run (ts @ [row]) (?key # lk) d0 R w'') w'"
      using at by (cases "f d0") (simp_all add: wp_def call_repo_def read_fixture_def quiet liftE_def f on_course_def)
    show ?thesis
      unfolding invoke_claimed_def wp_finally wp_bind [of "tryE _ _"] wp_try
    proof (rule wp_mono [OF read], goal_cases)
      case (1 item w'')
      then show ?case
        using own by (auto intro!: wp_mono [OF fin] rel simp: done_row_def)
    next
      case (2 e w'')
      then show ?case
        using own evidence_specs_ends [OF spec, of d0] by (auto intro!: wp_mono [OF fin] rel)
    qed
  qed
  show ?thesis
    unfolding gather_one_def prod.case wp_bind [of "call_at _ _"]
    by (rule wp_mono [OF claim]) (auto intro: claimed simp del: wp_finally)
qed

lemma quiet_gather_specs:
  assumes "on_course p run ts lk d0 R w" and "set specs \<subseteq> set (evidence_specs v p run)"
    and "distinct (map fst specs)" and "\<forall>t \<in> set (map fst specs). tool_free run t ts" and lk: "unheld run lk"
  shows "wp (gather_specs env p run specs)
    (\<lambda>items w'. collect (map (\<lambda>(t, q, f). f d0) specs) = Inr items
       \<and> (\<exists>rows. bundle_rows p run items rows \<and> on_course p run (ts @ rows) lk d0 R w'))
    (\<lambda>e w'. collect (map (\<lambda>(t, q, f). f d0) specs) = Inl e \<and> (\<exists>us. on_course p run us lk d0 R w')) w"
  using assms(1-4)
proof (induction specs arbitrary: ts w)
  case Nil
  then show ?case by auto
next
  case (Cons spec specs)
  obtain t q f where spec: "spec = (t, q, f)" by (cases spec) auto
  have mem: "(t, q, f) \<in> set (evidence_specs v p run)" and free: "tool_free run t ts"
    using Cons.prems spec by auto
  show ?case
    unfolding gather_specs.simps spec wp_bind [of "gather_one _ _ _ _"]
  proof (rule wp_mono [OF quiet_gather_one [OF Cons.prems(1) free lk mem]], goal_cases)
    case (1 item w1)
    then obtain row where item: "f d0 = Inr item" and row: "done_row p run t (evidence_dump item) row"
      and at: "on_course p run (ts @ [row]) lk d0 R w1" by auto
    from evidence_specs_valid [OF mem item] have item_ok: "valid_evidence item" "tool item = t" by simp_all
    have others: "\<forall>t' \<in> set (map fst specs). tool_free run t' (ts @ [row])"
      using Cons.prems(3,4) row by (auto simp: tool_free_snoc spec done_row_def owned_row_def)
    show ?case
      unfolding wp_bind
    proof (rule wp_mono [OF Cons.IH [OF at _ _ others]], goal_cases)
      case 1
      then show ?case using Cons.prems(2) by simp
    next
      case 2
      then show ?case using Cons.prems(3) by simp
    next
      case (3 items w2)
      then obtain rows where rows: "bundle_rows p run items rows"
          "on_course p run ((ts @ [row]) @ rows) lk d0 R w2" by auto
      have "bundle_rows p run (item # items) (row # rows)"
        using rows(1) row item_ok by (simp add: bundle_rows_Cons)
      with rows(2) 3 item show ?case by (auto simp: spec intro: exI [of _ "row # rows"])
    next
      case (4 e w2)
      with item show ?case by (auto simp: spec)
    qed
  next
    case (2 e w1)
    then show ?case by (auto simp: spec)
  qed
qed

lemma quiet_gather:
  assumes c: "on_course p run ts lk d0 R w" and free: "\<forall>x \<in> set ts. tool_run_id x \<noteq> run_id run" and lk: "unheld run lk"
  shows "wp (gather_evidence env p run)
    (\<lambda>_ w'. \<exists>items rows. bundle_of (manifest_version env) p run d0 = Inr items
       \<and> bundle_rows p run items rows \<and> on_course p run (ts @ rows) lk d0 R w')
    (\<lambda>e w'. bundle_of (manifest_version env) p run d0 = Inl e \<and> (\<exists>us. on_course p run us lk d0 R w')) w"
  unfolding gather_evidence_def bundle_of_def
  by (rule wp_mono [OF quiet_gather_specs [OF c subset_refl _ _ lk]])
     (use free in \<open>auto simp: evidence_specs_tools evidence_tools_def tool_free_def\<close>)

lemma bundle_names:
  assumes "bundle_of v p run d0 = Inr items"
  shows "map tool items = evidence_tools"
proof -
  have "map tool items = map fst specs"
    if "collect (map (\<lambda>(t, q, f). f d0) specs) = Inr items"
      and "set specs \<subseteq> set (evidence_specs v p run)" for specs
    using that
  proof (induction specs arbitrary: items)
    case Nil
    then show ?case by simp
  next
    case (Cons spec specs)
    obtain t q f where spec: "spec = (t, q, f)" by (cases spec) auto
    from Cons.prems(1) obtain i rest where i: "f d0 = Inr i" "items = i # rest"
        "collect (map (\<lambda>(t, q, f). f d0) specs) = Inr rest"
      by (auto simp: spec split: sum.splits)
    have "tool i = t" using evidence_specs_valid [of t q f v p run d0 i] Cons.prems(2) i(1) spec by simp
    with Cons.IH [OF i(3)] Cons.prems(2) i(2) spec show ?case by simp
  qed
  from this [of "evidence_specs v p run"] assms show ?thesis
    by (simp add: bundle_of_def evidence_specs_tools)
qed

lemma quiet_list:
  assumes c: "on_course p run (ts @ rows @ us) lk d0 R w" and rows: "bundle_rows p run items rows"
    and names: "map tool items = evidence_tools"
    and free: "\<forall>x \<in> set ts \<union> set us. tool_run_id x = run_id run \<longrightarrow> tool_name x = Tool_reasoning"
  shows "wp (call_repo env (list_evidence p (run_id run)))
    (\<lambda>es w'. es = items \<and> on_course p run (ts @ rows @ us) lk d0 R w') (\<lambda>_ _. False) w"
proof -
  have "list_evidence p (run_id run) (db w) = (Inr items, db w)"
    by (rule bundle_reads_back [OF rows names _ free]) (use c in \<open>simp add: on_course_def course_def\<close>)
  then have "wp (list_evidence p (run_id run)) (\<lambda>es d. es = items \<and> d = db w) (\<lambda>_ _. False) (db w)"
    by (simp add: wp_def)
  from quiet_call [OF this] show ?thesis
    by (rule wp_mono) (use c in \<open>auto simp: on_course_def\<close>)
qed

lemma quiet_quality:
  assumes "on_course p run (ts @ rows) lk d0 R w" and "bundle_rows p run items rows"
    and "map tool items = evidence_tools" and "\<forall>x \<in> set ts. tool_run_id x \<noteq> run_id run"
  shows "wp (quality_check env p run)
    (\<lambda>_ w'. validate_bundle items (utc (as_of_ts run)) = Inr () \<and> on_course p run (ts @ rows) lk d0 R w')
    (\<lambda>e w'. validate_bundle items (utc (as_of_ts run)) = Inl e \<and> on_course p run (ts @ rows) lk d0 R w') w"
  unfolding quality_check_def wp_bind
  by (rule wp_mono [OF quiet_list [where us = "[]"]]) (use assms in \<open>auto split: sum.split\<close>)

lemma quiet_reason:
  assumes c: "on_course p run (ts @ rows) lk d0 R w" and rows: "bundle_rows p run items rows"
    and names: "map tool items = evidence_tools" and free: "\<forall>x \<in> set ts. tool_run_id x \<noteq> run_id run" and lk: "unheld run lk"
  shows "wp (reason_once env p run)
    (\<lambda>_ w'. \<exists>o1 row. reasoning env items = Inr o1
        \<and> done_row p run Tool_reasoning (result_dump (result o1)) row
        \<and> on_course p run (ts @ rows @ [row]) lk d0 (R @ [items]) w')
    (\<lambda>e w'. is_reasoning_failure e \<and> (\<exists>e0 us. reasoning env items = Inl e0
        \<and> code_or [] e = code_or ''INVALID_REASONING_OUTPUT'' e0
        \<and> on_course p run us lk d0 (R @ [items]) w')) w"
    (is "wp _ ?Q ?E w")
proof -
  let ?key = "tool_lock_key (run_id run) Tool_reasoning"
  have free_t: "tool_free run Tool_reasoning (ts @ rows)"
  proof -
    have "tool_name x \<noteq> Tool_reasoning" if "x \<in> set rows" for x
    proof -
      from that have "tool_name x \<in> set (map tool_name rows)" by simp
      also have "map tool_name rows = evidence_tools" using bundle_rows_names [OF rows] names by simp
      finally show ?thesis by (auto simp: evidence_tools_def)
    qed
    with free show ?thesis by (auto simp: tool_free_def)
  qed
  have claim: "wp (call_at env (claim_or_observe_tool p (run_id run) Tool_reasoning
        (canonical_hash (JList (map evidence_dump items)))))
      (\<lambda>(row, claimed) w'. claimed \<and> owned_row p run Tool_reasoning row
         \<and> on_course p run ((ts @ rows) @ [row]) (?key # lk) d0 R w') (\<lambda>_ _. False) w'"
    if "on_course p run (ts @ rows) lk d0 R w'" for w'
  proof -
    have "course p run (ts @ rows) lk d0 (db w')" using that by (simp add: on_course_def)
    show ?thesis
      by (rule wp_mono [OF quiet_call_at], rule course_claim [OF \<open>course _ _ _ _ _ _\<close> free_t _ lk])
         (use that in \<open>auto simp: on_course_def\<close>)
  qed
  have fin: "wp (call_at env (complete_tool p (run_id run) Tool_reasoning res md st))
      (\<lambda>_ w'. \<exists>row'. owned_row p run Tool_reasoning row' \<and> tool_status row' = st \<and> result_json row' = res
         \<and> on_course p run ((ts @ rows) @ [row']) (?key # lk) d0 R' w') (\<lambda>_ _. False) w'"
    if "on_course p run ((ts @ rows) @ [row]) (?key # lk) d0 R' w'" "owned_row p run Tool_reasoning row"
    for row res md st w' R'
  proof -
    have "course p run ((ts @ rows) @ [row]) (?key # lk) d0 (db w')" using that by (simp add: on_course_def)
    show ?thesis
      by (rule wp_mono [OF quiet_call_at], rule course_complete [OF \<open>course _ _ _ _ _ _\<close> free_t that(2)])
         (use that(1) in \<open>auto simp: on_course_def\<close>)
  qed
  have rel: "on_course p run us lk d0 R' (release_claim run Tool_reasoning w')"
    if "on_course p run us (?key # lk) d0 R' w'" for us w' R'
    using that course_release by (simp add: on_course_def release_claim_def)
  have rel_ex: "\<exists>us. on_course p run us lk d0 R' (release_claim run Tool_reasoning w')"
    if "on_course p run us (?key # lk) d0 R' w'" for us w' R'
    using rel [OF that] by blast
  have ask: "wp (checked_reasoning env items)
      (\<lambda>o1 w''. reasoning env items = Inr o1 \<and> on_course p run us lk' d0 (R @ [items]) w'')
      (\<lambda>e w''. reasoning env items = Inl e \<and> on_course p run us lk' d0 (R @ [items]) w'') w'"
    if "on_course p run us lk' d0 R w'" for us lk' w'
    using that adapter.reason_cites [of items]
    by (cases "reasoning env items")
       (auto simp: checked_reasoning_def wp_def call_reasoning_def bindE_def liftE_def returnE_def
          on_course_def validate_citations_iff [THEN iffD2])
  have caught: "is_reasoning_failure e \<or> is_value_error e" if "reasoning env items = Inl e" for e
    using adapter.reason_refusal [OF that] by (cases e) auto
  have claimed: "wp (finallyE (reason_claimed env p run items) (release_claim run Tool_reasoning)) ?Q ?E w'"
    if at: "on_course p run ((ts @ rows) @ [row]) (?key # lk) d0 R w'"
      and own: "owned_row p run Tool_reasoning row" for row w'
    unfolding reason_claimed_def wp_finally wp_bind [of "tryE _ _"] wp_try Let_def
  proof (rule wp_mono [OF ask [OF at]], goal_cases)
    case (1 o1 w'')
    then show ?case
      using own by (auto intro!: wp_mono [OF fin] rel simp: done_row_def)
  next
    case (2 e w'')
    from code_of_failure [of e "[]" "''INVALID_REASONING_OUTPUT''"] show ?case
      using 2 own caught by (auto intro!: wp_mono [OF fin] rel_ex)
  qed
  have list: "wp (call_repo env (list_evidence p (run_id run)))
      (\<lambda>es w'. es = items \<and> on_course p run (ts @ rows) lk d0 R w') (\<lambda>_ _. False) w"
    using quiet_list [where us = "[]"] c rows names free by auto
  show ?thesis
    unfolding reason_once_def wp_bind [of "call_repo _ _"]
  proof (rule wp_mono [OF list], goal_cases)
    case (1 es w1)
    then have es: "es = items" and w1: "on_course p run (ts @ rows) lk d0 R w1" by simp_all
    show ?case
      unfolding es wp_bind [of "call_at _ _"]
    proof (rule wp_mono [OF claim [OF w1]], goal_cases)
      case (1 rc w2)
      then obtain row where rc: "rc = (row, True)" and own: "owned_row p run Tool_reasoning row"
          and at: "on_course p run ((ts @ rows) @ [row]) (?key # lk) d0 R w2"
        by (cases rc) auto
      show ?case
        unfolding rc prod.case using claimed [OF at own] by (simp only: not_True_eq_False if_False)
    qed simp
  qed simp
qed

lemma ends_escalate:
  assumes "on_course p run ts lk d0 R w" and "can_transition (state run) ESCALATED"
    and "state run \<in> machine_states"
  shows "ends (Escalated code) R lk (finish (escalate env p run code)) w"
  unfolding ends_def by (rule wp_mono [OF quiet_escalate [OF assms]]) auto

lemma stage_draft:
  assumes c: "on_course p run (ts @ rows @ [row]) lk d0 R w" and st: "state run = DRAFTING_RECOMMENDATION"
    and rows: "bundle_rows p run items rows" and names: "map tool items = evidence_tools"
    and free: "\<forall>x \<in> set ts. tool_run_id x \<noteq> run_id run"
    and row: "done_row p run Tool_reasoning (result_dump rr) row"
    and rr: "valid_result rr" "result_citations rr \<subseteq> evidence_id ` set items"
  shows "ends (Drafted rr) R lk (resume_step env (Suc (Suc n)) p run) w"
proof -
  have "get_tool p (run_id run) Tool_reasoning (db w) = Some row"
  proof -
    have key: "keyed (\<lambda>x. (tool_run_id x, tool_name x)) (tools (db w))"
      using c unfolding on_course_def course_def repo_inv_def tool_inv_def by blast
    have m: "tool_matches p (run_id run) Tool_reasoning row"
      using row by (simp add: done_row_def owned_row_def tool_matches_def)
    have "row \<in> set (tools (db w))" using c by (simp add: on_course_def course_def)
    from select_one_key [where P = "tool_matches p (run_id run) Tool_reasoning", OF key this m] m
    show ?thesis by (auto simp: get_tool_def tool_matches_def)
  qed
  then have "wp (read_reasoning p (run_id run)) (\<lambda>x d. x = Some row \<and> d = db w) (\<lambda>_ _. False) (db w)"
    by (simp add: wp_def read_reasoning_def returnE_def)
  from wp_mono [OF quiet_call [OF this]]
  have read: "wp (call_repo env (read_reasoning p (run_id run)))
      (\<lambda>x w'. x = Some row \<and> on_course p run (ts @ rows @ [row]) lk d0 R w') (\<lambda>_ _. False) w"
    using c by (simp add: on_course_def)
  have parsed: "(case result_json row of None \<Rightarrow> Inl PydanticValidationError | Some j \<Rightarrow> model_validate j) = Inr rr"
    using row rr(1) by (simp add: done_row_def model_validate_dump)
  have mine: "\<forall>x \<in> set ts \<union> set [row]. tool_run_id x = run_id run \<longrightarrow> tool_name x = Tool_reasoning"
    using free row by (auto simp: done_row_def owned_row_def)
  have checked: "wp (checked_result env p run row)
      (\<lambda>x w'. x = rr \<and> on_course p run (ts @ rows @ [row]) lk d0 R w') (\<lambda>_ _. False) w'"
    if "on_course p run (ts @ rows @ [row]) lk d0 R w'" for w'
    unfolding checked_result_def parsed
    by (simp, rule wp_mono [OF quiet_list [OF that rows names mine]])
       (use rr(2) in \<open>auto simp: validate_citations_iff [THEN iffD2]\<close>)
  have drafted: "ends (Drafted rr) R lk (bindE (draft env p run rr) (resume_step env (Suc n) p)) w'"
    if at: "on_course p run (ts @ rows @ [row]) lk d0 R w'" for w'
  proof (rule ends_bind)
    have "course p run (ts @ rows @ [row]) lk d0 (db w')" using at by (simp add: on_course_def)
    then have "wp (set_draft_and_transition p run (result_dump rr) (canonical_hash (result_dump rr)) now
        (now + REVIEW_POLICY))
      (\<lambda>r d'. course p r (ts @ rows @ [row]) lk d0 d' \<and> (\<exists>t. r = with_draft (result_dump rr)
          (canonical_hash (result_dump rr)) t (t + REVIEW_POLICY) (move_to AWAITING_HUMAN t run)))
      (\<lambda>_ _. False) (db w')" for now
      by (intro wp_mono [OF course_set_draft [OF _ st is_hex64_canonical_hash]]) auto
    from quiet_call_at [OF this]
    show "wp (draft env p run rr) (\<lambda>r w''. (course p r (ts @ rows @ [row]) lk d0 (db w'')
        \<and> (\<exists>t. r = with_draft (result_dump rr) (canonical_hash (result_dump rr)) t (t + REVIEW_POLICY)
             (move_to AWAITING_HUMAN t run))) \<and> reasoned w'' = reasoned w')
        (\<lambda>e w''. False \<and> reasoned w'' = reasoned w') w'"
      unfolding draft_def .
  next
    fix r and w'' :: world
    assume r: "(course p r (ts @ rows @ [row]) lk d0 (db w'')
        \<and> (\<exists>t. r = with_draft (result_dump rr) (canonical_hash (result_dump rr)) t (t + REVIEW_POLICY)
             (move_to AWAITING_HUMAN t run))) \<and> reasoned w'' = reasoned w'"
    then have "state r = AWAITING_HUMAN" by (auto simp: with_draft_def)
    with r at show "ends (Drafted rr) R lk (resume_step env (Suc n) p r) w''"
      by (auto simp: ends_def delivered_def course_def on_course_def with_draft_def)
  qed simp
  show ?thesis
    unfolding resume_step.simps(2) [of env "Suc n"] st RunState.case
  proof (rule ends_bind [OF read])
    fix x and w' :: world
    assume x: "x = Some row \<and> on_course p run (ts @ rows @ [row]) lk d0 R w'"
    then have at: "on_course p run (ts @ rows @ [row]) lk d0 R w'" by simp
    have "tool_status row = Completed" using row by (simp add: done_row_def)
    moreover have "ends (Drafted rr) R lk (bindE (tryE is_value_error (checked_result env p run row)) (\<lambda>r. case r of
          Inl exc \<Rightarrow> finish (escalate env p run ''INVALID_REASONING_OUTPUT'')
        | Inr res \<Rightarrow> bindE (draft env p run res) (resume_step env (Suc n) p))) w'"
      by (rule ends_try [OF checked [OF at]]) (auto intro: drafted)
    ultimately show "ends (Drafted rr) R lk (case x of
          None \<Rightarrow> finish (escalate env p run ''REASONING_RESULT_UNAVAILABLE'')
        | Some row \<Rightarrow> if tool_status row \<noteq> Completed then finish (escalate env p run ''REASONING_RESULT_UNAVAILABLE'')
           else bindE (tryE is_value_error (checked_result env p run row)) (\<lambda>r. case r of
              Inl exc \<Rightarrow> finish (escalate env p run ''INVALID_REASONING_OUTPUT'')
            | Inr res \<Rightarrow> bindE (draft env p run res) (resume_step env (Suc n) p))) w'"
      using x by simp
  qed simp
qed

lemma stage_reasoning:
  assumes c: "on_course p run (ts @ rows) lk d0 R w" and st: "state run = REASONING"
    and rows: "bundle_rows p run items rows" and names: "map tool items = evidence_tools"
    and free: "\<forall>x \<in> set ts. tool_run_id x \<noteq> run_id run" and lk: "unheld run lk"
  shows "ends (judge (reasoning env) items) (R @ [items]) lk (resume_step env (Suc (Suc (Suc n))) p run) w"
  unfolding resume_step.simps(2) [of env "Suc (Suc n)"] st RunState.case
proof (rule ends_try [OF quiet_reason [OF c rows names free lk]])
  fix x w'
  assume "\<exists>o1 row. reasoning env items = Inr o1 \<and> done_row p run Tool_reasoning (result_dump (result o1)) row
    \<and> on_course p run (ts @ rows @ [row]) lk d0 (R @ [items]) w'"
  then obtain o1 row where o1: "reasoning env items = Inr o1"
      and row: "done_row p run Tool_reasoning (result_dump (result o1)) row"
      and at: "on_course p run (ts @ rows @ [row]) lk d0 (R @ [items]) w'" by blast
  have tr: "can_transition (state run) DRAFTING_RECOMMENDATION" "state run \<in> machine_states"
    by (simp_all add: st can_transition_def machine_states_def)
  have "ends (Drafted (result o1)) (R @ [items]) lk (bindE (advance env p run DRAFTING_RECOMMENDATION
      ''reasoning_completed'') (resume_step env (Suc (Suc n)) p)) w'"
  proof (rule ends_bind [OF quiet_advance [OF at tr]])
    fix r w''
    assume r: "on_course p r (ts @ rows @ [row]) lk d0 (R @ [items]) w'' \<and> same_run run r
      \<and> state r = DRAFTING_RECOMMENDATION"
    show "ends (Drafted (result o1)) (R @ [items]) lk (resume_step env (Suc (Suc n)) p r) w''"
    proof -
      from r have same: "same_run run r" by simp
      have "bundle_rows p r items rows" unfolding bundle_rows_same [OF same] by (rule rows)
      moreover have "done_row p r Tool_reasoning (result_dump (result o1)) row"
        unfolding done_row_same [OF same] by (rule row)
      moreover have "\<forall>x \<in> set ts. tool_run_id x \<noteq> run_id r" using free same_run_id [OF same] by simp
      moreover note adapter.reason_valid [OF o1] adapter.reason_cites [OF o1]
      ultimately show ?thesis using r names by (intro stage_draft) auto
    qed
  qed simp
  then show "ends (judge (reasoning env) items) (R @ [items]) lk (case Inr x of
      Inl exc \<Rightarrow> finish (escalate env p run (code_or [] exc))
    | Inr _ \<Rightarrow> bindE (advance env p run DRAFTING_RECOMMENDATION ''reasoning_completed'')
        (resume_step env (Suc (Suc n)) p)) w'"
    by (simp add: judge_def o1)
next
  fix e w'
  assume "is_reasoning_failure e \<and> (\<exists>e0 us. reasoning env items = Inl e0
        \<and> code_or [] e = code_or ''INVALID_REASONING_OUTPUT'' e0
        \<and> on_course p run us lk d0 (R @ [items]) w')"
  then obtain e0 us where e0: "reasoning env items = Inl e0"
      "code_or [] e = code_or ''INVALID_REASONING_OUTPUT'' e0"
      and at: "on_course p run us lk d0 (R @ [items]) w'" by blast
  have "ends (Escalated (code_or [] e)) (R @ [items]) lk (finish (escalate env p run (code_or [] e))) w'"
    by (rule ends_escalate [OF at]) (simp_all add: st can_transition_def machine_states_def)
  then show "ends (judge (reasoning env) items) (R @ [items]) lk (case Inl e of
      Inl exc \<Rightarrow> finish (escalate env p run (code_or [] exc))
    | Inr _ \<Rightarrow> bindE (advance env p run DRAFTING_RECOMMENDATION ''reasoning_completed'')
        (resume_step env (Suc (Suc n)) p)) w'"
    by (simp add: judge_def e0)
qed simp

lemma stage_quality:
  assumes c: "on_course p run (ts @ rows) lk d0 R w" and st: "state run = QUALITY_CHECKS"
    and gathered: "bundle_of (manifest_version env) p run d0 = Inr items"
    and rows: "bundle_rows p run items rows"
    and free: "\<forall>x \<in> set ts. tool_run_id x \<noteq> run_id run" and lk: "unheld run lk"
    and vd: "investigate (reasoning env) (manifest_version env) p run d0 = (vd, calls)"
  shows "ends vd (R @ calls) lk (resume_step env (Suc (Suc (Suc (Suc n)))) p run) w"
  unfolding resume_step.simps(2) [of env "Suc (Suc (Suc n))"] st RunState.case
proof (rule ends_try [OF quiet_quality [OF c rows bundle_names [OF gathered] free]])
  fix x w'
  assume ok: "validate_bundle items (utc (as_of_ts run)) = Inr () \<and> on_course p run (ts @ rows) lk d0 R w'"
  have tr: "can_transition (state run) REASONING" "state run \<in> machine_states"
    by (simp_all add: st can_transition_def machine_states_def)
  have "ends (judge (reasoning env) items) (R @ [items]) lk (bindE (advance env p run REASONING
      ''quality_checks_passed'') (resume_step env (Suc (Suc (Suc n))) p)) w'"
  proof (rule ends_bind [OF quiet_advance [OF conjunct2 [OF ok] tr]])
    fix r w''
    assume r: "on_course p r (ts @ rows) lk d0 R w'' \<and> same_run run r \<and> state r = REASONING"
    show "ends (judge (reasoning env) items) (R @ [items]) lk (resume_step env (Suc (Suc (Suc n))) p r) w''"
    proof -
      from r have same: "same_run run r" by simp
      have "bundle_rows p r items rows" unfolding bundle_rows_same [OF same] by (rule rows)
      moreover have "\<forall>x \<in> set ts. tool_run_id x \<noteq> run_id r" using free same_run_id [OF same] by simp
      ultimately show ?thesis using r lk bundle_names [OF gathered] unheld_same [OF same] by (intro stage_reasoning) auto
    qed
  qed simp
  with ok vd gathered show "ends vd (R @ calls) lk (case Inr x of
      Inl exc \<Rightarrow> finish (escalate env p run (code_or ''EVIDENCE_SCHEMA_INVALID'' exc))
    | Inr _ \<Rightarrow> bindE (advance env p run REASONING ''quality_checks_passed'')
        (resume_step env (Suc (Suc (Suc n))) p)) w'"
    by (auto simp: investigate_def)
next
  fix e w'
  assume e: "validate_bundle items (utc (as_of_ts run)) = Inl e \<and> on_course p run (ts @ rows) lk d0 R w'"
  then obtain c m where cm: "e = EvidenceFailure c m" using validate_bundle_failure by blast
  have "ends (Escalated c) R lk (finish (escalate env p run c)) w'"
    using e by (intro ends_escalate) (auto simp: st can_transition_def machine_states_def)
  with e cm vd gathered show "ends vd (R @ calls) lk (case Inl e of
      Inl exc \<Rightarrow> finish (escalate env p run (code_or ''EVIDENCE_SCHEMA_INVALID'' exc))
    | Inr _ \<Rightarrow> bindE (advance env p run REASONING ''quality_checks_passed'')
        (resume_step env (Suc (Suc (Suc n))) p)) w'"
    by (auto simp: investigate_def code_or_def)
next
  fix e w'
  assume "validate_bundle items (utc (as_of_ts run)) = Inl e \<and> on_course p run (ts @ rows) lk d0 R w'"
    and "\<not> (is_evidence_failure e \<or> is_pydantic e)"
  then show "vd = Crashed e \<and> locks (db w') = lk \<and> reasoned w' = R @ calls"
    using validate_bundle_failure [of items "utc (as_of_ts run)" e] by auto
qed

lemma stage_gather:
  assumes c: "on_course p run ts lk d0 R w" and st: "state run = GATHERING_EVIDENCE"
    and free: "\<forall>x \<in> set ts. tool_run_id x \<noteq> run_id run" and lk: "unheld run lk"
    and vd: "investigate (reasoning env) (manifest_version env) p run d0 = (vd, calls)"
  shows "ends vd (R @ calls) lk (resume_step env (Suc (Suc (Suc (Suc (Suc n))))) p run) w"
  unfolding resume_step.simps(2) [of env "Suc (Suc (Suc (Suc n)))"] st RunState.case
proof (rule ends_try [OF quiet_gather [OF c free lk]])
  fix x w'
  assume "\<exists>items rows. bundle_of (manifest_version env) p run d0 = Inr items
       \<and> bundle_rows p run items rows \<and> on_course p run (ts @ rows) lk d0 R w'"
  then obtain items rows where gathered: "bundle_of (manifest_version env) p run d0 = Inr items"
      and rows: "bundle_rows p run items rows" and at: "on_course p run (ts @ rows) lk d0 R w'" by blast
  have tr: "can_transition (state run) QUALITY_CHECKS" "state run \<in> machine_states"
    by (simp_all add: st can_transition_def machine_states_def)
  have "ends vd (R @ calls) lk (bindE (advance env p run QUALITY_CHECKS ''evidence_gathered'')
      (resume_step env (Suc (Suc (Suc (Suc n)))) p)) w'"
  proof (rule ends_bind [OF quiet_advance [OF at tr]])
    fix r w''
    assume r: "on_course p r (ts @ rows) lk d0 R w'' \<and> same_run run r \<and> state r = QUALITY_CHECKS"
    from r have same: "same_run run r" by simp
    have "bundle_of (manifest_version env) p r d0 = Inr items"
      using gathered by (simp add: bundle_of_def evidence_specs_same [OF same])
    moreover have "\<forall>x \<in> set ts. tool_run_id x \<noteq> run_id r" using free same_run_id [OF same] by simp
    moreover have "bundle_rows p r items rows" unfolding bundle_rows_same [OF same] by (rule rows)
    moreover have "investigate (reasoning env) (manifest_version env) p r d0 = (vd, calls)"
      unfolding investigate_same [OF same] by (rule vd)
    ultimately show "ends vd (R @ calls) lk (resume_step env (Suc (Suc (Suc (Suc n)))) p r) w''"
      using r lk unheld_same [OF same] by (intro stage_quality) auto
  qed simp
  then show "ends vd (R @ calls) lk (case Inr x of
      Inl exc \<Rightarrow> finish (escalate env p run (code_or [] exc))
    | Inr _ \<Rightarrow> bindE (advance env p run QUALITY_CHECKS ''evidence_gathered'')
        (resume_step env (Suc (Suc (Suc (Suc n)))) p)) w'" by simp
next
  fix e w'
  assume e: "bundle_of (manifest_version env) p run d0 = Inl e \<and> (\<exists>us. on_course p run us lk d0 R w')"
    and "is_evidence_failure e"
  with vd have "vd = Escalated (code_or [] e)" "calls = []" by (auto simp: investigate_def)
  with e show "ends vd (R @ calls) lk (case Inl e of
      Inl exc \<Rightarrow> finish (escalate env p run (code_or [] exc))
    | Inr _ \<Rightarrow> bindE (advance env p run QUALITY_CHECKS ''evidence_gathered'')
        (resume_step env (Suc (Suc (Suc (Suc n)))) p)) w'"
    by (auto intro: ends_escalate simp: st can_transition_def machine_states_def)
next
  fix e w'
  assume e: "bundle_of (manifest_version env) p run d0 = Inl e \<and> (\<exists>us. on_course p run us lk d0 R w')"
    and "\<not> is_evidence_failure e"
  with vd show "vd = Crashed e \<and> locks (db w') = lk \<and> reasoned w' = R @ calls"
    by (auto simp: investigate_def on_course_def course_def)
qed

lemma stage_created:
  assumes c: "on_course p run ts lk d0 R w" and st: "state run = CREATED"
    and free: "\<forall>x \<in> set ts. tool_run_id x \<noteq> run_id run" and lk: "unheld run lk"
    and vd: "investigate (reasoning env) (manifest_version env) p run d0 = (vd, calls)"
  shows "ends vd (R @ calls) lk (resume_step env (Suc (Suc (Suc (Suc (Suc (Suc (Suc n))))))) p run) w"
  unfolding resume_step.simps(2) [of env "Suc (Suc (Suc (Suc (Suc (Suc n)))))"] st RunState.case
proof (rule ends_bind)
  show "wp (advance env p run VALIDATING ''validation_started'')
      (\<lambda>r w'. on_course p r ts lk d0 R w' \<and> same_run run r \<and> state r = VALIDATING) (\<lambda>_ _. False) w"
    by (rule quiet_advance [OF c]) (simp_all add: st can_transition_def machine_states_def)
next
  fix r w'
  assume r: "on_course p r ts lk d0 R w' \<and> same_run run r \<and> state r = VALIDATING"
  then have c': "on_course p r ts lk d0 R w'" and s: "state r = VALIDATING" by simp_all
  show "ends vd (R @ calls) lk (resume_step env (Suc (Suc (Suc (Suc (Suc (Suc n)))))) p r) w'"
    unfolding resume_step.simps(2) [of env "Suc (Suc (Suc (Suc (Suc n))))"] s RunState.case
  proof (rule ends_bind)
    show "wp (advance env p r GATHERING_EVIDENCE ''evidence_gathering_started'')
        (\<lambda>r' w''. on_course p r' ts lk d0 R w'' \<and> same_run r r' \<and> state r' = GATHERING_EVIDENCE) (\<lambda>_ _. False) w'"
      by (rule quiet_advance [OF c']) (simp_all add: s can_transition_def machine_states_def)
  next
    fix r' w''
    assume r': "on_course p r' ts lk d0 R w'' \<and> same_run r r' \<and> state r' = GATHERING_EVIDENCE"
    have same: "same_run run r'" using r r' same_run_trans by blast
    show "ends vd (R @ calls) lk (resume_step env (Suc (Suc (Suc (Suc (Suc n))))) p r') w''"
    proof -
      have "\<forall>x \<in> set ts. tool_run_id x \<noteq> run_id r'" using free same_run_id [OF same] by simp
      moreover have "investigate (reasoning env) (manifest_version env) p r' d0 = (vd, calls)"
        unfolding investigate_same [OF same] by (rule vd)
      ultimately show ?thesis using r' lk unheld_same [OF same] by (intro stage_gather) auto
    qed
  qed simp
qed simp

lemma intake_delivers:
  assumes inv: "repo_inv (db w)" and role: "has_role p ''operator''" and key: "bounded_text 1 200 key"
    and reviewer: "reviewer_of env (principal_tenant p) = Inr reviewer"
    and fresh: "select_idempotency p key (db w) = None" "uuid \<notin> run_id ` set (runs (db w))"
    and lk: "\<And>t. tool_lock_key uuid t \<notin> set (locks (db w))"
    and checks: "run_checks (new_run p req h reviewer 0 mode uuid)" and h: "h = canonical_hash (intake_dump req)"
    and vd: "investigate (reasoning env) (manifest_version env) p (new_run p req h reviewer 0 mode uuid) (db w)
        = (vd, calls)"
  shows "wp (intake env (Suc fuel) p req key mode uuid)
    (\<lambda>(res, created) w'. created \<and> delivered vd (Inr res) (db w') \<and> locks (db w') = locks (db w)
        \<and> reasoned w' = reasoned w @ calls)
    (\<lambda>e w'. vd = Crashed e \<and> locks (db w') = locks (db w) \<and> reasoned w' = reasoned w @ calls) w"
proof -
  have same: "same_run (new_run p req h reviewer 0 mode uuid) (new_run p req h reviewer now mode uuid)" for now
    by (simp add: same_run_def new_run_def)
  let ?run = "\<lambda>now. new_run p req h reviewer now mode uuid"
  have start: "wp (begin_intake p req key h reviewer now mode uuid)
      (\<lambda>(r, created) d. created \<and> (\<exists>n. r = ?run n) \<and> course p r (tools (db w)) (locks (db w)) (db w) d)
      (\<lambda>_ _. False) (db w)" for now
  proof -
    have "run_checks (?run now)" using checks by (simp add: run_checks_def new_run_def)
    then have eq: "begin_intake p req key h reviewer now mode uuid (db w) = (Inr (?run now, True),
        snd (begin_intake p req key h reviewer now mode uuid (db w)))"
      and run: "runs (snd (begin_intake p req key h reviewer now mode uuid (db w))) = runs (db w) @ [?run now]"
        "tools (snd (begin_intake p req key h reviewer now mode uuid (db w))) = tools (db w)"
        "locks (snd (begin_intake p req key h reviewer now mode uuid (db w))) = locks (db w)"
        "fixtures_of (snd (begin_intake p req key h reviewer now mode uuid (db w))) = fixtures_of (db w)"
      using fresh key
      by (simp_all add: begin_intake_def begin_intake_after_select_def Let_def returnE_def insert_event_def
          fixtures_of_def)
    have "repo_inv (snd (begin_intake p req key h reviewer now mode uuid (db w)))"
      by (rule begin_intake_keeps_inv [OF inv])
    then have "course p (?run now) (tools (db w)) (locks (db w)) (db w)
        (snd (begin_intake p req key h reviewer now mode uuid (db w)))"
      using run by (simp add: course_def) (simp add: new_run_def)
    then show ?thesis
      unfolding wp_def by (subst eq) auto
  qed
  have free: "\<forall>x \<in> set (tools (db w)). tool_run_id x \<noteq> run_id (?run n)" for n
    using inv fresh(2) by (auto simp: repo_inv_def tool_inv_def new_run_def)
  have loop: "ends vd (reasoned w @ calls) (locks (db w)) (resume env (Suc fuel) p (?run n)) w'"
    if "on_course p (?run n) (tools (db w)) (locks (db w)) (db w) (reasoned w) w'" for n w'
  proof -
    have "investigate (reasoning env) (manifest_version env) p (?run n) (db w) = (vd, calls)"
      by (rule trans [OF investigate_same [OF same] vd])
    from stage_created [OF that _ free _ this, of 1] lk
    have "ends vd (reasoned w @ calls) (locks (db w)) (resume_step env step_fuel p (?run n)) w'"
      by (simp add: step_fuel_def new_run_def eval_nat_numeral unheld_def)
    moreover have "\<not> is_state_conflict e" if "vd = Crashed e" for e
      using that vd bundle_orderly
      by (auto simp: investigate_def judge_def orderly_def split: sum.splits if_splits)
    ultimately show ?thesis
      unfolding resume.simps ends_def wp_bind [of "tryE _ _"] wp_try
      by (elim wp_mono) auto
  qed
  have begun: "wp (call_at env (\<lambda>now. begin_intake p req key h reviewer now mode uuid))
      (\<lambda>(r, created) w'. created \<and> (\<exists>n. r = ?run n)
         \<and> on_course p r (tools (db w)) (locks (db w)) (db w) (reasoned w) w') (\<lambda>_ _. False) w"
    by (rule wp_mono [OF quiet_call_at], rule start) (auto simp: on_course_def)
  have checked: "check_idempotency_key key = Inr ()"
    using key by (auto simp: check_idempotency_key_def bounded_text_def)
  let ?Q = "\<lambda>(res, created) w'. created \<and> delivered vd (Inr res) (db w') \<and> locks (db w') = locks (db w)
        \<and> reasoned w' = reasoned w @ calls"
  let ?E = "\<lambda>e w'. vd = Crashed e \<and> locks (db w') = locks (db w) \<and> reasoned w' = reasoned w @ calls"
  have rest: "wp (bindE (resume env (Suc fuel) p r) (\<lambda>x. returnE (x, created))) ?Q ?E w'"
    if at: "on_course p r (tools (db w)) (locks (db w)) (db w) (reasoned w) w'" and r: "r = ?run n" and created
    for r n created w'
    using loop [OF at [unfolded r]] \<open>created\<close> unfolding ends_def r wp_bind
    by (elim wp_mono) auto
  have "wp (bindE (call_at env (\<lambda>now. begin_intake p req key h reviewer now mode uuid))
          (\<lambda>(run, created). bindE (resume env (Suc fuel) p run) (\<lambda>r. returnE (r, created)))) ?Q ?E w"
    unfolding wp_bind [of "call_at _ _"]
  proof (rule wp_mono [OF begun], goal_cases)
    case (1 rc w')
    then obtain r n where rc: "rc = (r, True)" and r: "r = ?run n"
        and at: "on_course p r (tools (db w)) (locks (db w)) (db w) (reasoned w) w'"
      by (cases rc) auto
    show ?case unfolding rc prod.case by (rule rest [OF at r TrueI])
  qed simp
  moreover have "intake env (Suc fuel) p req key mode uuid =
      bindE (call_at env (\<lambda>now. begin_intake p req key h reviewer now mode uuid))
          (\<lambda>(run, created). bindE (resume env (Suc fuel) p run) (\<lambda>r. returnE (r, created)))"
    unfolding intake_def checked reviewer bind_lift h
    by (simp only: role not_True_eq_False if_False)
  ultimately show ?thesis by (simp only:)
qed

end

end
