(* ===== verification/ServiceContracts.thy ===== *)
theory ServiceContracts
  imports Investigation
begin

section \<open>Properties of the investigation service\<close>

text \<open>
  The refinement of the investigation's specification, what the specification says of evidence,
  and the guarantees of reviews and audit reports while other callers are at work.
\<close>

subsection \<open>Intake delivers the investigation's verdict\<close>

lemma quiet_busy: "reasoning_adapter rs \<Longrightarrow> quiet_service (busy_env c (\<lambda>_. []) rs rv v)"
  by (intro quiet_service.intro busy_service_env quiet_service_axioms.intro) (simp_all add: busy_env_def)

interpretation quiet_stub: quiet_service "busy_env c (\<lambda>_. []) stub_reason rv v"
  by (rule quiet_busy) (rule stub.reasoning_adapter_axioms)

lemma validated_run_checks:
  assumes "validate_intake req = Inr ()"
  shows "run_checks (new_run p req (canonical_hash j) rv now mode uuid)"
  using assms
  by (auto simp: validate_intake_def run_checks_def new_run_def bounded_text_def split: if_splits)

definition outcome_of :: "exn + RunRecord option \<times> bool \<Rightarrow> exn + RunRecord option" where
  "outcome_of r = (case r of Inl e \<Rightarrow> Inl e | Inr (res, created) \<Rightarrow> Inr res)"

lemma quiet_intake:
  assumes "reasoning_adapter rs" and "db w = fold repo_step before_ops (empty_db i d s)"
    and "has_role p ''operator''" and "bounded_text 1 200 key" and "validate_intake req = Inr ()"
    and "assigned_reviewer idp (principal_tenant p) = Inr reviewer"
    and "select_idempotency p key (db w) = None" and "uuid \<notin> run_id ` set (runs (db w))"
    and "\<forall>t. tool_lock_key uuid t \<notin> set (locks (db w))"
    and "investigate rs v p (new_run p req (canonical_hash (intake_dump req)) reviewer 0 mode uuid) (db w)
       = (vd, calls)"
  shows "wp (intake (busy_env c (\<lambda>_. []) rs (assigned_reviewer idp) v) (Suc fuel) p req key mode uuid)
    (\<lambda>(res, created) w'. created \<and> delivered vd (Inr res) (db w') \<and> locks (db w') = locks (db w)
        \<and> reasoned w' = reasoned w @ calls)
    (\<lambda>e w'. vd = Crashed e \<and> locks (db w') = locks (db w) \<and> reasoned w' = reasoned w @ calls) w"
proof -
  have inv: "repo_inv (db w)" unfolding assms(2) by (rule reachable_inv)
  show ?thesis
    by (rule quiet_service.intake_delivers [OF quiet_busy [OF assms(1)] inv assms(3,4) _ assms(7,8) _
          validated_run_checks [OF assms(5)] refl])
       (use assms(9) in \<open>simp_all only: busy_env_def env.simps assms(6) simp_thms\<close>, rule assms(10))
qed

text \<open>C1. The intake of a fresh key delivers exactly the verdict of the specification, when no other caller
  acts while it runs (an environment without others, the claims of the new run not held): the run ends
  with a draft awaiting review (the adapter's result, its hash and the 24-hour window), or
  escalated with the verdict's code, or the caller gets the verdict's exception; the adapter was
  called on exactly the bundles the specification says, and every tool claim is released. (What holds
  whatever other callers do is the subject of the invariants, of the termination of intake and of its idempotency.)\<close>

theorem intake_refines_investigation:
  assumes "reasoning_adapter rs" and "db w = fold repo_step before_ops (empty_db i d s)"
    and "has_role p ''operator''" and "bounded_text 1 200 key" and "validate_intake req = Inr ()"
    and "assigned_reviewer idp (principal_tenant p) = Inr reviewer"
    and "select_idempotency p key (db w) = None" and "uuid \<notin> run_id ` set (runs (db w))"
    and "\<forall>t. tool_lock_key uuid t \<notin> set (locks (db w))"
    and "investigate rs v p (new_run p req (canonical_hash (intake_dump req)) reviewer 0 mode uuid) (db w)
       = (vd, calls)"
    and "intake (busy_env c (\<lambda>_. []) rs (assigned_reviewer idp) v) (Suc fuel) p req key mode uuid w = (r, w')"
  shows "delivered vd (outcome_of r) (db w') \<and> reasoned w' = reasoned w @ calls
       \<and> locks (db w') = locks (db w)"
  using quiet_intake [OF assms(1-10), of c fuel] assms(11)
  by (cases r) (auto simp: wp_def outcome_of_def delivered_def)

theorem intake_refines_investigation_witness:
  "\<exists>r w'. intake (busy_env (\<lambda>k. 4000 + int k) (\<lambda>_. []) stub_reason (assigned_reviewer w_idp) ''v1'')
       1 w_operator w_request ''key-7'' Human_review ''run-7'' w_world = (r, w')
     \<and> delivered (Escalated ''EVIDENCE_MISSING'') (outcome_of r) (db w') \<and> reasoned w' = []"
proof -
  let ?run = "new_run w_operator w_request (canonical_hash (intake_dump w_request)) ''rev-1'' 0
      Human_review ''run-7''"
  have fixtures: "inventory_fixture w_created = []" by code_simp
  have verdict: "investigate stub_reason ''v1'' w_operator ?run (db w_world) = (Escalated ''EVIDENCE_MISSING'', [])"
    by (simp add: investigate_def bundle_of_def evidence_specs_def Let_def inventory_tool_def
        fetch_inventory_fixture_def w_world_def fixtures code_or_def)
  have w: "db w_world = fold repo_step [w_create] (empty_db [] [] [])"
    by (simp add: w_world_def w_created_ops)
  have facts: "has_role w_operator ''operator''" "bounded_text 1 200 ''key-7''"
      "validate_intake w_request = Inr ()" "assigned_reviewer w_idp (principal_tenant w_operator) = Inr ''rev-1''"
      "select_idempotency w_operator ''key-7'' (db w_world) = None" "''run-7'' \<notin> run_id ` set (runs (db w_world))"
    by code_simp+
  have "locks (db w_world) = []" by code_simp
  then have free: "\<forall>t. tool_lock_key ''run-7'' t \<notin> set (locks (db w_world))" by simp
  obtain r w' where i: "intake (busy_env (\<lambda>k. 4000 + int k) (\<lambda>_. []) stub_reason (assigned_reviewer w_idp) ''v1'')
       (Suc 0) w_operator w_request ''key-7'' Human_review ''run-7'' w_world = (r, w')" by (metis surj_pair)
  from intake_refines_investigation [OF stub.reasoning_adapter_axioms w facts free verdict i] i
  show ?thesis by (auto simp: w_world_def)
qed

subsection \<open>What reaches the adapter\<close>

lemma validate_bundle_single:
  assumes "map tool items = evidence_tools" and "validate_bundle items t = Inr ()"
  obtains i1 i2 i3 where "items = [i1, i2, i3]" and "sound_item t i1" "sound_item t i2" "sound_item t i3"
proof -
  from assms(1) obtain i1 i2 i3 where "items = [i1, i2, i3]"
    by (auto simp: evidence_tools_def map_eq_Cons_conv)
  with assms(2) validate_bundle_accepts [of items t] that show ?thesis by auto
qed

lemma bundle_specs:
  assumes "bundle_of v p run d = Inr [i1, i2, i3]"
  shows "inventory_tool (fetch_inventory_fixture d) v p (run_sku_id run) (run_store_id run) (utc (as_of_ts run)) = Inr i1"
    and "demand_tool (fetch_demand_fixture d) v p (run_sku_id run) (run_store_id run) (utc (window_start run))
           (utc (window_end run)) (utc (as_of_ts run)) = Inr i2"
    and "supplier_tool (fetch_supplier_fixture d) v p (run_sku_id run) (run_supplier_id run) (utc (as_of_ts run)) = Inr i3"
  using assms by (auto simp: bundle_of_def evidence_specs_def Let_def split: sum.splits)

text \<open>What the specification hands to the adapter.\<close>

lemma investigated_evidence:
  assumes "investigate rs v p run d = (vd, calls)" and "calls \<noteq> []"
  shows "\<exists>items ir dr sr. calls = [items] \<and> map tool items = evidence_tools
       \<and> fetch_inventory_fixture d p (run_sku_id run) (run_store_id run) = Some ir
       \<and> ir_tenant ir = principal_tenant p
       \<and> ir_updated_at ir \<le> as_of_ts run \<and> as_of_ts run - ir_updated_at ir \<le> hours 24
       \<and> fetch_demand_fixture d p (run_sku_id run) (run_store_id run) (window_start run) (window_end run) = Some dr
       \<and> dr_tenant dr = principal_tenant p
       \<and> dr_updated_at dr \<le> as_of_ts run \<and> as_of_ts run - dr_updated_at dr \<le> hours 48
       \<and> fetch_supplier_fixture d p (run_sku_id run) (run_supplier_id run) = Some sr
       \<and> sr_tenant sr = principal_tenant p
       \<and> sr_updated_at sr \<le> as_of_ts run \<and> as_of_ts run - sr_updated_at sr \<le> hours 72"
proof -
  from assms obtain items where items: "bundle_of v p run d = Inr items"
      "validate_bundle items (utc (as_of_ts run)) = Inr ()" "calls = [items]"
    by (auto simp: investigate_def split: sum.splits)
  note names = quiet_stub.bundle_names [OF items(1)]
  from validate_bundle_single [OF names items(2)] obtain i1 i2 i3 where
      three: "items = [i1, i2, i3]" and sound: "sound_item (utc (as_of_ts run)) i1"
        "sound_item (utc (as_of_ts run)) i2" "sound_item (utc (as_of_ts run)) i3" .
  note specs = bundle_specs [OF items(1) [unfolded three]]
  from fixtures.inventory_tool_ok [OF specs(1)] sound(1) obtain ir where
      ir: "fetch_inventory_fixture d p (run_sku_id run) (run_store_id run) = Some ir"
        "ir_tenant ir = principal_tenant p" "ir_updated_at ir \<le> as_of_ts run"
        "as_of_ts run - ir_updated_at ir \<le> hours 24" by metis
  from fixtures.demand_tool_ok [OF specs(2)] sound(2) obtain dr where
      dr: "fetch_demand_fixture d p (run_sku_id run) (run_store_id run) (window_start run) (window_end run) = Some dr"
        "dr_tenant dr = principal_tenant p" "dr_updated_at dr \<le> as_of_ts run"
        "as_of_ts run - dr_updated_at dr \<le> hours 48" by metis
  from fixtures.supplier_tool_ok [OF specs(3)] sound(3) obtain sr where
      sr: "fetch_supplier_fixture d p (run_sku_id run) (run_supplier_id run) = Some sr"
        "sr_tenant sr = principal_tenant p" "sr_updated_at sr \<le> as_of_ts run"
        "as_of_ts run - sr_updated_at sr \<le> hours 72" by metis
  from items(3) names ir dr sr show ?thesis by blast
qed

text \<open>C20. Reasoning is fed with fresh governed evidence only: an intake of a fresh key during which no other
  caller acts calls the adapter at most once, and if it does, on one item from each tool, built from a row of
  the caller's own tenant for the request's SKU, store, supplier and window, and the rows are no older than
  24, 48 and 72 hours and not newer than the moment the request asks about.\<close>

theorem reasoning_sees_fresh_evidence:
  assumes "reasoning_adapter rs" and "db w = fold repo_step before_ops (empty_db i d s)"
    and "has_role p ''operator''" and "bounded_text 1 200 key" and "validate_intake req = Inr ()"
    and "assigned_reviewer idp (principal_tenant p) = Inr reviewer"
    and "select_idempotency p key (db w) = None" and "uuid \<notin> run_id ` set (runs (db w))"
    and "\<forall>t. tool_lock_key uuid t \<notin> set (locks (db w))"
    and "intake (busy_env c (\<lambda>_. []) rs (assigned_reviewer idp) v) (Suc fuel) p req key mode uuid w = (r, w')"
  shows "\<exists>calls. reasoned w' = reasoned w @ calls \<and> (calls \<noteq> [] \<longrightarrow>
    (\<exists>items ir dr sr. calls = [items] \<and> map tool items = evidence_tools
       \<and> fetch_inventory_fixture (db w) p (req_sku_id req) (req_store_id req) = Some ir
       \<and> ir_tenant ir = principal_tenant p
       \<and> ir_updated_at ir \<le> instant (req_as_of_ts req) \<and> instant (req_as_of_ts req) - ir_updated_at ir \<le> hours 24
       \<and> fetch_demand_fixture (db w) p (req_sku_id req) (req_store_id req)
            (instant (req_window_start req)) (instant (req_window_end req)) = Some dr
       \<and> dr_tenant dr = principal_tenant p
       \<and> dr_updated_at dr \<le> instant (req_as_of_ts req) \<and> instant (req_as_of_ts req) - dr_updated_at dr \<le> hours 48
       \<and> fetch_supplier_fixture (db w) p (req_sku_id req) (req_supplier_id req) = Some sr
       \<and> sr_tenant sr = principal_tenant p
       \<and> sr_updated_at sr \<le> instant (req_as_of_ts req) \<and> instant (req_as_of_ts req) - sr_updated_at sr \<le> hours 72))"
proof -
  let ?run = "new_run p req (canonical_hash (intake_dump req)) reviewer 0 mode uuid"
  obtain vd calls where vd: "investigate rs v p ?run (db w) = (vd, calls)" by force
  have run: "run_sku_id ?run = req_sku_id req" "run_store_id ?run = req_store_id req"
    "run_supplier_id ?run = req_supplier_id req" "as_of_ts ?run = instant (req_as_of_ts req)"
    "window_start ?run = instant (req_window_start req)" "window_end ?run = instant (req_window_end req)"
    by (simp_all add: new_run_def)
  have "reasoned w' = reasoned w @ calls"
    using quiet_intake [OF assms(1-9) vd, of c fuel] assms(10) by (cases r) (auto simp: wp_def)
  then show ?thesis using investigated_evidence [OF vd, unfolded run] by blast
qed

definition w_stock :: "InventoryRow \<times> DemandRow \<times> SupplierRow" where
  "w_stock =
     (\<lparr>ir_tenant = ''t1'', ir_sku = ''SKU-1'', ir_store = ''STORE-1'', ir_on_hand = 4, ir_reserved = 1,
       ir_on_order = 0, ir_updated_at = 2900\<rparr>,
      \<lparr>dr_tenant = ''t1'', dr_sku = ''SKU-1'', dr_store = ''STORE-1'', dr_window_start = 1000,
       dr_window_end = 2000, dr_units_sold = 30, dr_average_daily_units = 5,
       dr_demand_signal = ''rising'', dr_updated_at = 2950\<rparr>,
      \<lparr>sr_tenant = ''t1'', sr_sku = ''SKU-1'', sr_supplier = ''SUP-1'', sr_open_order_quantity = 20,
       sr_expected_receipt_at = 9000, sr_historical_lead_time_days = 3, sr_status = ''delayed'',
       sr_updated_at = 3000\<rparr>)"

definition w_stocked :: run_db where
  "w_stocked = (case w_stock of (ir, dr, sr) \<Rightarrow> fold repo_step [w_create] (empty_db [ir] [dr] [sr]))"

definition w_stocked_world :: world where
  "w_stocked_world = \<lparr>db = w_stocked, clock_reads = 0, repo_calls = 0, reasoned = []\<rparr>"

definition w_run7 :: RunRecord where
  "w_run7 = new_run w_operator w_request (canonical_hash (intake_dump w_request)) ''rev-1'' 0
      Human_review ''run-7''"

lemma w_stock_rows:
  "fetch_inventory_fixture w_stocked w_operator ''SKU-1'' ''STORE-1'' = Some (fst w_stock)"
  "fetch_demand_fixture w_stocked w_operator ''SKU-1'' ''STORE-1'' 1000 2000 = Some (fst (snd w_stock))"
  "fetch_supplier_fixture w_stocked w_operator ''SKU-1'' ''SUP-1'' = Some (snd (snd w_stock))"
  by code_simp+

lemma w_run7_fields:
  "run_sku_id w_run7 = ''SKU-1''" "run_store_id w_run7 = ''STORE-1''" "run_supplier_id w_run7 = ''SUP-1''"
  "as_of_ts w_run7 = 3000" "window_start w_run7 = 1000" "window_end w_run7 = 2000"
  by (simp_all add: w_run7_def new_run_def w_request_def utc_def)

lemma w_stock_valid:
  "valid_facts (inventory_facts (fst w_stock))" "valid_facts (demand_facts (fst (snd w_stock)))"
  "valid_facts (supplier_facts (snd (snd w_stock)))"
  by code_simp+

lemma w_refs:
  "bounded_text 1 300 (''inventory:'' @ principal_tenant w_operator @ '':'' @ ''SKU-1'' @ '':'' @ ''STORE-1'')"
  "bounded_text 1 300 (''demand:'' @ principal_tenant w_operator @ '':'' @ ''SKU-1'' @ '':'' @ ''STORE-1''
      @ '':'' @ isoformat (utc 1000) @ '':'' @ isoformat (utc 2000))"
  "bounded_text 1 300 (''supplier:'' @ principal_tenant w_operator @ '':'' @ ''SKU-1'' @ '':'' @ ''SUP-1'')"
  "bounded_text 1 80 ''v1''"
  by code_simp+

lemma w_bundle: "\<exists>items. bundle_of ''v1'' w_operator w_run7 w_stocked = Inr items"
  unfolding bundle_of_def evidence_specs_def Let_def w_run7_fields
  by (simp add: inventory_tool_def demand_tool_def supplier_tool_def make_evidence_def w_stock_rows
      w_stock_valid w_refs [unfolded utc_def, simplified] utc_def [of 1000] utc_def [of 2000])

lemma fresh_bundle_validates:
  assumes b: "bundle_of v p run d = Inr items"
    and ir: "fetch_inventory_fixture d p (run_sku_id run) (run_store_id run) = Some ir"
      "ir_updated_at ir \<le> as_of_ts run" "as_of_ts run - ir_updated_at ir \<le> hours 24"
    and dr: "fetch_demand_fixture d p (run_sku_id run) (run_store_id run) (window_start run) (window_end run) = Some dr"
      "dr_updated_at dr \<le> as_of_ts run" "as_of_ts run - dr_updated_at dr \<le> hours 48"
    and sr: "fetch_supplier_fixture d p (run_sku_id run) (run_supplier_id run) = Some sr"
      "sr_updated_at sr \<le> as_of_ts run" "as_of_ts run - sr_updated_at sr \<le> hours 72"
  shows "validate_bundle items (utc (as_of_ts run)) = Inr ()"
proof -
  note names = quiet_stub.bundle_names [OF b]
  then obtain i1 i2 i3 where items: "items = [i1, i2, i3]"
    by (auto simp: evidence_tools_def map_eq_Cons_conv)
  note specs = bundle_specs [OF b [unfolded items]]
  have "sound_item (utc (as_of_ts run)) i1"
    using ir by (cases rule: fixtures.inventory_tool_ok [OF specs(1)]) simp
  moreover have "sound_item (utc (as_of_ts run)) i2"
    using dr by (cases rule: fixtures.demand_tool_ok [OF specs(2)]) simp
  moreover have "sound_item (utc (as_of_ts run)) i3"
    using sr by (cases rule: fixtures.supplier_tool_ok [OF specs(3)]) simp
  ultimately show ?thesis by (simp add: validate_bundle_accepts names items [symmetric]) (simp add: items)
qed

lemma stub_judges:
  assumes "map tool items = evidence_tools"
  shows "judge stub_reason items = Drafted (stub_result (map evidence_id items))"
proof -
  have "sorted (map tool items)" unfolding assms by code_simp
  then have "sort_key tool items = items" by (rule sort_key_id_if_sorted)
  moreover have "length items = 3" using arg_cong [OF assms, of length] by (simp add: evidence_tools_def)
  ultimately show ?thesis
    using stub_reason_answers [of items] by (auto simp: judge_def)
qed

lemma w_investigates:
  "\<exists>items. bundle_of ''v1'' w_operator w_run7 w_stocked = Inr items
     \<and> investigate rs ''v1'' w_operator w_run7 w_stocked = (judge rs items, [items])"
proof -
  from w_bundle obtain items where items: "bundle_of ''v1'' w_operator w_run7 w_stocked = Inr items" ..
  have "validate_bundle items (utc (as_of_ts w_run7)) = Inr ()"
    by (rule fresh_bundle_validates [OF items])
       (simp_all add: w_run7_fields w_stock_rows, simp_all add: w_stock_def hours_def microseconds_def)
  with items show ?thesis by (simp add: investigate_def)
qed

lemma w_stocked_facts:
  "db w_stocked_world = fold repo_step [w_create] (empty_db [fst w_stock] [fst (snd w_stock)] [snd (snd w_stock)])"
  "has_role w_operator ''operator''" "bounded_text 1 200 ''key-7''"
  "validate_intake w_request = Inr ()" "assigned_reviewer w_idp (principal_tenant w_operator) = Inr ''rev-1''"
  "select_idempotency w_operator ''key-7'' (db w_stocked_world) = None"
  "''run-7'' \<notin> run_id ` set (runs (db w_stocked_world))"
  "\<forall>t. tool_lock_key ''run-7'' t \<notin> set (locks (db w_stocked_world))"
proof -
  have "locks (db w_stocked_world) = []" by code_simp
  then show "\<forall>t. tool_lock_key ''run-7'' t \<notin> set (locks (db w_stocked_world))" by simp
qed (simp add: w_stocked_world_def w_stocked_def case_prod_beta, code_simp+)

theorem reasoning_sees_fresh_evidence_witness:
  "\<exists>r w' calls ir. intake (busy_env (\<lambda>k. 4000 + int k) (\<lambda>_. []) stub_reason (assigned_reviewer w_idp) ''v1'')
       1 w_operator w_request ''key-7'' Human_review ''run-7'' w_stocked_world = (r, w')
     \<and> reasoned w' = calls \<and> length calls = 1
     \<and> fetch_inventory_fixture w_stocked w_operator ''SKU-1'' ''STORE-1'' = Some ir \<and> ir_updated_at ir \<le> 3000"
proof -
  let ?env = "busy_env (\<lambda>k. 4000 + int k) (\<lambda>_. []) stub_reason (assigned_reviewer w_idp) ''v1''"
  have req: "req_sku_id w_request = ''SKU-1''" "req_store_id w_request = ''STORE-1''" "instant (req_as_of_ts w_request) = 3000"
    by (simp_all add: w_request_def utc_def)
  have start: "db w_stocked_world = w_stocked" "reasoned w_stocked_world = []" by (simp_all add: w_stocked_world_def)
  obtain r w' where i: "intake ?env (Suc 0) w_operator w_request ''key-7'' Human_review ''run-7'' w_stocked_world = (r, w')"
    by (metis surj_pair)
  from w_investigates obtain items where
    vd: "investigate stub_reason ''v1'' w_operator w_run7 (db w_stocked_world) = (judge stub_reason items, [items])"
    by (metis start(1))
  from quiet_intake [OF stub.reasoning_adapter_axioms w_stocked_facts vd [unfolded w_run7_def], of "\<lambda>k. 4000 + int k" 0]
  have "reasoned w' = [items]" using i start(2) by (cases r) (auto simp: wp_def)
  with reasoning_sees_fresh_evidence [OF stub.reasoning_adapter_axioms w_stocked_facts i] i show ?thesis
    unfolding req start by auto
qed

text \<open>C22. The happy path: when each of the three fixtures holds a valid row for the request that is fresh
  enough and no other caller acts while it runs, the intake of a new key over the shipped deterministic adapter
  always ends with a draft awaiting review that cites exactly the three items of evidence.\<close>

theorem fresh_fixtures_get_a_draft:
  assumes "db w = fold repo_step before_ops (empty_db i d s)"
    and "has_role p ''operator''" and "bounded_text 1 200 key" and "validate_intake req = Inr ()"
    and "assigned_reviewer idp (principal_tenant p) = Inr reviewer"
    and "select_idempotency p key (db w) = None" and "uuid \<notin> run_id ` set (runs (db w))"
    and "\<forall>t. tool_lock_key uuid t \<notin> set (locks (db w))"
    and "run = new_run p req (canonical_hash (intake_dump req)) reviewer 0 mode uuid"
    and "bundle_of v p run (db w) = Inr items"
    and "fetch_inventory_fixture (db w) p (run_sku_id run) (run_store_id run) = Some ir"
    and "ir_updated_at ir \<le> as_of_ts run \<and> as_of_ts run - ir_updated_at ir \<le> hours 24"
    and "fetch_demand_fixture (db w) p (run_sku_id run) (run_store_id run) (window_start run) (window_end run)
          = Some dr"
    and "dr_updated_at dr \<le> as_of_ts run \<and> as_of_ts run - dr_updated_at dr \<le> hours 48"
    and "fetch_supplier_fixture (db w) p (run_sku_id run) (run_supplier_id run) = Some sr"
    and "sr_updated_at sr \<le> as_of_ts run \<and> as_of_ts run - sr_updated_at sr \<le> hours 72"
  shows "\<exists>r w'. intake (busy_env c (\<lambda>_. []) stub_reason (assigned_reviewer idp) v) (Suc fuel) p req key mode uuid w
           = (Inr (Some r, True), w')
       \<and> state r = AWAITING_HUMAN \<and> r \<in> set (runs (db w'))
       \<and> draft_json r = Some (result_dump (stub_result (map evidence_id items)))
       \<and> reasoned w' = reasoned w @ [items]"
proof -
  have "validate_bundle items (utc (as_of_ts run)) = Inr ()"
    by (rule fresh_bundle_validates [OF assms(10,11) _ _ assms(13) _ _ assms(15)])
       (use assms(12,14,16) in auto)
  then have vd: "investigate stub_reason v p run (db w) = (Drafted (stub_result (map evidence_id items)), [items])"
    using stub_judges [OF quiet_stub.bundle_names [OF assms(10)]] assms(10) by (simp add: investigate_def)
  have "wp (intake (busy_env c (\<lambda>_. []) stub_reason (assigned_reviewer idp) v) (Suc fuel) p req key mode uuid)
    (\<lambda>(res, created) w'. created \<and> delivered (Drafted (stub_result (map evidence_id items))) (Inr res) (db w')
        \<and> locks (db w') = locks (db w) \<and> reasoned w' = reasoned w @ [items])
    (\<lambda>e w'. Drafted (stub_result (map evidence_id items)) = Crashed e
        \<and> locks (db w') = locks (db w) \<and> reasoned w' = reasoned w @ [items]) w"
    by (rule quiet_intake [OF stub.reasoning_adapter_axioms assms(1-8) vd [unfolded assms(9)]])
  then show ?thesis
    by (auto simp: wp_def delivered_def split: prod.splits sum.splits)
qed

theorem fresh_fixtures_get_a_draft_witness:
  "\<exists>r w' items. intake (busy_env (\<lambda>k. 4000 + int k) (\<lambda>_. []) stub_reason (assigned_reviewer w_idp) ''v1'')
       1 w_operator w_request ''key-7'' Human_review ''run-7'' w_stocked_world = (Inr (Some r, True), w')
     \<and> state r = AWAITING_HUMAN
     \<and> draft_json r = Some (result_dump (stub_result (map evidence_id items))) \<and> reasoned w' = [items]"
proof -
  have db: "db w_stocked_world = w_stocked" by (simp add: w_stocked_world_def)
  from w_bundle obtain items where items: "bundle_of ''v1'' w_operator w_run7 (db w_stocked_world) = Inr items"
    unfolding db ..
  have fresh: "ir_updated_at (fst w_stock) \<le> as_of_ts w_run7 \<and> as_of_ts w_run7 - ir_updated_at (fst w_stock) \<le> hours 24"
      "dr_updated_at (fst (snd w_stock)) \<le> as_of_ts w_run7 \<and> as_of_ts w_run7 - dr_updated_at (fst (snd w_stock)) \<le> hours 48"
      "sr_updated_at (snd (snd w_stock)) \<le> as_of_ts w_run7 \<and> as_of_ts w_run7 - sr_updated_at (snd (snd w_stock)) \<le> hours 72"
    by (simp_all add: w_run7_fields w_stock_def hours_def microseconds_def)
  from fresh_fixtures_get_a_draft [OF w_stocked_facts w_run7_def items _ fresh(1) _ fresh(2) _ fresh(3),
      of "\<lambda>k. 4000 + int k" 0]
  obtain r w' where "intake (busy_env (\<lambda>k. 4000 + int k) (\<lambda>_. []) stub_reason (assigned_reviewer w_idp) ''v1'')
       1 w_operator w_request ''key-7'' Human_review ''run-7'' w_stocked_world = (Inr (Some r, True), w')"
    "state r = AWAITING_HUMAN" "draft_json r = Some (result_dump (stub_result (map evidence_id items)))"
    "reasoned w' = [items]"
    unfolding w_run7_fields db w_stock_rows by (auto simp: w_stocked_world_def)
  then show ?thesis by blast
qed

end
