(* ===== verification/ServiceWaiting.thy ===== *)
theory ServiceWaiting
  imports ServiceTermination
begin

section \<open>Waiting for a tool claim\<close>

text \<open>
  The one place where the service waits for others is the advisory lock of a tool claim. It makes no
  claim while it holds one, so where the other callers let go of what they take, it never waits for long.
  With the loops of \<open>ServiceTermination\<close> this is the termination of intake.
\<close>

subsection \<open>Locks that a computation leaves held\<close>

text \<open>\<open>stays K m\<close>: where at most the keys \<open>K\<close> are held, \<open>m\<close> does not wait and leaves at most \<open>K\<close> held.\<close>

definition held_in :: "int multiset \<Rightarrow> world \<Rightarrow> bool" where
  "held_in K w \<longleftrightarrow> mset (locks (db w)) \<subseteq># K"

definition stays :: "int multiset \<Rightarrow> (world, 'a) comp \<Rightarrow> bool" where
  "stays K m \<longleftrightarrow> (\<forall>w. held_in K w \<longrightarrow> wp m (\<lambda>_. held_in K) (\<lambda>e w'. e \<noteq> StillWaiting \<and> held_in K w') w)"

named_theorems letting "computations that do not wait"

lemma stays_return [letting]: "stays K (returnE x)"
  by (simp add: stays_def)

lemma stays_raise [letting]: "e \<noteq> StillWaiting \<Longrightarrow> stays K (raiseE e)"
  by (simp add: stays_def)

lemma stays_lift [letting]: "(\<And>e. r = Inl e \<Longrightarrow> e \<noteq> StillWaiting) \<Longrightarrow> stays K (liftE r)"
  by (simp add: stays_def split: sum.split)

lemma stays_bind [letting]: "stays K m \<Longrightarrow> (\<And>x. stays K (f x)) \<Longrightarrow> stays K (bindE m f)"
  by (auto simp: stays_def intro: wp_mono)

lemma stays_try [letting]: "stays K m \<Longrightarrow> stays K (tryE c m)"
  by (auto simp: stays_def intro: wp_mono)

lemma stays_bind_try:
  assumes "stays K m" and "\<And>e. e \<noteq> StillWaiting \<Longrightarrow> stays K (f (Inl e))" and "\<And>x. stays K (f (Inr x))"
  shows "stays K (bindE (tryE c m) f)"
  using assms unfolding stays_def wp_bind wp_try by (auto intro: wp_mono)

text \<open>A claimed body, and the release of its key.\<close>

lemma stays_claimed:
  assumes "stays {#k#} m" and "\<And>w. locks (db (c w)) = remove1 k (locks (db w))" and "held_in {#k#} w"
  shows "wp (finallyE m c) (\<lambda>_. held_in {#}) (\<lambda>e w'. e \<noteq> StillWaiting \<and> held_in {#} w') w"
proof -
  have "held_in {#} (c w')" if "held_in {#k#} w'" for w'
    using that assms(2) [of w'] by (auto simp: held_in_def subset_mset.le_diff_conv2 subseteq_mset_def count_single split: if_splits)
  with assms(1,3) show ?thesis unfolding stays_def wp_finally by (auto intro: wp_mono)
qed

subsection \<open>The repository\<close>

definition calm :: "(run_db, 'a) comp \<Rightarrow> bool" where
  "calm m \<longleftrightarrow> (\<forall>d. locks (snd (m d)) = locks d \<and> fst (m d) \<noteq> Inl StillWaiting)"

lemma make_evidence_calm: "make_evidence e = Inl x \<Longrightarrow> x \<noteq> StillWaiting"
  by (auto simp: make_evidence_def split: if_splits)

lemma parse_result_calm: "parse_result j = Inl e \<Longrightarrow> e \<noteq> StillWaiting"
  by (auto simp: parse_result_def parse_evidence_def dest: make_evidence_calm split: option.splits)

lemma parse_rows_calm: "parse_rows rows = Inl e \<Longrightarrow> e \<noteq> StillWaiting"
  by (induction rows) (auto dest: parse_result_calm split: sum.splits)

lemma spec_calm: "(t, q, f) \<in> set (evidence_specs v p run) \<Longrightarrow> f d = Inl e \<Longrightarrow> e \<noteq> StillWaiting"
  by (auto simp: evidence_specs_def Let_def inventory_tool_def demand_tool_def supplier_tool_def
      dest: make_evidence_calm split: option.splits)

lemma calm_reads [letting]:
  "calm (get_run p rid)" "calm (list_evidence p rid)" "calm (read_reasoning p rid)"
  "(\<And>d e. f d = Inl e \<Longrightarrow> e \<noteq> StillWaiting) \<Longrightarrow> calm (read_fixture f)"
  by (auto simp: calm_def get_run_def list_evidence_def read_reasoning_def read_fixture_def comp_defs
      dest: parse_rows_calm split: option.split)

lemma insert_event_locks [simp]: "locks (insert_event rid t et f u a pl now d) = locks d"
  by (simp add: insert_event_def)

lemma calm_writes [letting]:
  "calm (complete_tool p rid t res md st now)"
  "calm (transition p run target et now pl)"
  "calm (set_draft_and_transition p run j h now x)"
  "calm (begin_intake p req key h rv now mode uuid)"
  by (auto simp: calm_def complete_tool_def transition_def set_draft_and_transition_def state_conflict_def
      append_rejected_control_def reject_control_def get_run_def update_run_def begin_intake_def
      begin_intake_after_select_def observe_intake_def Let_def comp_defs split: option.split sum.split)

subsection \<open>The service\<close>

text \<open>Other callers that release, between two calls of the service, whatever they claimed.\<close>

locale letting_go = service_env +
  assumes others_unlock: "mset (locks (interfere env k d)) \<subseteq># mset (locks d)"
begin

lemma stays_call [letting]:
  assumes "calm m"
  shows "stays K (call_repo env m)"
  unfolding stays_def
proof (intro allI impI)
  fix w assume "held_in K w"
  let ?d = "interfere env (repo_calls w) (db w)"
  have "mset (locks ?d) \<subseteq># K"
    using others_unlock \<open>held_in K w\<close> subset_mset.order_trans unfolding held_in_def by blast
  moreover obtain r d' where run: "m ?d = (r, d')" by force
  with assms have "locks d' = locks ?d" "r \<noteq> Inl StillWaiting" by (auto simp: calm_def dest: spec [of _ ?d])
  ultimately show "wp (call_repo env m) (\<lambda>_. held_in K) (\<lambda>e w'. e \<noteq> StillWaiting \<and> held_in K w') w"
    by (auto simp: wp_def call_repo_def run held_in_def split: sum.split)
qed

lemma stays_call_at [letting]: "(\<And>now. calm (m now)) \<Longrightarrow> stays K (call_at env m)"
  unfolding call_at_def
  by (rule stays_bind) (simp_all add: stays_call, simp add: stays_def wp_def read_clock_def returnE_def held_in_def)

lemma claim_runs:
  assumes "held_in {#} w"
  shows "wp (call_at env (claim_or_observe_tool p rid t h))
    (\<lambda>(row, claimed). held_in (if claimed then {#tool_lock_key rid t#} else {#}))
    (\<lambda>e w'. e \<noteq> StillWaiting \<and> held_in {#} w') w"
proof -
  have "locks (interfere env (repo_calls w) (db w)) = []"
    using others_unlock [of "repo_calls w" "db w"] assms by (simp add: held_in_def)
  then show ?thesis
    by (auto simp: wp_def call_at_def read_clock_def call_repo_def claim_or_observe_tool_def Let_def comp_defs
        held_in_def split: option.split)
qed

lemma release_claim_locks: "locks (db (release_claim run t w)) = remove1 (tool_lock_key (run_id run) t) (locks (db w))"
  by (simp add: release_claim_def release_def)

text \<open>A claim, then what is done without it or the claimed body.\<close>

lemma stays_claim:
  assumes "\<And>row. stays {#} (observe row)" and "stays {#tool_lock_key (run_id run) t#} m"
  shows "stays {#} (bindE (call_at env (claim_or_observe_tool p (run_id run) t h)) (\<lambda>(existing, claimed).
      if \<not> claimed then observe existing else finallyE m (release_claim run t)))"
  unfolding stays_def wp_bind [of "call_at _ _"]
proof (intro allI impI)
  fix w assume w: "held_in {#} w"
  show "wp (call_at env (claim_or_observe_tool p (run_id run) t h))
    (\<lambda>x. wp (case x of (existing, claimed) \<Rightarrow>
       if \<not> claimed then observe existing else finallyE m (release_claim run t)) (\<lambda>_. held_in {#})
       (\<lambda>e w'. e \<noteq> StillWaiting \<and> held_in {#} w')) (\<lambda>e w'. e \<noteq> StillWaiting \<and> held_in {#} w') w"
  proof (rule wp_mono [OF claim_runs [OF w]], clarify)
    fix row claimed and w' :: world
    assume "held_in (if claimed then {#tool_lock_key (run_id run) t#} else {#}) w'"
    then show "wp (if \<not> claimed then observe row else finallyE m (release_claim run t)) (\<lambda>_. held_in {#})
       (\<lambda>e w'. e \<noteq> StillWaiting \<and> held_in {#} w') w'"
      using assms(1) [of row] stays_claimed [OF assms(2) release_claim_locks, of w']
      by (cases claimed) (simp_all add: stays_def del: wp_finally)
  qed simp
qed

lemma stays_invoke [letting]:
  "(\<And>d e. f d = Inl e \<Longrightarrow> e \<noteq> StillWaiting) \<Longrightarrow> stays K (invoke_claimed env p run t f)"
  unfolding invoke_claimed_def by (rule stays_bind_try) (auto intro!: letting)

lemma stays_gather_one:
  "(t, q, f) \<in> set (evidence_specs v p run) \<Longrightarrow> stays {#} (gather_one env p run (t, q, f))"
  unfolding gather_one_def prod.case
  by (rule stays_claim) (auto intro!: letting dest: parse_result_calm spec_calm)

lemma stays_gather [letting]: "stays {#} (gather_evidence env p run)"
proof -
  have "stays {#} (gather_specs env p run specs)" if "set specs \<subseteq> set (evidence_specs v p run)" for specs v
    using that by (induction specs) (auto intro!: letting stays_gather_one)
  then show ?thesis unfolding gather_evidence_def by blast
qed

lemma validate_citations_calm: "validate_citations r ids = Inl e \<Longrightarrow> e \<noteq> StillWaiting"
  by (auto simp: validate_citations_def Let_def split: if_splits)

lemma stays_quality [letting]: "stays K (quality_check env p run)"
  unfolding quality_check_def by (auto intro!: letting dest: validate_bundle_failure)

lemma stays_reasoning [letting]: "stays K (checked_reasoning env es)"
proof -
  have "e \<noteq> StillWaiting" if "reasoning env es = Inl e" for e
    using adapter.reason_refusal [OF that] by (cases e) auto
  then have "stays K (call_reasoning env es)"
    by (auto simp: stays_def wp_def call_reasoning_def held_in_def split: sum.split)
  then show ?thesis
    unfolding checked_reasoning_def by (auto intro!: letting dest: validate_citations_calm)
qed

lemma stays_reason_claimed [letting]: "stays K (reason_claimed env p run es)"
  unfolding reason_claimed_def Let_def by (rule stays_bind_try) (auto intro!: letting)

lemma reason_outcome_calm: "reason_outcome_from_row row = Inl e \<Longrightarrow> e \<noteq> StillWaiting"
  by (auto simp: reason_outcome_from_row_def and_then_def required_def Let_def
      dest: model_validate_refusal split: sum.splits option.splits)

lemma stays_reason_once [letting]: "stays {#} (reason_once env p run)"
  unfolding reason_once_def
  by (rule stays_bind, rule letting, rule letting, rule stays_claim)
     (auto intro!: letting dest: reason_outcome_calm)

lemma stays_checked_result [letting]: "stays K (checked_result env p run row)"
  unfolding checked_result_def
  by (auto intro!: letting dest: validate_citations_calm model_validate_refusal split: option.splits)

lemma stays_moves [letting]:
  "stays K (advance env p run target et)" "stays K (finish (escalate env p run code))" "stays K (draft env p run res)"
  unfolding advance_def finish_def escalate_def draft_def by (intro letting)+

lemma stays_resume_step [letting]: "stays {#} (resume_step env n p run)"
proof (induction n arbitrary: run)
  case (Suc n)
  show ?case
    by (cases "state run") (auto intro!: letting Suc.IH split: sum.split option.split)
qed (simp add: letting)

lemma stays_resume [letting]: "stays {#} (resume env n p run)"
  by (induction n arbitrary: run) (auto intro!: letting split: sum.split)

lemma stays_intake:
  assumes "\<And>e. reviewer_of env (principal_tenant p) = Inl e \<Longrightarrow> e \<noteq> StillWaiting"
  shows "stays {#} (intake env fuel p req key mode uuid)"
  unfolding intake_def
  using assms by (auto intro!: letting simp: check_idempotency_key_def split: if_splits)

end

definition lets_go :: "(nat \<Rightarrow> repo_op list) \<Rightarrow> bool" where
  "lets_go ops \<longleftrightarrow> (\<forall>k d. mset (locks (fold repo_step (ops k) d)) \<subseteq># mset (locks d))"

lemma lets_go_env: "reasoning_adapter rs \<Longrightarrow> lets_go ops \<Longrightarrow> letting_go (busy_env c ops rs rv v)"
  by (intro letting_go.intro busy_service_env letting_go_axioms.intro) (simp_all add: busy_env_def lets_go_def)

interpretation alone: letting_go "busy_env c (\<lambda>_. []) stub_reason rv v"
  by (rule lets_go_env [OF stub.reasoning_adapter_axioms]) (simp add: lets_go_def)

subsection \<open>Properties\<close>

text \<open>C5. Intake comes to an end, whatever other callers do to the database in the meantime: with fuel
  for nine rounds the retry loop of \<open>_resume\<close> never runs out, the run it returns is in a state no
  automatic step leaves (awaiting a human, escalated, decided, closed or refused), and the version
  conflicts it meets on the way are never let through to the caller. Waiting for the advisory lock of a
  tool claim is the only way not to return (\<open>StillWaiting\<close>), and it does not come to that when no claim is held at
  the start and the other callers release what they claim before the service's next call.\<close>

theorem intake_terminates:
  assumes "reasoning_adapter rs" and "db w = fold repo_step before_ops (empty_db i d s)" and "8 < fuel"
  shows "case fst (intake (busy_env c ops rs (assigned_reviewer idp) v) fuel p req key mode uuid w) of
      Inr (res, created) \<Rightarrow> (\<exists>r. res = Some r \<and> state r \<notin> machine_states)
    | Inl e \<Rightarrow> \<not> is_state_conflict e \<and> (locks (db w) = [] \<and> lets_go ops \<longrightarrow> e \<noteq> StillWaiting)"
proof -
  let ?m = "intake (busy_env c ops rs (assigned_reviewer idp) v) fuel p req key mode uuid"
  have refusal: "e \<noteq> StillWaiting" if "assigned_reviewer idp t = Inl e" for e t
    using sim.reviewer_refusal [OF that] by auto
  have "wp ?m (\<lambda>(res, created) w'. \<exists>r. res = Some r \<and> snap p r (db w') \<and> state r \<notin> machine_states)
    (\<lambda>e _. \<not> is_state_conflict e) w"
    using assms(2,3)
    by (intro service_env.intake_ends [OF busy_service_env [OF assms(1)]])
       (auto simp: reachable_inv busy_env_def dest: assigned_reviewer_orderly)
  moreover have "wp ?m (\<lambda>_ _. True) (\<lambda>e _. e \<noteq> StillWaiting) w" if "locks (db w) = []" "lets_go ops"
  proof -
    have "stays {#} ?m"
      by (rule letting_go.stays_intake [OF lets_go_env [OF assms(1) that(2)]]) (simp add: busy_env_def refusal)
    then show ?thesis using that(1) by (auto simp: stays_def held_in_def intro: wp_mono)
  qed
  ultimately show ?thesis by (auto simp: wp_def split: prod.splits sum.splits)
qed

theorem intake_terminates_witness:
  "case fst (intake (busy_env (\<lambda>k. 4000 + int k) (\<lambda>k. if k = 3 then [w_create] else []) stub_reason
       (assigned_reviewer w_idp) ''v1'') 9 w_operator w_request ''key-7'' Human_review ''run-7'' w_world) of
      Inr (res, created) \<Rightarrow> (\<exists>r. res = Some r \<and> state r \<notin> machine_states)
    | Inl e \<Rightarrow> \<not> is_state_conflict e \<and> e \<noteq> StillWaiting"
proof -
  have "calm (begin_intake p req key h rv now mode uuid)" for p req key h rv now mode uuid by (rule letting)
  then have "lets_go (\<lambda>k. if k = 3 then [w_create] else [])"
    by (simp add: lets_go_def w_create_def calm_def)
  moreover have "locks (db w_world) = []" by code_simp
  moreover have "db w_world = fold repo_step [w_create] (empty_db [] [] [])" unfolding w_world_def by (simp add: w_created_ops)
  note intake_terminates [OF stub.reasoning_adapter_axioms this, where fuel = 9 and c = "\<lambda>k. 4000 + int k"
      and ops = "\<lambda>k. if k = 3 then [w_create] else []" and idp = w_idp and v = "''v1''" and p = w_operator
      and req = w_request and key = "''key-7''" and mode = Human_review and uuid = "''run-7''"]
  ultimately show ?thesis by (auto split: sum.splits)
qed

end
