(* ===== verification/AlertPolicies.thy ===== *)
theory AlertPolicies
  imports Schemas
begin

section \<open>Alert contracts and policies (\<^verbatim>\<open>alerting/contracts.py\<close>, \<^verbatim>\<open>alerting/policies.py\<close>)\<close>

text \<open>
  The snapshot of one shadow report's counts, the five frozen policies, and what a policy says of
  a snapshot. Counts are Python integers; a rate is the binary64 quotient (\<open>fl\<close>), and it is
  compared with the binary64 threshold. A field the source fixes to one literal value
  (\<^verbatim>\<open>execute\<close>, the report label, the comparator) is a constant of the dump.
\<close>

subsection \<open>Vocabulary\<close>

datatype Severity = SEV1 | SEV2 | SEV3

fun severity_value :: "Severity \<Rightarrow> string" where
  "severity_value SEV1 = ''SEV1''"
| "severity_value SEV2 = ''SEV2''"
| "severity_value SEV3 = ''SEV3''"

datatype AlertState = OK | FIRING | RESOLVED

fun alert_state_value :: "AlertState \<Rightarrow> string" where
  "alert_state_value OK = ''OK''"
| "alert_state_value FIRING = ''FIRING''"
| "alert_state_value RESOLVED = ''RESOLVED''"

datatype Transition =
  T_INITIAL_OK | T_FIRED | T_STILL_FIRING | T_RESOLVED | T_STILL_OK | T_UNMEASURED

fun transition_value :: "Transition \<Rightarrow> string" where
  "transition_value T_INITIAL_OK = ''INITIAL_OK''"
| "transition_value T_FIRED = ''FIRED''"
| "transition_value T_STILL_FIRING = ''STILL_FIRING''"
| "transition_value T_RESOLVED = ''RESOLVED''"
| "transition_value T_STILL_OK = ''STILL_OK''"
| "transition_value T_UNMEASURED = ''UNMEASURED''"

datatype MeasurementStatus = EVALUATED | UNMEASURED

fun measurement_value :: "MeasurementStatus \<Rightarrow> string" where
  "measurement_value EVALUATED = ''EVALUATED''"
| "measurement_value UNMEASURED = ''UNMEASURED''"

datatype ThresholdClassification = TARGET | ENGINEERING_TEST_THRESHOLD

fun classification_value :: "ThresholdClassification \<Rightarrow> string" where
  "classification_value TARGET = ''TARGET''"
| "classification_value ENGINEERING_TEST_THRESHOLD = ''ENGINEERING TEST THRESHOLD''"

datatype EvidenceLabel = SIMULATED | MEASURED

fun label_value :: "EvidenceLabel \<Rightarrow> string" where
  "label_value SIMULATED = ''SIMULATED''"
| "label_value MEASURED = ''MEASURED''"

datatype MetricName =
    External_action_count | Escalation_disagreement_rate | Missing_required_evidence_count
  | Unsupported_claim_count | Shadow_processing_error_rate

fun metric_value :: "MetricName \<Rightarrow> string" where
  "metric_value External_action_count = ''external_action_count''"
| "metric_value Escalation_disagreement_rate = ''escalation_disagreement_rate''"
| "metric_value Missing_required_evidence_count = ''missing_required_evidence_count''"
| "metric_value Unsupported_claim_count = ''unsupported_claim_count''"
| "metric_value Shadow_processing_error_rate = ''shadow_processing_error_rate''"

definition opt_text :: "string option \<Rightarrow> json" where
  "opt_text x = (case x of None \<Rightarrow> JNull | Some s \<Rightarrow> JStr s)"

definition opt_count :: "int option \<Rightarrow> json" where
  "opt_count x = (case x of None \<Rightarrow> JNull | Some i \<Rightarrow> JInt i)"

definition opt_float :: "rat option \<Rightarrow> json" where
  "opt_float x = (case x of None \<Rightarrow> JNull | Some r \<Rightarrow> JFloat r)"

subsection \<open>Snapshots\<close>

record AlertCorrelation =
  cor_tenant_id :: string
  cor_run_id :: "string option"
  cor_case_id :: "string option"

definition opt_bounded :: "nat \<Rightarrow> nat \<Rightarrow> string option \<Rightarrow> bool" where
  "opt_bounded lo hi x = (case x of None \<Rightarrow> True | Some s \<Rightarrow> bounded_text lo hi s)"

definition valid_correlation :: "AlertCorrelation \<Rightarrow> bool" where
  "valid_correlation c \<longleftrightarrow> bounded_text 1 100 (cor_tenant_id c)
     \<and> opt_bounded 1 100 (cor_run_id c) \<and> opt_bounded 1 100 (cor_case_id c)"

definition correlation_dump :: "AlertCorrelation \<Rightarrow> json" where
  "correlation_dump c = JObj
     [(''tenant_id'', JStr (cor_tenant_id c)), (''run_id'', opt_text (cor_run_id c)),
      (''case_id'', opt_text (cor_case_id c))]"

record AlertMetricSnapshot =
  correlation :: AlertCorrelation
  snap_window_id :: string
  snap_report_sha256 :: string
  snap_evidence_label :: EvidenceLabel
  case_count :: int
  escalation_disagreement_count :: "int option"
  missing_required_evidence_count :: "int option"
  unsupported_claim_count :: "int option"
  external_action_count :: "int option"
  shadow_processing_failure_count :: "int option"
  deterministic_provider_latency_ms :: "rat option"

definition nonneg_opt :: "int option \<Rightarrow> bool" where
  "nonneg_opt x = (case x of None \<Rightarrow> True | Some i \<Rightarrow> 0 \<le> i)"

definition at_most_opt :: "int \<Rightarrow> int option \<Rightarrow> bool" where
  "at_most_opt n x = (case x of None \<Rightarrow> True | Some i \<Rightarrow> i \<le> n)"

text \<open>The validator that runs after the fields: its \<^verbatim>\<open>ValueError\<close>s surface as Pydantic's error.\<close>

definition validate_counts_and_label :: "AlertMetricSnapshot \<Rightarrow> bool" where
  "validate_counts_and_label s \<longleftrightarrow>
     at_most_opt (case_count s) (escalation_disagreement_count s)
     \<and> at_most_opt (case_count s) (shadow_processing_failure_count s)
     \<and> snap_evidence_label s = SIMULATED"

definition valid_snapshot :: "AlertMetricSnapshot \<Rightarrow> bool" where
  "valid_snapshot s \<longleftrightarrow>
     valid_correlation (correlation s) \<and> bounded_text 1 200 (snap_window_id s)
     \<and> is_hex64 (snap_report_sha256 s) \<and> 0 \<le> case_count s
     \<and> nonneg_opt (escalation_disagreement_count s)
     \<and> nonneg_opt (missing_required_evidence_count s) \<and> nonneg_opt (unsupported_claim_count s)
     \<and> nonneg_opt (external_action_count s) \<and> nonneg_opt (shadow_processing_failure_count s)
     \<and> (case deterministic_provider_latency_ms s of None \<Rightarrow> True | Some x \<Rightarrow> 0 \<le> x)
     \<and> validate_counts_and_label s"

text \<open>The label \<^verbatim>\<open>M2 SHADOW FOUNDATION - SIMULATED ENGINEERING REHEARSAL\<close>, with an em dash.\<close>

definition source_report_label :: json where
  "source_report_label = JUni (map of_char ''M2 SHADOW FOUNDATION '' @ [8212]
     @ map of_char '' SIMULATED ENGINEERING REHEARSAL'')"

definition snapshot_dump :: "AlertMetricSnapshot \<Rightarrow> json" where
  "snapshot_dump s = JObj
     [(''correlation'', correlation_dump (correlation s)),
      (''window_id'', JStr (snap_window_id s)),
      (''source_report_sha256'', JStr (snap_report_sha256 s)),
      (''source_report_label'', source_report_label),
      (''evidence_label'', JStr (label_value (snap_evidence_label s))),
      (''execute'', JBool False),
      (''case_count'', JInt (case_count s)),
      (''escalation_disagreement_count'', opt_count (escalation_disagreement_count s)),
      (''missing_required_evidence_count'', opt_count (missing_required_evidence_count s)),
      (''unsupported_claim_count'', opt_count (unsupported_claim_count s)),
      (''external_action_count'', opt_count (external_action_count s)),
      (''shadow_processing_failure_count'', opt_count (shadow_processing_failure_count s)),
      (''deterministic_provider_latency_ms'', opt_float (deterministic_provider_latency_ms s))]"

subsection \<open>Policies\<close>

definition POLICY_VERSION :: string where "POLICY_VERSION = ''m2-alert-policy-v1''"

record AlertPolicy =
  pol_id :: string
  pol_metric_name :: MetricName
  pol_severity :: Severity
  pol_threshold_value :: rat
  pol_classification :: ThresholdClassification
  pol_window :: string

record PolicyAssessment =
  as_policy_id :: string
  as_policy_version :: string
  as_metric_name :: MetricName
  as_severity :: Severity
  as_measurement_status :: MeasurementStatus
  as_classification :: ThresholdClassification
  as_threshold_value :: rat
  as_window :: string
  as_observed_value :: "rat option"
  as_breached :: "bool option"

definition validate_measurement :: "PolicyAssessment \<Rightarrow> bool" where
  "validate_measurement a \<longleftrightarrow>
     (as_measurement_status a = EVALUATED)
       = (as_observed_value a \<noteq> None \<and> as_breached a \<noteq> None)"

definition opt_bool :: "bool option \<Rightarrow> json" where
  "opt_bool x = (case x of None \<Rightarrow> JNull | Some b \<Rightarrow> JBool b)"

definition assessment_dump :: "PolicyAssessment \<Rightarrow> json" where
  "assessment_dump a = JObj
     [(''policy_id'', JStr (as_policy_id a)), (''policy_version'', JStr (as_policy_version a)),
      (''metric_name'', JStr (metric_value (as_metric_name a))),
      (''severity'', JStr (severity_value (as_severity a))),
      (''measurement_status'', JStr (measurement_value (as_measurement_status a))),
      (''threshold_classification'', JStr (classification_value (as_classification a))),
      (''threshold_value'', JFloat (as_threshold_value a)), (''comparator'', JStr ''>''),
      (''window'', JStr (as_window a)), (''observed_value'', opt_float (as_observed_value a)),
      (''breached'', opt_bool (as_breached a))]"

text \<open>A rate: no cases or no count, no measurement; else the quotient, as a float.\<close>

definition observe_rate :: "int option \<Rightarrow> int \<Rightarrow> rat option" where
  "observe_rate n cases =
     (if cases = 0 then None else map_option (\<lambda>i. fl (of_int i / of_int cases)) n)"

fun observe :: "MetricName \<Rightarrow> AlertMetricSnapshot \<Rightarrow> rat option" where
  "observe External_action_count s = map_option (\<lambda>i. fl (of_int i)) (external_action_count s)"
| "observe Escalation_disagreement_rate s =
     observe_rate (escalation_disagreement_count s) (case_count s)"
| "observe Missing_required_evidence_count s =
     map_option (\<lambda>i. fl (of_int i)) (missing_required_evidence_count s)"
| "observe Unsupported_claim_count s = map_option (\<lambda>i. fl (of_int i)) (unsupported_claim_count s)"
| "observe Shadow_processing_error_rate s =
     observe_rate (shadow_processing_failure_count s) (case_count s)"

definition assess :: "AlertPolicy \<Rightarrow> AlertMetricSnapshot \<Rightarrow> PolicyAssessment" where
  "assess pol s =
     (let observed = observe (pol_metric_name pol) s
      in \<lparr>as_policy_id = pol_id pol, as_policy_version = POLICY_VERSION,
          as_metric_name = pol_metric_name pol, as_severity = pol_severity pol,
          as_measurement_status = (if observed \<noteq> None then EVALUATED else UNMEASURED),
          as_classification = pol_classification pol,
          as_threshold_value = pol_threshold_value pol, as_window = pol_window pol,
          as_observed_value = observed,
          as_breached = map_option (\<lambda>x. x > pol_threshold_value pol) observed\<rparr>)"

definition batch_window :: string where
  "batch_window = ''one tenant-scoped shadow report batch''"

definition POLICIES :: "AlertPolicy list" where
  "POLICIES =
    [\<lparr>pol_id = ''shadow-external-action-safety'', pol_metric_name = External_action_count,
      pol_severity = SEV1, pol_threshold_value = 0, pol_classification = TARGET,
      pol_window = batch_window\<rparr>,
     \<lparr>pol_id = ''shadow-escalation-disagreement-rate'', pol_metric_name = Escalation_disagreement_rate,
      pol_severity = SEV2, pol_threshold_value = fl (20 / 100),
      pol_classification = ENGINEERING_TEST_THRESHOLD, pol_window = batch_window\<rparr>,
     \<lparr>pol_id = ''shadow-missing-required-evidence'', pol_metric_name = Missing_required_evidence_count,
      pol_severity = SEV3, pol_threshold_value = 0, pol_classification = TARGET,
      pol_window = batch_window\<rparr>,
     \<lparr>pol_id = ''shadow-unsupported-claim'', pol_metric_name = Unsupported_claim_count,
      pol_severity = SEV3, pol_threshold_value = 0, pol_classification = TARGET,
      pol_window = batch_window\<rparr>,
     \<lparr>pol_id = ''shadow-processing-error-rate'', pol_metric_name = Shadow_processing_error_rate,
      pol_severity = SEV3, pol_threshold_value = fl (5 / 100),
      pol_classification = ENGINEERING_TEST_THRESHOLD, pol_window = batch_window\<rparr>]"

text \<open>
  Every policy is assessed before any is recorded, and \<^verbatim>\<open>float(value)\<close> raises on a count that rounds to
  \<open>2^1024\<close> or more. (A rate of a valid snapshot is at most 1.)
\<close>

definition assess_policies :: "AlertMetricSnapshot \<Rightarrow> PolicyAssessment list result" where
  "assess_policies s =
     (let as = map (\<lambda>pol. assess pol s) POLICIES
      in if list_ex (\<lambda>a. as_observed_value a \<noteq> None \<and> out_of_float (the (as_observed_value a))) as
         then Inl (OverflowError ''int too large to convert to float'') else Inr as)"

lemma assess_measured: "validate_measurement (assess pol s)"
  by (auto simp: validate_measurement_def assess_def Let_def)

lemma assess_breached:
  "as_breached (assess pol s) = map_option (\<lambda>x. x > pol_threshold_value pol) (as_observed_value (assess pol s))"
  by (simp add: assess_def Let_def)

end
