(* ===== verification/AlertTables.thy ===== *)
theory AlertTables
  imports AlertPolicies
begin

section \<open>The alert tables and what their database enforces (\<^verbatim>\<open>migrations/0006\<close> - \<^verbatim>\<open>0008\<close>)\<close>

text \<open>
  The rows of \<^verbatim>\<open>alert_evaluation_event\<close>, \<^verbatim>\<open>alert_outbox\<close>,
  \<^verbatim>\<open>alert_delivery_attempt_event\<close> and \<^verbatim>\<open>alert_delivery_attempt\<close> (the ledger), and the
  guards the migrations install: the column checks, and the triggers that admit an insert or an
  update. The identity columns of the first two are counters that survive a rollback. A statement
  a guard refuses raises; \<open>atomically\<close> is the transaction that then leaves nothing behind.
\<close>

subsection \<open>Rows\<close>

record AlertRow =
  alert_evaluation_id :: nat
  alr_fingerprint :: string
  alr_tenant_id :: string
  alr_policy_id :: string
  alr_policy_version :: string
  alr_metric_name :: MetricName
  alr_severity :: Severity
  alr_state :: "AlertState option"
  alr_previous_state :: "AlertState option"
  alr_transition :: Transition
  alr_measurement_status :: MeasurementStatus
  alr_classification :: ThresholdClassification
  alr_threshold_value :: rat
  alr_observed_value :: "rat option"
  alr_window :: string
  alr_window_id :: string
  alr_evidence_label :: EvidenceLabel
  alr_report_sha256 :: string
  alr_correlation :: AlertCorrelation
  alr_payload_hash :: string
  alr_idempotency_key :: string
  alr_actor_id :: string
  alr_evaluated_at :: int

datatype OutboxState = PENDING | IN_FLIGHT | DELIVERED | DEAD_LETTER

datatype AttemptOutcome = Out_delivered | Out_retryable | Out_permanent | Out_ambiguous

datatype DeliveryStatus = St_claimed | St_delivered | St_failed

record OutboxRow =
  outbox_id :: nat
  ob_tenant_id :: string
  ob_evaluation_id :: nat
  ob_fingerprint :: string
  ob_transition :: Transition
  ob_host :: string
  ob_payload :: json
  ob_payload_hash :: string
  ob_key :: string
  ob_state :: OutboxState
  attempt_count :: int
  max_attempts :: int
  redrive_count :: int
  next_attempt_at :: int
  lease_owner :: "string option"
  lease_expires_at :: "int option"
  last_error_class :: "string option"
  last_http_status :: "int option"
  enqueued_at :: int
  ob_updated_at :: int
  ob_completed_at :: "int option"

record AttemptEvent =
  ae_outbox_id :: nat
  ae_tenant_id :: string
  ae_evaluation_id :: nat
  ae_number :: int
  ae_outcome :: AttemptOutcome
  ae_http_status :: "int option"
  ae_error_class :: "string option"
  ae_lease_owner :: string
  ae_key :: string
  ae_started_at :: int
  ae_completed_at :: int

record LedgerRow =
  led_tenant_id :: string
  led_evaluation_id :: nat
  led_fingerprint :: string
  led_transition :: Transition
  led_host :: string
  led_status :: DeliveryStatus
  led_attempt_count :: int
  led_http_status :: "int option"
  led_error_class :: "string option"
  led_payload_hash :: string
  led_claimed_at :: int
  led_completed_at :: "int option"

record alert_db =
  evaluations :: "AlertRow list"
  outbox :: "OutboxRow list"
  attempt_log :: "AttemptEvent list"
  ledger :: "LedgerRow list"
  evaluation_seq :: nat
  outbox_seq :: nat

text \<open>A transaction: an exception undoes every write but not the counters of identity columns.\<close>

definition atomically :: "(alert_db, 'a) comp \<Rightarrow> (alert_db, 'a) comp" where
  "atomically m d =
     (case m d of
        (Inl e, d') \<Rightarrow> (Inl e, d\<lparr>evaluation_seq := evaluation_seq d', outbox_seq := outbox_seq d'\<rparr>)
      | (Inr x, d') \<Rightarrow> (Inr x, d'))"

definition refused :: "(alert_db, 'a) comp" where
  "refused = raiseE (DatabaseError ''constraint violation'')"

subsection \<open>Checks shared by the tables\<close>

definition http_check :: "int option \<Rightarrow> bool" where
  "http_check s = (case s of None \<Rightarrow> True | Some c \<Rightarrow> 100 \<le> c \<and> c \<le> 599)"

definition is_2xx :: "int option \<Rightarrow> bool" where
  "is_2xx s = (case s of None \<Rightarrow> False | Some c \<Rightarrow> 200 \<le> c \<and> c \<le> 299)"

definition lifecycle :: "Transition \<Rightarrow> bool" where
  "lifecycle t \<longleftrightarrow> t = T_FIRED \<or> t = T_RESOLVED"

text \<open>\<^verbatim>\<open>btrim(x) <> ''''\<close>: not only spaces.\<close>

definition nonblank :: "string option \<Rightarrow> bool" where
  "nonblank x = (case x of None \<Rightarrow> False | Some s \<Rightarrow> \<exists>c \<in> set s. c \<noteq> CHR 32)"

subsection \<open>The evaluation table\<close>

definition evaluation_checks :: "AlertRow \<Rightarrow> bool" where
  "evaluation_checks r \<longleftrightarrow>
     is_hex64 (alr_fingerprint r) \<and> alr_tenant_id r \<noteq> [] \<and> alr_policy_id r \<noteq> []
     \<and> alr_policy_version r \<noteq> [] \<and> alr_window r \<noteq> [] \<and> bounded_text 1 200 (alr_window_id r)
     \<and> alr_evidence_label r = SIMULATED \<and> is_hex64 (alr_report_sha256 r)
     \<and> is_hex64 (alr_payload_hash r) \<and> bounded_text 1 500 (alr_idempotency_key r)
     \<and> alr_actor_id r \<noteq> []
     \<and> (case alr_measurement_status r of
          EVALUATED \<Rightarrow> alr_state r \<noteq> None \<and> alr_observed_value r \<noteq> None
            \<and> alr_transition r \<noteq> T_UNMEASURED
        | UNMEASURED \<Rightarrow> alr_state r = None \<and> alr_observed_value r = None
            \<and> alr_transition r = T_UNMEASURED)"

definition evaluation_unique :: "AlertRow \<Rightarrow> AlertRow \<Rightarrow> bool" where
  "evaluation_unique r x \<longleftrightarrow>
     (alr_tenant_id x, alr_fingerprint x, alr_idempotency_key x)
       \<noteq> (alr_tenant_id r, alr_fingerprint r, alr_idempotency_key r)
     \<and> (alr_tenant_id x, alr_fingerprint x, alr_payload_hash x)
       \<noteq> (alr_tenant_id r, alr_fingerprint r, alr_payload_hash r)"

subsection \<open>The outbox\<close>

definition lease_ck :: "OutboxRow \<Rightarrow> bool" where
  "lease_ck r \<longleftrightarrow> (if ob_state r = IN_FLIGHT then lease_owner r \<noteq> None \<and> lease_expires_at r \<noteq> None
                  else lease_owner r = None \<and> lease_expires_at r = None)"

definition terminal_ck :: "OutboxRow \<Rightarrow> bool" where
  "terminal_ck r \<longleftrightarrow> (ob_state r \<in> {DELIVERED, DEAD_LETTER}) = (ob_completed_at r \<noteq> None)"

definition delivered_evidence_ck :: "OutboxRow \<Rightarrow> bool" where
  "delivered_evidence_ck r \<longleftrightarrow> ob_state r = DELIVERED \<longrightarrow>
     1 \<le> attempt_count r \<and> is_2xx (last_http_status r) \<and> last_error_class r = None"

definition dead_letter_evidence_ck :: "OutboxRow \<Rightarrow> bool" where
  "dead_letter_evidence_ck r \<longleftrightarrow> ob_state r = DEAD_LETTER \<longrightarrow>
     1 \<le> attempt_count r \<and> nonblank (last_error_class r)"

definition outbox_checks :: "OutboxRow \<Rightarrow> bool" where
  "outbox_checks r \<longleftrightarrow>
     ob_tenant_id r \<noteq> [] \<and> is_hex64 (ob_fingerprint r) \<and> lifecycle (ob_transition r)
     \<and> bounded_text 1 253 (ob_host r) \<and> is_hex64 (ob_payload_hash r) \<and> bounded_text 1 500 (ob_key r)
     \<and> 0 \<le> attempt_count r \<and> attempt_count r \<le> 100 \<and> 1 \<le> max_attempts r \<and> max_attempts r \<le> 100
     \<and> 0 \<le> redrive_count r \<and> redrive_count r \<le> 100 \<and> opt_bounded 1 200 (lease_owner r)
     \<and> opt_bounded 1 100 (last_error_class r) \<and> http_check (last_http_status r)
     \<and> lease_ck r \<and> terminal_ck r \<and> delivered_evidence_ck r \<and> dead_letter_evidence_ck r"

text \<open>\<^verbatim>\<open>guard_alert_outbox_insert\<close>.\<close>

definition evaluation_matches :: "alert_db \<Rightarrow> nat \<Rightarrow> string \<Rightarrow> string \<Rightarrow> Transition \<Rightarrow> bool" where
  "evaluation_matches d eid tenant fp tr =
     (case select_one (\<lambda>e. alert_evaluation_id e = eid) (evaluations d) of
        None \<Rightarrow> False
      | Some e \<Rightarrow> alr_tenant_id e = tenant \<and> alr_fingerprint e = fp \<and> alr_transition e = tr)"

definition guard_outbox_insert :: "alert_db \<Rightarrow> OutboxRow \<Rightarrow> bool" where
  "guard_outbox_insert d r \<longleftrightarrow>
     ob_state r = PENDING \<and> attempt_count r = 0 \<and> redrive_count r = 0 \<and> lease_owner r = None
     \<and> lease_expires_at r = None \<and> last_error_class r = None \<and> last_http_status r = None
     \<and> ob_completed_at r = None
     \<and> evaluation_matches d (ob_evaluation_id r) (ob_tenant_id r) (ob_fingerprint r) (ob_transition r)"

text \<open>\<^verbatim>\<open>guard_alert_outbox_update\<close>, clause by clause.\<close>

definition same_intent :: "OutboxRow \<Rightarrow> OutboxRow \<Rightarrow> bool" where
  "same_intent old new \<longleftrightarrow>
     outbox_id new = outbox_id old \<and> ob_tenant_id new = ob_tenant_id old
     \<and> ob_evaluation_id new = ob_evaluation_id old \<and> ob_fingerprint new = ob_fingerprint old
     \<and> ob_transition new = ob_transition old \<and> ob_host new = ob_host old
     \<and> ob_payload new = ob_payload old \<and> ob_payload_hash new = ob_payload_hash old
     \<and> ob_key new = ob_key old \<and> enqueued_at new = enqueued_at old"

fun permitted :: "OutboxState \<Rightarrow> OutboxState \<Rightarrow> bool" where
  "permitted PENDING s = (s = IN_FLIGHT)"
| "permitted IN_FLIGHT s = True"
| "permitted DEAD_LETTER s = (s = PENDING)"
| "permitted DELIVERED s = False"

definition lease_guard :: "OutboxRow \<Rightarrow> OutboxRow \<Rightarrow> bool" where
  "lease_guard old new \<longleftrightarrow>
     (ob_state new = IN_FLIGHT \<longrightarrow>
        attempt_count new = attempt_count old + 1
        \<and> (case lease_expires_at new of None \<Rightarrow> True | Some t \<Rightarrow> t > ob_updated_at new)
        \<and> (if ob_state old = PENDING then next_attempt_at old \<le> ob_updated_at new
           else (case lease_expires_at old of None \<Rightarrow> True | Some t \<Rightarrow> t \<le> ob_updated_at new)))"

definition outcome_allowed :: "OutboxRow \<Rightarrow> AttemptOutcome \<Rightarrow> bool" where
  "outcome_allowed new out =
     (case ob_state new of
        DELIVERED \<Rightarrow> out = Out_delivered
      | PENDING \<Rightarrow> out \<in> {Out_retryable, Out_ambiguous} \<and> attempt_count new < max_attempts new
      | DEAD_LETTER \<Rightarrow> out = Out_permanent
          \<or> out \<in> {Out_retryable, Out_ambiguous} \<and> max_attempts new \<le> attempt_count new
      | IN_FLIGHT \<Rightarrow> True)"

definition ledger_guard :: "alert_db \<Rightarrow> OutboxRow \<Rightarrow> OutboxRow \<Rightarrow> bool" where
  "ledger_guard d old new =
     (case select_one (\<lambda>l. led_tenant_id l = ob_tenant_id old
                          \<and> led_evaluation_id l = ob_evaluation_id old) (ledger d) of
        None \<Rightarrow> False
      | Some l \<Rightarrow>
          led_fingerprint l = ob_fingerprint old \<and> led_transition l = ob_transition old
          \<and> led_host l = ob_host old \<and> led_payload_hash l = ob_payload_hash old
          \<and> (if redrive_count old = 0 then
               led_status l = (if ob_state new = DELIVERED then St_delivered else St_failed)
               \<and> led_attempt_count l = attempt_count new
               \<and> led_http_status l = last_http_status new
               \<and> led_error_class l = last_error_class new
               \<and> led_completed_at l = ob_completed_at new
             else led_status l = St_failed))"

definition outcome_guard :: "alert_db \<Rightarrow> OutboxRow \<Rightarrow> OutboxRow \<Rightarrow> bool" where
  "outcome_guard d old new \<longleftrightarrow>
     (ob_state old = IN_FLIGHT \<and> ob_state new \<noteq> IN_FLIGHT \<longrightarrow>
        attempt_count new = attempt_count old
        \<and> (case select_one (\<lambda>a. ae_outbox_id a = outbox_id old \<and> ae_number a = attempt_count old)
                  (attempt_log d) of
             None \<Rightarrow> False
           | Some a \<Rightarrow>
               Some (ae_lease_owner a) = lease_owner old \<and> ae_http_status a = last_http_status new
               \<and> ae_error_class a = last_error_class new \<and> ae_completed_at a = ob_updated_at new
               \<and> outcome_allowed new (ae_outcome a))
        \<and> (ob_state new \<in> {DELIVERED, DEAD_LETTER} \<longrightarrow> ledger_guard d old new))"

definition guard_outbox_update :: "alert_db \<Rightarrow> OutboxRow \<Rightarrow> OutboxRow \<Rightarrow> bool" where
  "guard_outbox_update d old new \<longleftrightarrow>
     same_intent old new \<and> permitted (ob_state old) (ob_state new)
     \<and> attempt_count old \<le> attempt_count new \<and> redrive_count old \<le> redrive_count new
     \<and> (ob_state old \<in> {PENDING, IN_FLIGHT} \<longrightarrow> lease_guard old new) \<and> outcome_guard d old new
     \<and> (max_attempts new \<noteq> max_attempts old \<longrightarrow> ob_state old = DEAD_LETTER \<and> ob_state new = PENDING)
     \<and> (ob_state old = DEAD_LETTER \<and> ob_state new = PENDING \<longrightarrow>
          redrive_count new = redrive_count old + 1)"

subsection \<open>The attempt log and the ledger\<close>

definition attempt_outcome_ck :: "AttemptEvent \<Rightarrow> bool" where
  "attempt_outcome_ck a =
     (case ae_outcome a of
        Out_delivered \<Rightarrow> is_2xx (ae_http_status a) \<and> ae_error_class a = None
      | Out_ambiguous \<Rightarrow> ae_http_status a = None \<and> ae_error_class a \<noteq> None
      | _ \<Rightarrow> ae_error_class a \<noteq> None \<and> \<not> is_2xx (ae_http_status a))"

definition attempt_checks :: "AttemptEvent \<Rightarrow> bool" where
  "attempt_checks a \<longleftrightarrow>
     ae_tenant_id a \<noteq> [] \<and> 1 \<le> ae_number a \<and> ae_number a \<le> 100 \<and> http_check (ae_http_status a)
     \<and> opt_bounded 1 100 (ae_error_class a) \<and> bounded_text 1 200 (ae_lease_owner a)
     \<and> bounded_text 1 500 (ae_key a) \<and> attempt_outcome_ck a"

text \<open>\<^verbatim>\<open>guard_alert_delivery_attempt_event_insert\<close>.\<close>

definition guard_attempt_insert :: "alert_db \<Rightarrow> AttemptEvent \<Rightarrow> bool" where
  "guard_attempt_insert d a =
     (case select_one (\<lambda>r. outbox_id r = ae_outbox_id a) (outbox d) of
        None \<Rightarrow> False
      | Some r \<Rightarrow>
          ae_tenant_id a = ob_tenant_id r \<and> ae_evaluation_id a = ob_evaluation_id r
          \<and> ae_key a = ob_key r \<and> ob_state r = IN_FLIGHT \<and> ae_number a = attempt_count r
          \<and> Some (ae_lease_owner a) = lease_owner r)"

definition ledger_checks :: "LedgerRow \<Rightarrow> bool" where
  "ledger_checks l \<longleftrightarrow>
     led_tenant_id l \<noteq> [] \<and> is_hex64 (led_fingerprint l) \<and> lifecycle (led_transition l)
     \<and> bounded_text 1 253 (led_host l) \<and> 0 \<le> led_attempt_count l \<and> led_attempt_count l \<le> 100
     \<and> http_check (led_http_status l) \<and> opt_bounded 1 100 (led_error_class l)
     \<and> is_hex64 (led_payload_hash l)
     \<and> (led_status l \<noteq> St_claimed \<longrightarrow>
          1 \<le> led_attempt_count l \<and> led_completed_at l \<noteq> None
          \<and> (if led_status l = St_delivered then is_2xx (led_http_status l) \<and> led_error_class l = None
             else nonblank (led_error_class l) \<and> \<not> is_2xx (led_http_status l)))"

text \<open>\<^verbatim>\<open>guard_alert_delivery_attempt_insert\<close> and \<^verbatim>\<open>guard_alert_delivery_attempt_update\<close>.\<close>

definition guard_ledger_insert :: "alert_db \<Rightarrow> LedgerRow \<Rightarrow> bool" where
  "guard_ledger_insert d l \<longleftrightarrow>
     led_status l = St_claimed \<and> led_attempt_count l = 0 \<and> led_http_status l = None
     \<and> led_error_class l = None \<and> led_completed_at l = None
     \<and> evaluation_matches d (led_evaluation_id l) (led_tenant_id l) (led_fingerprint l) (led_transition l)"

definition guard_ledger_update :: "LedgerRow \<Rightarrow> LedgerRow \<Rightarrow> bool" where
  "guard_ledger_update old new \<longleftrightarrow>
     led_status old = St_claimed \<and> led_status new \<noteq> St_claimed
     \<and> led_tenant_id new = led_tenant_id old \<and> led_evaluation_id new = led_evaluation_id old
     \<and> led_fingerprint new = led_fingerprint old \<and> led_transition new = led_transition old
     \<and> led_host new = led_host old \<and> led_payload_hash new = led_payload_hash old
     \<and> led_claimed_at new = led_claimed_at old"

end
