(* ===== verification/Outbox.thy ===== *)
theory Outbox
  imports AlertTables Identity "HOL-Library.Product_Lexorder"
begin

section \<open>The durable delivery outbox (\<^verbatim>\<open>alerting/outbox.py\<close>)\<close>

text \<open>
  Every operation of \<open>AlertOutboxRepository\<close>, one definition per transaction and per private
  helper. \<open>lease\<close> gets the rows that other transactions hold locked at that moment
  (\<^verbatim>\<open>FOR UPDATE SKIP LOCKED\<close>) as an argument. A duration in seconds is a binary64 number;
  \<open>timedelta_us\<close> is what \<^verbatim>\<open>timedelta(seconds=x)\<close> makes of it, in microseconds.
\<close>

subsection \<open>Constants, keys and backoff\<close>

definition DEFAULT_MAX_ATTEMPTS :: int where "DEFAULT_MAX_ATTEMPTS = 5"
definition DEFAULT_LEASE_SECONDS :: rat where "DEFAULT_LEASE_SECONDS = 30"
definition DEFAULT_BACKOFF_BASE_SECONDS :: rat where "DEFAULT_BACKOFF_BASE_SECONDS = 2"
definition DEFAULT_BACKOFF_CAP_SECONDS :: rat where "DEFAULT_BACKOFF_CAP_SECONDS = 300"
definition MAX_ATTEMPT_CEILING :: int where "MAX_ATTEMPT_CEILING = 100"

definition delivery_idempotency_key :: "string \<Rightarrow> nat \<Rightarrow> Transition \<Rightarrow> string" where
  "delivery_idempotency_key tenant eid tr = tenant @ '':'' @ nat_text eid @ '':'' @ transition_value tr"

definition backoff_delay_seconds :: "int \<Rightarrow> rat \<Rightarrow> rat \<Rightarrow> rat result" where
  "backoff_delay_seconds n base cap =
     (if n < 1 then Inl (ValueError ''attempt_count must be >= 1'')
      else (let exponent = min (n - 1) 16
            in Inr (min (fl (base * 2 ^ nat exponent)) cap)))"

definition truncate_rat :: "rat \<Rightarrow> int" where
  "truncate_rat x = (if 0 \<le> x then \<lfloor>x\<rfloor> else - \<lfloor>- x\<rfloor>)"

definition timedelta_us :: "rat \<Rightarrow> int" where
  "timedelta_us x =
     (let whole = truncate_rat x
      in whole * microseconds + round_half_even (fl ((x - of_int whole) * of_int microseconds)))"

subsection \<open>Leased deliveries\<close>

record LeasedDelivery =
  ld_outbox_id :: nat
  ld_tenant_id :: string
  ld_evaluation_id :: nat
  ld_fingerprint :: string
  ld_transition :: Transition
  ld_host :: string
  ld_payload :: json
  ld_payload_hash :: string
  ld_key :: string
  ld_attempt_number :: int
  ld_max_attempts :: int
  ld_lease_owner :: string
  ld_lease_expires_at :: int

definition is_final_attempt :: "LeasedDelivery \<Rightarrow> bool" where
  "is_final_attempt l \<longleftrightarrow> ld_attempt_number l \<ge> ld_max_attempts l"

subsection \<open>Enqueue\<close>

definition new_intent ::
  "nat \<Rightarrow> string \<Rightarrow> nat \<Rightarrow> string \<Rightarrow> Transition \<Rightarrow> string \<Rightarrow> json \<Rightarrow> string \<Rightarrow> int \<Rightarrow> int \<Rightarrow> OutboxRow"
where
  "new_intent oid tenant eid fp tr host pl plhash now limit =
     \<lparr>outbox_id = oid, ob_tenant_id = tenant, ob_evaluation_id = eid, ob_fingerprint = fp,
      ob_transition = tr, ob_host = host, ob_payload = pl, ob_payload_hash = plhash,
      ob_key = delivery_idempotency_key tenant eid tr, ob_state = PENDING, attempt_count = 0,
      max_attempts = limit, redrive_count = 0, next_attempt_at = now, lease_owner = None,
      lease_expires_at = None, last_error_class = None, last_http_status = None,
      enqueued_at = now, ob_updated_at = now, ob_completed_at = None\<rparr>"

definition intent_of :: "string \<Rightarrow> nat \<Rightarrow> OutboxRow \<Rightarrow> bool" where
  "intent_of tenant eid r \<longleftrightarrow> ob_tenant_id r = tenant \<and> ob_evaluation_id r = eid"

definition enqueue_in_transaction ::
  "string \<Rightarrow> nat \<Rightarrow> string \<Rightarrow> Transition \<Rightarrow> string \<Rightarrow> json \<Rightarrow> string \<Rightarrow> int \<Rightarrow> int
   \<Rightarrow> (alert_db, nat option) comp"
where
  "enqueue_in_transaction tenant eid fp tr host pl plhash now limit d =
     (if limit < 1 \<or> limit > MAX_ATTEMPT_CEILING then
        raiseE (ValueError ''max_attempts is outside the allowed bound'') d
      else
        (let oid = outbox_seq d + 1;
             r = new_intent oid tenant eid fp tr host pl plhash now limit;
             d' = d\<lparr>outbox_seq := oid\<rparr>
         in if \<not> guard_outbox_insert d r \<or> \<not> outbox_checks r then refused d'
            else if select_one (intent_of tenant eid) (outbox d) \<noteq> None then returnE None d'
            else if \<exists>x \<in> set (outbox d). ob_tenant_id x = tenant \<and> ob_key x = ob_key r then refused d'
            else returnE (Some oid) (d'\<lparr>outbox := outbox d @ [r]\<rparr>)))"

subsection \<open>Guarded updates\<close>

text \<open>\<^verbatim>\<open>UPDATE alert_outbox ... WHERE ... RETURNING *\<close> under the table's guards.\<close>

definition update_outbox ::
  "(OutboxRow \<Rightarrow> bool) \<Rightarrow> (OutboxRow \<Rightarrow> OutboxRow) \<Rightarrow> (alert_db, OutboxRow list) comp"
where
  "update_outbox P f d =
     (let old = filter P (outbox d)
      in if \<forall>r \<in> set old. guard_outbox_update d r (f r) \<and> outbox_checks (f r)
         then returnE (map f old) (d\<lparr>outbox := update_where P f (outbox d)\<rparr>)
         else refused d)"

subsection \<open>The worker's lease\<close>

definition due :: "int \<Rightarrow> OutboxRow \<Rightarrow> bool" where
  "due now r \<longleftrightarrow>
     next_attempt_at r \<le> now
     \<and> (ob_state r = PENDING
        \<or> ob_state r = IN_FLIGHT \<and> (case lease_expires_at r of None \<Rightarrow> False | Some t \<Rightarrow> t \<le> now))
     \<and> attempt_count r < max_attempts r"

definition lease_candidates :: "int \<Rightarrow> int \<Rightarrow> nat list \<Rightarrow> OutboxRow list \<Rightarrow> OutboxRow list" where
  "lease_candidates now batch locked rows =
     take (nat batch) (sort_key (\<lambda>r. (next_attempt_at r, outbox_id r))
       (filter (\<lambda>r. due now r \<and> outbox_id r \<notin> set locked) rows))"

definition take_lease :: "string \<Rightarrow> int \<Rightarrow> int \<Rightarrow> OutboxRow \<Rightarrow> OutboxRow" where
  "take_lease worker now expires r =
     r\<lparr>ob_state := IN_FLIGHT, attempt_count := attempt_count r + 1, lease_owner := Some worker,
       lease_expires_at := Some expires, ob_updated_at := now\<rparr>"

definition leased_of :: "string \<Rightarrow> int \<Rightarrow> OutboxRow \<Rightarrow> LeasedDelivery" where
  "leased_of worker expires r =
     \<lparr>ld_outbox_id = outbox_id r, ld_tenant_id = ob_tenant_id r, ld_evaluation_id = ob_evaluation_id r,
      ld_fingerprint = ob_fingerprint r, ld_transition = ob_transition r, ld_host = ob_host r,
      ld_payload = ob_payload r, ld_payload_hash = ob_payload_hash r, ld_key = ob_key r,
      ld_attempt_number = attempt_count r, ld_max_attempts = max_attempts r,
      ld_lease_owner = worker, ld_lease_expires_at = expires\<rparr>"

definition lease ::
  "string \<Rightarrow> int \<Rightarrow> rat \<Rightarrow> int \<Rightarrow> nat list \<Rightarrow> (alert_db, LeasedDelivery list) comp"
where
  "lease worker now lease_seconds batch locked =
     (if worker = [] then raiseE (ValueError ''worker_id is required'')
      else if batch < 1 then raiseE (ValueError ''batch_size must be >= 1'')
      else
        (let expires = now + timedelta_us lease_seconds
         in atomically (\<lambda>d.
              let ids = map outbox_id (lease_candidates now batch locked (outbox d))
              in if ids = [] then returnE [] d
                 else bindE (update_outbox (\<lambda>r. outbox_id r \<in> set ids) (take_lease worker now expires))
                        (\<lambda>rows. returnE (map (leased_of worker expires) (sort_key outbox_id rows))) d)))"

subsection \<open>Outcomes\<close>

definition lease_lost :: exn where
  "lease_lost = ConflictError ''OUTBOX_LEASE_LOST''
     ''The delivery lease was taken over before this outcome was recorded''"

definition active_attempt :: "LeasedDelivery \<Rightarrow> OutboxRow \<Rightarrow> bool" where
  "active_attempt l r \<longleftrightarrow>
     outbox_id r = ld_outbox_id l \<and> ob_state r = IN_FLIGHT \<and> attempt_count r = ld_attempt_number l
     \<and> lease_owner r = Some (ld_lease_owner l)"

definition attempt_event ::
  "LeasedDelivery \<Rightarrow> AttemptOutcome \<Rightarrow> int option \<Rightarrow> string option \<Rightarrow> int \<Rightarrow> int \<Rightarrow> AttemptEvent"
where
  "attempt_event l out http err started done1 =
     \<lparr>ae_outbox_id = ld_outbox_id l, ae_tenant_id = ld_tenant_id l,
      ae_evaluation_id = ld_evaluation_id l, ae_number = ld_attempt_number l, ae_outcome = out,
      ae_http_status = http, ae_error_class = err, ae_lease_owner = ld_lease_owner l,
      ae_key = ld_key l, ae_started_at = started, ae_completed_at = done1\<rparr>"

definition append_attempt_event ::
  "LeasedDelivery \<Rightarrow> AttemptOutcome \<Rightarrow> int option \<Rightarrow> string option \<Rightarrow> int \<Rightarrow> int \<Rightarrow> (alert_db, unit) comp"
where
  "append_attempt_event l out http err started done1 d =
     (if select_one (active_attempt l) (outbox d) = None then raiseE lease_lost d
      else
        (let a = attempt_event l out http err started done1
         in if \<not> guard_attempt_insert d a \<or> \<not> attempt_checks a then refused d
            else if \<exists>x \<in> set (attempt_log d). ae_outbox_id x = ae_outbox_id a \<and> ae_number x = ae_number a
            then returnE () d
            else returnE () (d\<lparr>attempt_log := attempt_log d @ [a]\<rparr>)))"

definition claimed_ledger_row :: "LeasedDelivery \<Rightarrow> int \<Rightarrow> LedgerRow" where
  "claimed_ledger_row l now =
     \<lparr>led_tenant_id = ld_tenant_id l, led_evaluation_id = ld_evaluation_id l,
      led_fingerprint = ld_fingerprint l, led_transition = ld_transition l, led_host = ld_host l,
      led_status = St_claimed, led_attempt_count = 0, led_http_status = None, led_error_class = None,
      led_payload_hash = ld_payload_hash l, led_claimed_at = now, led_completed_at = None\<rparr>"

definition ledger_of :: "string \<Rightarrow> nat \<Rightarrow> LedgerRow \<Rightarrow> bool" where
  "ledger_of tenant eid l \<longleftrightarrow> led_tenant_id l = tenant \<and> led_evaluation_id l = eid"

text \<open>The guarded insert and the guarded completion of a ledger row.\<close>

definition insert_ledger :: "LedgerRow \<Rightarrow> (alert_db, bool) comp" where
  "insert_ledger r d =
     (if \<not> guard_ledger_insert d r \<or> \<not> ledger_checks r then refused d
      else if select_one (ledger_of (led_tenant_id r) (led_evaluation_id r)) (ledger d) \<noteq> None
      then returnE False d
      else returnE True (d\<lparr>ledger := ledger d @ [r]\<rparr>))"

definition finish_ledger ::
  "DeliveryStatus \<Rightarrow> int \<Rightarrow> int option \<Rightarrow> string option \<Rightarrow> int \<Rightarrow> LedgerRow \<Rightarrow> LedgerRow"
where
  "finish_ledger st n http err done1 r =
     r\<lparr>led_status := st, led_attempt_count := n, led_http_status := http, led_error_class := err,
       led_completed_at := Some done1\<rparr>"

definition complete_ledger ::
  "string \<Rightarrow> nat \<Rightarrow> (LedgerRow \<Rightarrow> LedgerRow) \<Rightarrow> (alert_db, bool) comp"
where
  "complete_ledger tenant eid f d =
     (let P = (\<lambda>r. ledger_of tenant eid r \<and> led_status r = St_claimed);
          old = filter P (ledger d)
      in if \<forall>r \<in> set old. guard_ledger_update r (f r) \<and> ledger_checks (f r)
         then returnE (old \<noteq> []) (d\<lparr>ledger := update_where P f (ledger d)\<rparr>)
         else refused d)"

definition write_terminal_ledger ::
  "LeasedDelivery \<Rightarrow> DeliveryStatus \<Rightarrow> int option \<Rightarrow> string option \<Rightarrow> int \<Rightarrow> (alert_db, unit) comp"
where
  "write_terminal_ledger l st http err done1 =
     bindE (insert_ledger (claimed_ledger_row l done1)) (\<lambda>_.
     bindE (complete_ledger (ld_tenant_id l) (ld_evaluation_id l)
              (finish_ledger st (ld_attempt_number l) http err done1)) (\<lambda>_. returnE ()))"

definition apply_outcome ::
  "OutboxState \<Rightarrow> int option \<Rightarrow> int option \<Rightarrow> string option \<Rightarrow> int option \<Rightarrow> int \<Rightarrow> OutboxRow \<Rightarrow> OutboxRow"
where
  "apply_outcome st next http err done1 now r =
     r\<lparr>ob_state := st, next_attempt_at := (case next of None \<Rightarrow> next_attempt_at r | Some t \<Rightarrow> t),
       last_http_status := http, last_error_class := err, ob_completed_at := done1,
       lease_owner := None, lease_expires_at := None, ob_updated_at := now\<rparr>"

definition owned_by :: "LeasedDelivery \<Rightarrow> OutboxRow \<Rightarrow> bool" where
  "owned_by l r \<longleftrightarrow>
     outbox_id r = ld_outbox_id l \<and> ob_tenant_id r = ld_tenant_id l \<and> ob_state r = IN_FLIGHT
     \<and> lease_owner r = Some (ld_lease_owner l)"

definition outbox_transition ::
  "LeasedDelivery \<Rightarrow> OutboxState \<Rightarrow> int option \<Rightarrow> int option \<Rightarrow> string option \<Rightarrow> int option \<Rightarrow> int
   \<Rightarrow> (alert_db, unit) comp"
where
  "outbox_transition l st next http err done1 now =
     bindE (update_outbox (owned_by l) (apply_outcome st next http err done1 now))
       (\<lambda>rows. if rows = [] then raiseE lease_lost else returnE ())"

definition record_delivered :: "LeasedDelivery \<Rightarrow> int \<Rightarrow> int \<Rightarrow> int \<Rightarrow> (alert_db, unit) comp" where
  "record_delivered l http started done1 =
     (if \<not> (200 \<le> http \<and> http < 300) then
        raiseE (ValueError ''record_delivered requires a 2xx status'')
      else atomically
        (bindE (append_attempt_event l Out_delivered (Some http) None started done1) (\<lambda>_.
         bindE (write_terminal_ledger l St_delivered (Some http) None done1) (\<lambda>_.
         outbox_transition l DELIVERED None (Some http) None (Some done1) done1))))"

definition record_retry ::
  "LeasedDelivery \<Rightarrow> AttemptOutcome \<Rightarrow> int option \<Rightarrow> string \<Rightarrow> int \<Rightarrow> int \<Rightarrow> rat \<Rightarrow> (alert_db, int) comp"
where
  "record_retry l out http err started done1 base =
     (if out \<notin> {Out_retryable, Out_ambiguous} then
        raiseE (ValueError ''record_retry accepts only retryable or ambiguous outcomes'')
      else if is_final_attempt l then
        raiseE (ConflictError ''OUTBOX_RETRY_BUDGET_EXHAUSTED''
          ''Retry budget is exhausted; record a dead letter instead'')
      else
        bindE (liftE (backoff_delay_seconds (ld_attempt_number l) base DEFAULT_BACKOFF_CAP_SECONDS)) (\<lambda>delay.
        let next = done1 + timedelta_us delay
        in bindE (atomically
             (bindE (append_attempt_event l out http (Some err) started done1) (\<lambda>_.
              outbox_transition l PENDING (Some next) http (Some err) None done1)))
             (\<lambda>_. returnE next)))"

definition record_dead_letter ::
  "LeasedDelivery \<Rightarrow> AttemptOutcome \<Rightarrow> int option \<Rightarrow> string \<Rightarrow> int \<Rightarrow> int \<Rightarrow> (alert_db, unit) comp"
where
  "record_dead_letter l out http err started done1 =
     (if out = Out_delivered then
        raiseE (ValueError ''record_dead_letter requires a failure or ambiguous outcome'')
      else atomically
        (bindE (append_attempt_event l out http (Some err) started done1) (\<lambda>_.
         bindE (write_terminal_ledger l St_failed http (Some err) done1) (\<lambda>_.
         outbox_transition l DEAD_LETTER None http (Some err) (Some done1) done1))))"

subsection \<open>Re-drive\<close>

definition redriven :: "int \<Rightarrow> int \<Rightarrow> OutboxRow \<Rightarrow> OutboxRow" where
  "redriven raised now r =
     r\<lparr>ob_state := PENDING, max_attempts := raised, redrive_count := redrive_count r + 1,
       next_attempt_at := now, ob_completed_at := None, lease_owner := None,
       lease_expires_at := None, ob_updated_at := now\<rparr>"

definition outbox_visible :: "Principal \<Rightarrow> nat \<Rightarrow> OutboxRow \<Rightarrow> bool" where
  "outbox_visible p oid r \<longleftrightarrow> ob_tenant_id r = principal_tenant p \<and> outbox_id r = oid"

definition redrive :: "Principal \<Rightarrow> nat \<Rightarrow> int \<Rightarrow> int \<Rightarrow> (alert_db, unit) comp" where
  "redrive p oid now additional =
     (if additional < 1 then raiseE (ValueError ''additional_attempts must be >= 1'')
      else atomically (\<lambda>d.
        case select_one (outbox_visible p oid) (outbox d) of
          None \<Rightarrow> raiseE NotFoundError d
        | Some r \<Rightarrow>
            if ob_state r \<noteq> DEAD_LETTER then
              raiseE (ConflictError ''OUTBOX_NOT_DEAD_LETTERED'' ''Only a DEAD_LETTER row may be re-driven'') d
            else
              (let raised = min (attempt_count r + additional) MAX_ATTEMPT_CEILING
               in if raised \<le> attempt_count r then
                    raiseE (ConflictError ''OUTBOX_ATTEMPT_CEILING_REACHED''
                      ''Re-drive cannot raise the attempt ceiling any further'') d
                  else
                    bindE (update_outbox (\<lambda>x. outbox_visible p oid x \<and> ob_state x = DEAD_LETTER)
                             (redriven raised now))
                      (\<lambda>_. returnE ()) d)))"

subsection \<open>Reads\<close>

definition outbox_get :: "Principal \<Rightarrow> nat \<Rightarrow> (alert_db, OutboxRow) comp" where
  "outbox_get p oid d =
     (case select_one (outbox_visible p oid) (outbox d) of
        None \<Rightarrow> raiseE NotFoundError d | Some r \<Rightarrow> returnE r d)"

definition for_evaluation :: "Principal \<Rightarrow> nat \<Rightarrow> alert_db \<Rightarrow> OutboxRow option" where
  "for_evaluation p eid d = select_one (intent_of (principal_tenant p) eid) (outbox d)"

definition attempt_events :: "Principal \<Rightarrow> nat \<Rightarrow> alert_db \<Rightarrow> AttemptEvent list" where
  "attempt_events p oid d =
     sort_key ae_number
       (filter (\<lambda>a. ae_tenant_id a = principal_tenant p \<and> ae_outbox_id a = oid) (attempt_log d))"

definition dead_letters :: "Principal \<Rightarrow> alert_db \<Rightarrow> OutboxRow list" where
  "dead_letters p d =
     sort_key outbox_id
       (filter (\<lambda>r. ob_tenant_id r = principal_tenant p \<and> ob_state r = DEAD_LETTER) (outbox d))"

definition pending_backlog :: "Principal \<Rightarrow> alert_db \<Rightarrow> OutboxRow list" where
  "pending_backlog p d =
     sort_key outbox_id
       (filter (\<lambda>r. ob_tenant_id r = principal_tenant p \<and> ob_state r \<in> {PENDING, IN_FLIGHT}) (outbox d))"

end
