(* ===== verification/AlertDelivery.thy ===== *)
theory AlertDelivery
  imports Outbox
begin

section \<open>Evaluations, notifications and the ledger (\<^verbatim>\<open>alerting/delivery.py\<close>, \<^verbatim>\<open>enqueue.py\<close>, \<^verbatim>\<open>webhook.py\<close>)\<close>

text \<open>
  The evaluation a caller gets (a stored row and whether it is an idempotent replay), which
  evaluations are announced, the JSON payload of the announcement, the ledger primitives, and the
  bridge that turns an evaluation into a delivery intent inside the caller's transaction.
\<close>

record AlertEvaluation = AlertRow +
  idempotent_replay :: bool

definition row_to_evaluation :: "AlertRow \<Rightarrow> bool \<Rightarrow> AlertEvaluation" where
  "row_to_evaluation r replay = AlertRow.extend r (AlertEvaluation.fields replay)"

lemma row_to_evaluation_simps [simp]:
  "AlertRow.truncate (row_to_evaluation r b) = AlertRow.truncate r"
  "idempotent_replay (row_to_evaluation r b) = b"
  "alert_evaluation_id (row_to_evaluation r b) = alert_evaluation_id r"
  "alr_tenant_id (row_to_evaluation r b) = alr_tenant_id r"
  "alr_fingerprint (row_to_evaluation r b) = alr_fingerprint r"
  "alr_transition (row_to_evaluation r b) = alr_transition r"
  "alr_state (row_to_evaluation r b) = alr_state r"
  "alr_policy_id (row_to_evaluation r b) = alr_policy_id r"
  by (simp_all add: row_to_evaluation_def AlertRow.defs AlertEvaluation.defs)

subsection \<open>Which evaluations are announced\<close>

definition LIFECYCLE_TRANSITIONS :: "Transition set" where
  "LIFECYCLE_TRANSITIONS = {T_FIRED, T_RESOLVED}"

definition should_notify :: "AlertEvaluation \<Rightarrow> bool" where
  "should_notify ev \<longleftrightarrow> \<not> idempotent_replay ev \<and> alr_transition ev \<in> LIFECYCLE_TRANSITIONS"

definition opt_state :: "AlertState option \<Rightarrow> json" where
  "opt_state s = (case s of None \<Rightarrow> JNull | Some x \<Rightarrow> JStr (alert_state_value x))"

definition webhook_payload :: "AlertEvaluation \<Rightarrow> json" where
  "webhook_payload ev = JObj
     [(''alert_fingerprint'', JStr (alr_fingerprint ev)),
      (''comparator'', JStr ''>''),
      (''correlation'', correlation_dump (alr_correlation ev)),
      (''evaluated_at'', JStr (isoformat (utc (alr_evaluated_at ev)))),
      (''evaluation_id'', JInt (int (alert_evaluation_id ev))),
      (''evidence_label'', JStr (label_value (alr_evidence_label ev))),
      (''execute'', JBool False),
      (''idempotency_key'', JStr (alr_idempotency_key ev)),
      (''live_slo_evidence_eligible'', JBool False),
      (''measurement_status'', JStr (measurement_value (alr_measurement_status ev))),
      (''metric_name'', JStr (metric_value (alr_metric_name ev))),
      (''observed_value'', opt_float (alr_observed_value ev)),
      (''payload_hash'', JStr (alr_payload_hash ev)),
      (''policy_id'', JStr (alr_policy_id ev)),
      (''policy_version'', JStr (alr_policy_version ev)),
      (''previous_state'', opt_state (alr_previous_state ev)),
      (''severity'', JStr (severity_value (alr_severity ev))),
      (''state'', opt_state (alr_state ev)),
      (''tenant_id'', JStr (alr_tenant_id ev)),
      (''threshold_classification'', JStr (classification_value (alr_classification ev))),
      (''threshold_value'', JFloat (alr_threshold_value ev)),
      (''transition'', JStr (transition_value (alr_transition ev))),
      (''window'', JStr (alr_window ev)),
      (''window_id'', JStr (alr_window_id ev))]"

subsection \<open>The ledger primitives\<close>

definition delivery_claim ::
  "Principal \<Rightarrow> AlertEvaluation \<Rightarrow> string \<Rightarrow> string \<Rightarrow> int \<Rightarrow> (alert_db, bool) comp"
where
  "delivery_claim p ev host plhash now =
     (if alr_tenant_id ev \<noteq> principal_tenant p then raiseE NotFoundError
      else if \<not> should_notify ev then returnE False
      else atomically (insert_ledger
        \<lparr>led_tenant_id = principal_tenant p, led_evaluation_id = alert_evaluation_id ev,
         led_fingerprint = alr_fingerprint ev, led_transition = alr_transition ev, led_host = host,
         led_status = St_claimed, led_attempt_count = 0, led_http_status = None,
         led_error_class = None, led_payload_hash = plhash, led_claimed_at = now,
         led_completed_at = None\<rparr>))"

definition delivery_complete ::
  "Principal \<Rightarrow> AlertEvaluation \<Rightarrow> DeliveryStatus \<Rightarrow> int \<Rightarrow> int option \<Rightarrow> string option \<Rightarrow> int
   \<Rightarrow> (alert_db, unit) comp"
where
  "delivery_complete p ev st n http err done1 =
     (if alr_tenant_id ev \<noteq> principal_tenant p then raiseE NotFoundError
      else if st = St_claimed then
        raiseE (ValueError ''Delivery completion status must be DELIVERED or FAILED'')
      else bindE (atomically (complete_ledger (principal_tenant p) (alert_evaluation_id ev)
                    (finish_ledger st n http err done1)))
             (\<lambda>updated. if updated then returnE () else raiseE NotFoundError))"

definition delivery_attempts :: "Principal \<Rightarrow> nat \<Rightarrow> alert_db \<Rightarrow> LedgerRow list" where
  "delivery_attempts p eid d = filter (ledger_of (principal_tenant p) eid) (ledger d)"

subsection \<open>The enqueuer\<close>

record WebhookOutboxEnqueuer =
  enq_host :: string
  enq_max_attempts :: int

definition enqueue :: "WebhookOutboxEnqueuer \<Rightarrow> AlertEvaluation \<Rightarrow> int \<Rightarrow> (alert_db, nat option) comp" where
  "enqueue enq ev now =
     (if \<not> should_notify ev then returnE None
      else (let pl = webhook_payload ev
            in enqueue_in_transaction (alr_tenant_id ev) (alert_evaluation_id ev) (alr_fingerprint ev)
                 (alr_transition ev) (enq_host enq) pl (canonical_hash pl) now (enq_max_attempts enq)))"

end
