(* ===== verification/AlertRepository.thy ===== *)
theory AlertRepository
  imports AlertDelivery
begin

section \<open>Alert evaluation history and service (\<^verbatim>\<open>alerting/repository.py\<close>, \<^verbatim>\<open>alerting/service.py\<close>)\<close>

text \<open>
  The append-only history: fingerprints, the alert's next state, the recording of one assessment
  (idempotent, and atomic with the delivery intent), the reads, and the control service that
  evaluates every policy and fails closed. \<open>num\<close> is what PostgreSQL's \<^verbatim>\<open>numeric\<close> columns
  give back of a double; the database is not code of this repository, so it is a parameter.
\<close>

subsection \<open>Recording an assessment\<close>

definition alert_fingerprint :: "AlertMetricSnapshot \<Rightarrow> PolicyAssessment \<Rightarrow> string" where
  "alert_fingerprint s a = canonical_hash (JObj
     [(''policy_id'', JStr (as_policy_id a)), (''policy_version'', JStr (as_policy_version a)),
      (''tenant_id'', JStr (cor_tenant_id (correlation s))),
      (''run_id'', opt_text (cor_run_id (correlation s))),
      (''case_id'', opt_text (cor_case_id (correlation s)))])"

definition assessment_hash :: "AlertMetricSnapshot \<Rightarrow> PolicyAssessment \<Rightarrow> string" where
  "assessment_hash s a = canonical_hash (JObj
     [(''snapshot'', snapshot_dump s), (''assessment'', assessment_dump a)])"

definition next_state ::
  "AlertState option \<Rightarrow> PolicyAssessment \<Rightarrow> AlertState option \<times> Transition"
where
  "next_state previous a =
     (if as_measurement_status a = UNMEASURED then (None, T_UNMEASURED)
      else if as_breached a = Some True then
        (Some FIRING, if previous = Some FIRING then T_STILL_FIRING else T_FIRED)
      else if previous = Some FIRING then (Some RESOLVED, T_RESOLVED)
      else (Some OK, if previous \<noteq> None then T_STILL_OK else T_INITIAL_OK))"

definition alert_of :: "string \<Rightarrow> string \<Rightarrow> AlertRow \<Rightarrow> bool" where
  "alert_of tenant fp r \<longleftrightarrow> alr_tenant_id r = tenant \<and> alr_fingerprint r = fp"

definition measured_of :: "string \<Rightarrow> string \<Rightarrow> AlertRow \<Rightarrow> bool" where
  "measured_of tenant fp r \<longleftrightarrow> alert_of tenant fp r \<and> alr_state r \<noteq> None"

definition previous_state :: "string \<Rightarrow> string \<Rightarrow> alert_db \<Rightarrow> AlertState option" where
  "previous_state tenant fp d =
     (case select_last (measured_of tenant fp) (evaluations d) of
        None \<Rightarrow> None | Some r \<Rightarrow> alr_state r)"

definition new_alert ::
  "(rat \<Rightarrow> rat) \<Rightarrow> nat \<Rightarrow> Principal \<Rightarrow> AlertMetricSnapshot \<Rightarrow> PolicyAssessment \<Rightarrow> string \<Rightarrow> int
   \<Rightarrow> AlertState option \<Rightarrow> AlertRow"
where
  "new_alert num i p s a key now previous =
     (let (st, tr) = next_state previous a
      in \<lparr>alert_evaluation_id = i, alr_fingerprint = alert_fingerprint s a,
          alr_tenant_id = principal_tenant p, alr_policy_id = as_policy_id a,
          alr_policy_version = as_policy_version a, alr_metric_name = as_metric_name a,
          alr_severity = as_severity a, alr_state = st, alr_previous_state = previous,
          alr_transition = tr, alr_measurement_status = as_measurement_status a,
          alr_classification = as_classification a,
          alr_threshold_value = num (as_threshold_value a),
          alr_observed_value = map_option num (as_observed_value a), alr_window = as_window a,
          alr_window_id = snap_window_id s, alr_evidence_label = snap_evidence_label s,
          alr_report_sha256 = snap_report_sha256 s, alr_correlation = correlation s,
          alr_payload_hash = assessment_hash s a, alr_idempotency_key = key,
          alr_actor_id = actor_id p, alr_evaluated_at = now\<rparr>)"

definition append_alert ::
  "(rat \<Rightarrow> rat) \<Rightarrow> Principal \<Rightarrow> AlertMetricSnapshot \<Rightarrow> PolicyAssessment \<Rightarrow> string \<Rightarrow> int
   \<Rightarrow> (alert_db, AlertEvaluation) comp"
where
  "append_alert num p s a key now d =
     (let i = evaluation_seq d + 1;
          r = new_alert num i p s a key now
                (previous_state (principal_tenant p) (alert_fingerprint s a) d);
          d' = d\<lparr>evaluation_seq := i\<rparr>
      in if \<not> evaluation_checks r \<or> \<not> (\<forall>x \<in> set (evaluations d). evaluation_unique r x) then refused d'
         else returnE (row_to_evaluation r False) (d'\<lparr>evaluations := evaluations d @ [r]\<rparr>))"

definition record_alert ::
  "(rat \<Rightarrow> rat) \<Rightarrow> WebhookOutboxEnqueuer option \<Rightarrow> Principal \<Rightarrow> AlertMetricSnapshot
   \<Rightarrow> PolicyAssessment \<Rightarrow> string \<Rightarrow> int \<Rightarrow> (alert_db, AlertEvaluation) comp"
where
  "record_alert num enq p s a key now =
     (if cor_tenant_id (correlation s) \<noteq> principal_tenant p then raiseE NotFoundError
      else
        (let fp = alert_fingerprint s a; plhash = assessment_hash s a; tenant = principal_tenant p
         in atomically (\<lambda>d.
              case select_one (\<lambda>r. alert_of tenant fp r \<and> alr_idempotency_key r = key) (evaluations d) of
                Some existing \<Rightarrow>
                  if alr_payload_hash existing \<noteq> plhash then
                    raiseE (ConflictError ''ALERT_IDEMPOTENCY_CONFLICT''
                      ''Alert idempotency key was already used with a different payload'') d
                  else returnE (row_to_evaluation existing True) d
              | None \<Rightarrow>
                  (case select_one (\<lambda>r. alert_of tenant fp r \<and> alr_payload_hash r = plhash) (evaluations d) of
                     Some duplicate \<Rightarrow> returnE (row_to_evaluation duplicate True) d
                   | None \<Rightarrow>
                       bindE (append_alert num p s a key now) (\<lambda>ev.
                         case enq of
                           None \<Rightarrow> returnE ev
                         | Some q \<Rightarrow> bindE (enqueue q ev now) (\<lambda>_. returnE ev)) d))))"

subsection \<open>Reads\<close>

definition alert_events :: "Principal \<Rightarrow> string \<Rightarrow> (alert_db, AlertEvaluation list) comp" where
  "alert_events p fp d =
     (let rows = filter (alert_of (principal_tenant p) fp) (evaluations d)
      in if rows = [] then raiseE NotFoundError d
         else returnE (map (\<lambda>r. row_to_evaluation r False) rows) d)"

definition current_alert :: "Principal \<Rightarrow> string \<Rightarrow> (alert_db, AlertEvaluation) comp" where
  "current_alert p fp d =
     (case select_last (measured_of (principal_tenant p) fp) (evaluations d) of
        None \<Rightarrow> raiseE NotFoundError d
      | Some r \<Rightarrow> returnE (row_to_evaluation r False) d)"

subsection \<open>The control service\<close>

text \<open>
  \<open>clock k\<close> is the clock's reading at the \<open>k\<close>-th policy. The sink is the no-op one the source
  always builds (\<^verbatim>\<open>DisabledAlertSink\<close>).
\<close>

definition external_action_policy :: string where
  "external_action_policy = ''shadow-external-action-safety''"

fun evaluate_from ::
  "(rat \<Rightarrow> rat) \<Rightarrow> WebhookOutboxEnqueuer option \<Rightarrow> (nat \<Rightarrow> int) \<Rightarrow> Principal
   \<Rightarrow> AlertMetricSnapshot \<Rightarrow> string \<Rightarrow> nat \<Rightarrow> PolicyAssessment list
   \<Rightarrow> (alert_db, AlertEvaluation list) comp"
where
  "evaluate_from num enq clock p s prefix k [] = returnE []"
| "evaluate_from num enq clock p s prefix k (a # as) =
     bindE (record_alert num enq p s a (prefix @ '':'' @ as_policy_id a) (clock k)) (\<lambda>ev.
       if as_policy_id a = external_action_policy \<and> alr_state ev = Some FIRING then
         raiseE (ConflictError ''SHADOW_EXTERNAL_ACTION_DETECTED''
           ''Shadow external_action_count exceeded zero; evaluation failed closed'')
       else bindE (evaluate_from num enq clock p s prefix (Suc k) as) (\<lambda>evs. returnE (ev # evs)))"

definition evaluate ::
  "(rat \<Rightarrow> rat) \<Rightarrow> WebhookOutboxEnqueuer option \<Rightarrow> (nat \<Rightarrow> int) \<Rightarrow> Principal
   \<Rightarrow> AlertMetricSnapshot \<Rightarrow> string \<Rightarrow> (alert_db, AlertEvaluation list) comp"
where
  "evaluate num enq clock p s prefix =
     (if \<not> has_role p ''operator'' then
        raiseE (AuthorizationError ''Alert evaluation requires the operator role'')
      else if cor_tenant_id (correlation s) \<noteq> principal_tenant p then raiseE NotFoundError
      else case assess_policies s of
             Inl e \<Rightarrow> raiseE e
           | Inr as \<Rightarrow> evaluate_from num enq clock p s prefix 0 as)"

end
