(* ===== verification/AlertInvariants.thy ===== *)
theory AlertInvariants
  imports AlertRepository
begin

section \<open>Invariants of the alert database\<close>

text \<open>
  The operations by which the program changes the alert tables (recording, lease, report, re-drive), the
  invariant every one of them keeps whatever its
  arguments (forged leases included), and the order in which the tables only grow: an evaluation
  and an attempt event are never changed, an intent keeps its identity, its counts never fall, and
  once delivered it is never touched again.
\<close>

subsection \<open>Operations\<close>

text \<open>
  The two primitives of the ledger that \<^verbatim>\<open>alerting/delivery.py\<close> also has (\<open>delivery_claim\<close>,
  \<open>delivery_complete\<close>) are not among them: nothing in the program calls them on their own, the outbox writes its
  terminal ledger row itself, in one transaction.
\<close>

datatype alert_op =
    OpRecord "WebhookOutboxEnqueuer option" Principal AlertMetricSnapshot PolicyAssessment string int
  | OpLease string int rat int "nat list"
  | OpDelivered LeasedDelivery int int int
  | OpRetry LeasedDelivery AttemptOutcome "int option" string int int rat
  | OpDeadLetter LeasedDelivery AttemptOutcome "int option" string int int
  | OpRedrive Principal nat int int

fun alert_step :: "(rat \<Rightarrow> rat) \<Rightarrow> alert_op \<Rightarrow> alert_db \<Rightarrow> alert_db" where
  "alert_step num (OpRecord enq p s a key now) d = snd (record_alert num enq p s a key now d)"
| "alert_step num (OpLease w now secs batch locked) d = snd (lease w now secs batch locked d)"
| "alert_step num (OpDelivered l http st dn) d = snd (record_delivered l http st dn d)"
| "alert_step num (OpRetry l out http err st dn base) d = snd (record_retry l out http err st dn base d)"
| "alert_step num (OpDeadLetter l out http err st dn) d = snd (record_dead_letter l out http err st dn d)"
| "alert_step num (OpRedrive p oid now add) d = snd (redrive p oid now add d)"

subsection \<open>The invariant\<close>

definition budget_ok :: "OutboxRow \<Rightarrow> bool" where
  "budget_ok r \<longleftrightarrow>
     redrive_count r \<le> attempt_count r \<and> attempt_count r \<le> max_attempts r
     \<and> (ob_state r = PENDING \<longrightarrow> attempt_count r < max_attempts r)
     \<and> (ob_state r \<noteq> PENDING \<longrightarrow> redrive_count r < attempt_count r)"

definition log_ok :: "alert_db \<Rightarrow> OutboxRow \<Rightarrow> bool" where
  "log_ok d r \<longleftrightarrow> (\<forall>a \<in> set (attempt_log d). ae_outbox_id a = outbox_id r \<longrightarrow>
     ae_number a \<le> attempt_count r \<and> (ob_state r = IN_FLIGHT \<longrightarrow> ae_number a < attempt_count r))"

definition ledger_identity :: "OutboxRow \<Rightarrow> LedgerRow \<Rightarrow> bool" where
  "ledger_identity r l \<longleftrightarrow>
     led_fingerprint l = ob_fingerprint r \<and> led_transition l = ob_transition r
     \<and> led_host l = ob_host r \<and> led_payload_hash l = ob_payload_hash r"

definition ledger_row :: "alert_db \<Rightarrow> OutboxRow \<Rightarrow> LedgerRow option" where
  "ledger_row d r = select_one (ledger_of (ob_tenant_id r) (ob_evaluation_id r)) (ledger d)"

definition ledger_ok :: "alert_db \<Rightarrow> OutboxRow \<Rightarrow> bool" where
  "ledger_ok d r \<longleftrightarrow>
     (if redrive_count r = 0 \<and> ob_state r \<in> {PENDING, IN_FLIGHT} then ledger_row d r = None
      else (\<exists>l. ledger_row d r = Some l \<and> ledger_identity r l
              \<and> led_status l = (if redrive_count r = 0 \<and> ob_state r = DELIVERED then St_delivered
                                else St_failed)))"

definition intent_ok :: "alert_db \<Rightarrow> OutboxRow \<Rightarrow> bool" where
  "intent_ok d r \<longleftrightarrow>
     outbox_checks r \<and> outbox_id r \<le> outbox_seq d \<and> budget_ok r
     \<and> evaluation_matches d (ob_evaluation_id r) (ob_tenant_id r) (ob_fingerprint r) (ob_transition r)"

definition outbox_keys :: "alert_db \<Rightarrow> bool" where
  "outbox_keys d \<longleftrightarrow>
     keyed outbox_id (outbox d) \<and> keyed (\<lambda>r. (ob_tenant_id r, ob_evaluation_id r)) (outbox d)"

definition references_ok :: "alert_db \<Rightarrow> bool" where
  "references_ok d \<longleftrightarrow>
     (\<forall>a \<in> set (attempt_log d). ae_outbox_id a \<in> outbox_id ` set (outbox d))
     \<and> (\<forall>l \<in> set (ledger d). (led_tenant_id l, led_evaluation_id l)
          \<in> (\<lambda>r. (ob_tenant_id r, ob_evaluation_id r)) ` set (outbox d))"

definition history_ok :: "alert_db \<Rightarrow> bool" where
  "history_ok d \<longleftrightarrow>
     keyed alert_evaluation_id (evaluations d)
     \<and> (\<forall>e \<in> set (evaluations d). alert_evaluation_id e \<le> evaluation_seq d \<and> evaluation_checks e)"

definition alert_inv :: "alert_db \<Rightarrow> bool" where
  "alert_inv d \<longleftrightarrow> history_ok d \<and> outbox_keys d \<and> references_ok d
     \<and> (\<forall>r \<in> set (outbox d). intent_ok d r \<and> log_ok d r \<and> ledger_ok d r)"

lemma alert_inv_row:
  assumes "alert_inv d" and "r \<in> set (outbox d)"
  shows "outbox_checks r" "outbox_id r \<le> outbox_seq d" "budget_ok r" "log_ok d r" "ledger_ok d r"
    and "evaluation_matches d (ob_evaluation_id r) (ob_tenant_id r) (ob_fingerprint r) (ob_transition r)"
  using assms by (auto simp: alert_inv_def intent_ok_def)

lemma outbox_id_unique:
  assumes "outbox_keys d" and "r \<in> set (outbox d)" and "s \<in> set (outbox d)"
  shows "outbox_id r = outbox_id s \<longleftrightarrow> r = s"
    and "ob_tenant_id r = ob_tenant_id s \<and> ob_evaluation_id r = ob_evaluation_id s \<longleftrightarrow> r = s"
  using assms by (auto simp: outbox_keys_def distinct_map inj_on_def)

subsection \<open>Guarded updates\<close>

definition row_before :: "OutboxRow \<Rightarrow> OutboxRow \<Rightarrow> bool" where
  "row_before r r' \<longleftrightarrow>
     same_intent r r' \<and> attempt_count r \<le> attempt_count r' \<and> redrive_count r \<le> redrive_count r'
     \<and> (ob_state r = DELIVERED \<longrightarrow> r' = r)
     \<and> (attempt_count r' = attempt_count r \<and> ob_state r' = IN_FLIGHT \<longrightarrow> r' = r)"

lemma row_before_refl [simp]: "row_before r r"
  by (simp add: row_before_def same_intent_def)

lemma row_before_trans: "row_before r s \<Longrightarrow> row_before s t \<Longrightarrow> row_before r t"
  unfolding row_before_def same_intent_def by (cases "ob_state t = IN_FLIGHT") auto

lemma guard_row_before: "guard_outbox_update d r r' \<Longrightarrow> row_before r r'"
  by (cases "ob_state r"; cases "ob_state r'")
     (auto simp: guard_outbox_update_def row_before_def lease_guard_def)

lemma update_outbox_cases:
  assumes "update_outbox P f d = (res, d')"
  obtains "res = Inl (DatabaseError ''constraint violation'')" and "d' = d"
    and "\<exists>r \<in> set (outbox d). P r \<and> \<not> (guard_outbox_update d r (f r) \<and> outbox_checks (f r))"
  | "res = Inr (map f (filter P (outbox d)))" and "d' = d\<lparr>outbox := update_where P f (outbox d)\<rparr>"
    and "\<And>r. r \<in> set (outbox d) \<Longrightarrow> P r \<Longrightarrow> guard_outbox_update d r (f r) \<and> outbox_checks (f r)"
proof (cases "\<forall>r \<in> set (filter P (outbox d)). guard_outbox_update d r (f r) \<and> outbox_checks (f r)")
  case True
  then have ok: "guard_outbox_update d r (f r) \<and> outbox_checks (f r)"
    if "r \<in> set (outbox d)" "P r" for r using that by simp
  from True assms have "res = Inr (map f (filter P (outbox d)))"
    "d' = d\<lparr>outbox := update_where P f (outbox d)\<rparr>"
    unfolding update_outbox_def Let_def by (simp_all add: returnE_def)
  then show thesis by (rule that(2)) (rule ok)
next
  case False
  then have bad: "\<exists>r \<in> set (outbox d). P r \<and> \<not> (guard_outbox_update d r (f r) \<and> outbox_checks (f r))"
    by auto
  from False assms have "res = Inl (DatabaseError ''constraint violation'')" "d' = d"
    unfolding update_outbox_def Let_def by (simp_all only: if_False refused_def raiseE_def prod.inject)
  then show thesis by (rule that(1)) (rule bad)
qed

lemma ledger_row_outbox [simp]: "ledger_row (d\<lparr>outbox := rows\<rparr>) r = ledger_row d r"
  by (simp add: ledger_row_def)

lemma outbox_changed [simp]:
  "log_ok (d\<lparr>outbox := rows\<rparr>) r = log_ok d r"
  "ledger_ok (d\<lparr>outbox := rows\<rparr>) r = ledger_ok d r"
  "evaluation_matches (d\<lparr>outbox := rows\<rparr>) eid tenant fp tr = evaluation_matches d eid tenant fp tr"
  by (simp add: log_ok_def, simp only: ledger_ok_def ledger_row_outbox, simp add: evaluation_matches_def)

text \<open>
  An update of rows that leaves their identities alone keeps the invariant as soon as every
  updated row is again fine on its own.
\<close>

lemma alert_inv_update:
  assumes inv: "alert_inv d"
    and same: "\<And>r. r \<in> set (outbox d) \<Longrightarrow> P r \<Longrightarrow> same_intent r (f r)"
    and row: "\<And>r. r \<in> set (outbox d) \<Longrightarrow> P r \<Longrightarrow>
        outbox_checks (f r) \<and> budget_ok (f r) \<and> log_ok d (f r) \<and> ledger_ok d (f r)"
  shows "alert_inv (d\<lparr>outbox := update_where P f (outbox d)\<rparr>)"
proof -
  let ?d = "d\<lparr>outbox := update_where P f (outbox d)\<rparr>"
  let ?g = "\<lambda>r. if P r then f r else r"
  have g: "same_intent r (?g r)" if "r \<in> set (outbox d)" for r
    using same [OF that] by (simp add: same_intent_def)
  have map1: "map outbox_id (outbox ?d) = map outbox_id (outbox d)"
    and map2: "map (\<lambda>r. (ob_tenant_id r, ob_evaluation_id r)) (outbox ?d)
      = map (\<lambda>r. (ob_tenant_id r, ob_evaluation_id r)) (outbox d)"
    using g by (simp_all add: update_where_def comp_def same_intent_def cong: map_cong)
  have sets: "outbox_id ` set (outbox ?d) = outbox_id ` set (outbox d)"
    "(\<lambda>r. (ob_tenant_id r, ob_evaluation_id r)) ` set (outbox ?d)
      = (\<lambda>r. (ob_tenant_id r, ob_evaluation_id r)) ` set (outbox d)"
    using arg_cong [OF map1, of set] arg_cong [OF map2, of set] by simp_all
  have "intent_ok ?d r \<and> log_ok ?d r \<and> ledger_ok ?d r" if "r \<in> set (outbox ?d)" for r
  proof -
    from that obtain x where x: "x \<in> set (outbox d)" "r = ?g x" by (auto simp: set_update_where)
    note xr = alert_inv_row [OF inv x(1)]
    have si: "same_intent x r" using g [OF x(1)] x(2) by simp
    have ok: "outbox_checks r \<and> budget_ok r \<and> log_ok d r \<and> ledger_ok d r"
      using xr row [OF x(1)] x(2) by auto
    from si ok xr(2,6) show ?thesis by (simp add: intent_ok_def same_intent_def)
  qed
  with inv map1 map2 sets show ?thesis
    by (simp add: alert_inv_def history_ok_def outbox_keys_def references_ok_def)
qed

subsection \<open>Leases and re-drives\<close>

lemma take_lease_ok:
  assumes inv: "alert_inv d" and r: "r \<in> set (outbox d)" and d: "due now r"
  shows "same_intent r (take_lease w now t r)" "budget_ok (take_lease w now t r)"
    "log_ok d (take_lease w now t r)" "ledger_ok d (take_lease w now t r)"
proof -
  note row = alert_inv_row [OF inv r]
  show "same_intent r (take_lease w now t r)" by (simp add: same_intent_def take_lease_def)
  from d row(3) show "budget_ok (take_lease w now t r)"
    by (auto simp: budget_ok_def take_lease_def due_def)
  from row(4) show "log_ok d (take_lease w now t r)"
    by (fastforce simp: log_ok_def take_lease_def)
  from d row(5) show "ledger_ok d (take_lease w now t r)"
    by (auto simp: ledger_ok_def take_lease_def due_def ledger_row_def ledger_identity_def split: if_splits)
qed

lemma lease_candidates_due:
  "r \<in> set (lease_candidates now batch locked rows) \<Longrightarrow> r \<in> set rows \<and> due now r"
  unfolding lease_candidates_def by (drule in_set_takeD) simp

lemma leased_rows_due:
  assumes "outbox_keys d" and "r \<in> set (outbox d)"
    and "outbox_id r \<in> set (map outbox_id (lease_candidates now batch locked (outbox d)))"
  shows "due now r"
proof -
  from assms(3) obtain x where x: "x \<in> set (lease_candidates now batch locked (outbox d))"
    "outbox_id x = outbox_id r" by auto
  from lease_candidates_due [OF x(1)] outbox_id_unique(1) [OF assms(1)] x(2) assms(2)
  show ?thesis by auto
qed

lemma atomically_same:
  assumes "m d = (res, d')" and "\<And>e. res = Inl e \<Longrightarrow> d' = d"
  shows "atomically m d = (res, d')"
  using assms by (cases res) (auto simp: atomically_def)

text \<open>What a lease leaves behind: a refusal, or the due rows it took.\<close>

lemma lease_cases:
  assumes "lease w now secs batch locked d = (res, d')"
  obtains e where "res = Inl e" and "d' = d"
  | "res = Inr []" and "d' = d"
  | ids where "ids = map outbox_id (lease_candidates now batch locked (outbox d))"
    and "d' = d\<lparr>outbox := update_where (\<lambda>r. outbox_id r \<in> set ids)
          (take_lease w now (now + timedelta_us secs)) (outbox d)\<rparr>"
    and "res = Inr (map (leased_of w (now + timedelta_us secs)) (sort_key outbox_id
          (map (take_lease w now (now + timedelta_us secs)) (filter (\<lambda>r. outbox_id r \<in> set ids) (outbox d)))))"
    and "\<And>r. r \<in> set (outbox d) \<Longrightarrow> outbox_id r \<in> set ids \<Longrightarrow>
          guard_outbox_update d r (take_lease w now (now + timedelta_us secs) r)
          \<and> outbox_checks (take_lease w now (now + timedelta_us secs) r)"
proof -
  let ?ids = "map outbox_id (lease_candidates now batch locked (outbox d))"
  let ?f = "take_lease w now (now + timedelta_us secs)"
  consider (bad) "w = [] \<or> batch < 1" | (none) "w \<noteq> []" "1 \<le> batch" "?ids = []"
    | (some) "w \<noteq> []" "1 \<le> batch" "?ids \<noteq> []" by linarith
  then show thesis
  proof cases
    case bad
    with assms show thesis by (auto simp: lease_def raiseE_def intro: that(1) split: if_splits)
  next
    case none
    with assms show thesis
      by (intro that(2)) (auto simp: lease_def atomically_def returnE_def Let_def)
  next
    case some
    obtain r1 d1 where u: "update_outbox (\<lambda>r. outbox_id r \<in> set ?ids) ?f d = (r1, d1)" by force
    from u show thesis
    proof (cases rule: update_outbox_cases)
      case 1
      with some assms u show thesis
        by (intro that(1)) (auto simp: lease_def atomically_def bindE_def Let_def)
    next
      case 2
      with some assms u show thesis
        by (intro that(3) [OF refl]) (auto simp: lease_def atomically_def bindE_def returnE_def Let_def)
    qed
  qed
qed

lemma lease_inv:
  assumes inv: "alert_inv d"
  shows "alert_inv (snd (lease w now secs batch locked d))"
proof -
  obtain res d' where l: "lease w now secs batch locked d = (res, d')" by force
  from l show ?thesis
  proof (cases rule: lease_cases)
    case (3 ids)
    have due: "due now r" if "r \<in> set (outbox d)" "outbox_id r \<in> set ids" for r
      using leased_rows_due [OF _ that(1)] that(2) 3(1) inv by (simp add: alert_inv_def)
    have "alert_inv d'"
      unfolding 3(2) by (rule alert_inv_update [OF inv]) (use due take_lease_ok [OF inv] 3(4) in auto)
    with l show ?thesis by simp
  qed (use l inv in simp_all)
qed

lemma redrive_cases:
  assumes "redrive p oid now add d = (res, d')"
  obtains e where "res = Inl e" and "d' = d"
  | r where "res = Inr ()" and "r \<in> set (outbox d)" and "outbox_visible p oid r" and "ob_state r = DEAD_LETTER"
    and "attempt_count r < min (attempt_count r + add) MAX_ATTEMPT_CEILING"
    and "d' = d\<lparr>outbox := update_where (\<lambda>x. outbox_visible p oid x \<and> ob_state x = DEAD_LETTER)
           (redriven (min (attempt_count r + add) MAX_ATTEMPT_CEILING) now) (outbox d)\<rparr>"
    and "\<And>x. x \<in> set (outbox d) \<Longrightarrow> outbox_visible p oid x \<and> ob_state x = DEAD_LETTER \<Longrightarrow>
           guard_outbox_update d x (redriven (min (attempt_count r + add) MAX_ATTEMPT_CEILING) now x)
           \<and> outbox_checks (redriven (min (attempt_count r + add) MAX_ATTEMPT_CEILING) now x)"
proof (cases "select_one (outbox_visible p oid) (outbox d)")
  case None
  with assms show thesis
    by (auto simp: redrive_def atomically_def raiseE_def intro: that(1) split: if_splits)
next
  case (Some r)
  let ?c = "min (attempt_count r + add) MAX_ATTEMPT_CEILING"
  let ?P = "\<lambda>x. outbox_visible p oid x \<and> ob_state x = DEAD_LETTER"
  obtain r1 d1 where u: "update_outbox ?P (redriven ?c now) d = (r1, d1)" by force
  consider (bad) "add < 1 \<or> ob_state r \<noteq> DEAD_LETTER \<or> ?c \<le> attempt_count r"
    | (good) "1 \<le> add" "ob_state r = DEAD_LETTER" "attempt_count r < ?c" by linarith
  then show thesis
  proof cases
    case bad
    with Some assms show thesis
      by (auto simp: redrive_def atomically_def raiseE_def Let_def intro: that(1) split: if_splits)
  next
    case good
    have run: "redrive p oid now add d = atomically (bindE (update_outbox ?P (redriven ?c now)) (\<lambda>_. returnE ())) d"
      using good Some by (auto simp: redrive_def atomically_def Let_def min_le_iff_disj)
    from u show thesis
    proof (cases rule: update_outbox_cases)
      case 1
      with run u assms have "res = Inl (DatabaseError ''constraint violation'')" "d' = d"
        by (simp_all add: atomically_def bindE_def)
      then show thesis by (rule that(1))
    next
      case 2
      with run u assms have "res = Inr ()"
        "d' = d\<lparr>outbox := update_where ?P (redriven ?c now) (outbox d)\<rparr>"
        by (simp_all add: atomically_def bindE_def returnE_def)
      with select_one_SomeD [OF Some] good 2(3) show thesis by (intro that(2) [of r]) auto
    qed
  qed
qed

lemma redrive_inv:
  assumes inv: "alert_inv d"
  shows "alert_inv (snd (redrive p oid now add d))"
proof -
  obtain res d' where e: "redrive p oid now add d = (res, d')" by force
  from e show ?thesis
  proof (cases rule: redrive_cases)
    case (2 r)
    let ?c = "min (attempt_count r + add) MAX_ATTEMPT_CEILING"
    have only: "x = r" if "x \<in> set (outbox d)" "outbox_visible p oid x" for x
      using outbox_id_unique(1) [of d x r] that 2(2,3) inv by (auto simp: outbox_visible_def alert_inv_def)
    note row = alert_inv_row [OF inv 2(2)]
    have "budget_ok (redriven ?c now r)" "log_ok d (redriven ?c now r)" "ledger_ok d (redriven ?c now r)"
      using row 2(4,5)
      by (auto simp: budget_ok_def redriven_def log_ok_def ledger_ok_def ledger_row_def ledger_identity_def
          outbox_checks_def)
    moreover have "same_intent r (redriven ?c now r)" by (simp add: same_intent_def redriven_def)
    ultimately have "alert_inv d'"
      unfolding 2(6) by (intro alert_inv_update [OF inv]) (use only 2(7) in auto)
    with e show ?thesis by simp
  qed (use e inv in simp_all)
qed

subsection \<open>Outcomes\<close>

lemma bind_return: "bindE (returnE x) f = f x"
  by (simp add: bindE_def returnE_def fun_eq_iff)

text \<open>The transaction the three outcomes share.\<close>

definition outcome_tx ::
  "LeasedDelivery \<Rightarrow> AttemptOutcome \<Rightarrow> int option \<Rightarrow> string option \<Rightarrow> int \<Rightarrow> int \<Rightarrow> DeliveryStatus option
   \<Rightarrow> OutboxState \<Rightarrow> int option \<Rightarrow> int option \<Rightarrow> (alert_db, unit) comp"
where
  "outcome_tx l out http err started dn led st nxt fin =
     bindE (append_attempt_event l out http err started dn) (\<lambda>_.
     bindE (case led of None \<Rightarrow> returnE () | Some s \<Rightarrow> write_terminal_ledger l s http err dn) (\<lambda>_.
     outbox_transition l st nxt http err fin dn))"

lemma record_delivered_tx:
  "record_delivered l http started dn = (if \<not> (200 \<le> http \<and> http < 300) then
      raiseE (ValueError ''record_delivered requires a 2xx status'')
    else atomically (outcome_tx l Out_delivered (Some http) None started dn (Some St_delivered)
           DELIVERED None (Some dn)))"
  by (simp add: record_delivered_def outcome_tx_def)

lemma record_retry_tx:
  "record_retry l out http err started dn base = (if out \<notin> {Out_retryable, Out_ambiguous} then
      raiseE (ValueError ''record_retry accepts only retryable or ambiguous outcomes'')
    else if is_final_attempt l then
      raiseE (ConflictError ''OUTBOX_RETRY_BUDGET_EXHAUSTED''
        ''Retry budget is exhausted; record a dead letter instead'')
    else bindE (liftE (backoff_delay_seconds (ld_attempt_number l) base DEFAULT_BACKOFF_CAP_SECONDS)) (\<lambda>delay.
      bindE (atomically (outcome_tx l out http (Some err) started dn None PENDING
               (Some (dn + timedelta_us delay)) None)) (\<lambda>_. returnE (dn + timedelta_us delay))))"
  by (simp add: record_retry_def outcome_tx_def Let_def bind_return)

lemma record_dead_letter_tx:
  "record_dead_letter l out http err started dn = (if out = Out_delivered then
      raiseE (ValueError ''record_dead_letter requires a failure or ambiguous outcome'')
    else atomically (outcome_tx l out http (Some err) started dn (Some St_failed)
           DEAD_LETTER None (Some dn)))"
  by (simp add: record_dead_letter_def outcome_tx_def)

definition counters :: "nat \<Rightarrow> nat \<Rightarrow> alert_db \<Rightarrow> bool" where
  "counters i j d \<longleftrightarrow> evaluation_seq d = i \<and> outbox_seq d = j"

lemma counters_outcome: "preserves (counters i j) (outcome_tx l out http err st dn led s nxt fin)"
proof -
  have append: "preserves (counters i j) (append_attempt_event l out http err st dn)"
    by (auto simp: preserves_def append_attempt_event_def Let_def counters_def refused_def comp_defs)
  have up: "preserves (counters i j) (update_outbox P f)" for P f
    by (auto simp: preserves_def update_outbox_def Let_def counters_def refused_def comp_defs)
  have ins: "preserves (counters i j) (insert_ledger r)" for r
    by (auto simp: preserves_def insert_ledger_def counters_def refused_def comp_defs)
  have fin: "preserves (counters i j) (complete_ledger t e f)" for t e f
    by (auto simp: preserves_def complete_ledger_def Let_def counters_def refused_def comp_defs)
  show ?thesis
    unfolding outcome_tx_def write_terminal_ledger_def outbox_transition_def
    by (auto intro!: preserves_bind append up ins fin split: option.split)
qed

lemma atomically_outcome:
  "atomically (outcome_tx l out http err st dn led s nxt fin) d =
    (case outcome_tx l out http err st dn led s nxt fin d of
       (Inl e, _) \<Rightarrow> (Inl e, d) | (Inr x, d') \<Rightarrow> (Inr x, d'))"
  using preservesD [OF counters_outcome, of "evaluation_seq d" "outbox_seq d" d l out http err st dn led s nxt fin]
  by (auto simp: atomically_def counters_def split: prod.splits sum.splits)

text \<open>What the steps of a successful outcome did.\<close>

lemma append_attempt_ok:
  assumes "append_attempt_event l out http err started dn d = (Inr u, d')"
    and "\<And>r. r \<in> set (outbox d) \<Longrightarrow> log_ok d r" and "outbox_keys d"
  obtains r where "r \<in> set (outbox d)" and "active_attempt l r"
    and "ob_tenant_id r = ld_tenant_id l" and "ob_evaluation_id r = ld_evaluation_id l"
    and "ob_key r = ld_key l" and "attempt_checks (attempt_event l out http err started dn)"
    and "d' = d\<lparr>attempt_log := attempt_log d @ [attempt_event l out http err started dn]\<rparr>"
proof -
  let ?a = "attempt_event l out http err started dn"
  from assms(1) have some: "select_one (active_attempt l) (outbox d) \<noteq> None"
    and g: "guard_attempt_insert d ?a" and c: "attempt_checks ?a"
    by (auto simp: append_attempt_event_def Let_def refused_def comp_defs split: if_splits)
  from some obtain r where r: "r \<in> set (outbox d)" "active_attempt l r"
    using select_one_SomeD [of "active_attempt l" "outbox d"] by auto
  from g obtain x where x: "select_one (\<lambda>r. outbox_id r = ld_outbox_id l) (outbox d) = Some x"
    "ob_tenant_id x = ld_tenant_id l" "ob_evaluation_id x = ld_evaluation_id l" "ob_key x = ld_key l"
    by (auto simp: guard_attempt_insert_def attempt_event_def split: option.splits)
  from r(2) select_one_SomeD [OF x(1)] have "x \<in> set (outbox d)" "outbox_id r = outbox_id x"
    by (auto simp: active_attempt_def)
  with outbox_id_unique(1) [OF assms(3) r(1)] have "x = r" by blast
  moreover from assms(2) [OF r(1)] r(2)
  have "\<not> (\<exists>b \<in> set (attempt_log d). ae_outbox_id b = ae_outbox_id ?a \<and> ae_number b = ae_number ?a)"
    by (auto simp: log_ok_def active_attempt_def attempt_event_def)
  then have "append_attempt_event l out http err started dn d
      = returnE () (d\<lparr>attempt_log := attempt_log d @ [?a]\<rparr>)"
    unfolding append_attempt_event_def Let_def by (simp only: some g c simp_thms if_False)
  then have "d' = d\<lparr>attempt_log := attempt_log d @ [?a]\<rparr>"
    using assms(1) by (simp add: returnE_def)
  ultimately show thesis using that [OF r] x(2-4) c by simp
qed

definition ledger_key :: "LedgerRow \<Rightarrow> string \<times> nat" where
  "ledger_key l = (led_tenant_id l, led_evaluation_id l)"

lemma ledger_of_key: "ledger_of t e l \<longleftrightarrow> ledger_key l = (t, e)"
  by (auto simp: ledger_of_def ledger_key_def)

lemma insert_ledger_ok:
  assumes "insert_ledger row d = (Inr b, d')"
  obtains rows where "d' = d\<lparr>ledger := rows\<rparr>" and "rows = ledger d \<or> rows = ledger d @ [row]"
  using assms that [of "ledger d"] that [of "ledger d @ [row]"]
  by (auto simp: insert_ledger_def refused_def comp_defs split: if_splits)

lemma complete_ledger_ok:
  assumes "complete_ledger t e f d = (Inr b, d')"
  shows "d' = d\<lparr>ledger := update_where (\<lambda>r. ledger_of t e r \<and> led_status r = St_claimed) f (ledger d)\<rparr>"
  using assms by (auto simp: complete_ledger_def Let_def refused_def comp_defs split: if_splits)

lemma write_terminal_ledger_ok:
  assumes "write_terminal_ledger l st http err dn d = (Inr u, d')"
  obtains rows where "d' = d\<lparr>ledger := rows\<rparr>"
    and "\<And>t e. (t, e) \<noteq> (ld_tenant_id l, ld_evaluation_id l) \<Longrightarrow>
           select_one (ledger_of t e) rows = select_one (ledger_of t e) (ledger d)"
    and "ledger_key ` set rows \<subseteq> insert (ld_tenant_id l, ld_evaluation_id l) (ledger_key ` set (ledger d))"
proof -
  let ?row = "claimed_ledger_row l dn"
  let ?f = "finish_ledger st (ld_attempt_number l) http err dn"
  let ?P = "\<lambda>r. ledger_of (ld_tenant_id l) (ld_evaluation_id l) r \<and> led_status r = St_claimed"
  from assms obtain b1 d1 b2 where i: "insert_ledger ?row d = (Inr b1, d1)"
    and c: "complete_ledger (ld_tenant_id l) (ld_evaluation_id l) ?f d1 = (Inr b2, d')"
    by (auto simp: write_terminal_ledger_def comp_defs split: prod.splits sum.splits)
  from i obtain rows where rows: "d1 = d\<lparr>ledger := rows\<rparr>" "rows = ledger d \<or> rows = ledger d @ [?row]"
    by (rule insert_ledger_ok)
  have d': "d' = d\<lparr>ledger := update_where ?P ?f rows\<rparr>"
    using complete_ledger_ok [OF c] rows(1) by simp
  have key: "ledger_key (?f r) = ledger_key r" for r by (simp add: ledger_key_def finish_ledger_def)
  have new: "ledger_key ?row = (ld_tenant_id l, ld_evaluation_id l)"
    by (simp add: ledger_key_def claimed_ledger_row_def)
  show thesis
  proof (rule that [OF d'])
    fix t e assume other: "(t, e) \<noteq> (ld_tenant_id l, ld_evaluation_id l)"
    have "select_one (ledger_of t e) (update_where ?P ?f rows) = select_one (ledger_of t e) rows"
      by (rule select_one_update_other) (use other key in \<open>auto simp: ledger_of_key\<close>)
    also have "\<dots> = select_one (ledger_of t e) (ledger d)"
      using rows(2) other new by (auto simp: select_one_append ledger_of_key split: option.split)
    finally show "select_one (ledger_of t e) (update_where ?P ?f rows) = select_one (ledger_of t e) (ledger d)" .
  next
    have "map ledger_key (update_where ?P ?f rows) = map ledger_key rows"
      by (rule map_update_where) (rule key)
    then have "ledger_key ` set (update_where ?P ?f rows) = ledger_key ` set rows"
      by (metis set_map)
    with rows(2) new show "ledger_key ` set (update_where ?P ?f rows)
        \<subseteq> insert (ld_tenant_id l, ld_evaluation_id l) (ledger_key ` set (ledger d))" by auto
  qed
qed

lemma outbox_transition_ok:
  assumes "outbox_transition l st nxt http err fin now d = (Inr u, d')"
  shows "d' = d\<lparr>outbox := update_where (owned_by l) (apply_outcome st nxt http err fin now) (outbox d)\<rparr>"
    and "\<And>r. r \<in> set (outbox d) \<Longrightarrow> owned_by l r \<Longrightarrow>
          guard_outbox_update d r (apply_outcome st nxt http err fin now r)
          \<and> outbox_checks (apply_outcome st nxt http err fin now r)"
proof -
  let ?f = "apply_outcome st nxt http err fin now"
  obtain r1 d1 where u: "update_outbox (owned_by l) ?f d = (r1, d1)" by force
  have "d' = d\<lparr>outbox := update_where (owned_by l) ?f (outbox d)\<rparr>
      \<and> (\<forall>r \<in> set (outbox d). owned_by l r \<longrightarrow> guard_outbox_update d r (?f r) \<and> outbox_checks (?f r))"
    using u
  proof (cases rule: update_outbox_cases)
    case 1
    with assms u show ?thesis by (simp add: outbox_transition_def bindE_def)
  next
    case 2
    with assms u show ?thesis by (auto simp: outbox_transition_def comp_defs split: if_splits)
  qed
  then show "d' = d\<lparr>outbox := update_where (owned_by l) ?f (outbox d)\<rparr>"
    and "\<And>r. r \<in> set (outbox d) \<Longrightarrow> owned_by l r \<Longrightarrow> guard_outbox_update d r (?f r) \<and> outbox_checks (?f r)"
    by auto
qed

end
