(* ===== verification/AlertHistory.thy ===== *)
theory AlertHistory
  imports AlertInvariants
begin

section \<open>Every operation keeps the alert invariant and only extends the history\<close>

text \<open>
  The invariant of \<open>AlertInvariants\<close> through outcomes and recordings, the order \<open>alert_before\<close>
  between an earlier and a later alert database, and the interpretation of the operation-sequence
  contracts of the prelude on both.
\<close>

subsection \<open>Outcomes keep the invariant\<close>

text \<open>What a successful outcome did to the tables, in one place.\<close>

lemma outcome_tx_ok:
  assumes inv: "alert_inv d"
    and run: "outcome_tx l out http err started dn led st nxt fin d = (Inr u, d')"
  obtains r rows where "r \<in> set (outbox d)" and "active_attempt l r"
    and "\<And>x. x \<in> set (outbox d) \<Longrightarrow> owned_by l x \<longleftrightarrow> x = r"
    and "ob_tenant_id r = ld_tenant_id l" and "ob_evaluation_id r = ld_evaluation_id l"
    and "d' = d\<lparr>attempt_log := attempt_log d @ [attempt_event l out http err started dn],
              ledger := rows,
              outbox := update_where (owned_by l) (apply_outcome st nxt http err fin dn) (outbox d)\<rparr>"
    and "led = None \<Longrightarrow> rows = ledger d"
    and "\<And>t e. (t, e) \<noteq> (ob_tenant_id r, ob_evaluation_id r) \<Longrightarrow>
           select_one (ledger_of t e) rows = select_one (ledger_of t e) (ledger d)"
    and "ledger_key ` set rows \<subseteq> insert (ob_tenant_id r, ob_evaluation_id r) (ledger_key ` set (ledger d))"
    and "guard_outbox_update (d\<lparr>attempt_log := attempt_log d @ [attempt_event l out http err started dn],
            ledger := rows\<rparr>) r (apply_outcome st nxt http err fin dn r)"
    and "outbox_checks (apply_outcome st nxt http err fin dn r)"
    and "attempt_checks (attempt_event l out http err started dn)"
proof -
  let ?a = "attempt_event l out http err started dn"
  let ?f = "apply_outcome st nxt http err fin dn"
  from run obtain u1 d1 u2 d2 where s1: "append_attempt_event l out http err started dn d = (Inr u1, d1)"
    and s2: "(case led of None \<Rightarrow> returnE () | Some s \<Rightarrow> write_terminal_ledger l s http err dn) d1 = (Inr u2, d2)"
    and s3: "outbox_transition l st nxt http err fin dn d2 = (Inr (), d')"
    by (auto simp: outcome_tx_def bindE_def split: prod.splits sum.splits)
  have keys: "outbox_keys d" and log: "\<And>r. r \<in> set (outbox d) \<Longrightarrow> log_ok d r"
    using inv by (auto simp: alert_inv_def)
  from s1 log keys obtain r where r: "r \<in> set (outbox d)" "active_attempt l r"
    "ob_tenant_id r = ld_tenant_id l" "ob_evaluation_id r = ld_evaluation_id l"
    and c: "attempt_checks ?a" and d1: "d1 = d\<lparr>attempt_log := attempt_log d @ [?a]\<rparr>"
    by (rule append_attempt_ok)
  have "\<exists>rows. d2 = d1\<lparr>ledger := rows\<rparr> \<and> (led = None \<longrightarrow> rows = ledger d)
      \<and> (\<forall>t e. (t, e) \<noteq> (ld_tenant_id l, ld_evaluation_id l) \<longrightarrow>
           select_one (ledger_of t e) rows = select_one (ledger_of t e) (ledger d))
      \<and> ledger_key ` set rows \<subseteq> insert (ld_tenant_id l, ld_evaluation_id l) (ledger_key ` set (ledger d))"
  proof (cases led)
    case None
    with s2 d1 show ?thesis by (intro exI [of _ "ledger d"]) (auto simp: returnE_def)
  next
    case (Some s)
    with s2 have w: "write_terminal_ledger l s http err dn d1 = (Inr u2, d2)" by simp
    from w show ?thesis
    proof (cases rule: write_terminal_ledger_ok)
      case (1 rows)
      with Some d1 show ?thesis by (intro exI [of _ rows]) auto
    qed
  qed
  then obtain rows where d2: "d2 = d1\<lparr>ledger := rows\<rparr>" and rows: "led = None \<Longrightarrow> rows = ledger d"
      "\<And>t e. (t, e) \<noteq> (ld_tenant_id l, ld_evaluation_id l) \<Longrightarrow>
           select_one (ledger_of t e) rows = select_one (ledger_of t e) (ledger d)"
      "ledger_key ` set rows \<subseteq> insert (ld_tenant_id l, ld_evaluation_id l) (ledger_key ` set (ledger d))"
    by blast
  have own: "owned_by l x \<longleftrightarrow> x = r" if "x \<in> set (outbox d)" for x
    using outbox_id_unique(1) [OF keys that r(1)] r(2,3) by (auto simp: owned_by_def active_attempt_def)
  have box: "outbox d2 = outbox d" using d1 d2 by simp
  from outbox_transition_ok(2) [OF s3, of r] r(1) own [OF r(1)] box
  have "guard_outbox_update d2 r (?f r)" "outbox_checks (?f r)" by auto
  moreover have "d' = d2\<lparr>outbox := update_where (owned_by l) ?f (outbox d2)\<rparr>"
    by (rule outbox_transition_ok(1) [OF s3])
  ultimately show thesis
    by (intro that [of r rows]) (use r c rows own box d1 d2 in simp_all)
qed

lemma outcome_tx_inv:
  assumes inv: "alert_inv d"
    and run: "outcome_tx l out http err started dn led st nxt fin d = (Inr u, d')"
    and final: "st = DELIVERED \<or> st = DEAD_LETTER \<or> st = PENDING \<and> led = None"
  shows "alert_inv d'"
proof -
  let ?a = "attempt_event l out http err started dn"
  let ?f = "apply_outcome st nxt http err fin dn"
  from inv run show ?thesis
  proof (cases rule: outcome_tx_ok)
  case (1 r rows)
  note r = 1(1,2) and own = 1(3) and d' = 1(6) and same = 1(7) and others = 1(8) and keys = 1(9)
    and g = 1(10) and c = 1(11)
  let ?d = "d\<lparr>attempt_log := attempt_log d @ [?a], ledger := rows\<rparr>"
  let ?g = "\<lambda>x. if owned_by l x then ?f x else x"
  have k: "outbox_keys d" using inv by (simp add: alert_inv_def)
  note row = alert_inv_row [OF inv r(1)]
  have aid: "ae_outbox_id ?a = outbox_id r" "ae_number ?a = attempt_count r"
    using r(2) by (simp_all add: attempt_event_def active_attempt_def)
  have f: "same_intent x (?f x)" "attempt_count (?f x) = attempt_count x" "ob_state (?f x) = st"
      "redrive_count (?f x) = redrive_count x" "max_attempts (?f x) = max_attempts x" for x
    by (simp_all add: same_intent_def apply_outcome_def)
  have flight: "ob_state r = IN_FLIGHT" using r(2) by (simp add: active_attempt_def)
  have notflight: "st \<noteq> IN_FLIGHT" using final by auto
  from g flight notflight f(3) have og: "outcome_guard ?d r (?f r)"
    by (simp add: guard_outbox_update_def)
  have rx: "budget_ok (?f r)" "log_ok ?d (?f r)" "ledger_ok ?d (?f r)"
  proof -
    from og flight notflight f show "budget_ok (?f r)"
      using row(3) by (auto simp: budget_ok_def outcome_guard_def outcome_allowed_def split: option.splits)
    show "log_ok ?d (?f r)"
      using row(4) f aid notflight by (auto simp: log_ok_def same_intent_def)
    show "ledger_ok ?d (?f r)"
    proof (cases "st = PENDING")
      case True
      with final same have "rows = ledger d" by auto
      with row(5) flight True f show ?thesis
        by (auto simp: ledger_ok_def ledger_row_def ledger_identity_def same_intent_def split: if_splits)
    next
      case False
      with final og flight f have lg: "ledger_guard ?d r (?f r)" by (auto simp: outcome_guard_def)
      have "ledger_of (ob_tenant_id r) (ob_evaluation_id r)
          = (\<lambda>l. led_tenant_id l = ob_tenant_id r \<and> led_evaluation_id l = ob_evaluation_id r)"
        by (simp add: ledger_of_def fun_eq_iff)
      with lg False final f show ?thesis
        by (auto simp: ledger_guard_def ledger_ok_def ledger_row_def ledger_identity_def same_intent_def
            split: option.splits if_splits)
    qed
  qed
  have ox: "log_ok ?d x \<and> ledger_ok ?d x" if "x \<in> set (outbox d)" "x \<noteq> r" for x
  proof -
    note ix = alert_inv_row [OF inv that(1)]
    from outbox_id_unique [OF k r(1) that(1)] that(2)
    have ne: "outbox_id x \<noteq> outbox_id r"
        "(ob_tenant_id x, ob_evaluation_id x) \<noteq> (ob_tenant_id r, ob_evaluation_id r)" by auto
    from ix(4) ne(1) aid have "log_ok ?d x" by (auto simp: log_ok_def)
    moreover from others [OF ne(2)] have "ledger_row ?d x = ledger_row d x" by (simp add: ledger_row_def)
    then have "ledger_ok ?d x" using ix(5) by (simp only: ledger_ok_def)
    ultimately show ?thesis ..
  qed
  have g_same: "same_intent x (?g x)" for x using f(1) by (simp add: same_intent_def)
  have maps: "map outbox_id (outbox d') = map outbox_id (outbox d)"
    "map (\<lambda>r. (ob_tenant_id r, ob_evaluation_id r)) (outbox d') = map (\<lambda>r. (ob_tenant_id r, ob_evaluation_id r)) (outbox d)"
    using g_same by (simp_all add: d' update_where_def comp_def same_intent_def cong: map_cong)
  have sets: "outbox_id ` set (outbox d') = outbox_id ` set (outbox d)"
    "(\<lambda>r. (ob_tenant_id r, ob_evaluation_id r)) ` set (outbox d')
      = (\<lambda>r. (ob_tenant_id r, ob_evaluation_id r)) ` set (outbox d)"
    using arg_cong [OF maps(1), of set] arg_cong [OF maps(2), of set] by simp_all
  have "intent_ok d' y \<and> log_ok d' y \<and> ledger_ok d' y" if y: "y \<in> set (outbox d')" for y
  proof -
    from y obtain x where x: "x \<in> set (outbox d)" "y = ?g x" by (auto simp: d' set_update_where)
    have up: "log_ok d' y = log_ok ?d y" "ledger_ok d' y = ledger_ok ?d y" by (simp_all add: d')
    note ix = alert_inv_row [OF inv x(1)]
    show ?thesis
    proof (cases "x = r")
      case True
      with own x have yr: "y = ?f r" by simp
      from rx c row f(1) [of r] show ?thesis
        unfolding up unfolding yr by (simp add: intent_ok_def same_intent_def d' evaluation_matches_def)
    next
      case False
      with own x have "y = x" by simp
      with ox [OF x(1) False] ix show ?thesis
        unfolding up by (simp add: intent_ok_def d' evaluation_matches_def)
    qed
  qed
  moreover have "references_ok d'"
  proof -
    have "ledger_key ` set rows \<subseteq> (\<lambda>r. (ob_tenant_id r, ob_evaluation_id r)) ` set (outbox d)"
      using keys inv r(1) by (auto simp: alert_inv_def references_ok_def ledger_key_def)
    with inv r(1) aid sets show ?thesis
      by (auto simp: references_ok_def alert_inv_def d' ledger_key_def image_subset_iff)
  qed
  moreover have "history_ok d'" using inv by (simp add: alert_inv_def history_ok_def d')
  moreover have "outbox_keys d'" using k maps by (simp add: outbox_keys_def)
  ultimately show ?thesis by (simp add: alert_inv_def)
  qed
qed

lemma atomically_outcome_inv:
  assumes "alert_inv d" and "st = DELIVERED \<or> st = DEAD_LETTER \<or> st = PENDING \<and> led = None"
  shows "alert_inv (snd (atomically (outcome_tx l out http err started dn led st nxt fin) d))"
  using assms outcome_tx_inv
  by (auto simp: atomically_outcome split: prod.splits sum.splits)

lemma record_delivered_inv: "alert_inv d \<Longrightarrow> alert_inv (snd (record_delivered l http st dn d))"
  using atomically_outcome_inv by (simp add: record_delivered_tx raiseE_def)

lemma record_dead_letter_inv: "alert_inv d \<Longrightarrow> alert_inv (snd (record_dead_letter l out http err st dn d))"
  using atomically_outcome_inv by (simp add: record_dead_letter_tx raiseE_def)

lemma record_retry_inv: "alert_inv d \<Longrightarrow> alert_inv (snd (record_retry l out http err st dn base d))"
  using atomically_outcome_inv [of d PENDING None]
  by (auto simp: record_retry_tx comp_defs split: prod.splits sum.splits) (metis snd_conv)+

subsection \<open>Recordings\<close>

definition intent_for :: "WebhookOutboxEnqueuer \<Rightarrow> AlertEvaluation \<Rightarrow> int \<Rightarrow> nat \<Rightarrow> OutboxRow" where
  "intent_for q ev now oid =
     new_intent oid (alr_tenant_id ev) (alert_evaluation_id ev) (alr_fingerprint ev) (alr_transition ev)
       (enq_host q) (webhook_payload ev) (canonical_hash (webhook_payload ev)) now (enq_max_attempts q)"

lemma enqueue_cases:
  assumes "enqueue q ev now d = (res, d')"
  obtains (refused) e where "res = Inl e"
  | (silent) "\<not> should_notify ev" and "res = Inr None" and "d' = d"
  | (present) "should_notify ev" and "res = Inr None" and "d' = d\<lparr>outbox_seq := outbox_seq d + 1\<rparr>"
    and "\<exists>x \<in> set (outbox d). ob_tenant_id x = alr_tenant_id ev \<and> ob_evaluation_id x = alert_evaluation_id ev"
  | (added) "should_notify ev" and "res = Inr (Some (outbox_seq d + 1))"
    and "guard_outbox_insert d (intent_for q ev now (outbox_seq d + 1))"
    and "outbox_checks (intent_for q ev now (outbox_seq d + 1))"
    and "\<forall>x \<in> set (outbox d). \<not> (ob_tenant_id x = alr_tenant_id ev \<and> ob_evaluation_id x = alert_evaluation_id ev)"
    and "d' = d\<lparr>outbox_seq := outbox_seq d + 1, outbox := outbox d @ [intent_for q ev now (outbox_seq d + 1)]\<rparr>"
proof (cases "should_notify ev")
  case False
  with assms have "res = Inr None" "d' = d" by (auto simp: enqueue_def returnE_def)
  with silent False show thesis by blast
next
  case True
  let ?oid = "outbox_seq d + 1"
  let ?q = "intent_for q ev now ?oid" and ?P = "intent_of (alr_tenant_id ev) (alert_evaluation_id ev)"
  have run: "(res, d') =
      (if enq_max_attempts q < 1 \<or> enq_max_attempts q > MAX_ATTEMPT_CEILING then
         raiseE (ValueError ''max_attempts is outside the allowed bound'') d
       else if \<not> guard_outbox_insert d ?q \<or> \<not> outbox_checks ?q then AlertTables.refused (d\<lparr>outbox_seq := ?oid\<rparr>)
       else if select_one ?P (outbox d) \<noteq> None then returnE None (d\<lparr>outbox_seq := ?oid\<rparr>)
       else if \<exists>x \<in> set (outbox d). ob_tenant_id x = alr_tenant_id ev \<and> ob_key x = ob_key ?q
         then AlertTables.refused (d\<lparr>outbox_seq := ?oid\<rparr>)
       else returnE (Some ?oid) (d\<lparr>outbox_seq := ?oid, outbox := outbox d @ [?q]\<rparr>))"
    unfolding assms [symmetric] enqueue_def enqueue_in_transaction_def Let_def intent_for_def
    using True by simp
  consider (limit) "enq_max_attempts q < 1 \<or> enq_max_attempts q > MAX_ATTEMPT_CEILING"
    | (bad) "\<not> guard_outbox_insert d ?q \<or> \<not> outbox_checks ?q"
    | (found) x where "select_one ?P (outbox d) = Some x" "\<not> (enq_max_attempts q < 1 \<or> enq_max_attempts q > MAX_ATTEMPT_CEILING)"
        "\<not> (\<not> guard_outbox_insert d ?q \<or> \<not> outbox_checks ?q)"
    | (key) "select_one ?P (outbox d) = None" "\<exists>x \<in> set (outbox d). ob_tenant_id x = alr_tenant_id ev \<and> ob_key x = ob_key ?q"
    | (new) "select_one ?P (outbox d) = None"
        "\<not> (\<exists>x \<in> set (outbox d). ob_tenant_id x = alr_tenant_id ev \<and> ob_key x = ob_key ?q)"
        "\<not> (enq_max_attempts q < 1 \<or> enq_max_attempts q > MAX_ATTEMPT_CEILING)"
        "guard_outbox_insert d ?q" "outbox_checks ?q"
    by (cases "select_one ?P (outbox d)") blast+
  then show thesis
  proof cases
    case limit
    from run [unfolded if_P [OF limit]] show thesis by (auto simp: raiseE_def intro: refused)
  next
    case bad
    from run [unfolded if_P [OF bad]] show thesis by (auto simp: raiseE_def refused_def intro: refused split: if_splits)
  next
    case (found x)
    from run [unfolded if_not_P [OF found(2)] if_not_P [OF found(3)]] found(1)
    have "res = Inr None" "d' = d\<lparr>outbox_seq := ?oid\<rparr>" by (simp_all add: returnE_def)
    with present True select_one_SomeD [OF found(1)] show thesis by (auto simp: intent_of_def)
  next
    case key
    from run [unfolded if_P [OF key(2)]] key(1) show thesis
      by (auto simp: raiseE_def refused_def intro: refused split: if_splits)
  next
    case new
    from new(4,5) have nb: "\<not> (\<not> guard_outbox_insert d ?q \<or> \<not> outbox_checks ?q)" by blast
    from run [unfolded if_not_P [OF new(3)] if_not_P [OF nb] if_not_P [OF new(2)]] new(1)
    have r: "res = Inr (Some ?oid)" "d' = d\<lparr>outbox_seq := ?oid, outbox := outbox d @ [?q]\<rparr>"
      by (simp_all add: returnE_def)
    from new(1) have "\<forall>x \<in> set (outbox d). \<not> (ob_tenant_id x = alr_tenant_id ev \<and> ob_evaluation_id x = alert_evaluation_id ev)"
      by (simp add: select_one_None_iff intent_of_def)
    from added [OF True r(1) new(4,5) this r(2)] show thesis .
  qed
qed

lemma enqueue_counters:
  assumes "enqueue q ev now d = (res, d')"
  shows "evaluation_seq d' = evaluation_seq d \<and> outbox_seq d \<le> outbox_seq d'"
  using assms by (auto simp: enqueue_def enqueue_in_transaction_def Let_def comp_defs refused_def split: if_splits)

definition intents_of :: "WebhookOutboxEnqueuer option \<Rightarrow> AlertRow \<Rightarrow> int \<Rightarrow> nat \<Rightarrow> OutboxRow list" where
  "intents_of enq r now oid =
     (case enq of
        None \<Rightarrow> []
      | Some q \<Rightarrow> if lifecycle (alr_transition r) then [intent_for q (row_to_evaluation r False) now oid] else [])"

lemma notify_fresh: "should_notify (row_to_evaluation r False) \<longleftrightarrow> lifecycle (alr_transition r)"
  by (simp add: should_notify_def lifecycle_def LIFECYCLE_TRANSITIONS_def)

lemma append_alert_cases:
  assumes "append_alert num p s a key now d = (res, d')"
  obtains (refused) e where "res = Inl e" and "d' = d\<lparr>evaluation_seq := evaluation_seq d + 1\<rparr>"
  | (added) r where "r = new_alert num (evaluation_seq d + 1) p s a key now
        (previous_state (principal_tenant p) (alert_fingerprint s a) d)"
    and "evaluation_checks r" and "\<forall>x \<in> set (evaluations d). evaluation_unique r x"
    and "res = Inr (row_to_evaluation r False)"
    and "d' = d\<lparr>evaluation_seq := evaluation_seq d + 1, evaluations := evaluations d @ [r]\<rparr>"
  using assms by (auto simp: append_alert_def Let_def refused_def comp_defs split: if_splits)

lemma new_alert_simps [simp]:
  "alert_evaluation_id (new_alert num i p s a key now prev) = i"
  "alr_tenant_id (new_alert num i p s a key now prev) = principal_tenant p"
  "alr_fingerprint (new_alert num i p s a key now prev) = alert_fingerprint s a"
  "alr_state (new_alert num i p s a key now prev) = fst (next_state prev a)"
  "alr_transition (new_alert num i p s a key now prev) = snd (next_state prev a)"
  "alr_idempotency_key (new_alert num i p s a key now prev) = key"
  "alr_payload_hash (new_alert num i p s a key now prev) = assessment_hash s a"
  "alr_previous_state (new_alert num i p s a key now prev) = prev"
  "alr_policy_id (new_alert num i p s a key now prev) = as_policy_id a"
  by (simp_all add: new_alert_def split: prod.split)

lemma no_intent_ahead:
  assumes inv: "alert_inv d" and x: "x \<in> set (outbox d)"
  shows "ob_evaluation_id x \<le> evaluation_seq d"
proof -
  from alert_inv_row(6) [OF inv x] obtain e where
    "select_one (\<lambda>e. alert_evaluation_id e = ob_evaluation_id x) (evaluations d) = Some e"
    by (auto simp: evaluation_matches_def split: option.splits)
  then have "e \<in> set (evaluations d)" "alert_evaluation_id e = ob_evaluation_id x"
    by (auto dest: select_one_SomeD)
  with inv show ?thesis by (auto simp: alert_inv_def history_ok_def)
qed

text \<open>
  A recording either leaves the tables alone (an error, or a replay of a row already there), or
  adds one evaluation, and with it the intent if the evaluation is announced and delivery is on.
\<close>

lemma record_alert_cases:
  assumes inv: "alert_inv d" and run: "record_alert num enq p s a key now d = (res, d')"
  obtains (kept) i j where "d' = d\<lparr>evaluation_seq := i, outbox_seq := j\<rparr>"
    and "evaluation_seq d \<le> i" and "outbox_seq d \<le> j"
    and "\<And>ev. res = Inr ev \<Longrightarrow> \<exists>r \<in> set (evaluations d). ev = row_to_evaluation r True \<and> alr_tenant_id r = principal_tenant p
           \<and> alr_fingerprint r = alert_fingerprint s a \<and> alr_payload_hash r = assessment_hash s a"
  | (added) r j where "cor_tenant_id (correlation s) = principal_tenant p"
    and "r = new_alert num (evaluation_seq d + 1) p s a key now
        (previous_state (principal_tenant p) (alert_fingerprint s a) d)"
    and "evaluation_checks r" and "\<forall>x \<in> set (evaluations d). evaluation_unique r x"
    and "res = Inr (row_to_evaluation r False)" and "outbox_seq d \<le> j"
    and "\<And>q. q \<in> set (intents_of enq r now (outbox_seq d + 1)) \<Longrightarrow> j = outbox_seq d + 1 \<and> outbox_checks q
           \<and> guard_outbox_insert (d\<lparr>evaluations := evaluations d @ [r]\<rparr>) q"
    and "d' = d\<lparr>evaluation_seq := evaluation_seq d + 1, evaluations := evaluations d @ [r],
           outbox_seq := j, outbox := outbox d @ intents_of enq r now (outbox_seq d + 1)\<rparr>"
proof -
  let ?fp = "alert_fingerprint s a" and ?h = "assessment_hash s a" and ?t = "principal_tenant p"
  have nothing: "d = d\<lparr>evaluation_seq := evaluation_seq d, outbox_seq := outbox_seq d\<rparr>" by simp
  show thesis
  proof (cases "cor_tenant_id (correlation s) = ?t")
    case False
    with run have "res = Inl NotFoundError" "d' = d" by (auto simp: record_alert_def raiseE_def)
    with kept [where i = "evaluation_seq d" and j = "outbox_seq d"] nothing show thesis by simp
  next
    case tenant: True
    show thesis
    proof (cases "select_one (\<lambda>r. alert_of ?t ?fp r \<and> alr_idempotency_key r = key) (evaluations d)")
      case (Some r)
      with run tenant have "d' = d" "\<And>ev. res = Inr ev \<Longrightarrow> ev = row_to_evaluation r True \<and> alr_payload_hash r = ?h"
        by (auto simp: record_alert_def Let_def atomically_def comp_defs split: if_splits)
      with kept [where i = "evaluation_seq d" and j = "outbox_seq d"] nothing select_one_SomeD [OF Some] show thesis
        by (auto simp: alert_of_def)
    next
      case no_key: None
      show thesis
      proof (cases "select_one (\<lambda>r. alert_of ?t ?fp r \<and> alr_payload_hash r = ?h) (evaluations d)")
        case (Some r)
        with run tenant no_key have "d' = d" "res = Inr (row_to_evaluation r True)"
          by (auto simp: record_alert_def Let_def atomically_def comp_defs)
        with kept [where i = "evaluation_seq d" and j = "outbox_seq d"] nothing select_one_SomeD [OF Some] show thesis
          by (auto simp: alert_of_def)
      next
        case None
        let ?m = "bindE (append_alert num p s a key now) (\<lambda>ev. case enq of None \<Rightarrow> returnE ev
              | Some q \<Rightarrow> bindE (enqueue q ev now) (\<lambda>_. returnE ev))"
        have m: "atomically ?m d = (res, d')"
          using run tenant no_key None by (simp add: record_alert_def Let_def atomically_def)
        obtain r1 d1 where ap: "append_alert num p s a key now d = (r1, d1)" by force
        from ap show thesis
        proof (cases rule: append_alert_cases)
          case (refused e)
          with m ap have "d' = d\<lparr>evaluation_seq := evaluation_seq d + 1, outbox_seq := outbox_seq d\<rparr>" "res = Inl e"
            by (auto simp: atomically_def bindE_def)
          then show thesis by (intro kept [where i = "evaluation_seq d + 1" and j = "outbox_seq d"]) auto
        next
          case (added r)
          show thesis
          proof (cases enq)
            case None
            with m ap added have "res = Inr (row_to_evaluation r False)"
              "d' = d\<lparr>evaluation_seq := evaluation_seq d + 1, evaluations := evaluations d @ [r],
                 outbox_seq := outbox_seq d, outbox := outbox d @ intents_of enq r now (outbox_seq d + 1)\<rparr>"
              by (auto simp: atomically_def bindE_def returnE_def intents_of_def)
            with that(2) [where j = "outbox_seq d", OF tenant added(1,2,3)] None show thesis by (auto simp: intents_of_def)
          next
            case (Some q)
            obtain r2 d2 where en: "enqueue q (row_to_evaluation r False) now d1 = (r2, d2)" by force
            note cnt = enqueue_counters [OF en]
            have ids: "ob_evaluation_id x \<noteq> alert_evaluation_id r" if "x \<in> set (outbox d)" for x
              using no_intent_ahead [OF inv that] added(1) by simp
            from en show thesis
            proof (cases rule: enqueue_cases)
              case (refused e)
              with m ap added Some en have "res = Inl e"
                "d' = d\<lparr>evaluation_seq := evaluation_seq d2, outbox_seq := outbox_seq d2\<rparr>"
                by (auto simp: atomically_def bindE_def)
              with cnt added(5) kept show thesis by simp
            next
              case silent
              with m ap added Some en have "res = Inr (row_to_evaluation r False)"
                "d' = d\<lparr>evaluation_seq := evaluation_seq d + 1, evaluations := evaluations d @ [r],
                 outbox_seq := outbox_seq d, outbox := outbox d @ intents_of enq r now (outbox_seq d + 1)\<rparr>"
                by (auto simp: atomically_def bindE_def returnE_def intents_of_def notify_fresh)
              with that(2) [where j = "outbox_seq d", OF tenant added(1,2,3)] Some silent(1) show thesis
                by (auto simp: intents_of_def notify_fresh)
            next
              case present
              with ids added(5) show thesis by auto
            next
              case out: added
              have g: "guard_outbox_insert (d\<lparr>evaluations := evaluations d @ [r]\<rparr>)
                  (intent_for q (row_to_evaluation r False) now (outbox_seq d + 1))"
                using out(3) added(5) by (simp add: guard_outbox_insert_def evaluation_matches_def)
              from out m ap added Some en have "res = Inr (row_to_evaluation r False)"
                "d' = d\<lparr>evaluation_seq := evaluation_seq d + 1, evaluations := evaluations d @ [r],
                 outbox_seq := outbox_seq d + 1, outbox := outbox d @ intents_of enq r now (outbox_seq d + 1)\<rparr>"
                by (auto simp: atomically_def bindE_def returnE_def intents_of_def notify_fresh)
              with that(2) [where j = "outbox_seq d + 1", OF tenant added(1,2,3)] Some out(1,4) g added(5) show thesis
                by (auto simp: intents_of_def notify_fresh)
            qed
          qed
        qed
      qed
    qed
  qed
qed

lemma rows_cong:
  "attempt_log d' = attempt_log d \<Longrightarrow> log_ok d' r = log_ok d r"
  "ledger d' = ledger d \<Longrightarrow> ledger_ok d' r = ledger_ok d r"
  "evaluations d' = evaluations d \<Longrightarrow> evaluation_matches d' eid t fp tr = evaluation_matches d eid t fp tr"
  by (simp add: log_ok_def, simp only: ledger_ok_def ledger_row_def, simp add: evaluation_matches_def)

lemma counters_inv:
  assumes "alert_inv d" and "evaluation_seq d \<le> i" and "outbox_seq d \<le> j"
  shows "alert_inv (d\<lparr>evaluation_seq := i, outbox_seq := j\<rparr>)"
  using assms
  by (force simp: alert_inv_def history_ok_def outbox_keys_def references_ok_def intent_ok_def log_ok_def
      ledger_ok_def ledger_row_def evaluation_matches_def)

lemma evaluation_matches_append:
  "evaluation_matches d eid t fp tr \<Longrightarrow> evaluation_matches (d\<lparr>evaluations := evaluations d @ [r]\<rparr>) eid t fp tr"
  by (auto simp: evaluation_matches_def select_one_append split: option.splits)

lemma history_append:
  assumes "history_ok d" and "alert_evaluation_id r = evaluation_seq d + 1" and "evaluation_checks r"
  shows "history_ok (d\<lparr>evaluation_seq := evaluation_seq d + 1, evaluations := evaluations d @ [r]\<rparr>)"
  using assms by (force simp: history_ok_def)

lemma add_intent_inv:
  assumes inv: "alert_inv d" and q: "outbox_checks q" "guard_outbox_insert d q"
    and oid: "outbox_id q = outbox_seq d + 1"
    and new: "\<And>x. x \<in> set (outbox d) \<Longrightarrow> ob_evaluation_id x \<noteq> ob_evaluation_id q"
  shows "alert_inv (d\<lparr>outbox_seq := outbox_seq d + 1, outbox := outbox d @ [q]\<rparr>)"
proof -
  let ?d = "d\<lparr>outbox_seq := outbox_seq d + 1, outbox := outbox d @ [q]\<rparr>"
  have fresh: "outbox_id x \<noteq> outbox_id q" if "x \<in> set (outbox d)" for x
    using alert_inv_row(2) [OF inv that] oid by simp
  have refs: "references_ok d" using inv by (simp add: alert_inv_def)
  have old: "intent_ok ?d x \<and> log_ok ?d x \<and> ledger_ok ?d x" if "x \<in> set (outbox d)" for x
    using alert_inv_row [OF inv that] rows_cong [of ?d d]
    by (simp add: intent_ok_def)
  have "log_ok ?d q" using refs fresh by (auto simp: log_ok_def references_ok_def)
  moreover have "ledger_row d q = None"
    using refs new by (auto simp: ledger_row_def select_one_None_iff ledger_of_def references_ok_def)
  then have "ledger_ok ?d q" using q(2) by (simp add: ledger_ok_def guard_outbox_insert_def ledger_row_def)
  moreover have "intent_ok ?d q"
    using q oid by (auto simp: intent_ok_def budget_ok_def guard_outbox_insert_def outbox_checks_def evaluation_matches_def)
  ultimately have "intent_ok ?d x \<and> log_ok ?d x \<and> ledger_ok ?d x" if "x \<in> set (outbox ?d)" for x
    using that old by auto
  with inv fresh new show ?thesis
    by (force simp: alert_inv_def history_ok_def outbox_keys_def references_ok_def)
qed

lemma record_alert_inv:
  assumes inv: "alert_inv d"
  shows "alert_inv (snd (record_alert num enq p s a key now d))"
proof -
  obtain res d' where e: "record_alert num enq p s a key now d = (res, d')" by force
  from inv e show ?thesis
  proof (cases rule: record_alert_cases)
    case (kept i j)
    with e counters_inv [OF inv] show ?thesis by simp
  next
    case (added r j)
    let ?e = "d\<lparr>evaluation_seq := evaluation_seq d + 1, evaluations := evaluations d @ [r]\<rparr>"
    have ie: "alert_inv ?e"
      using inv history_append [of d r] added(2,3) evaluation_matches_append
      by (auto simp: alert_inv_def outbox_keys_def references_ok_def intent_ok_def log_ok_def ledger_ok_def
          ledger_row_def evaluation_matches_def select_one_append split: option.splits)
    have ahead: "ob_evaluation_id x \<noteq> evaluation_seq d + 1" if "x \<in> set (outbox d)" for x
      using no_intent_ahead [OF inv that] by simp
    consider (none) "intents_of enq r now (outbox_seq d + 1) = []"
      | (one) q where "intents_of enq r now (outbox_seq d + 1) = [q]" "outbox_id q = outbox_seq d + 1"
          "ob_evaluation_id q = evaluation_seq d + 1"
    proof (cases "enq = None \<or> \<not> lifecycle (alr_transition r)")
      case True
      then show ?thesis by (intro that(1)) (auto simp: intents_of_def split: option.split)
    next
      case False
      then obtain q where q: "enq = Some q" "lifecycle (alr_transition r)" by auto
      show ?thesis
        by (rule that(2) [of "intent_for q (row_to_evaluation r False) now (outbox_seq d + 1)"])
           (use q added(2) in \<open>simp_all add: intents_of_def intent_for_def new_intent_def\<close>)
    qed
    then have "alert_inv d'"
    proof cases
      case none
      have "d' = ?e\<lparr>evaluation_seq := evaluation_seq ?e, outbox_seq := j\<rparr>" using added(8) none by simp
      with counters_inv [OF ie, of "evaluation_seq ?e" j] added(6) show ?thesis by simp
    next
      case (one q)
      from added(7) [of q] one(1) have q: "j = outbox_seq d + 1" "outbox_checks q"
        "guard_outbox_insert (d\<lparr>evaluations := evaluations d @ [r]\<rparr>) q" by auto
      have "d' = ?e\<lparr>outbox_seq := outbox_seq ?e + 1, outbox := outbox ?e @ [q]\<rparr>"
        using added(8) one(1) q(1) by simp
      moreover have "guard_outbox_insert ?e q"
        using q(3) by (simp add: guard_outbox_insert_def evaluation_matches_def)
      ultimately show ?thesis
        using add_intent_inv [OF ie q(2), of] one(2,3) ahead by simp
    qed
    with e show ?thesis by simp
  qed
qed

lemma alert_step_inv: "alert_inv d \<Longrightarrow> alert_inv (alert_step num op d)"
  by (cases op)
     (simp_all add: record_alert_inv lease_inv record_delivered_inv record_retry_inv record_dead_letter_inv redrive_inv)

subsection \<open>The history only grows\<close>

definition rows_before :: "OutboxRow list \<Rightarrow> OutboxRow list \<Rightarrow> bool" where
  "rows_before rs rs' \<longleftrightarrow> (\<exists>kept new. rs' = kept @ new \<and> list_all2 row_before rs kept)"

definition alert_before :: "alert_db \<Rightarrow> alert_db \<Rightarrow> bool" where
  "alert_before d d' \<longleftrightarrow>
     (\<exists>es. evaluations d' = evaluations d @ es) \<and> (\<exists>as. attempt_log d' = attempt_log d @ as)
     \<and> rows_before (outbox d) (outbox d')"

lemma rows_before_refl [simp]: "rows_before rs rs"
  unfolding rows_before_def by (intro exI [of _ rs] exI [of _ "[]"]) (simp add: list_all2_refl)

lemma rows_before_append [simp]: "rows_before rs (rs @ new)"
  unfolding rows_before_def by (intro exI [of _ rs] exI [of _ new]) (simp add: list_all2_refl)

lemma rows_before_update:
  "(\<And>r. r \<in> set rs \<Longrightarrow> P r \<Longrightarrow> row_before r (f r)) \<Longrightarrow> rows_before rs (update_where P f rs)"
  unfolding rows_before_def
  by (intro exI [of _ "update_where P f rs"] exI [of _ "[]"])
     (auto simp: update_where_def list_all2_map2 list_all2_same)

lemma rows_before_trans:
  assumes "rows_before rs ss" and "rows_before ss ts"
  shows "rows_before rs ts"
proof -
  from assms obtain ss1 ss2 ts1 ts2 where ss: "ss = ss1 @ ss2" "list_all2 row_before rs ss1"
    and ts: "ts = ts1 @ ts2" "list_all2 row_before (ss1 @ ss2) ts1" by (auto simp: rows_before_def)
  from ts(2) obtain u v where uv: "ts1 = u @ v" "list_all2 row_before ss1 u"
    by (auto simp: list_all2_append1)
  from list_all2_trans [OF _ ss(2) uv(2), of row_before] have "list_all2 row_before rs u"
    using row_before_trans by blast
  with ts(1) uv(1) show ?thesis unfolding rows_before_def by auto
qed

lemma alert_before_refl [simp]: "alert_before d d"
  by (simp add: alert_before_def)

lemma alert_before_trans: "alert_before d e \<Longrightarrow> alert_before e f \<Longrightarrow> alert_before d f"
  unfolding alert_before_def using rows_before_trans by fastforce

lemma atomically_outcome_before:
  assumes inv: "alert_inv d"
  shows "alert_before d (snd (atomically (outcome_tx l out http err st dn led s nxt fin) d))"
proof (cases "outcome_tx l out http err st dn led s nxt fin d")
  case (Pair res d')
  show ?thesis
  proof (cases res)
    case (Inl e)
    with Pair show ?thesis by (simp add: atomically_outcome)
  next
    case (Inr u)
    from inv Pair [unfolded Inr] show ?thesis
    proof (cases rule: outcome_tx_ok)
      case (1 r rows)
      have "rows_before (outbox d) (outbox d')"
        using rows_before_update [of "outbox d" "owned_by l"] guard_row_before [OF 1(10)] 1(3)
        by (simp add: 1(6))
      moreover have "evaluations d' = evaluations d" "\<exists>as. attempt_log d' = attempt_log d @ as"
        by (simp_all add: 1(6))
      ultimately show ?thesis using Pair Inr by (simp add: atomically_outcome alert_before_def)
    qed
  qed
qed

lemma update_before:
  "(\<And>r. r \<in> set (outbox d) \<Longrightarrow> P r \<Longrightarrow> guard_outbox_update d r (f r)) \<Longrightarrow>
    alert_before d (d\<lparr>outbox := update_where P f (outbox d)\<rparr>)"
  using rows_before_update [of "outbox d" P f] by (auto simp: alert_before_def intro: guard_row_before)

lemma alert_step_before:
  assumes inv: "alert_inv d"
  shows "alert_before d (alert_step num op d)"
proof (cases op)
  case (OpRecord enq p s a key now)
  obtain res d' where e: "record_alert num enq p s a key now d = (res, d')" by force
  from inv e have "alert_before d d'"
    by (cases rule: record_alert_cases) (auto simp: alert_before_def)
  with OpRecord e show ?thesis by simp
next
  case (OpLease w now secs batch locked)
  obtain res d' where e: "lease w now secs batch locked d = (res, d')" by force
  from e have "alert_before d d'"
    by (cases rule: lease_cases) (auto intro: update_before)
  with OpLease e show ?thesis by simp
next
  case (OpDelivered l http st dn)
  then show ?thesis using atomically_outcome_before [OF inv] by (simp add: record_delivered_tx raiseE_def)
next
  case (OpRetry l out http err st dn base)
  then show ?thesis
    using atomically_outcome_before [OF inv, of l out http "Some err" st dn None PENDING]
    by (auto simp: record_retry_tx comp_defs split: prod.splits sum.splits) (metis snd_conv)+
next
  case (OpDeadLetter l out http err st dn)
  then show ?thesis using atomically_outcome_before [OF inv] by (simp add: record_dead_letter_tx raiseE_def)
next
  case (OpRedrive p oid now add)
  obtain res d' where e: "redrive p oid now add d = (res, d')" by force
  from e have "alert_before d d'"
    by (cases rule: redrive_cases) (auto intro: update_before)
  with OpRedrive e show ?thesis by simp
qed

interpretation alerts: op_progress "alert_step num" alert_inv alert_before for num
  by unfold_locales (auto intro: alert_step_inv alert_before_trans alert_step_before)

definition empty_alerts :: alert_db where
  "empty_alerts = \<lparr>evaluations = [], outbox = [], attempt_log = [], ledger = [],
     evaluation_seq = 0, outbox_seq = 0\<rparr>"

lemma alert_inv_empty [simp]: "alert_inv empty_alerts"
  by (simp add: alert_inv_def empty_alerts_def history_ok_def outbox_keys_def references_ok_def)

lemma reachable_alerts: "alert_inv (fold (alert_step num) ops empty_alerts)"
  by (rule alerts.run_inv) simp

text \<open>What became of a row.\<close>

lemma row_later:
  assumes inv: "alert_inv d" and before: "alert_before d d'" and inv': "alert_inv d'"
    and r: "r \<in> set (outbox d)"
  obtains r' where "r' \<in> set (outbox d')" and "row_before r r'"
    and "\<And>x. x \<in> set (outbox d') \<Longrightarrow> outbox_id x = outbox_id r \<longleftrightarrow> x = r'"
proof -
  from before obtain kept new where k: "outbox d' = kept @ new" "list_all2 row_before (outbox d) kept"
    by (auto simp: alert_before_def rows_before_def)
  from r obtain i where i: "i < length (outbox d)" "outbox d ! i = r" by (auto simp: in_set_conv_nth)
  with k(2) have r': "kept ! i \<in> set (outbox d')" "row_before r (kept ! i)"
    using k(1) list_all2_lengthD [OF k(2)] by (auto simp: list_all2_conv_all_nth)
  moreover from r'(2) have "outbox_id (kept ! i) = outbox_id r"
    by (simp add: row_before_def same_intent_def)
  moreover have "outbox_keys d'" using inv' by (simp add: alert_inv_def)
  ultimately show thesis
    using that [OF r'] outbox_id_unique(1) [of d' _ "kept ! i"] by auto
qed

end
