(* ===== verification/OutboxDelivery.thy ===== *)
theory OutboxDelivery
  imports AlertHistory
begin

section \<open>What a lease is good for\<close>

text \<open>
  A lease handed out by \<open>lease\<close> stays a genuine description of its row whatever happens later
  (\<open>holds\<close>). With it, an outcome is either recorded or refused with \<^verbatim>\<open>OUTBOX_LEASE_LOST\<close>: the
  triggers and checks of the database never refuse what the repository writes.
\<close>

subsection \<open>No ledger row is left claimed\<close>

definition settled :: "alert_db \<Rightarrow> bool" where
  "settled d \<longleftrightarrow> (\<forall>l \<in> set (ledger d). led_status l \<noteq> St_claimed)"

lemma settled_update [simp]: "settled (d\<lparr>outbox := rows\<rparr>) = settled d"
  by (simp add: settled_def)

lemma write_terminal_settled:
  assumes "write_terminal_ledger l st http err dn d = (Inr u, d')" and "settled d" and "st \<noteq> St_claimed"
  shows "settled d'"
proof -
  let ?row = "claimed_ledger_row l dn" and ?f = "finish_ledger st (ld_attempt_number l) http err dn"
  let ?P = "\<lambda>r. ledger_of (ld_tenant_id l) (ld_evaluation_id l) r \<and> led_status r = St_claimed"
  from assms(1) obtain b1 d1 b2 where i: "insert_ledger ?row d = (Inr b1, d1)"
    and c: "complete_ledger (ld_tenant_id l) (ld_evaluation_id l) ?f d1 = (Inr b2, d')"
    by (auto simp: write_terminal_ledger_def comp_defs split: prod.splits sum.splits)
  from i obtain rows where d1: "d1 = d\<lparr>ledger := rows\<rparr>" "rows = ledger d \<or> rows = ledger d @ [?row]"
    by (rule insert_ledger_ok)
  have "?P ?row" by (simp add: claimed_ledger_row_def ledger_of_def)
  with d1 assms(2,3) complete_ledger_ok [OF c] show ?thesis
    by (auto simp: settled_def finish_ledger_def set_update_where)
qed

lemma outcome_settled:
  assumes run: "outcome_tx l out http err st dn led s nxt fin d = (Inr u, d')" and "settled d"
    and "led \<noteq> Some St_claimed"
  shows "settled d'"
proof -
  from run obtain u1 d1 u2 d2 where s1: "append_attempt_event l out http err st dn d = (Inr u1, d1)"
    and s2: "(case led of None \<Rightarrow> returnE () | Some s \<Rightarrow> write_terminal_ledger l s http err dn) d1 = (Inr u2, d2)"
    and s3: "outbox_transition l s nxt http err fin dn d2 = (Inr (), d')"
    by (auto simp: outcome_tx_def bindE_def split: prod.splits sum.splits)
  from s1 assms(2) have "settled d1"
    by (auto simp: append_attempt_event_def Let_def comp_defs refused_def settled_def split: if_splits)
  with s2 assms(3) have "settled d2"
    by (cases led) (auto simp: returnE_def dest: write_terminal_settled)
  with outbox_transition_ok(1) [OF s3] show ?thesis by simp
qed

lemma atomically_settled:
  "settled d \<Longrightarrow> led \<noteq> Some St_claimed \<Longrightarrow>
    settled (snd (atomically (outcome_tx l out http err st dn led s nxt fin) d))"
  by (auto simp: atomically_outcome dest: outcome_settled split: prod.splits sum.splits)

lemma alert_step_settled:
  assumes inv: "alert_inv d" and s: "settled d"
  shows "settled (alert_step num op d)"
proof (cases op)
  case (OpRecord enq p sn a key now)
  obtain res d' where e: "record_alert num enq p sn a key now d = (res, d')" by force
  from inv e have "ledger d' = ledger d" by (cases rule: record_alert_cases) auto
  with OpRecord e s show ?thesis by (simp add: settled_def)
next
  case (OpLease w now secs batch locked)
  obtain res d' where e: "lease w now secs batch locked d = (res, d')" by force
  from e have "ledger d' = ledger d" by (cases rule: lease_cases) auto
  with OpLease e s show ?thesis by (simp add: settled_def)
next
  case (OpRetry l out http err st dn base)
  then show ?thesis
    using atomically_settled [OF s, of None l out http "Some err" st dn PENDING]
    by (auto simp: record_retry_tx comp_defs s split: prod.splits sum.splits) (metis snd_conv)+
next
  case (OpRedrive p oid now add)
  obtain res d' where e: "redrive p oid now add d = (res, d')" by force
  from e have "ledger d' = ledger d" by (cases rule: redrive_cases) auto
  with OpRedrive e s show ?thesis by (simp add: settled_def)
qed (use s atomically_settled in \<open>simp_all add: record_delivered_tx record_dead_letter_tx raiseE_def\<close>)

definition delivery_inv :: "alert_db \<Rightarrow> bool" where
  "delivery_inv d \<longleftrightarrow> alert_inv d \<and> settled d"

interpretation deliveries: op_progress "alert_step num" delivery_inv alert_before for num
  by unfold_locales
     (auto simp: delivery_inv_def intro: alert_step_inv alert_step_settled alert_before_trans alert_step_before)

lemma delivery_inv_empty [simp]: "delivery_inv empty_alerts"
  by (simp add: delivery_inv_def settled_def) (simp add: empty_alerts_def)

lemma reachable_deliveries: "delivery_inv (fold (alert_step num) ops empty_alerts)"
  by (rule deliveries.run_inv) simp

subsection \<open>Genuine leases\<close>

definition lease_describes :: "LeasedDelivery \<Rightarrow> OutboxRow \<Rightarrow> bool" where
  "lease_describes l r \<longleftrightarrow>
     outbox_id r = ld_outbox_id l \<and> ob_tenant_id r = ld_tenant_id l \<and> ob_evaluation_id r = ld_evaluation_id l
     \<and> ob_fingerprint r = ld_fingerprint l \<and> ob_transition r = ld_transition l \<and> ob_host r = ld_host l
     \<and> ob_payload r = ld_payload l \<and> ob_payload_hash r = ld_payload_hash l \<and> ob_key r = ld_key l"

definition holds :: "alert_db \<Rightarrow> LeasedDelivery \<Rightarrow> bool" where
  "holds d l \<longleftrightarrow> (\<exists>r \<in> set (outbox d). lease_describes l r \<and> ld_attempt_number l \<le> attempt_count r
     \<and> 1 \<le> ld_attempt_number l
     \<and> (attempt_count r = ld_attempt_number l \<and> ob_state r = IN_FLIGHT \<longrightarrow>
          max_attempts r = ld_max_attempts l \<and> lease_owner r = Some (ld_lease_owner l)))"

lemma lease_holds:
  assumes inv: "alert_inv d" and run: "lease w now secs batch locked d = (Inr ls, d')" and l: "l \<in> set ls"
  shows "holds d' l"
  using run
proof (cases rule: lease_cases)
  case (3 ids)
  let ?f = "take_lease w now (now + timedelta_us secs)"
  from 3(3) l obtain r where r: "r \<in> set (outbox d)" "outbox_id r \<in> set ids"
    "l = leased_of w (now + timedelta_us secs) (?f r)" by auto
  from 3(2) r(1,2) have "?f r \<in> set (outbox d')" by (auto simp: set_update_where)
  moreover have "0 \<le> attempt_count r" using alert_inv_row(1) [OF inv r(1)] by (simp add: outbox_checks_def)
  ultimately show ?thesis
    unfolding holds_def by (intro bexI [of _ "?f r"]) (auto simp: r(3) leased_of_def take_lease_def lease_describes_def)
qed (use l in auto)

lemma holds_later:
  assumes inv: "alert_inv d" "alert_inv d'" and before: "alert_before d d'" and h: "holds d l"
  shows "holds d' l"
proof -
  from h obtain r where r: "r \<in> set (outbox d)" "lease_describes l r" "ld_attempt_number l \<le> attempt_count r"
    "1 \<le> ld_attempt_number l"
    "attempt_count r = ld_attempt_number l \<and> ob_state r = IN_FLIGHT \<longrightarrow>
          max_attempts r = ld_max_attempts l \<and> lease_owner r = Some (ld_lease_owner l)"
    by (auto simp: holds_def)
  from row_later [OF inv(1) before inv(2) r(1)] obtain r' where r': "r' \<in> set (outbox d')" "row_before r r'" .
  from r'(2) r(2) have "lease_describes l r'"
    by (simp add: row_before_def same_intent_def lease_describes_def)
  moreover from r'(2) r(3) have "ld_attempt_number l \<le> attempt_count r'" by (simp add: row_before_def)
  moreover have "max_attempts r' = ld_max_attempts l \<and> lease_owner r' = Some (ld_lease_owner l)"
    if same: "attempt_count r' = ld_attempt_number l \<and> ob_state r' = IN_FLIGHT"
  proof -
    from same r(3) r'(2) have "attempt_count r' = attempt_count r" by (simp add: row_before_def)
    with same r'(2) have "r' = r" by (simp add: row_before_def)
    with same r(5) show ?thesis by simp
  qed
  ultimately show ?thesis using r'(1) r(4) by (auto simp: holds_def)
qed

subsection \<open>The database never refuses an outcome of a genuine lease\<close>

text \<open>What an outcome must look like to be worth recording for a lease.\<close>

definition proper_outcome ::
  "LeasedDelivery \<Rightarrow> AttemptOutcome \<Rightarrow> int option \<Rightarrow> string option \<Rightarrow> DeliveryStatus option \<Rightarrow> OutboxState \<Rightarrow> bool"
where
  "proper_outcome l out http err led st \<longleftrightarrow>
     http_check http \<and> opt_bounded 1 100 err
     \<and> (case st of
          DELIVERED \<Rightarrow> out = Out_delivered \<and> is_2xx http \<and> err = None \<and> led = Some St_delivered
        | DEAD_LETTER \<Rightarrow> out \<noteq> Out_delivered \<and> (out = Out_ambiguous \<longrightarrow> http = None) \<and> \<not> is_2xx http
            \<and> nonblank err \<and> led = Some St_failed
            \<and> (out = Out_permanent \<or> ld_max_attempts l \<le> ld_attempt_number l)
        | PENDING \<Rightarrow> out \<in> {Out_retryable, Out_ambiguous} \<and> (out = Out_ambiguous \<longrightarrow> http = None)
            \<and> \<not> is_2xx http \<and> nonblank err \<and> led = None \<and> ld_attempt_number l < ld_max_attempts l
        | IN_FLIGHT \<Rightarrow> False)"

lemma complete_ledger_run:
  assumes "filter (\<lambda>r. ledger_of t e r \<and> led_status r = St_claimed) (ledger d) = old"
    and "\<forall>r \<in> set old. guard_ledger_update r (f r) \<and> ledger_checks (f r)"
  shows "complete_ledger t e f d = (Inr (old \<noteq> []),
    d\<lparr>ledger := update_where (\<lambda>r. ledger_of t e r \<and> led_status r = St_claimed) f (ledger d)\<rparr>)"
  unfolding complete_ledger_def Let_def assms(1) if_P [OF assms(2)] returnE_def ..

lemma ledger_written:
  assumes inv: "alert_inv d" "settled d" and r: "r \<in> set (outbox d)" "lease_describes l r" "ob_state r = IN_FLIGHT"
    and dl: "d1 = d\<lparr>attempt_log := as\<rparr>" and num: "1 \<le> ld_attempt_number l" "ld_attempt_number l \<le> 100"
    and st: "st = St_delivered \<and> is_2xx http \<and> err = None \<or> st = St_failed \<and> nonblank err \<and> \<not> is_2xx http"
    and ok: "http_check http" "opt_bounded 1 100 err"
  obtains rows where "write_terminal_ledger l st http err dn d1 = (Inr (), d1\<lparr>ledger := rows\<rparr>)"
    and "redrive_count r = 0 \<Longrightarrow> select_one (ledger_of (ob_tenant_id r) (ob_evaluation_id r)) rows
           = Some (finish_ledger st (ld_attempt_number l) http err dn (claimed_ledger_row l dn))"
    and "redrive_count r \<noteq> 0 \<Longrightarrow> rows = ledger d"
proof -
  let ?row = "claimed_ledger_row l dn" and ?f = "finish_ledger st (ld_attempt_number l) http err dn"
  let ?P = "\<lambda>x. ledger_of (ld_tenant_id l) (ld_evaluation_id l) x \<and> led_status x = St_claimed"
  note row = alert_inv_row [OF inv(1) r(1)]
  have id: "ob_tenant_id r = ld_tenant_id l" "ob_evaluation_id r = ld_evaluation_id l"
    "ob_fingerprint r = ld_fingerprint l" "ob_transition r = ld_transition l" "ob_host r = ld_host l"
    "ob_payload_hash r = ld_payload_hash l"
    using r(2) by (simp_all add: lease_describes_def)
  have g: "guard_ledger_insert d1 ?row"
    using row(6) id by (simp add: guard_ledger_insert_def claimed_ledger_row_def dl evaluation_matches_def)
  have c: "ledger_checks ?row"
    using row(1) id by (simp add: ledger_checks_def claimed_ledger_row_def outbox_checks_def http_check_def
        opt_bounded_def)
  have gf: "guard_ledger_update ?row (?f ?row)" "ledger_checks (?f ?row)"
    using st ok num row(1) id
    by (auto simp: guard_ledger_update_def finish_ledger_def claimed_ledger_row_def ledger_checks_def outbox_checks_def)
  have idle: "\<not> ?P x" if "x \<in> set (ledger d)" for x using inv(2) that by (simp add: settled_def)
  have PR: "?P ?row" by (simp add: claimed_ledger_row_def ledger_of_def)
  show thesis
  proof (cases "redrive_count r = 0")
    case True
    with row(5) r(3) id have none: "select_one (ledger_of (ld_tenant_id l) (ld_evaluation_id l)) (ledger d) = None"
      by (simp add: ledger_ok_def ledger_row_def)
    have ins: "insert_ledger ?row d1 = (Inr True, d1\<lparr>ledger := ledger d @ [?row]\<rparr>)"
      using g c none by (simp add: insert_ledger_def returnE_def dl claimed_ledger_row_def)
    have flt: "filter ?P (ledger d @ [?row]) = [?row]"
      using idle PR by (simp add: filter_empty_conv)
    have upd: "update_where ?P ?f (ledger d @ [?row]) = ledger d @ [?f ?row]"
      using idle PR by (simp add: update_where_idle)
    have "complete_ledger (ld_tenant_id l) (ld_evaluation_id l) ?f (d1\<lparr>ledger := ledger d @ [?row]\<rparr>)
        = (Inr True, d1\<lparr>ledger := ledger d @ [?f ?row]\<rparr>)"
      using complete_ledger_run [of _ _ "d1\<lparr>ledger := ledger d @ [?row]\<rparr>" "[?row]" ?f] flt upd gf by simp
    with ins have w: "write_terminal_ledger l st http err dn d1 = (Inr (), d1\<lparr>ledger := ledger d @ [?f ?row]\<rparr>)"
      by (simp add: write_terminal_ledger_def bindE_def returnE_def)
    show thesis
      by (rule that [OF w])
         (use True none id in \<open>simp_all add: select_one_append finish_ledger_def claimed_ledger_row_def ledger_of_def\<close>)
  next
    case False
    with row(5) id obtain l0 where some: "select_one (ledger_of (ld_tenant_id l) (ld_evaluation_id l)) (ledger d) = Some l0"
      by (auto simp: ledger_ok_def ledger_row_def)
    have ins: "insert_ledger ?row d1 = (Inr False, d1)"
      using g c some by (simp add: insert_ledger_def returnE_def dl claimed_ledger_row_def)
    have flt: "filter ?P (ledger d) = []" "update_where ?P ?f (ledger d) = ledger d"
      using idle by (auto simp: filter_empty_conv intro!: update_where_idle)
    have "complete_ledger (ld_tenant_id l) (ld_evaluation_id l) ?f d1 = (Inr False, d1\<lparr>ledger := ledger d\<rparr>)"
      using complete_ledger_run [of _ _ d1 "[]" ?f] flt by (simp add: dl)
    with ins have w: "write_terminal_ledger l st http err dn d1 = (Inr (), d1\<lparr>ledger := ledger d\<rparr>)"
      by (simp add: write_terminal_ledger_def bindE_def returnE_def)
    show thesis by (rule that [OF w]) (use False in simp_all)
  qed
qed

lemma append_attempt_runs:
  assumes inv: "alert_inv d" and r: "r \<in> set (outbox d)" "active_attempt l r" "lease_describes l r"
    and c: "attempt_checks (attempt_event l out http err started dn)"
  shows "append_attempt_event l out http err started dn d
      = (Inr (), d\<lparr>attempt_log := attempt_log d @ [attempt_event l out http err started dn]\<rparr>)"
proof -
  let ?a = "attempt_event l out http err started dn"
  have keys: "outbox_keys d" using inv by (simp add: alert_inv_def)
  have some: "select_one (active_attempt l) (outbox d) \<noteq> None"
    using r by (auto simp: select_one_None_iff)
  have "select_one (\<lambda>x. outbox_id x = outbox_id r) (outbox d) = Some r"
    by (rule select_one_key [of outbox_id]) (use keys r(1) in \<open>simp_all add: outbox_keys_def\<close>)
  then have g: "guard_attempt_insert d ?a"
    using r(2,3) by (simp add: guard_attempt_insert_def attempt_event_def active_attempt_def lease_describes_def)
  have "\<not> (\<exists>b \<in> set (attempt_log d). ae_outbox_id b = ae_outbox_id ?a \<and> ae_number b = ae_number ?a)"
    using alert_inv_row(4) [OF inv r(1)] r(2)
    by (auto simp: log_ok_def active_attempt_def attempt_event_def)
  then show ?thesis
    unfolding append_attempt_event_def Let_def by (simp only: some g c simp_thms if_False returnE_def)
qed

lemma outbox_transition_runs:
  assumes "r \<in> set (outbox d)" and "\<And>x. x \<in> set (outbox d) \<Longrightarrow> owned_by l x \<longleftrightarrow> x = r"
    and "guard_outbox_update d r (apply_outcome st nxt http err fin now r)"
    and "outbox_checks (apply_outcome st nxt http err fin now r)"
  shows "\<exists>d'. outbox_transition l st nxt http err fin now d = (Inr (), d')"
proof -
  let ?f = "apply_outcome st nxt http err fin now"
  have "\<forall>x \<in> set (filter (owned_by l) (outbox d)). guard_outbox_update d x (?f x) \<and> outbox_checks (?f x)"
    using assms(2-4) by auto
  then have "update_outbox (owned_by l) ?f d
      = (Inr (map ?f (filter (owned_by l) (outbox d))), d\<lparr>outbox := update_where (owned_by l) ?f (outbox d)\<rparr>)"
    unfolding update_outbox_def Let_def returnE_def by (rule if_P)
  moreover have "filter (owned_by l) (outbox d) \<noteq> []" using assms(1,2) by (auto simp: filter_empty_conv)
  ultimately show ?thesis by (simp add: outbox_transition_def bindE_def returnE_def)
qed

lemma apply_outcome_simps [simp]:
  "ob_state (apply_outcome st nxt http err fin now r) = st"
  "attempt_count (apply_outcome st nxt http err fin now r) = attempt_count r"
  "max_attempts (apply_outcome st nxt http err fin now r) = max_attempts r"
  "redrive_count (apply_outcome st nxt http err fin now r) = redrive_count r"
  "last_http_status (apply_outcome st nxt http err fin now r) = http"
  "last_error_class (apply_outcome st nxt http err fin now r) = err"
  "ob_updated_at (apply_outcome st nxt http err fin now r) = now"
  "ob_completed_at (apply_outcome st nxt http err fin now r) = fin"
  "same_intent r (apply_outcome st nxt http err fin now r)"
  by (simp_all add: apply_outcome_def same_intent_def)

lemma outcome_checks:
  assumes "outbox_checks r" and "ob_state r = IN_FLIGHT" and "proper_outcome l out http err led st"
    and "fin = (if st = PENDING then None else Some dn)" and "attempt_count r = ld_attempt_number l"
    and "1 \<le> ld_attempt_number l"
  shows "outbox_checks (apply_outcome st nxt http err fin dn r)"
proof -
  have "st \<in> {PENDING, DELIVERED, DEAD_LETTER}" using assms(3) by (cases st) (auto simp: proper_outcome_def)
  with assms show ?thesis
    by (auto simp: outbox_checks_def apply_outcome_def lease_ck_def terminal_ck_def
        delivered_evidence_ck_def dead_letter_evidence_ck_def proper_outcome_def opt_bounded_def)
qed

lemma outcome_guarded:
  assumes r: "ob_state r = IN_FLIGHT" "attempt_count r = ld_attempt_number l" "lease_owner r = Some (ld_lease_owner l)"
      "max_attempts r = ld_max_attempts l" "outbox_id r = ld_outbox_id l"
    and p: "proper_outcome l out http err led st" and fin: "fin = (if st = PENDING then None else Some dn)"
    and log: "select_one (\<lambda>a. ae_outbox_id a = outbox_id r \<and> ae_number a = attempt_count r) (attempt_log d)
        = Some (attempt_event l out http err started dn)"
    and led: "st \<noteq> PENDING \<Longrightarrow> ledger_guard d r (apply_outcome st nxt http err fin dn r)"
  shows "guard_outbox_update d r (apply_outcome st nxt http err fin dn r)"
proof -
  let ?n = "apply_outcome st nxt http err fin dn r"
  have st: "st \<in> {PENDING, DELIVERED, DEAD_LETTER}" using p by (cases st) (auto simp: proper_outcome_def)
  have "outcome_allowed ?n out"
    using p r(2,4) by (cases st) (auto simp: outcome_allowed_def proper_outcome_def, (cases out; simp)+)
  then have "outcome_guard d r ?n"
    using r st log led by (auto simp: outcome_guard_def attempt_event_def)
  with r st show ?thesis
    by (auto simp: guard_outbox_update_def lease_guard_def)
qed

lemma outcome_result:
  assumes inv: "delivery_inv d" and h: "holds d l" and p: "proper_outcome l out http err led st"
    and fin: "fin = (if st = PENDING then None else Some dn)"
  shows "if select_one (active_attempt l) (outbox d) = None
    then outcome_tx l out http err started dn led st nxt fin d = (Inl lease_lost, d)
    else \<exists>d'. outcome_tx l out http err started dn led st nxt fin d = (Inr (), d')"
proof (cases "select_one (active_attempt l) (outbox d)")
  case None
  then show ?thesis by (simp add: outcome_tx_def append_attempt_event_def bindE_def raiseE_def)
next
  case (Some r)
  let ?a = "attempt_event l out http err started dn"
  let ?d1 = "d\<lparr>attempt_log := attempt_log d @ [?a]\<rparr>"
  let ?f = "apply_outcome st nxt http err fin dn"
  have inv1: "alert_inv d" and set1: "settled d" using inv by (simp_all add: delivery_inv_def)
  have keys: "outbox_keys d" using inv1 by (simp add: alert_inv_def)
  have r: "r \<in> set (outbox d)" "active_attempt l r" using select_one_SomeD [OF Some] by auto
  from h obtain x where x: "x \<in> set (outbox d)" "lease_describes l x" "1 \<le> ld_attempt_number l"
    "attempt_count x = ld_attempt_number l \<and> ob_state x = IN_FLIGHT \<longrightarrow>
          max_attempts x = ld_max_attempts l \<and> lease_owner x = Some (ld_lease_owner l)" by (auto simp: holds_def)
  have "outbox_id r = outbox_id x" using x(2) r(2) by (simp add: lease_describes_def active_attempt_def)
  with outbox_id_unique(1) [OF keys r(1) x(1)] have rx: "r = x" by blast
  note act = r(2) [unfolded active_attempt_def]
  have desc: "lease_describes l r" and max1: "max_attempts r = ld_max_attempts l"
    using x rx act by auto
  note row = alert_inv_row [OF inv1 r(1)]
  have n100: "ld_attempt_number l \<le> 100" using row(1) act by (auto simp: outbox_checks_def)
  have st: "st \<in> {PENDING, DELIVERED, DEAD_LETTER}" using p by (cases st) (auto simp: proper_outcome_def)
  have "attempt_checks ?a"
    using p st row(1) desc act x(3) n100
    by (auto simp: attempt_checks_def attempt_event_def proper_outcome_def outbox_checks_def lease_describes_def
        attempt_outcome_ck_def opt_bounded_def nonblank_def split: AttemptOutcome.split option.splits)
  then have s1: "append_attempt_event l out http err started dn d = (Inr (), ?d1)"
    by (rule append_attempt_runs [OF inv1 r desc])
  have log: "select_one (\<lambda>a. ae_outbox_id a = outbox_id r \<and> ae_number a = attempt_count r) (attempt_log ?d1) = Some ?a"
  proof -
    have "select_one (\<lambda>a. ae_outbox_id a = outbox_id r \<and> ae_number a = attempt_count r) (attempt_log d) = None"
      using row(4) act by (auto simp: select_one_None_iff log_ok_def)
    with act show ?thesis by (simp add: select_one_append attempt_event_def)
  qed
  have own: "owned_by l y \<longleftrightarrow> y = r" if "y \<in> set (outbox d)" for y
    using outbox_id_unique(1) [OF keys that r(1)] act desc by (auto simp: owned_by_def lease_describes_def)
  have checks: "outbox_checks (?f r)"
    by (rule outcome_checks [OF row(1) _ p fin]) (use act x(3) in simp_all)
  have "\<exists>d2. (case led of None \<Rightarrow> returnE () | Some s \<Rightarrow> write_terminal_ledger l s http err dn) ?d1 = (Inr (), d2)
      \<and> outbox d2 = outbox d \<and> guard_outbox_update d2 r (?f r)"
  proof (cases "st = PENDING")
    case True
    then have "led = None" using p by (simp add: proper_outcome_def)
    moreover have "guard_outbox_update ?d1 r (?f r)"
      by (rule outcome_guarded [OF _ _ _ max1 _ p fin log]) (use act True in simp_all)
    ultimately show ?thesis by (intro exI [of _ ?d1]) (simp add: returnE_def)
  next
    case False
    let ?s = "if st = DELIVERED then St_delivered else St_failed"
    have led: "led = Some ?s" and io: "?s = St_delivered \<and> is_2xx http \<and> err = None
        \<or> ?s = St_failed \<and> nonblank err \<and> \<not> is_2xx http" and ck: "http_check http" "opt_bounded 1 100 err"
      using False st p by (auto simp: proper_outcome_def)
    from ledger_written [OF inv1 set1 r(1) desc _ refl x(3) n100 io ck] act
    obtain rows where w: "write_terminal_ledger l ?s http err dn ?d1 = (Inr (), ?d1\<lparr>ledger := rows\<rparr>)"
      and new: "redrive_count r = 0 \<Longrightarrow> select_one (ledger_of (ob_tenant_id r) (ob_evaluation_id r)) rows
           = Some (finish_ledger ?s (ld_attempt_number l) http err dn (claimed_ledger_row l dn))"
      and old: "redrive_count r \<noteq> 0 \<Longrightarrow> rows = ledger d" by metis
    have lo: "ledger_of (ob_tenant_id r) (ob_evaluation_id r)
          = (\<lambda>l. led_tenant_id l = ob_tenant_id r \<and> led_evaluation_id l = ob_evaluation_id r)"
      by (simp add: ledger_of_def fun_eq_iff)
    have "ledger_guard (?d1\<lparr>ledger := rows\<rparr>) r (?f r)"
    proof (cases "redrive_count r = 0")
      case True
      with new desc act fin False st show ?thesis
        by (auto simp: ledger_guard_def lo finish_ledger_def claimed_ledger_row_def lease_describes_def)
    next
      case redriven: False
      with row(5) obtain l0 where "ledger_row d r = Some l0" "ledger_identity r l0" "led_status l0 = St_failed"
        by (auto simp: ledger_ok_def)
      with redriven old show ?thesis
        by (auto simp: ledger_guard_def lo ledger_row_def ledger_identity_def)
    qed
    then have "guard_outbox_update (?d1\<lparr>ledger := rows\<rparr>) r (?f r)"
      by (intro outcome_guarded [OF _ _ _ max1 _ p fin]) (use act log in simp_all)
    with w led show ?thesis by (intro exI [of _ "?d1\<lparr>ledger := rows\<rparr>"]) simp
  qed
  then obtain d2 where s2: "(case led of None \<Rightarrow> returnE () | Some s \<Rightarrow> write_terminal_ledger l s http err dn) ?d1 = (Inr (), d2)"
    and d2: "outbox d2 = outbox d" "guard_outbox_update d2 r (?f r)" by blast
  from outbox_transition_runs [of r d2 l, OF _ _ d2(2) checks] own r(1) d2(1)
  obtain d' where s3: "outbox_transition l st nxt http err fin dn d2 = (Inr (), d')" by auto
  from s1 s2 s3 Some show ?thesis by (auto simp: outcome_tx_def bindE_def)
qed

lemma outcome_runs:
  assumes "delivery_inv d" "holds d l" "proper_outcome l out http err led st"
    and "fin = (if st = PENDING then None else Some dn)"
  shows "outcome_tx l out http err started dn led st nxt fin d = (Inl lease_lost, d)
    \<or> (\<exists>d'. outcome_tx l out http err started dn led st nxt fin d = (Inr (), d'))"
  using outcome_result [OF assms, of started nxt] by (auto split: if_splits)

subsection \<open>Nor a lease or a re-drive\<close>

lemma update_outbox_runs:
  assumes "\<And>r. r \<in> set (outbox d) \<Longrightarrow> P r \<Longrightarrow> guard_outbox_update d r (f r) \<and> outbox_checks (f r)"
  shows "update_outbox P f d = (Inr (map f (filter P (outbox d))), d\<lparr>outbox := update_where P f (outbox d)\<rparr>)"
proof -
  have "\<forall>r \<in> set (filter P (outbox d)). guard_outbox_update d r (f r) \<and> outbox_checks (f r)"
    using assms by simp
  then show ?thesis unfolding update_outbox_def Let_def returnE_def by (rule if_P)
qed

lemma take_lease_guarded:
  assumes inv: "alert_inv d" and r: "r \<in> set (outbox d)" "due now r" and w: "bounded_text 1 200 w" and t: "now < t"
  shows "guard_outbox_update d r (take_lease w now t r) \<and> outbox_checks (take_lease w now t r)"
proof
  note row = alert_inv_row [OF inv r(1)]
  show "outbox_checks (take_lease w now t r)"
    using row(1,3) r(2) w
    by (auto simp: outbox_checks_def take_lease_def due_def budget_ok_def lease_ck_def terminal_ck_def
        delivered_evidence_ck_def dead_letter_evidence_ck_def opt_bounded_def)
  show "guard_outbox_update d r (take_lease w now t r)"
    using r(2) t
    by (auto simp: guard_outbox_update_def take_lease_def due_def same_intent_def lease_guard_def outcome_guard_def
        split: option.splits)
qed

lemma lease_runs:
  assumes inv: "alert_inv d" and w: "bounded_text 1 200 w" and batch: "1 \<le> batch" and secs: "0 < timedelta_us secs"
  obtains ls d' where "lease w now secs batch locked d = (Inr ls, d')"
proof -
  obtain res d' where run: "lease w now secs batch locked d = (res, d')" by force
  let ?ids = "map outbox_id (lease_candidates now batch locked (outbox d))"
  let ?f = "take_lease w now (now + timedelta_us secs)"
  have "w \<noteq> []" using w by (auto simp: bounded_text_def)
  have "\<exists>rows d1. update_outbox (\<lambda>r. outbox_id r \<in> set ?ids) ?f d = (Inr rows, d1)"
  proof -
    have "guard_outbox_update d r (?f r) \<and> outbox_checks (?f r)" if "r \<in> set (outbox d)" "outbox_id r \<in> set ?ids" for r
      by (rule take_lease_guarded [OF inv that(1) leased_rows_due [OF _ that] w])
         (use inv secs in \<open>simp_all add: alert_inv_def\<close>)
    then show ?thesis using update_outbox_runs [of d "\<lambda>r. outbox_id r \<in> set ?ids" ?f] by simp
  qed
  with run \<open>w \<noteq> []\<close> batch have "\<exists>ls. res = Inr ls"
    by (auto simp: lease_def atomically_def bindE_def returnE_def Let_def split: if_splits)
  with run that show thesis by auto
qed

lemma redrive_runs:
  assumes inv: "alert_inv d" and r: "r \<in> set (outbox d)" "outbox_visible p oid r" "ob_state r = DEAD_LETTER"
    and n: "1 \<le> add" "attempt_count r < 100"
  shows "\<exists>d'. redrive p oid now add d = (Inr (), d')"
proof -
  let ?c = "min (attempt_count r + add) MAX_ATTEMPT_CEILING"
  let ?P = "\<lambda>x. outbox_visible p oid x \<and> ob_state x = DEAD_LETTER"
  have keys: "outbox_keys d" using inv by (simp add: alert_inv_def)
  have sel: "select_one (outbox_visible p oid) (outbox d) = Some r"
    by (rule select_one_key [of outbox_id])
       (use keys r in \<open>auto simp: outbox_keys_def outbox_visible_def\<close>)
  have only: "x = r" if "x \<in> set (outbox d)" "?P x" for x
    using outbox_id_unique(1) [OF keys that(1) r(1)] that(2) r(2) by (auto simp: outbox_visible_def)
  note row = alert_inv_row [OF inv r(1)]
  have "outbox_checks (redriven ?c now r)"
    using row(1,3) r(3) n
    by (auto simp: outbox_checks_def redriven_def budget_ok_def lease_ck_def terminal_ck_def MAX_ATTEMPT_CEILING_def
        delivered_evidence_ck_def dead_letter_evidence_ck_def opt_bounded_def)
  moreover have "guard_outbox_update d r (redriven ?c now r)"
    using r(3) by (auto simp: guard_outbox_update_def redriven_def same_intent_def outcome_guard_def)
  ultimately have "update_outbox ?P (redriven ?c now) d
      = (Inr (map (redriven ?c now) (filter ?P (outbox d))), d\<lparr>outbox := update_where ?P (redriven ?c now) (outbox d)\<rparr>)"
    by (intro update_outbox_runs) (use only in blast)
  with sel r(3) n show ?thesis
    by (auto simp: redrive_def atomically_def bindE_def returnE_def Let_def MAX_ATTEMPT_CEILING_def)
qed

end
