(* ===== verification/AlertWorker.thy ===== *)
theory AlertWorker
  imports OutboxDelivery
begin

section \<open>The delivery worker (\<^verbatim>\<open>alerting/worker.py\<close>, \<^verbatim>\<open>alerting/webhook.py\<close>)\<close>

text \<open>
  The worker leases a batch, sends every item outside any transaction, and records each outcome.
  The world is the database, the clock readings and repository calls so far, and the requests put
  on the wire, in order. The environment gives the clock, what the HTTP client makes of the
  \<open>k\<close>-th request (\<^verbatim>\<open>httpx\<close> is not code of this repository), and what other callers do to the
  database right before the \<open>k\<close>-th repository call.
\<close>

subsection \<open>Outcomes of a request\<close>

datatype PostResult = Responded int | Timeout_exception | Connect_error | Other_exception

fun classify_transport_error :: "PostResult \<Rightarrow> string" where
  "classify_transport_error Timeout_exception = ''timeout''"
| "classify_transport_error Connect_error = ''connection_error''"
| "classify_transport_error _ = ''transport_error''"

definition RETRYABLE_ERROR_CLASSES :: "string set" where
  "RETRYABLE_ERROR_CLASSES = {''timeout'', ''connection_error'', ''transport_error''}"

definition AMBIGUOUS_ERROR_CLASSES :: "string set" where
  "AMBIGUOUS_ERROR_CLASSES = {''timeout''}"

record AttemptOutcomeDecision =
  dec_outcome :: AttemptOutcome
  dec_http_status :: "int option"
  dec_error_class :: "string option"
  dec_retryable :: bool

definition classify_response :: "int \<Rightarrow> AttemptOutcomeDecision" where
  "classify_response c =
     (if 200 \<le> c \<and> c < 300 then
        \<lparr>dec_outcome = Out_delivered, dec_http_status = Some c, dec_error_class = None, dec_retryable = False\<rparr>
      else if c \<ge> 500 then
        \<lparr>dec_outcome = Out_retryable, dec_http_status = Some c,
         dec_error_class = Some (''http_'' @ int_text c), dec_retryable = True\<rparr>
      else
        \<lparr>dec_outcome = Out_permanent, dec_http_status = Some c,
         dec_error_class = Some (''http_'' @ int_text c), dec_retryable = False\<rparr>)"

definition classify_exception :: "PostResult \<Rightarrow> AttemptOutcomeDecision" where
  "classify_exception e =
     (let c = classify_transport_error e
      in if c \<in> AMBIGUOUS_ERROR_CLASSES then
           \<lparr>dec_outcome = Out_ambiguous, dec_http_status = None, dec_error_class = Some c, dec_retryable = True\<rparr>
         else if c \<in> RETRYABLE_ERROR_CLASSES then
           \<lparr>dec_outcome = Out_retryable, dec_http_status = None, dec_error_class = Some c, dec_retryable = True\<rparr>
         else
           \<lparr>dec_outcome = Out_permanent, dec_http_status = None, dec_error_class = Some c, dec_retryable = False\<rparr>)"

fun decide :: "PostResult \<Rightarrow> AttemptOutcomeDecision" where
  "decide (Responded c) = classify_response c"
| "decide e = classify_exception e"

subsection \<open>The worker\<close>

record WorkerRunResult =
  leased :: nat
  delivered :: nat
  retried :: nat
  dead_lettered :: nat
  lost :: nat

definition no_result :: WorkerRunResult where
  "no_result = \<lparr>leased = 0, delivered = 0, retried = 0, dead_lettered = 0, lost = 0\<rparr>"

definition merged :: "WorkerRunResult \<Rightarrow> WorkerRunResult \<Rightarrow> WorkerRunResult" where
  "merged a b =
     \<lparr>leased = leased a + leased b, delivered = delivered a + delivered b,
      retried = retried a + retried b, dead_lettered = dead_lettered a + dead_lettered b,
      lost = lost a + lost b\<rparr>"

record worker_world =
  adb :: alert_db
  ticks :: nat
  calls :: nat
  posts :: "(string \<times> json) list"

record worker_env =
  wk_clock :: "nat \<Rightarrow> int"
  wk_others :: "nat \<Rightarrow> alert_db \<Rightarrow> alert_db"
  wk_post :: "nat \<Rightarrow> PostResult"
  wk_id :: string
  wk_lease_seconds :: rat
  wk_locked :: "nat \<Rightarrow> nat list"

definition tick :: "worker_env \<Rightarrow> (worker_world, int) comp" where
  "tick env w = returnE (wk_clock env (ticks w)) (w\<lparr>ticks := ticks w + 1\<rparr>)"

definition call_outbox :: "worker_env \<Rightarrow> (alert_db, 'a) comp \<Rightarrow> (worker_world, 'a) comp" where
  "call_outbox env m w =
     (case m (wk_others env (calls w) (adb w)) of (r, d) \<Rightarrow> (r, w\<lparr>adb := d, calls := calls w + 1\<rparr>))"

text \<open>One bounded POST, with the intent's key in the \<^verbatim>\<open>Idempotency-Key\<close> header.\<close>

definition post :: "worker_env \<Rightarrow> json \<Rightarrow> string \<Rightarrow> (worker_world, PostResult) comp" where
  "post env payload key w =
     returnE (wk_post env (length (posts w))) (w\<lparr>posts := posts w @ [(key, payload)]\<rparr>)"

fun is_lease_lost :: "exn \<Rightarrow> bool" where
  "is_lease_lost (ConflictError c _) = (c = ''OUTBOX_LEASE_LOST'')"
| "is_lease_lost _ = False"

definition error_class_of :: "AttemptOutcomeDecision \<Rightarrow> string" where
  "error_class_of dec = (case dec_error_class dec of None \<Rightarrow> ''unknown_error''
     | Some s \<Rightarrow> if s = [] then ''unknown_error'' else s)"

definition record_outcome ::
  "worker_env \<Rightarrow> LeasedDelivery \<Rightarrow> AttemptOutcomeDecision \<Rightarrow> int \<Rightarrow> int
   \<Rightarrow> (worker_world, WorkerRunResult) comp"
where
  "record_outcome env l dec started done1 =
     (if dec_outcome dec = Out_delivered then
        (case dec_http_status dec of
           None \<Rightarrow> raiseE (RuntimeError ''AssertionError'')
         | Some c \<Rightarrow> bindE (call_outbox env (record_delivered l c started done1))
                      (\<lambda>_. returnE (no_result\<lparr>delivered := 1\<rparr>)))
      else if dec_retryable dec \<and> \<not> is_final_attempt l then
        bindE (call_outbox env (record_retry l (dec_outcome dec) (dec_http_status dec) (error_class_of dec)
                 started done1 DEFAULT_BACKOFF_BASE_SECONDS))
          (\<lambda>_. returnE (no_result\<lparr>retried := 1\<rparr>))
      else
        bindE (call_outbox env (record_dead_letter l (dec_outcome dec) (dec_http_status dec) (error_class_of dec)
                 started done1))
          (\<lambda>_. returnE (no_result\<lparr>dead_lettered := 1\<rparr>)))"

definition process :: "worker_env \<Rightarrow> LeasedDelivery \<Rightarrow> (worker_world, WorkerRunResult) comp" where
  "process env l =
     bindE (tick env) (\<lambda>started.
     bindE (post env (ld_payload l) (ld_key l)) (\<lambda>answer.
     bindE (tick env) (\<lambda>done1.
     bindE (tryE is_lease_lost (record_outcome env l (decide answer) started done1)) (\<lambda>r. case r of
        Inl _ \<Rightarrow> returnE (no_result\<lparr>lost := 1\<rparr>)
      | Inr res \<Rightarrow> returnE res))))"

fun process_all :: "worker_env \<Rightarrow> WorkerRunResult \<Rightarrow> LeasedDelivery list \<Rightarrow> (worker_world, WorkerRunResult) comp" where
  "process_all env acc [] = returnE acc"
| "process_all env acc (l # ls) =
     bindE (process env l) (\<lambda>res. process_all env (merged acc res) ls)"

definition run_once :: "worker_env \<Rightarrow> int \<Rightarrow> (worker_world, WorkerRunResult) comp" where
  "run_once env batch =
     bindE (tick env) (\<lambda>now w.
     bindE (call_outbox env (lease (wk_id env) now (wk_lease_seconds env) batch (wk_locked env (calls w)))) (\<lambda>ls.
       process_all env (no_result\<lparr>leased := length ls\<rparr>) ls) w)"

subsection \<open>The decisions\<close>

text \<open>An exception never counts as delivered or as a permanent failure, and a timeout is ambiguous.\<close>

lemma classify_exception_cases:
  "classify_exception e = \<lparr>dec_outcome = (if e = Timeout_exception then Out_ambiguous else Out_retryable),
     dec_http_status = None, dec_error_class = Some (classify_transport_error e), dec_retryable = True\<rparr>"
  by (cases e) (auto simp: classify_exception_def AMBIGUOUS_ERROR_CLASSES_def RETRYABLE_ERROR_CLASSES_def Let_def)

lemma length_nat_text: "n < 1000 \<Longrightarrow> length (nat_text n) \<le> 3"
  by (subst nat_text.simps, subst nat_text.simps, subst nat_text.simps) auto

lemma error_class_ok:
  assumes "case answer of Responded c \<Rightarrow> 100 \<le> c \<and> c \<le> 599 | _ \<Rightarrow> True" and "dec_outcome (decide answer) \<noteq> Out_delivered"
  shows "bounded_text 1 100 (error_class_of (decide answer))" "nonblank (Some (error_class_of (decide answer)))"
proof -
  have "length (int_text c) \<le> 95" if "100 \<le> c" "c \<le> 599" for c
  proof -
    have "nat c < 1000" using that by simp
    from length_nat_text [OF this] that show ?thesis by (simp add: int_text_def)
  qed
  with assms show "bounded_text 1 100 (error_class_of (decide answer))"
    by (cases answer) (auto simp: classify_response_def classify_exception_cases error_class_of_def bounded_text_def)
  from assms show "nonblank (Some (error_class_of (decide answer)))"
    by (cases answer) (auto simp: classify_response_def classify_exception_cases error_class_of_def nonblank_def)
qed

text \<open>The outcome the worker decides on is one worth recording for its lease.\<close>

lemma decided_outcome:
  assumes a: "case answer of Responded c \<Rightarrow> 100 \<le> c \<and> c \<le> 599 | _ \<Rightarrow> True"
  defines "dec \<equiv> decide answer"
  shows "dec_outcome dec = Out_delivered \<Longrightarrow> \<exists>c. dec_http_status dec = Some c \<and> 200 \<le> c \<and> c < 300
           \<and> proper_outcome l Out_delivered (Some c) None (Some St_delivered) DELIVERED"
    and "dec_outcome dec \<noteq> Out_delivered \<Longrightarrow> dec_retryable dec \<Longrightarrow> \<not> is_final_attempt l \<Longrightarrow>
           proper_outcome l (dec_outcome dec) (dec_http_status dec) (Some (error_class_of dec)) None PENDING"
    and "dec_outcome dec \<noteq> Out_delivered \<Longrightarrow> dec_retryable dec \<Longrightarrow> dec_outcome dec \<in> {Out_retryable, Out_ambiguous}"
    and "dec_outcome dec \<noteq> Out_delivered \<Longrightarrow> \<not> (dec_retryable dec \<and> \<not> is_final_attempt l) \<Longrightarrow>
           proper_outcome l (dec_outcome dec) (dec_http_status dec) (Some (error_class_of dec))
             (Some St_failed) DEAD_LETTER"
  using a error_class_ok [OF a]
  by (cases answer;
      force simp: dec_def classify_response_def classify_exception_cases proper_outcome_def http_check_def
        is_2xx_def opt_bounded_def is_final_attempt_def split: if_splits)+

subsection \<open>One item, in the company of others\<close>

text \<open>
  A worker whose database others only work on through the operations of \<open>alert_op\<close>, and whose receiver, when
  it answers with a status, answers with one from 100 to 599. The HTTP client passes on any three-digit status, but
  the \<^verbatim>\<open>http_status\<close> columns admit no other: on 600 to 999 the report of the outcome is refused by the
  database and the run raises (\<open>status_out_of_range\<close> in \<open>AlertProperties\<close>).
\<close>

definition sound_worker :: "(rat \<Rightarrow> rat) \<Rightarrow> worker_env \<Rightarrow> bool" where
  "sound_worker num env \<longleftrightarrow>
     (\<forall>k. \<exists>ops. wk_others env k = fold (alert_step num) ops)
     \<and> (\<forall>k. case wk_post env k of Responded c \<Rightarrow> 100 \<le> c \<and> c \<le> 599 | _ \<Rightarrow> True)
     \<and> bounded_text 1 200 (wk_id env) \<and> 0 < timedelta_us (wk_lease_seconds env)"

lemma wp_tick [simp]: "wp (tick env) Q E w = Q (wk_clock env (ticks w)) (w\<lparr>ticks := ticks w + 1\<rparr>)"
  by (simp add: wp_def tick_def returnE_def)

lemma wp_post [simp]:
  "wp (post env pl key) Q E w = Q (wk_post env (length (posts w))) (w\<lparr>posts := posts w @ [(key, pl)]\<rparr>)"
  by (simp add: wp_def post_def returnE_def)

lemma wp_call_outbox [simp]:
  "wp (call_outbox env m) Q E w =
    wp m (\<lambda>x d. Q x (w\<lparr>adb := d, calls := calls w + 1\<rparr>)) (\<lambda>e d. E e (w\<lparr>adb := d, calls := calls w + 1\<rparr>))
      (wk_others env (calls w) (adb w))"
  by (simp add: wp_def call_outbox_def split: prod.split)

definition follows :: "alert_db \<Rightarrow> alert_db \<Rightarrow> bool" where
  "follows d d' \<longleftrightarrow> delivery_inv d' \<and> alert_before d d'"

lemma follows_refl: "delivery_inv d \<Longrightarrow> follows d d"
  by (simp add: follows_def)

lemma follows_trans: "follows d e \<Longrightarrow> follows e f \<Longrightarrow> follows d f"
  unfolding follows_def using alert_before_trans by blast

lemma follows_others:
  assumes "sound_worker num env" and "delivery_inv d"
  shows "follows d (wk_others env k d)"
proof -
  from assms(1) obtain ops where "wk_others env k = fold (alert_step num) ops" by (auto simp: sound_worker_def)
  with deliveries.run_inv [OF assms(2), of num ops] deliveries.run_before [OF assms(2), of num ops]
  show ?thesis by (simp add: follows_def)
qed

lemma follows_step:
  assumes "delivery_inv d"
  shows "follows d (alert_step num op d)"
  using deliveries.step_inv [OF assms, of num op] deliveries.step_before [OF assms, of num op]
  by (simp add: follows_def)

lemma holds_follows: "delivery_inv d \<Longrightarrow> follows d d' \<Longrightarrow> holds d l \<Longrightarrow> holds d' l"
  unfolding follows_def delivery_inv_def by (blast intro: holds_later)

text \<open>A computation that ends like a recorded outcome: with its result, or with the lease lost.\<close>

definition settles :: "(alert_db, 'a) comp \<Rightarrow> alert_db \<Rightarrow> bool" where
  "settles m d \<longleftrightarrow> wp m (\<lambda>_ d'. follows d d') (\<lambda>e d'. e = lease_lost \<and> follows d d') d"

lemma outcome_settles:
  assumes inv: "delivery_inv d" and h: "holds d l" and p: "proper_outcome l out http err led st"
    and fin: "fin = (if st = PENDING then None else Some dn)"
    and step: "\<And>x d'. atomically (outcome_tx l out http err started dn led st nxt fin) d = (x, d') \<Longrightarrow> follows d d'"
  shows "settles (atomically (outcome_tx l out http err started dn led st nxt fin)) d"
proof -
  obtain res d' where run: "atomically (outcome_tx l out http err started dn led st nxt fin) d = (res, d')" by force
  from outcome_runs [OF inv h p fin, of started nxt] have "res = Inl lease_lost \<or> res = Inr ()"
    using run by (auto simp: atomically_outcome)
  with run step [OF run] show ?thesis by (auto simp: settles_def wp_def)
qed

lemma delivered_settles:
  assumes "delivery_inv d" "holds d l" "200 \<le> c" "c < 300"
    and "proper_outcome l Out_delivered (Some c) None (Some St_delivered) DELIVERED"
  shows "settles (record_delivered l c st dn) d"
proof -
  have eq: "record_delivered l c st dn = atomically (outcome_tx l Out_delivered (Some c) None st dn
      (Some St_delivered) DELIVERED None (Some dn))" using assms(3,4) by (simp add: record_delivered_tx)
  show ?thesis
    unfolding eq
    by (rule outcome_settles [OF assms(1,2,5)], simp)
       (use follows_step [OF assms(1), where op = "OpDelivered l c st dn"] in \<open>simp add: eq\<close>)
qed

lemma dead_letter_settles:
  assumes "delivery_inv d" "holds d l" "out \<noteq> Out_delivered"
    and "proper_outcome l out http (Some err) (Some St_failed) DEAD_LETTER"
  shows "settles (record_dead_letter l out http err st dn) d"
proof -
  have eq: "record_dead_letter l out http err st dn = atomically (outcome_tx l out http (Some err) st dn
      (Some St_failed) DEAD_LETTER None (Some dn))" using assms(3) by (simp add: record_dead_letter_tx)
  show ?thesis
    unfolding eq
    by (rule outcome_settles [OF assms(1,2,4)], simp)
       (use follows_step [OF assms(1), where op = "OpDeadLetter l out http err st dn"] in \<open>simp add: eq\<close>)
qed

lemma retry_settles:
  assumes "delivery_inv d" "holds d l" "out \<in> {Out_retryable, Out_ambiguous}" "\<not> is_final_attempt l"
    and "proper_outcome l out http (Some err) None PENDING"
  shows "settles (record_retry l out http err st dn base) d"
proof -
  have "1 \<le> ld_attempt_number l" using assms(2) by (auto simp: holds_def)
  then obtain delay where delay: "backoff_delay_seconds (ld_attempt_number l) base DEFAULT_BACKOFF_CAP_SECONDS = Inr delay"
    by (simp add: backoff_delay_seconds_def Let_def)
  let ?m = "atomically (outcome_tx l out http (Some err) st dn None PENDING (Some (dn + timedelta_us delay)) None)"
  have eq: "record_retry l out http err st dn base = bindE ?m (\<lambda>_. returnE (dn + timedelta_us delay))"
    using assms(3,4) delay by (auto simp: record_retry_tx bind_lift)
  have same: "snd (bindE ?m (\<lambda>_. returnE z) d) = snd (?m d)" for z :: int
    by (simp add: bindE_def returnE_def split: prod.split sum.split)
  have "settles ?m d"
    by (rule outcome_settles [OF assms(1,2,5)], simp)
       (use follows_step [OF assms(1), where op = "OpRetry l out http err st dn base"] same in \<open>simp add: eq\<close>)
  then show ?thesis unfolding settles_def eq wp_bind by (rule wp_mono) simp_all
qed

definition one_item :: "worker_env \<Rightarrow> LeasedDelivery \<Rightarrow> worker_world \<Rightarrow> WorkerRunResult \<Rightarrow> worker_world \<Rightarrow> bool" where
  "one_item env l w res w' \<longleftrightarrow> follows (adb w) (adb w') \<and> posts w' = posts w @ [(ld_key l, ld_payload l)]
     \<and> leased res = 0 \<and> delivered res + retried res + dead_lettered res + lost res = 1"

lemma call_settles:
  assumes env: "sound_worker num env" and inv: "delivery_inv (adb w)"
    and m: "settles m (wk_others env (calls w) (adb w))"
  shows "wp (call_outbox env m) (\<lambda>_ w'. follows (adb w) (adb w') \<and> posts w' = posts w)
           (\<lambda>e w'. e = lease_lost \<and> follows (adb w) (adb w') \<and> posts w' = posts w) w"
  using m follows_others [OF env inv, of "calls w"]
  unfolding wp_call_outbox settles_def by (auto elim!: wp_mono intro: follows_trans)

lemma record_outcome_settles:
  assumes env: "sound_worker num env" and inv: "delivery_inv (adb w)" and h: "holds (adb w) l"
    and a: "case answer of Responded c \<Rightarrow> 100 \<le> c \<and> c \<le> 599 | _ \<Rightarrow> True"
  shows "wp (record_outcome env l (decide answer) started dn)
    (\<lambda>res w'. follows (adb w) (adb w') \<and> posts w' = posts w
        \<and> leased res = 0 \<and> delivered res + retried res + dead_lettered res + lost res = 1)
    (\<lambda>e w'. e = lease_lost \<and> follows (adb w) (adb w') \<and> posts w' = posts w) w"
proof -
  let ?d = "wk_others env (calls w) (adb w)" and ?dec = "decide answer"
  have f: "follows (adb w) ?d" by (rule follows_others [OF env inv])
  have inv': "delivery_inv ?d" using f by (simp add: follows_def)
  have h': "holds ?d l" by (rule holds_follows [OF inv f h])
  note dec = decided_outcome [OF a]
  consider (ok) "dec_outcome ?dec = Out_delivered"
    | (again) "dec_outcome ?dec \<noteq> Out_delivered" "dec_retryable ?dec" "\<not> is_final_attempt l"
    | (dead) "dec_outcome ?dec \<noteq> Out_delivered" "\<not> (dec_retryable ?dec \<and> \<not> is_final_attempt l)" by blast
  then show ?thesis
  proof cases
    case ok
    from dec(1) [OF ok] obtain c where c: "dec_http_status ?dec = Some c" "200 \<le> c" "c < 300"
      "proper_outcome l Out_delivered (Some c) None (Some St_delivered) DELIVERED" by blast
    from call_settles [OF env inv delivered_settles [OF inv' h' c(2-4)], of started dn] show ?thesis
      unfolding record_outcome_def using ok c(1)
      by (simp add: no_result_def)
  next
    case again
    from call_settles [OF env inv retry_settles [OF inv' h' dec(3) [OF again(1,2)] again(3) dec(2) [OF again]],
        of started dn DEFAULT_BACKOFF_BASE_SECONDS] again show ?thesis
      unfolding record_outcome_def
      by (simp add: no_result_def)
  next
    case dead
    from call_settles [OF env inv dead_letter_settles [OF inv' h' dead(1) dec(4) [OF dead]], of started dn] dead
    show ?thesis
      unfolding record_outcome_def
      by (auto simp: no_result_def)
  qed
qed

lemma is_lease_lost_iff [simp]: "is_lease_lost lease_lost"
  by (simp add: lease_lost_def)

lemma process_item:
  assumes env: "sound_worker num env" and inv: "delivery_inv (adb w)" and h: "holds (adb w) l"
  shows "wp (process env l) (one_item env l w) (\<lambda>_ _. False) w"
proof -
  let ?w = "w\<lparr>ticks := ticks w + 1, posts := posts w @ [(ld_key l, ld_payload l)], ticks := ticks w + 1 + 1\<rparr>"
  have a: "case wk_post env k of Responded c \<Rightarrow> 100 \<le> c \<and> c \<le> 599 | _ \<Rightarrow> True" for k
    using env by (simp add: sound_worker_def)
  have "wp (record_outcome env l (decide (wk_post env (length (posts w)))) (wk_clock env (ticks w))
        (wk_clock env (ticks w + 1)))
      (\<lambda>res w'. follows (adb w) (adb w') \<and> posts w' = posts w @ [(ld_key l, ld_payload l)]
        \<and> leased res = 0 \<and> delivered res + retried res + dead_lettered res + lost res = 1)
      (\<lambda>e w'. e = lease_lost \<and> follows (adb w) (adb w') \<and> posts w' = posts w @ [(ld_key l, ld_payload l)]) ?w"
    using record_outcome_settles [OF env _ _ a, of ?w l] inv h by simp
  then show ?thesis
    unfolding process_def by (auto elim!: wp_mono simp: one_item_def no_result_def)
qed

lemma process_all_items:
  assumes env: "sound_worker num env" and inv: "delivery_inv (adb w)" and h: "\<forall>l \<in> set ls. holds (adb w) l"
  shows "wp (process_all env acc ls)
    (\<lambda>res w'. follows (adb w) (adb w') \<and> posts w' = posts w @ map (\<lambda>l. (ld_key l, ld_payload l)) ls
        \<and> leased res = leased acc
        \<and> delivered res + retried res + dead_lettered res + lost res
            = delivered acc + retried acc + dead_lettered acc + lost acc + length ls)
    (\<lambda>_ _. False) w"
  using inv h
proof (induction ls arbitrary: acc w)
  case Nil
  then show ?case by (simp add: follows_refl)
next
  case (Cons l ls)
  show ?case
    unfolding process_all.simps wp_bind
  proof (rule wp_mono [OF process_item [OF env Cons.prems(1)]])
    show "holds (adb w) l" using Cons.prems(2) by simp
  next
    fix res w' assume one: "one_item env l w res w'"
    then have f: "follows (adb w) (adb w')" by (simp add: one_item_def)
    have "delivery_inv (adb w')" "\<forall>l \<in> set ls. holds (adb w') l"
      using f Cons.prems holds_follows by (auto simp: follows_def)
    from Cons.IH [OF this, of "merged acc res"] show "wp (process_all env (merged acc res) ls)
      (\<lambda>res w'. follows (adb w) (adb w') \<and> posts w' = posts w @ map (\<lambda>l. (ld_key l, ld_payload l)) (l # ls)
        \<and> leased res = leased acc
        \<and> delivered res + retried res + dead_lettered res + lost res
            = delivered acc + retried acc + dead_lettered acc + lost acc + length (l # ls))
      (\<lambda>_ _. False) w'"
      by (rule wp_mono) (use one f in \<open>auto simp: one_item_def merged_def intro: follows_trans\<close>)
  qed simp
qed

lemma run_once_accounts:
  assumes env: "sound_worker num env" and inv: "delivery_inv (adb w)" and batch: "1 \<le> batch"
  shows "wp (run_once env batch)
    (\<lambda>res w'. follows (adb w) (adb w') \<and> leased res = delivered res + retried res + dead_lettered res + lost res
        \<and> (\<exists>ls. posts w' = posts w @ map (\<lambda>l. (ld_key l, ld_payload l)) ls \<and> length ls = leased res
             \<and> (\<forall>l \<in> set ls. holds (adb w') l)))
    (\<lambda>_ _. False) w"
proof -
  let ?d = "wk_others env (calls w) (adb w)"
  let ?lease = "lease (wk_id env) (wk_clock env (ticks w)) (wk_lease_seconds env) batch (wk_locked env (calls w))"
  have f: "follows (adb w) ?d" by (rule follows_others [OF env inv])
  then have inv': "delivery_inv ?d" by (simp add: follows_def)
  from env have w: "bounded_text 1 200 (wk_id env)" "0 < timedelta_us (wk_lease_seconds env)"
    by (simp_all add: sound_worker_def)
  have ai: "alert_inv ?d" using inv' by (simp add: delivery_inv_def)
  from lease_runs [OF ai w(1) batch w(2)] obtain ls d' where run: "?lease ?d = (Inr ls, d')" .
  have f': "follows ?d d'"
    using follows_step [OF inv', of num "OpLease (wk_id env) (wk_clock env (ticks w)) (wk_lease_seconds env) batch
        (wk_locked env (calls w))"] run by simp
  have h: "\<forall>l \<in> set ls. holds d' l" using lease_holds [OF ai run] by blast
  let ?w = "w\<lparr>ticks := ticks w + 1, adb := d', calls := calls w + 1\<rparr>"
  have "wp (process_all env (no_result\<lparr>leased := length ls\<rparr>) ls)
    (\<lambda>res w'. follows d' (adb w') \<and> posts w' = posts w @ map (\<lambda>l. (ld_key l, ld_payload l)) ls
        \<and> leased res = length ls \<and> delivered res + retried res + dead_lettered res + lost res = length ls)
    (\<lambda>_ _. False) ?w"
    using process_all_items [OF env, of ?w ls "no_result\<lparr>leased := length ls\<rparr>"] h f'
    by (simp add: no_result_def follows_def)
  then have "wp (process_all env (no_result\<lparr>leased := length ls\<rparr>) ls)
    (\<lambda>res w'. follows (adb w) (adb w') \<and> leased res = delivered res + retried res + dead_lettered res + lost res
        \<and> (\<exists>ls. posts w' = posts w @ map (\<lambda>l. (ld_key l, ld_payload l)) ls \<and> length ls = leased res
             \<and> (\<forall>l \<in> set ls. holds (adb w') l)))
    (\<lambda>_ _. False) ?w"
  proof (rule wp_mono)
    fix res w' assume r: "follows d' (adb w') \<and> posts w' = posts w @ map (\<lambda>l. (ld_key l, ld_payload l)) ls
        \<and> leased res = length ls \<and> delivered res + retried res + dead_lettered res + lost res = length ls"
    have "follows (adb w) (adb w')" using r follows_trans [OF follows_trans [OF f f']] by blast
    moreover have "\<forall>l \<in> set ls. holds (adb w') l"
      using h r f' holds_follows by (auto simp: follows_def)
    ultimately show "follows (adb w) (adb w') \<and> leased res = delivered res + retried res + dead_lettered res + lost res
        \<and> (\<exists>ls. posts w' = posts w @ map (\<lambda>l. (ld_key l, ld_payload l)) ls \<and> length ls = leased res
             \<and> (\<forall>l \<in> set ls. holds (adb w') l))"
      using r by auto
  qed simp
  with run show ?thesis
    by (simp add: run_once_def) (simp add: wp_def call_outbox_def bindE_def tick_def returnE_def)
qed

end
