(* ===== verification/AlertStories.thy ===== *)
theory AlertStories
  imports OutboxDelivery
begin

section \<open>What the alert history tells\<close>

text \<open>
  Three further invariants: an intent is delivered at most once and its log says so; announced
  evaluations and intents correspond one to one when delivery is on; the announcements of one
  alert alternate between fired and resolved.
\<close>

subsection \<open>Delivered once\<close>

definition successes :: "alert_db \<Rightarrow> OutboxRow \<Rightarrow> AttemptEvent list" where
  "successes d r =
     filter (\<lambda>a. ae_outbox_id a = outbox_id r \<and> ae_outcome a = Out_delivered) (attempt_log d)"

lemma successes_cong: "attempt_log d' = attempt_log d \<Longrightarrow> successes d' r = successes d r"
  by (simp add: successes_def)

definition delivered_once :: "alert_db \<Rightarrow> bool" where
  "delivered_once d \<longleftrightarrow> (\<forall>r \<in> set (outbox d).
     if ob_state r = DELIVERED then \<exists>a. successes d r = [a] \<and> ae_number a = attempt_count r
     else successes d r = [])"

lemma delivered_once_update:
  assumes "delivered_once d" and "\<And>r. r \<in> set (outbox d) \<Longrightarrow> P r \<Longrightarrow>
      outbox_id (f r) = outbox_id r \<and> ob_state r \<noteq> DELIVERED \<and> ob_state (f r) \<noteq> DELIVERED"
  shows "delivered_once (d\<lparr>outbox := update_where P f (outbox d)\<rparr>)"
  using assms unfolding delivered_once_def successes_def by (fastforce simp: set_update_where)

lemma outcome_delivered_once:
  assumes inv: "alert_inv d" and once: "delivered_once d"
    and run: "outcome_tx l out http err started dn led st nxt fin d = (Inr u, d')" and st: "st \<noteq> IN_FLIGHT"
  shows "delivered_once d'"
  using inv run
proof (cases rule: outcome_tx_ok)
  case (1 r rows)
  let ?a = "attempt_event l out http err started dn"
  let ?f = "apply_outcome st nxt http err fin dn"
  have keys: "outbox_keys d" using inv by (simp add: alert_inv_def)
  have flight: "ob_state r = IN_FLIGHT" and aid: "ae_outbox_id ?a = outbox_id r" "ae_number ?a = attempt_count r"
    using 1(2) by (simp_all add: active_attempt_def attempt_event_def)
  have "select_one (\<lambda>a. ae_outbox_id a = outbox_id r \<and> ae_number a = attempt_count r) (attempt_log d) = None"
    using alert_inv_row(4) [OF inv 1(1)] flight by (auto simp: select_one_None_iff log_ok_def)
  then have sel: "select_one (\<lambda>a. ae_outbox_id a = outbox_id r \<and> ae_number a = attempt_count r)
      (attempt_log d @ [?a]) = Some ?a" using aid by (simp add: select_one_append)
  have st': "ob_state (?f r) = st" by (simp add: apply_outcome_def)
  from 1(10) flight st st' sel have "outcome_allowed (?f r) (ae_outcome ?a)"
    by (simp add: guard_outbox_update_def outcome_guard_def)
  then have out: "out = Out_delivered \<longleftrightarrow> st = DELIVERED"
    using st st' by (cases st) (auto simp: outcome_allowed_def attempt_event_def)
  have old: "successes d r = []" using once 1(1) flight by (auto simp: delivered_once_def)
  show ?thesis
    unfolding delivered_once_def
  proof
    fix y assume "y \<in> set (outbox d')"
    then obtain x where x: "x \<in> set (outbox d)" "y = (if owned_by l x then ?f x else x)"
      by (auto simp: 1(6) set_update_where)
    show "if ob_state y = DELIVERED then \<exists>a. successes d' y = [a] \<and> ae_number a = attempt_count y else successes d' y = []"
    proof (cases "x = r")
      case True
      with x 1(3) [OF x(1)] have y: "y = ?f r" by simp
      have "outbox_id y = outbox_id r" "attempt_count y = attempt_count r" "ob_state y = st"
        by (simp_all add: y apply_outcome_def)
      moreover from this(1) old have "successes d' y = (if out = Out_delivered then [?a] else [])"
        by (simp add: successes_def 1(6) aid(1)) (simp add: attempt_event_def)
      ultimately show ?thesis using out aid(2) by simp
    next
      case False
      with x 1(3) [OF x(1)] have y: "y = x" by simp
      have "outbox_id y \<noteq> outbox_id r" using outbox_id_unique(1) [OF keys x(1) 1(1)] False y by simp
      then have "successes d' y = successes d y" by (simp add: successes_def 1(6) aid(1))
      with once x(1) y show ?thesis by (simp add: delivered_once_def)
    qed
  qed
qed

lemma atomically_delivered_once:
  "alert_inv d \<Longrightarrow> delivered_once d \<Longrightarrow> st \<noteq> IN_FLIGHT \<Longrightarrow>
    delivered_once (snd (atomically (outcome_tx l out http err started dn led st nxt fin) d))"
  by (auto simp: atomically_outcome intro: outcome_delivered_once split: prod.splits sum.splits)

lemma step_delivered_once:
  assumes inv: "alert_inv d" and once: "delivered_once d"
  shows "delivered_once (alert_step num op d)"
proof (cases op)
  case (OpRecord enq p s a key now)
  obtain res d' where e: "record_alert num enq p s a key now d = (res, d')" by force
  from inv e have "delivered_once d'"
  proof (cases rule: record_alert_cases)
    case (kept i j)
    with once successes_cong [of d' d] show ?thesis by (simp add: delivered_once_def)
  next
    case (added r j)
    have "successes d q = [] \<and> ob_state q \<noteq> DELIVERED" if "q \<in> set (intents_of enq r now (outbox_seq d + 1))" for q
    proof
      have q: "outbox_id q = outbox_seq d + 1" "ob_state q = PENDING"
        using that by (auto simp: intents_of_def intent_for_def new_intent_def split: option.splits if_splits)
      show "successes d q = []"
        using inv alert_inv_row(2) [OF inv] q(1)
        by (fastforce simp: successes_def filter_empty_conv alert_inv_def references_ok_def)
      show "ob_state q \<noteq> DELIVERED" using q(2) by simp
    qed
    with once added(8) successes_cong [of d' d] show ?thesis by (auto simp: delivered_once_def)
  qed
  with OpRecord e show ?thesis by simp
next
  case (OpLease w now secs batch locked)
  obtain res d' where e: "lease w now secs batch locked d = (res, d')" by force
  have "delivered_once d'"
    using e
  proof (cases rule: lease_cases)
    case (3 ids)
    have "ob_state r \<noteq> DELIVERED" if "r \<in> set (outbox d)" "outbox_id r \<in> set ids" for r
    proof -
      have "outbox_keys d" using inv by (simp add: alert_inv_def)
      from leased_rows_due [OF this that(1) that(2) [unfolded 3(1)]] show ?thesis by (auto simp: due_def)
    qed
    with 3(2) once show ?thesis
      by (auto intro!: delivered_once_update simp: take_lease_def)
  qed (use once in auto)
  with OpLease e show ?thesis by simp
next
  case (OpDelivered l http st dn)
  then show ?thesis using atomically_delivered_once [OF inv once] once by (simp add: record_delivered_tx raiseE_def)
next
  case (OpRetry l out http err st dn base)
  then show ?thesis
    using atomically_delivered_once [OF inv once, of PENDING l out http "Some err" st dn None] once
    by (auto simp: record_retry_tx comp_defs split: prod.splits sum.splits) (metis snd_conv)+
next
  case (OpDeadLetter l out http err st dn)
  then show ?thesis using atomically_delivered_once [OF inv once] once by (simp add: record_dead_letter_tx raiseE_def)
next
  case (OpRedrive p oid now add)
  obtain res d' where e: "redrive p oid now add d = (res, d')" by force
  from e once have "delivered_once d'"
    by (cases rule: redrive_cases) (auto intro!: delivered_once_update simp: redriven_def)
  with OpRedrive e show ?thesis by simp
qed

subsection \<open>Alternation\<close>

fun alternates :: "Transition \<Rightarrow> Transition list \<Rightarrow> bool" where
  "alternates first [] = True"
| "alternates first (t # ts) =
     (t = first \<and> alternates (if first = T_FIRED then T_RESOLVED else T_FIRED) ts)"

definition announcements :: "alert_db \<Rightarrow> string \<Rightarrow> string \<Rightarrow> Transition list" where
  "announcements d tenant fp =
     filter lifecycle (map alr_transition (filter (alert_of tenant fp) (evaluations d)))"

definition awaiting :: "Transition list \<Rightarrow> Transition" where
  "awaiting ts = (if even (length ts) then T_FIRED else T_RESOLVED)"

lemma alternates_snoc:
  "alternates f (ts @ [t]) \<longleftrightarrow> alternates f ts
     \<and> t = (if even (length ts) then f else if f = T_FIRED then T_RESOLVED else T_FIRED)"
  if "f \<in> {T_FIRED, T_RESOLVED}"
  using that by (induction ts arbitrary: f) auto

definition well_told :: "alert_db \<Rightarrow> bool" where
  "well_told d \<longleftrightarrow> (\<forall>tenant fp.
     alternates T_FIRED (announcements d tenant fp)
     \<and> (previous_state tenant fp d = Some FIRING \<longleftrightarrow> odd (length (announcements d tenant fp))))"

lemma next_state_transition:
  assumes "next_state prev a = (st, tr)"
  shows "lifecycle tr \<Longrightarrow> tr = (if prev = Some FIRING then T_RESOLVED else T_FIRED)"
    and "st \<noteq> None \<Longrightarrow> (st = Some FIRING) = ((prev = Some FIRING) \<noteq> lifecycle tr)"
    and "st = None \<longleftrightarrow> tr = T_UNMEASURED"
  using assms by (auto simp: next_state_def lifecycle_def split: if_splits)

lemma append_well_told:
  assumes told: "well_told d"
    and tr: "next_state (previous_state (alr_tenant_id r) (alr_fingerprint r) d) a = (alr_state r, alr_transition r)"
    and d': "evaluations d' = evaluations d @ [r]"
  shows "well_told d'"
  unfolding well_told_def
proof (intro allI)
  fix tenant fp
  let ?ts = "announcements d tenant fp"
  have old: "alternates T_FIRED ?ts" "previous_state tenant fp d = Some FIRING \<longleftrightarrow> odd (length ?ts)"
    using told by (auto simp: well_told_def)
  show "alternates T_FIRED (announcements d' tenant fp)
     \<and> (previous_state tenant fp d' = Some FIRING \<longleftrightarrow> odd (length (announcements d' tenant fp)))"
  proof (cases "alert_of tenant fp r")
    case False
    then have "announcements d' tenant fp = ?ts" "previous_state tenant fp d' = previous_state tenant fp d"
      by (simp_all add: announcements_def previous_state_def d' measured_of_def)
    with old show ?thesis by simp
  next
    case True
    then have id: "alr_tenant_id r = tenant" "alr_fingerprint r = fp" by (simp_all add: alert_of_def)
    note ns = next_state_transition [OF tr [unfolded id]]
    have ann: "announcements d' tenant fp = (if lifecycle (alr_transition r) then ?ts @ [alr_transition r] else ?ts)"
      using True by (simp add: announcements_def d')
    have prev: "previous_state tenant fp d' = (if alr_state r = None then previous_state tenant fp d else alr_state r)"
      using True by (simp add: previous_state_def d' measured_of_def)
    have "lifecycle (alr_transition r) \<Longrightarrow> alr_state r \<noteq> None" using ns(3) by (auto simp: lifecycle_def)
    then show ?thesis
      using old ns(1,2) by (auto simp: ann prev alternates_snoc)
  qed
qed

lemma well_told_cong: "evaluations d' = evaluations d \<Longrightarrow> well_told d' = well_told d"
  by (simp add: well_told_def announcements_def previous_state_def)

lemma outcome_evaluations:
  assumes "alert_inv d"
  shows "evaluations (snd (atomically (outcome_tx l out http err st dn led s nxt fin) d)) = evaluations d"
proof (cases "outcome_tx l out http err st dn led s nxt fin d")
  case (Pair res d')
  show ?thesis
  proof (cases res)
    case (Inr u)
    from assms Pair [unfolded Inr] have "evaluations d' = evaluations d" by (cases rule: outcome_tx_ok) simp
    with Pair Inr show ?thesis by (simp add: atomically_outcome)
  qed (simp add: Pair atomically_outcome)
qed

text \<open>Only a recording touches the evaluations or adds an intent.\<close>

lemma step_evaluations:
  assumes inv: "alert_inv d" and op: "\<nexists>enq p s a key now. op = OpRecord enq p s a key now"
  shows "evaluations (alert_step num op d) = evaluations d"
    and "map ob_evaluation_id (outbox (alert_step num op d)) = map ob_evaluation_id (outbox d)"
proof -
  have len: "map ob_evaluation_id rs' = map ob_evaluation_id rs"
    if "rows_before rs rs'" "length rs' = length rs" for rs rs'
  proof -
    from that obtain kept new where k: "rs' = kept @ new" "list_all2 row_before rs kept" by (auto simp: rows_before_def)
    with that(2) list_all2_lengthD [OF k(2)] have "list_all2 row_before rs rs'" by simp
    then show ?thesis
      by (induction rule: list_all2_induct) (auto simp: row_before_def same_intent_def)
  qed
  have before: "rows_before (outbox d) (outbox (alert_step num op d))"
    using alert_step_before [OF inv, of num op] by (simp add: alert_before_def)
  have out: "length (outbox (snd (atomically (outcome_tx l ou http err st dn led s nxt fin) d))) = length (outbox d)"
    for l ou http err st dn led s nxt fin
  proof (cases "outcome_tx l ou http err st dn led s nxt fin d")
    case (Pair res d')
    show ?thesis
    proof (cases res)
      case (Inr u)
      from inv Pair [unfolded Inr] have "length (outbox d') = length (outbox d)" by (cases rule: outcome_tx_ok) simp
      with Pair Inr show ?thesis by (simp add: atomically_outcome)
    qed (simp add: Pair atomically_outcome)
  qed
  have "evaluations (alert_step num op d) = evaluations d \<and> length (outbox (alert_step num op d)) = length (outbox d)"
  proof (cases op)
    case (OpLease w now secs batch locked)
    obtain res d' where e: "lease w now secs batch locked d = (res, d')" by force
    from e have "evaluations d' = evaluations d \<and> length (outbox d') = length (outbox d)"
      by (cases rule: lease_cases) auto
    with e OpLease show ?thesis by simp
  next
    case (OpRedrive p oid now add)
    obtain res d' where e: "redrive p oid now add d = (res, d')" by force
    from e have "evaluations d' = evaluations d \<and> length (outbox d') = length (outbox d)"
      by (cases rule: redrive_cases) auto
    with e OpRedrive show ?thesis by simp
  next
    case (OpRetry l ou http err st dn base)
    then show ?thesis
      using outcome_evaluations [OF inv, of l ou http "Some err" st dn None PENDING] out [of l ou http "Some err" st dn None PENDING]
      by (auto simp: record_retry_tx comp_defs split: prod.splits sum.splits) (metis snd_conv)+
  qed (use op outcome_evaluations [OF inv] out in \<open>auto simp: record_delivered_tx record_dead_letter_tx raiseE_def\<close>)
  then show "evaluations (alert_step num op d) = evaluations d"
    and "map ob_evaluation_id (outbox (alert_step num op d)) = map ob_evaluation_id (outbox d)"
    using len [OF before] by auto
qed

lemma step_well_told:
  assumes inv: "alert_inv d" and told: "well_told d"
  shows "well_told (alert_step num op d)"
proof (cases "\<exists>enq p s a key now. op = OpRecord enq p s a key now")
  case False
  with step_evaluations(1) [OF inv] well_told_cong told show ?thesis by blast
next
  case True
  then obtain enq p s a key now where op: "op = OpRecord enq p s a key now" by blast
  obtain res d' where e: "record_alert num enq p s a key now d = (res, d')" by force
  from inv e have "well_told d'"
  proof (cases rule: record_alert_cases)
    case (kept i j)
    with told well_told_cong [of d' d] show ?thesis by simp
  next
    case (added r j)
    show ?thesis
      by (rule append_well_told [OF told, of r a]) (use added(2,8) in simp_all)
  qed
  with op e show ?thesis by simp
qed

subsection \<open>The whole story\<close>

definition story :: "alert_db \<Rightarrow> bool" where
  "story d \<longleftrightarrow> delivery_inv d \<and> delivered_once d \<and> well_told d"

interpretation stories: op_invariant "alert_step num" story for num
  by unfold_locales
     (auto simp: story_def delivery_inv_def intro: alert_step_inv alert_step_settled step_delivered_once step_well_told)

lemma story_empty [simp]: "story empty_alerts"
  unfolding story_def
  by (simp add: delivered_once_def well_told_def)
     (simp add: empty_alerts_def announcements_def previous_state_def)

lemma reachable_story: "story (fold (alert_step num) ops empty_alerts)"
  by (rule stories.run_inv) simp

subsection \<open>Announced evaluations have intents\<close>

definition announced :: "alert_db \<Rightarrow> bool" where
  "announced d \<longleftrightarrow> (\<forall>e \<in> set (evaluations d).
     length (filter (\<lambda>i. i = alert_evaluation_id e) (map ob_evaluation_id (outbox d)))
       = (if lifecycle (alr_transition e) then 1 else 0))"

definition delivery_on :: "alert_op \<Rightarrow> bool" where
  "delivery_on op = (case op of OpRecord enq p s a key now \<Rightarrow> enq \<noteq> None | _ \<Rightarrow> True)"

lemma step_announced:
  assumes inv: "alert_inv d" and ann: "announced d" and on: "delivery_on op"
  shows "announced (alert_step num op d)"
proof (cases "\<exists>enq p s a key now. op = OpRecord enq p s a key now")
  case False
  with step_evaluations [OF inv, of op num] ann show ?thesis by (simp add: announced_def)
next
  case True
  then obtain enq p s a key now where op: "op = OpRecord enq p s a key now" by blast
  with on obtain q where q: "enq = Some q" by (auto simp: delivery_on_def)
  obtain res d' where e: "record_alert num enq p s a key now d = (res, d')" by force
  from inv e have "announced d'"
  proof (cases rule: record_alert_cases)
    case (kept i j)
    with ann show ?thesis by (simp add: announced_def)
  next
    case (added r j)
    let ?new = "intents_of enq r now (outbox_seq d + 1)"
    have ids: "map ob_evaluation_id ?new = (if lifecycle (alr_transition r) then [alert_evaluation_id r] else [])"
      using q by (simp add: intents_of_def intent_for_def new_intent_def)
    have none: "filter (\<lambda>i. i = alert_evaluation_id r) (map ob_evaluation_id (outbox d)) = []"
      using no_intent_ahead [OF inv] added(2) by (fastforce simp: filter_empty_conv)
    have ne: "alert_evaluation_id x \<noteq> alert_evaluation_id r" if "x \<in> set (evaluations d)" for x
      using inv that added(2) by (fastforce simp: alert_inv_def history_ok_def)
    show ?thesis
      unfolding announced_def
    proof
      fix x assume "x \<in> set (evaluations d')"
      then consider "x = r" | "x \<in> set (evaluations d)" "x \<noteq> r" using added(8) by auto
      then show "length (filter (\<lambda>i. i = alert_evaluation_id x) (map ob_evaluation_id (outbox d')))
          = (if lifecycle (alr_transition x) then 1 else 0)"
      proof cases
        case 1
        with none ids added(8) show ?thesis by simp
      next
        case 2
        with ne have "filter (\<lambda>i. i = alert_evaluation_id x) (map ob_evaluation_id ?new) = []"
          unfolding ids by (simp add: not_sym [OF ne])
        with 2 ann added(8) show ?thesis by (simp add: announced_def)
      qed
    qed
  qed
  with op e show ?thesis by simp
qed

lemma reachable_announced:
  assumes "\<forall>op \<in> set ops. delivery_on op"
  shows "alert_inv (fold (alert_step num) ops empty_alerts) \<and> announced (fold (alert_step num) ops empty_alerts)"
proof -
  have "alert_inv (fold (alert_step num) ops d) \<and> announced (fold (alert_step num) ops d)"
    if "alert_inv d \<and> announced d" "\<forall>op \<in> set ops. delivery_on op" for d
    using that by (induction ops arbitrary: d) (auto intro: alert_step_inv step_announced)
  moreover have "announced empty_alerts" by (simp add: announced_def empty_alerts_def)
  ultimately show ?thesis using assms by simp
qed

end
