(* ===== verification/FloatBounds.thy ===== *)
theory FloatBounds
  imports PyFloat
begin

section \<open>How far a binary64 value is from what it stands for\<close>

text \<open>
  Bounds on \<open>fl\<close> that the threshold comparisons of the alert policies need: a quotient in the
  unit interval is at most \<open>2 ^ -53\<close> away from the exact one, and a positive count stays positive.
\<close>

lemma round_half_even_error: "\<bar>of_int (round_half_even y) - y\<bar> \<le> 1 / 2"
proof -
  let ?f = "\<lfloor>y\<rfloor>"
  have "of_int ?f \<le> y" "y < of_int ?f + 1" by linarith+
  then show ?thesis
    unfolding round_half_even_def Let_def by (auto split: abs_split)
qed

lemma round_half_even_mono_1: "1 \<le> y \<Longrightarrow> 1 \<le> round_half_even y"
proof -
  assume "1 \<le> y"
  then have "1 \<le> \<lfloor>y\<rfloor>" by simp
  then show ?thesis by (simp add: round_half_even_def Let_def)
qed

lemma num_digits_Suc: "0 < n \<Longrightarrow> num_digits 2 n = Suc (num_digits 2 (n div 2))"
  by (subst num_digits.simps) simp

lemma num_digits_0 [simp]: "num_digits 2 0 = 0"
  by (subst num_digits.simps) simp

lemma num_digits_mono: "n \<le> m \<Longrightarrow> num_digits 2 n \<le> num_digits 2 m"
proof (induction n arbitrary: m rule: less_induct)
  case (less n)
  show ?case
  proof (cases "n = 0")
    case False
    then have "num_digits 2 (n div 2) \<le> num_digits 2 (m div 2)"
      using less.prems by (intro less.IH) (simp_all add: div_le_mono)
    with False less.prems show ?thesis by (simp add: num_digits_Suc)
  qed simp
qed

lemma num_digits_lower: "0 < n \<Longrightarrow> 2 ^ (num_digits 2 n - 1) \<le> n"
proof (induction n rule: less_induct)
  case (less n)
  show ?case
  proof (cases "n = 1")
    case True
    then show ?thesis by (simp add: num_digits_Suc)
  next
    case False
    with less.prems have "0 < n div 2" "n div 2 < n" by auto
    from less.IH [OF this(2,1)] have "2 * 2 ^ (num_digits 2 (n div 2) - 1) \<le> 2 * (n div 2)" by simp
    moreover have "num_digits 2 (n div 2) - 1 + 1 = num_digits 2 n - 1"
      using \<open>0 < n div 2\<close> less.prems by (simp add: num_digits_Suc [of n] num_digits_Suc [of "n div 2"])
    ultimately show ?thesis by (metis add.commute dual_order.trans plus_1_eq_Suc power_Suc times_div_less_eq_dividend)
  qed
qed

lemma floor_log_unit: "0 < x \<Longrightarrow> x \<le> 1 \<Longrightarrow> floor_log 2 x \<le> 0"
proof -
  assume x: "0 < x" "x \<le> 1"
  obtain p q where pq: "quotient_of x = (p, q)" by force
  have q: "0 < q" by (rule quotient_of_denom_pos [OF pq])
  have "x = of_int p / of_int q" by (rule quotient_of_div [OF pq])
  with x q have "p \<le> q" by (simp add: divide_le_eq)
  then have "num_digits 2 (nat p) \<le> num_digits 2 (nat q)" by (intro num_digits_mono) simp
  then show ?thesis by (simp add: floor_log_def pq Let_def)
qed

lemma pow_int_pos [simp]: "0 < pow_int 2 u"
  by (simp add: pow_int_def)

lemma pow_int_nonneg [simp]: "0 \<le> pow_int 2 u"
  by (simp add: pow_int_def)

lemma abs_pow_int [simp]: "\<bar>pow_int 2 u\<bar> = pow_int 2 u"
  by (simp add: pow_int_def)

lemma pow_int_below: "u \<le> v \<Longrightarrow> 0 \<le> v \<Longrightarrow> pow_int 2 u \<le> pow_int 2 v"
proof (cases "0 \<le> u")
  case False
  assume "0 \<le> v"
  have "pow_int 2 u \<le> 1" using False by (simp add: pow_int_def)
  also have "(1 :: rat) \<le> pow_int 2 v" using \<open>0 \<le> v\<close> by (simp add: pow_int_def)
  finally show ?thesis .
qed (auto simp: pow_int_def intro!: power_increasing)

lemma pow_int_small: "u \<le> - 52 \<Longrightarrow> pow_int 2 u \<le> 1 / 2 ^ 52"
proof -
  assume "u \<le> - 52"
  then have "(2::rat) ^ 52 \<le> 2 ^ nat (- u)" by (intro power_increasing) auto
  then show ?thesis using \<open>u \<le> - 52\<close> by (auto simp: pow_int_def divide_simps)
qed

lemma fl_unit_error:
  assumes "0 < x" and "x \<le> 1"
  shows "\<bar>fl x - x\<bar> \<le> 1 / 2 ^ 53"
proof -
  let ?u = "max (floor_log 2 x - 52) (- 1074)"
  let ?p = "pow_int 2 ?u"
  have u: "?p \<le> 1 / 2 ^ 52" by (rule pow_int_small) (use floor_log_unit [OF assms] in simp)
  have e: "fl x = of_int (round_half_even (x / ?p)) * ?p"
    using assms by (simp add: fl_def fl_pos_def Let_def)
  have "fl x - x = (of_int (round_half_even (x / ?p)) - x / ?p) * ?p"
    unfolding e left_diff_distrib using less_imp_neq [OF pow_int_pos [of ?u]] by simp
  then have "\<bar>fl x - x\<bar> = \<bar>of_int (round_half_even (x / ?p)) - x / ?p\<bar> * ?p"
    using pow_int_pos [of ?u] by (simp add: abs_mult)
  also have "\<dots> \<le> 1 / 2 * (1 / 2 ^ 52)"
    by (rule mult_mono [OF round_half_even_error u]) (use pow_int_pos [of ?u] in simp_all)
  finally show ?thesis by simp
qed

lemma floor_log_count:
  assumes "0 < n"
  shows "floor_log 2 (of_int n) = int (num_digits 2 (nat n) - 1)" and "2 ^ (num_digits 2 (nat n) - 1) \<le> nat n"
proof -
  have q: "quotient_of (of_int n :: rat) = (n, 1)" by (simp add: quotient_of_int)
  show pow: "2 ^ (num_digits 2 (nat n) - 1) \<le> nat n" by (rule num_digits_lower) (use assms in simp)
  then have "of_nat (2 ^ (num_digits 2 (nat n) - 1)) \<le> (of_nat (nat n) :: rat)" by (simp only: of_nat_le_iff)
  then have low: "(2 :: rat) ^ (num_digits 2 (nat n) - 1) \<le> of_int n" using assms by simp
  have d: "0 < num_digits 2 (nat n)" using assms by (simp add: num_digits_Suc)
  have one: "num_digits 2 1 = 1" by (simp add: num_digits_Suc)
  have e: "int (num_digits 2 (nat n)) - int (num_digits 2 (nat 1)) = int (num_digits 2 (nat n) - 1)"
    using d one by simp
  have "pow_int (of_nat 2) (int (num_digits 2 (nat n) - 1)) \<le> (of_int n :: rat)" using low by (simp add: pow_int_def)
  then show "floor_log 2 (of_int n) = int (num_digits 2 (nat n) - 1)"
    unfolding floor_log_def q Let_def prod.case e by (rule if_P)
qed

text \<open>Integers below \<open>2^53\<close> are floats.\<close>

lemma round_half_even_of_int [simp]: "round_half_even (of_int z) = z"
  by (simp add: round_half_even_def Let_def)

lemma fl_count_exact:
  assumes "0 \<le> n" and "n < 2 ^ 53"
  shows "fl (of_int n) = of_int n"
proof (cases "n = 0")
  case False
  with assms(1) have n: "0 < n" by simp
  let ?e = "num_digits 2 (nat n) - 1"
  have "int (nat n) < int (2 ^ 53)" using assms by simp
  then have "nat n < 2 ^ 53" by (simp only: of_nat_less_iff)
  with floor_log_count(2) [OF n] have "(2 :: nat) ^ ?e < 2 ^ 53" by linarith
  then have e: "?e < 53" by (rule power_less_imp_less_exp [rotated]) simp
  then have u: "max (int ?e - 52) (- 1074) = - int (52 - ?e)" by (simp add: max_def)
  have p: "pow_int 2 (- int (52 - ?e)) = 1 / 2 ^ (52 - ?e)" by (auto simp: pow_int_def)
  have "of_int n / (1 / 2 ^ (52 - ?e)) = (of_int (n * 2 ^ (52 - ?e)) :: rat)" by simp
  then have "round_half_even (of_int n / (1 / 2 ^ (52 - ?e))) = n * 2 ^ (52 - ?e)"
    by (metis round_half_even_of_int)
  then have "fl_pos (of_int n) = of_int n"
    unfolding fl_pos_def Let_def floor_log_count(1) [OF n] u p by simp
  with n show ?thesis by (simp add: fl_def)
qed (simp add: fl_def)

lemma fl_count_pos:
  assumes "0 < n"
  shows "0 < fl (of_int n)"
proof -
  let ?x = "of_int n :: rat"
  let ?u = "max (floor_log 2 ?x - 52) (- 1074)"
  have fl: "floor_log 2 ?x = int (num_digits 2 (nat n) - 1)" by (rule floor_log_count(1) [OF assms])
  have "of_nat (2 ^ (num_digits 2 (nat n) - 1)) \<le> (of_nat (nat n) :: rat)"
    using floor_log_count(2) [OF assms] by (simp only: of_nat_le_iff)
  then have low: "(2 :: rat) ^ (num_digits 2 (nat n) - 1) \<le> ?x" using assms by simp
  have "pow_int 2 ?u \<le> pow_int 2 (floor_log 2 ?x)"
  proof -
    have "?u \<le> floor_log 2 ?x" "0 \<le> floor_log 2 ?x" using fl by simp_all
    then show ?thesis by (rule pow_int_below)
  qed
  also have "\<dots> \<le> ?x" using low fl by (simp add: pow_int_def)
  finally have "1 \<le> ?x / pow_int 2 ?u" using pow_int_pos [of ?u] by (simp add: divide_simps)
  then have "1 \<le> round_half_even (?x / pow_int 2 ?u)" by (rule round_half_even_mono_1)
  then have "0 < (of_int (round_half_even (?x / pow_int 2 ?u)) :: rat) * pow_int 2 ?u" by simp
  then show ?thesis using assms by (simp add: fl_def fl_pos_def Let_def)
qed

text \<open>A threshold is told apart from every quotient that differs from it by more than the errors.\<close>

lemma fl_threshold:
  assumes t: "0 < t" "t \<le> 1" and x: "0 \<le> x" "x \<le> 1" and gap: "x = t \<or> 1 / 2 ^ 52 < \<bar>x - t\<bar>"
  shows "fl t < fl x \<longleftrightarrow> t < x"
proof -
  have et: "\<bar>fl t - t\<bar> \<le> 1 / 2 ^ 53" by (rule fl_unit_error [OF t])
  have ex: "\<bar>fl x - x\<bar> \<le> 1 / 2 ^ 53"
    using fl_unit_error [of x] x by (cases "x = 0") (auto simp: fl_def)
  have half: "(1 :: rat) / 2 ^ 52 = 1 / 2 ^ 53 + 1 / 2 ^ 53" by simp
  from gap et ex show ?thesis unfolding half abs_if by (auto split: if_splits)
qed

lemma rate_threshold:
  assumes n: "0 < n" "int k * n < 2 ^ 52" and k: "0 < k" and a: "0 \<le> a" "a \<le> n"
  shows "fl (1 / of_nat k) < fl (of_int a / of_int n) \<longleftrightarrow> n < int k * a"
proof -
  let ?x = "of_int a / of_int n :: rat" and ?t = "1 / of_nat k :: rat"
  have n': "(0 :: rat) < of_int n" and k': "(0 :: rat) < of_nat k" using n k by simp_all
  have lt: "?t < ?x \<longleftrightarrow> n < int k * a"
  proof -
    have "?t < ?x \<longleftrightarrow> (of_int n :: rat) < of_nat k * of_int a" using n' k' by (simp add: divide_simps mult.commute)
    also have "\<dots> \<longleftrightarrow> (of_int n :: rat) < of_int (int k * a)" by simp
    finally show ?thesis by (simp only: of_int_less_iff)
  qed
  have "?x = ?t \<or> 1 / 2 ^ 52 < \<bar>?x - ?t\<bar>"
  proof (cases "int k * a = n")
    case True
    then have "(of_int n :: rat) = of_nat k * of_int a" by (metis of_int_mult of_int_of_nat_eq)
    moreover have "(of_int a :: rat) \<noteq> 0" using True n by auto
    ultimately have "?x = ?t" using k' by simp
    then show ?thesis ..
  next
    case False
    have "?x - ?t = of_int (int k * a - n) / (of_nat k * of_int n)"
      using n' k' by (simp add: divide_simps mult.commute)
    then have "\<bar>?x - ?t\<bar> = of_int \<bar>int k * a - n\<bar> / (of_nat k * of_int n)"
      using n' k' by (simp add: abs_mult)
    moreover have "1 \<le> \<bar>int k * a - n\<bar>" using False by linarith
    then have "(1 :: rat) \<le> of_int \<bar>int k * a - n\<bar>" by (simp only: of_int_1_le_iff)
    ultimately have "1 / (of_nat k * of_int n) \<le> \<bar>?x - ?t\<bar>" using n' k' by (simp add: divide_right_mono)
    moreover have "(1 :: rat) / 2 ^ 52 < 1 / (of_nat k * of_int n)"
    proof -
      have "of_int (int k * n) < (of_int (2 ^ 52) :: rat)" using n(2) by (simp only: of_int_less_iff)
      then have "of_nat k * of_int n < (2 :: rat) ^ 52" by simp
      then show ?thesis using n' k' by (intro divide_strict_left_mono) simp_all
    qed
    ultimately show ?thesis by linarith
  qed
  moreover have "0 \<le> ?x" "?x \<le> 1" "0 < ?t" "?t \<le> 1" using n' a k by (simp_all add: divide_simps)
  ultimately show ?thesis using fl_threshold [of ?t ?x] lt by blast
qed

end
