(* ===== verification/AlertProperties.thy ===== *)
theory AlertProperties
  imports AlertWorker AlertStories FloatBounds
begin

section \<open>What the alert subsystem promises\<close>

text \<open>
  The properties of alert evaluation and delivery, over every database the operations can reach
  from the empty one, and their witnesses on one concrete alert: a tenant whose shadow report
  counts one external action.
\<close>

subsection \<open>A concrete alert\<close>

definition w_op :: Principal where
  "w_op = \<lparr>actor_id = ''op-1'', principal_tenant = ''t1'', roles = {''operator''}\<rparr>"

definition w_snap :: AlertMetricSnapshot where
  "w_snap = \<lparr>correlation = \<lparr>cor_tenant_id = ''t1'', cor_run_id = None, cor_case_id = None\<rparr>,
     snap_window_id = ''w1'', snap_report_sha256 = replicate 64 (CHR ''a''),
     snap_evidence_label = SIMULATED, case_count = 4, escalation_disagreement_count = Some 1,
     missing_required_evidence_count = Some 0, unsupported_claim_count = Some 0,
     external_action_count = Some 1, shadow_processing_failure_count = Some 0,
     deterministic_provider_latency_ms = None\<rparr>"

definition w_breach :: PolicyAssessment where
  "w_breach = assess (POLICIES ! 0) w_snap"

definition w_enq :: WebhookOutboxEnqueuer where
  "w_enq = \<lparr>enq_host = ''hooks.test'', enq_max_attempts = 1\<rparr>"

definition w_key :: string where
  "w_key = ''report-1'' @ '':'' @ external_action_policy"

lemma w_key_bounded: "bounded_text 1 500 w_key"
  by (simp add: w_key_def external_action_policy_def bounded_text_def)

definition w_alert :: AlertRow where
  "w_alert = new_alert id 1 w_op w_snap w_breach w_key 1000 None"

definition w_intent :: OutboxRow where
  "w_intent = intent_for w_enq (row_to_evaluation w_alert False) 1000 1"

definition w_record :: alert_op where
  "w_record = OpRecord (Some w_enq) w_op w_snap w_breach w_key 1000"

definition w_announced :: alert_db where
  "w_announced = \<lparr>evaluations = [w_alert], outbox = [w_intent], attempt_log = [], ledger = [],
     evaluation_seq = 1, outbox_seq = 1\<rparr>"

lemma w_breach_value:
  "w_breach = \<lparr>as_policy_id = ''shadow-external-action-safety'', as_policy_version = POLICY_VERSION,
     as_metric_name = External_action_count, as_severity = SEV1, as_measurement_status = EVALUATED,
     as_classification = TARGET, as_threshold_value = 0, as_window = batch_window,
     as_observed_value = Some (fl 1), as_breached = Some (0 < fl 1)\<rparr>"
  by (simp add: w_breach_def assess_def POLICIES_def w_snap_def Let_def)

lemma fl_one_pos: "0 < fl 1"
  using fl_count_pos [of 1] by simp

lemma w_alert_simps:
  "alr_state w_alert = Some FIRING" "alr_transition w_alert = T_FIRED" "alert_evaluation_id w_alert = 1"
  "alr_tenant_id w_alert = ''t1''" "alr_fingerprint w_alert = alert_fingerprint w_snap w_breach"
  "alr_idempotency_key w_alert = w_key" "alr_payload_hash w_alert = assessment_hash w_snap w_breach"
  by (simp_all add: w_alert_def next_state_def w_breach_value fl_one_pos w_op_def)

lemma w_sha: "is_hex64 (replicate 64 (CHR ''a''))"
  by code_simp

lemma w_alert_checks: "evaluation_checks w_alert"
  using w_sha w_key_bounded
  by (simp add: w_alert_def new_alert_def next_state_def w_breach_value fl_one_pos w_op_def w_snap_def
      evaluation_checks_def alert_fingerprint_def assessment_hash_def POLICY_VERSION_def batch_window_def
      bounded_text_def)

lemma w_intent_simps:
  "outbox_id w_intent = 1" "ob_state w_intent = PENDING" "attempt_count w_intent = 0"
  "max_attempts w_intent = 1" "next_attempt_at w_intent = 1000" "ob_tenant_id w_intent = ''t1''"
  "ob_evaluation_id w_intent = 1" "lease_owner w_intent = None"
  by (simp_all add: w_intent_def intent_for_def new_intent_def w_alert_simps w_enq_def)

lemma w_intent_checks: "outbox_checks w_intent"
  by (simp add: w_intent_def intent_for_def new_intent_def w_alert_simps w_enq_def outbox_checks_def
      bounded_text_def lifecycle_def opt_bounded_def http_check_def lease_ck_def terminal_ck_def
      delivered_evidence_ck_def dead_letter_evidence_ck_def delivery_idempotency_key_def
      alert_fingerprint_def int_text_def nat_text.simps)

lemma w_recorded:
  "record_alert id (Some w_enq) w_op w_snap w_breach w_key 1000 empty_alerts
    = (Inr (row_to_evaluation w_alert False), w_announced)"
proof -
  have "append_alert id w_op w_snap w_breach w_key 1000 empty_alerts
      = (Inr (row_to_evaluation w_alert False), empty_alerts\<lparr>evaluation_seq := 1, evaluations := [w_alert]\<rparr>)"
    using w_alert_checks
    by (simp add: append_alert_def Let_def empty_alerts_def previous_state_def w_alert_def returnE_def)
  moreover have "enqueue w_enq (row_to_evaluation w_alert False) 1000
      (empty_alerts\<lparr>evaluation_seq := 1, evaluations := [w_alert]\<rparr>) = (Inr (Some 1), w_announced)"
    using w_intent_checks
    by (simp add: enqueue_def notify_fresh w_alert_simps lifecycle_def Let_def enqueue_in_transaction_def
        w_enq_def MAX_ATTEMPT_CEILING_def empty_alerts_def returnE_def w_announced_def
        guard_outbox_insert_def evaluation_matches_def w_intent_def intent_for_def new_intent_def)
  moreover have "cor_tenant_id (correlation w_snap) = principal_tenant w_op" by (simp add: w_snap_def w_op_def)
  moreover have "evaluations empty_alerts = []" by (simp add: empty_alerts_def)
  ultimately show ?thesis
    by (simp add: record_alert_def Let_def atomically_def bindE_def returnE_def)
qed

lemma w_announced_reached: "w_announced = fold (alert_step id) [w_record] empty_alerts"
  by (simp add: w_record_def w_recorded)

lemma w_announced_inv: "delivery_inv w_announced"
  unfolding w_announced_reached by (rule reachable_deliveries)

text \<open>The worker \<^verbatim>\<open>wk\<close> leases the intent for its one and only attempt.\<close>

definition w_taken :: OutboxRow where
  "w_taken = take_lease ''wk'' 2000 30002000 w_intent"

definition w_lease :: LeasedDelivery where
  "w_lease = leased_of ''wk'' 30002000 w_taken"

definition w_leased :: alert_db where
  "w_leased = w_announced\<lparr>outbox := [w_taken]\<rparr>"

lemma default_lease_us: "timedelta_us DEFAULT_LEASE_SECONDS = 30000000"
  by code_simp

lemma w_leases: "lease ''wk'' 2000 DEFAULT_LEASE_SECONDS 10 [] w_announced = (Inr [w_lease], w_leased)"
proof -
  have due: "due 2000 w_intent" by (simp add: due_def w_intent_simps)
  have out: "outbox w_announced = [w_intent]" by (simp add: w_announced_def)
  have cand: "lease_candidates 2000 10 [] (outbox w_announced) = [w_intent]"
    by (simp add: lease_candidates_def out due)
  have "guard_outbox_update w_announced w_intent w_taken \<and> outbox_checks w_taken"
    unfolding w_taken_def
    by (rule take_lease_guarded)
       (use w_announced_inv due in \<open>simp_all add: delivery_inv_def out bounded_text_def\<close>)
  then have "update_outbox (\<lambda>r. outbox_id r \<in> set [1]) (take_lease ''wk'' 2000 30002000) w_announced
      = (Inr [w_taken], w_leased)"
    by (subst update_outbox_runs) (auto simp: out w_taken_def w_leased_def w_intent_simps)
  then show ?thesis
    by (simp add: lease_def Let_def atomically_def bindE_def returnE_def cand w_intent_simps default_lease_us w_lease_def)
qed

lemma w_leased_reached:
  "w_leased = fold (alert_step id) [w_record, OpLease ''wk'' 2000 DEFAULT_LEASE_SECONDS 10 []] empty_alerts"
  using w_announced_reached w_leases by simp

subsection \<open>The worker\<close>

definition w_worker :: worker_env where
  "w_worker = \<lparr>wk_clock = (\<lambda>k. 2000 + int k), wk_others = (\<lambda>_ d. d), wk_post = (\<lambda>_. Timeout_exception),
     wk_id = ''wk'', wk_lease_seconds = DEFAULT_LEASE_SECONDS, wk_locked = (\<lambda>_. [])\<rparr>"

lemma w_worker_sound: "sound_worker num w_worker"
proof -
  have "\<exists>ops. (\<lambda>d. d) = fold (alert_step num) ops" by (rule exI [of _ "[]"]) (simp add: fun_eq_iff)
  then show ?thesis by (simp add: sound_worker_def w_worker_def default_lease_us bounded_text_def)
qed

text \<open>
  What the worker assumes of a status: a report with one above 599 is refused by the database, in the middle
  of the batch.
\<close>

lemma status_out_of_range:
  assumes "599 < c" and "select_one (active_attempt l) (outbox d) \<noteq> None" and "out \<noteq> Out_delivered"
  shows "record_dead_letter l out (Some c) err st dn d = (Inl (DatabaseError ''constraint violation''), d)"
proof -
  have "\<not> attempt_checks (attempt_event l out (Some c) (Some err) st dn)"
    using assms(1) by (simp add: attempt_checks_def attempt_event_def http_check_def)
  with assms(2) have "outcome_tx l out (Some c) (Some err) st dn (Some St_failed) DEAD_LETTER None (Some dn) d
      = (Inl (DatabaseError ''constraint violation''), d)"
    by (auto simp: outcome_tx_def append_attempt_event_def Let_def refused_def comp_defs)
  then show ?thesis using assms(3) by (simp add: record_dead_letter_tx atomically_outcome)
qed

text \<open>C2. One run of the worker always returns, whether the receiver answers with a status from 100 to 599 (the ones
  the database admits), times out or raises, and whatever other workers and callers do to the database between
  its calls by the operations of the program: it counts each leased item as exactly one of delivered, retried, dead-lettered or lost, it sends
  exactly one request per leased item, with the key and the payload of a stored intent, and the
  database it leaves only continues the one it found.\<close>

theorem worker_run_accounts:
  assumes "sound_worker num env" and "1 \<le> batch" and "adb w = fold (alert_step num) ops empty_alerts"
  shows "\<exists>res w' sent. run_once env batch w = (Inr res, w')
     \<and> leased res = delivered res + retried res + dead_lettered res + lost res
     \<and> posts w' = posts w @ sent \<and> length sent = leased res
     \<and> set sent \<subseteq> (\<lambda>r. (ob_key r, ob_payload r)) ` set (outbox (adb w'))
     \<and> alert_before (adb w) (adb w') \<and> delivery_inv (adb w')"
proof -
  have inv: "delivery_inv (adb w)" unfolding assms(3) by (rule reachable_deliveries)
  obtain r w' where run: "run_once env batch w = (r, w')" by force
  from run_once_accounts [OF assms(1) inv assms(2)] run obtain res ls where r: "r = Inr res"
    and f: "follows (adb w) (adb w')" "leased res = delivered res + retried res + dead_lettered res + lost res"
    and sent: "posts w' = posts w @ map (\<lambda>l. (ld_key l, ld_payload l)) ls" "length ls = leased res"
    and h: "\<forall>l \<in> set ls. holds (adb w') l"
    by (cases r) (auto simp: wp_def)
  have "(ld_key l, ld_payload l) \<in> (\<lambda>r. (ob_key r, ob_payload r)) ` set (outbox (adb w'))" if "l \<in> set ls" for l
    using h that by (force simp: holds_def lease_describes_def)
  with r run f sent show ?thesis
    by (intro exI [of _ res] exI [of _ w'] exI [of _ "map (\<lambda>l. (ld_key l, ld_payload l)) ls"])
       (auto simp: follows_def)
qed

theorem worker_run_accounts_witness:
  "\<exists>res w'. run_once w_worker 10 \<lparr>adb = w_announced, ticks = 0, calls = 0, posts = []\<rparr> = (Inr res, w')
     \<and> leased res = delivered res + retried res + dead_lettered res + lost res"
  using worker_run_accounts [OF w_worker_sound, of 10 "\<lparr>adb = w_announced, ticks = 0, calls = 0, posts = []\<rparr>" id "[w_record]"]
  by (auto simp: w_announced_reached)

subsection \<open>Leases and outcomes\<close>

lemma active_unique:
  assumes "outbox_keys d" and "x \<in> set (outbox d)" "y \<in> set (outbox d)" and "active_attempt l x" "active_attempt l y"
  shows "x = y"
  using outbox_id_unique(1) [OF assms(1-3)] assms(4,5) by (simp add: active_attempt_def)

text \<open>A genuine lease, whatever happened since: the outcome is recorded exactly while it is active.\<close>

lemma leased_later:
  assumes d: "d = fold (alert_step num) ops empty_alerts" and run: "lease wk now secs batch locked d = (Inr ls, d')"
    and l: "l \<in> set ls" and d'': "d'' = fold (alert_step num) ops' d'"
  shows "delivery_inv d''" "holds d'' l"
proof -
  have inv: "delivery_inv d" unfolding d by (rule reachable_deliveries)
  have d': "d' = alert_step num (OpLease wk now secs batch locked) d" using run by simp
  have inv': "delivery_inv d'" unfolding d' by (rule deliveries.step_inv [OF inv])
  have h: "holds d' l" by (rule lease_holds [OF _ run l]) (use inv in \<open>simp add: delivery_inv_def\<close>)
  show inv'': "delivery_inv d''" unfolding d'' by (rule deliveries.run_inv [OF inv'])
  show "holds d'' l"
    by (rule holds_later [OF _ _ _ h])
       (use inv' inv'' deliveries.run_before [OF inv', of num ops'] d'' in \<open>simp_all add: delivery_inv_def\<close>)
qed

lemma delivered_outcome:
  assumes inv: "delivery_inv d" and h: "holds d l" and c: "200 \<le> c" "c < 300"
  shows "if \<exists>r \<in> set (outbox d). active_attempt l r
    then \<exists>d'. record_delivered l c st dn d = (Inr (), d') \<and> alert_inv d'
         \<and> attempt_log d' = attempt_log d @ [attempt_event l Out_delivered (Some c) None st dn]
         \<and> (\<exists>r \<in> set (outbox d'). outbox_id r = ld_outbox_id l \<and> ob_state r = DELIVERED
              \<and> attempt_count r = ld_attempt_number l \<and> last_http_status r = Some c)
    else record_delivered l c st dn d = (Inl lease_lost, d)"
proof -
  let ?tx = "outcome_tx l Out_delivered (Some c) None st dn (Some St_delivered) DELIVERED None (Some dn)"
  have eq: "record_delivered l c st dn = atomically ?tx" using c by (simp add: record_delivered_tx)
  have ai: "alert_inv d" using inv by (simp add: delivery_inv_def)
  show ?thesis
  proof (cases "select_one (active_attempt l) (outbox d)")
    case None
    then have "?tx d = (Inl lease_lost, d)"
      by (simp add: outcome_tx_def append_attempt_event_def bindE_def raiseE_def)
    with None show ?thesis by (simp add: eq atomically_outcome select_one_None_iff)
  next
    case (Some r0)
    then have act: "r0 \<in> set (outbox d)" "active_attempt l r0" by (auto dest: select_one_SomeD)
    have p: "proper_outcome l Out_delivered (Some c) None (Some St_delivered) DELIVERED"
      using c by (simp add: proper_outcome_def http_check_def is_2xx_def opt_bounded_def)
    from outcome_result [OF inv h p, of "Some dn" dn st None] Some obtain d' where run: "?tx d = (Inr (), d')" by auto
    have "alert_inv d'" by (rule outcome_tx_inv [OF ai run]) simp
    moreover from ai run have "attempt_log d' = attempt_log d @ [attempt_event l Out_delivered (Some c) None st dn]
         \<and> (\<exists>r \<in> set (outbox d'). outbox_id r = ld_outbox_id l \<and> ob_state r = DELIVERED
              \<and> attempt_count r = ld_attempt_number l \<and> last_http_status r = Some c)"
    proof (cases rule: outcome_tx_ok)
      case (1 r rows)
      have "apply_outcome DELIVERED None (Some c) None (Some dn) dn r \<in> set (outbox d')"
        using 1(1,3,6) by (auto simp: set_update_where)
      moreover have "outbox_id (apply_outcome DELIVERED None (Some c) None (Some dn) dn r) = ld_outbox_id l"
        using 1(2) by (simp add: apply_outcome_def active_attempt_def)
      ultimately show ?thesis using 1(2,6) by (auto simp: active_attempt_def)
    qed
    ultimately show ?thesis using act run by (auto simp: eq atomically_outcome)
  qed
qed

text \<open>C4. The fencing of a lease. A worker was granted a lease in some reachable database, then
  anything else happened (an expiry and a take-over by another worker, a re-drive). If it now reports
  a success, then either its attempt is still the active one, and the report is recorded: one new
  delivered attempt event, the row delivered with that status, the invariant kept; or it is not, and
  the report is refused as a lost lease and changes nothing.\<close>

theorem outcome_recorded_iff_active:
  assumes "d = fold (alert_step num) ops empty_alerts" and "lease wk now secs batch locked d = (Inr ls, d')"
    and "l \<in> set ls" and "d'' = fold (alert_step num) ops' d'" and "200 \<le> c" "c < 300"
  shows "if \<exists>r \<in> set (outbox d''). active_attempt l r
    then \<exists>e. record_delivered l c st dn d'' = (Inr (), e) \<and> alert_inv e
         \<and> attempt_log e = attempt_log d'' @ [attempt_event l Out_delivered (Some c) None st dn]
         \<and> (\<exists>r \<in> set (outbox e). outbox_id r = ld_outbox_id l \<and> ob_state r = DELIVERED
              \<and> attempt_count r = ld_attempt_number l \<and> last_http_status r = Some c)
    else record_delivered l c st dn d'' = (Inl lease_lost, d'')"
  by (rule delivered_outcome [OF leased_later [OF assms(1-4)] assms(5,6)])

lemma w_active: "\<exists>r \<in> set (outbox w_leased). active_attempt w_lease r"
  by (simp add: w_leased_def active_attempt_def w_lease_def leased_of_def w_taken_def take_lease_def)

theorem outcome_recorded_iff_active_witness:
  "\<exists>e. record_delivered w_lease 200 2001 2002 w_leased = (Inr (), e)
     \<and> (\<exists>r \<in> set (outbox e). outbox_id r = 1 \<and> ob_state r = DELIVERED)"
proof -
  have "ld_outbox_id w_lease = 1" by (simp add: w_lease_def leased_of_def w_taken_def take_lease_def w_intent_simps)
  with outcome_recorded_iff_active [OF w_announced_reached w_leases, where l = w_lease and d'' = w_leased
      and ops' = "[]" and c = 200 and st = 2001 and dn = 2002] w_active
  show ?thesis by auto
qed

text \<open>What \<open>lease\<close> granted.\<close>

lemma leased_granted:
  assumes inv: "alert_inv d" and run: "lease wk now secs batch locked d = (Inr ls, d')" and l: "l \<in> set ls"
  obtains r where "r \<in> set (outbox d)" and "due now r"
    and "l = leased_of wk (now + timedelta_us secs) (take_lease wk now (now + timedelta_us secs) r)"
    and "take_lease wk now (now + timedelta_us secs) r \<in> set (outbox d')"
  using run
proof (cases rule: lease_cases)
  case (3 ids)
  let ?f = "take_lease wk now (now + timedelta_us secs)"
  from 3(3) l obtain r where r: "r \<in> set (outbox d)" "outbox_id r \<in> set ids"
    "l = leased_of wk (now + timedelta_us secs) (?f r)" by auto
  have "due now r"
    by (rule leased_rows_due [OF _ r(1)]) (use r(2) 3(1) inv in \<open>simp_all add: alert_inv_def\<close>)
  moreover have "?f r \<in> set (outbox d')" using 3(2) r(1,2) by (auto simp: set_update_where)
  ultimately show thesis using that r(1,3) by blast
qed (use l in auto)

text \<open>A row in flight stays as it is, unless its holder reports or it is due again.\<close>

fun reported :: "alert_op \<Rightarrow> LeasedDelivery option" where
  "reported (OpDelivered l http st dn) = Some l"
| "reported (OpRetry l out http err st dn base) = Some l"
| "reported (OpDeadLetter l out http err st dn) = Some l"
| "reported (OpRecord enq p s a key now) = None"
| "reported (OpLease w now secs batch locked) = None"
| "reported (OpRedrive p oid now add) = None"

fun lease_time :: "alert_op \<Rightarrow> int option" where
  "lease_time (OpLease w now secs batch locked) = Some now"
| "lease_time _ = None"

definition leaves_row :: "OutboxRow \<Rightarrow> alert_op \<Rightarrow> bool" where
  "leaves_row r op \<longleftrightarrow>
     (case reported op of None \<Rightarrow> True | Some l \<Rightarrow> \<not> active_attempt l r)
     \<and> (case lease_time op of None \<Rightarrow> True | Some now \<Rightarrow> \<not> due now r)"

lemma outcome_stays:
  assumes inv: "alert_inv d" and r: "r \<in> set (outbox d)" "\<not> active_attempt l r"
  shows "r \<in> set (outbox (snd (atomically (outcome_tx l out http err st dn led s nxt fin) d)))"
proof (cases "outcome_tx l out http err st dn led s nxt fin d")
  case (Pair res d')
  show ?thesis
  proof (cases res)
    case (Inr u)
    from inv Pair [unfolded Inr] have "r \<in> set (outbox d')"
    proof (cases rule: outcome_tx_ok)
      case (1 r0 rows)
      have "\<not> owned_by l r" using 1(2,3) r by blast
      with 1(6) r(1) show ?thesis by (force simp: set_update_where)
    qed
    with Pair Inr show ?thesis by (simp add: atomically_outcome)
  qed (use r Pair in \<open>simp add: atomically_outcome\<close>)
qed

lemma inflight_stays:
  assumes inv: "alert_inv d" and r: "r \<in> set (outbox d)" "ob_state r = IN_FLIGHT" and op: "leaves_row r op"
  shows "r \<in> set (outbox (alert_step num op d))"
proof (cases op)
  case (OpRecord enq p s a key now)
  obtain res d' where e: "record_alert num enq p s a key now d = (res, d')" by force
  from inv e r(1) have "r \<in> set (outbox d')" by (cases rule: record_alert_cases) auto
  with e OpRecord show ?thesis by simp
next
  case (OpLease wk now secs batch locked)
  obtain res d' where e: "lease wk now secs batch locked d = (res, d')" by force
  from e have "r \<in> set (outbox d')"
  proof (cases rule: lease_cases)
    case (3 ids)
    have "outbox_keys d" using inv by (simp add: alert_inv_def)
    then have "outbox_id r \<notin> set ids"
      using leased_rows_due [OF _ r(1)] 3(1) op OpLease by (auto simp: leaves_row_def)
    with 3(2) r(1) show ?thesis by (auto simp: set_update_where)
  qed (use r in auto)
  with e OpLease show ?thesis by simp
next
  case (OpRedrive p oid now add)
  obtain res d' where e: "redrive p oid now add d = (res, d')" by force
  from e r have "r \<in> set (outbox d')" by (cases rule: redrive_cases) (auto simp: set_update_where)
  with e OpRedrive show ?thesis by simp
next
  case (OpDelivered l http st dn)
  then show ?thesis using outcome_stays [OF inv r(1)] r(1) op
    by (simp add: record_delivered_tx leaves_row_def raiseE_def)
next
  case (OpRetry l out http err st dn base)
  then show ?thesis using outcome_stays [OF inv r(1), of l out http "Some err" st dn None PENDING] r(1) op
    by (auto simp: record_retry_tx leaves_row_def comp_defs split: prod.splits sum.splits) (metis snd_conv)+
next
  case (OpDeadLetter l out http err st dn)
  then show ?thesis using outcome_stays [OF inv r(1)] r(1) op
    by (simp add: record_dead_letter_tx leaves_row_def raiseE_def)
qed

lemma inflight_stays_later:
  assumes "alert_inv d" and "r \<in> set (outbox d)" "ob_state r = IN_FLIGHT" and "\<forall>op \<in> set ops. leaves_row r op"
  shows "r \<in> set (outbox (fold (alert_step num) ops d))"
  using assms
proof (induction ops arbitrary: d)
  case (Cons op ops)
  then show ?case using inflight_stays [of d r op num] alert_step_inv [of d num op] by simp
qed simp

definition same_attempt :: "LeasedDelivery \<Rightarrow> LeasedDelivery \<Rightarrow> bool" where
  "same_attempt l l' \<longleftrightarrow> ld_outbox_id l' = ld_outbox_id l \<and> ld_attempt_number l' = ld_attempt_number l
     \<and> ld_lease_owner l' = ld_lease_owner l"

text \<open>An operation while a lease is live: no report of the lease itself, no lease call past its end.\<close>

definition while_live :: "LeasedDelivery \<Rightarrow> alert_op \<Rightarrow> bool" where
  "while_live l op \<longleftrightarrow>
     (case reported op of None \<Rightarrow> True | Some l' \<Rightarrow> \<not> same_attempt l l')
     \<and> (case lease_time op of None \<Rightarrow> True | Some now \<Rightarrow> now < ld_lease_expires_at l)"

text \<open>C17. Two workers never hold the same delivery: from the grant of a lease on, whatever operations are done
  in any number and by anyone, as long as its holder has not reported and every lease call comes before
  its expiry, no lease call takes that row, whoever calls and whatever else is due, and the row stays in flight
  under the same attempt, owner and expiry.\<close>

theorem live_lease_exclusive:
  assumes "d = fold (alert_step num) ops empty_alerts" and "lease wk now secs batch locked d = (Inr ls, d')"
    and "l \<in> set ls" and "\<forall>op \<in> set later. while_live l op"
    and "lease wk' now' secs' batch' locked' (fold (alert_step num) later d') = (Inr ls', d'')"
    and "now' < ld_lease_expires_at l"
  shows "ld_outbox_id l \<notin> ld_outbox_id ` set ls'
    \<and> (\<exists>r \<in> set (outbox d''). active_attempt l r \<and> lease_expires_at r = Some (ld_lease_expires_at l))"
proof -
  let ?e = "fold (alert_step num) later d'" and ?t = "now + timedelta_us secs"
  have inv: "alert_inv d" unfolding assms(1) by (rule reachable_alerts)
  have inv': "alert_inv d'" using alert_step_inv [OF inv, of num "OpLease wk now secs batch locked"] assms(2) by simp
  have inv_e: "alert_inv ?e" by (rule alerts.run_inv [OF inv'])
  from leased_granted [OF inv assms(2,3)] obtain r0 where r0: "l = leased_of wk ?t (take_lease wk now ?t r0)"
    "take_lease wk now ?t r0 \<in> set (outbox d')" .
  define r where "r = take_lease wk now ?t r0"
  have live: "ob_state r = IN_FLIGHT" "lease_expires_at r = Some (ld_lease_expires_at l)" "active_attempt l r"
    using r0(1) by (simp_all add: r_def take_lease_def leased_of_def active_attempt_def)
  have leaves: "leaves_row r op" if "while_live l op" for op
    using that live r0(1)
    by (auto simp: while_live_def leaves_row_def same_attempt_def active_attempt_def due_def split: option.splits)
  have r: "r \<in> set (outbox ?e)"
    by (rule inflight_stays_later [OF inv' r0(2) [folded r_def] live(1)]) (use assms(4) leaves in blast)
  have "while_live l (OpLease wk' now' secs' batch' locked')" using assms(6) by (simp add: while_live_def)
  from inflight_stays [OF inv_e r live(1) leaves [OF this], of num] assms(5) have "r \<in> set (outbox d'')" by simp
  moreover have "ld_outbox_id l \<notin> ld_outbox_id ` set ls'"
  proof
    assume "ld_outbox_id l \<in> ld_outbox_id ` set ls'"
    then obtain l' where l': "l' \<in> set ls'" "ld_outbox_id l' = ld_outbox_id l" by auto
    from leased_granted [OF inv_e assms(5) l'(1)] obtain x where x: "x \<in> set (outbox ?e)" "due now' x"
      "l' = leased_of wk' (now' + timedelta_us secs') (take_lease wk' now' (now' + timedelta_us secs') x)" .
    have "outbox_id x = outbox_id r" using l'(2) live(3) x(3) by (simp add: leased_of_def take_lease_def active_attempt_def)
    with outbox_id_unique(1) [OF _ x(1) r] inv_e have "x = r" by (simp add: alert_inv_def)
    with x(2) assms(6) live(1,2) show False by (simp add: due_def)
  qed
  ultimately show ?thesis using live(2,3) by blast
qed

theorem live_lease_exclusive_witness:
  "lease ''other'' 2500 1 5 [] (fold (alert_step id) [OpLease ''third'' 2400 1 5 []] w_leased) = (Inr [], w_leased)
     \<and> (\<exists>r \<in> set (outbox w_leased). active_attempt w_lease r \<and> lease_expires_at r = Some 30002000)"
proof -
  have none: "lease wk now secs 5 [] w_leased = (Inr [], w_leased)" if "wk \<noteq> []" "now < 30002000" for wk now secs
    using that by (simp add: lease_def Let_def atomically_def lease_candidates_def returnE_def w_leased_def due_def
        w_taken_def take_lease_def)
  let ?later = "[OpLease ''third'' 2400 1 5 []]"
  have expires: "ld_lease_expires_at w_lease = 30002000" by (simp add: w_lease_def leased_of_def)
  have stays: "fold (alert_step id) ?later w_leased = w_leased" by (simp add: none)
  have "lease ''other'' 2500 1 5 [] (fold (alert_step id) ?later w_leased) = (Inr [], w_leased)"
    unfolding stays by (rule none) simp_all
  moreover from live_lease_exclusive [OF w_announced_reached w_leases _ _ this, of w_lease] have
    "\<exists>r \<in> set (outbox w_leased). active_attempt w_lease r \<and> lease_expires_at r = Some 30002000"
    by (simp add: while_live_def expires)
  ultimately show ?thesis by blast
qed

subsection \<open>Rows over time\<close>

text \<open>C10. A delivered intent is final: no sequence of operations, no forged lease and no re-drive,
  changes its row again, and its log holds one successful attempt, the last one.\<close>

theorem delivered_final:
  assumes "r \<in> set (outbox (fold (alert_step num) ops empty_alerts))" and "ob_state r = DELIVERED"
  shows "r \<in> set (outbox (fold (alert_step num) (ops @ ops') empty_alerts))
     \<and> (\<exists>a. successes (fold (alert_step num) (ops @ ops') empty_alerts) r = [a] \<and> ae_number a = attempt_count r)
     \<and> is_2xx (last_http_status r) \<and> ob_completed_at r \<noteq> None"
proof -
  let ?d = "fold (alert_step num) ops empty_alerts" and ?e = "fold (alert_step num) (ops @ ops') empty_alerts"
  have inv: "alert_inv ?d" "alert_inv ?e" by (rule reachable_alerts)+
  have "alert_before ?d ?e" using alerts.run_before [OF inv(1), of num ops'] by simp
  from row_later [OF inv(1) this inv(2) assms(1)] obtain r' where "r' \<in> set (outbox ?e)" "row_before r r'" .
  with assms(2) have r: "r \<in> set (outbox ?e)" by (simp add: row_before_def)
  have "delivered_once ?e" using reachable_story [of num "ops @ ops'"] by (simp add: story_def)
  with r assms(2) alert_inv_row(1) [OF inv(2) r] show ?thesis
    by (auto simp: delivered_once_def outbox_checks_def delivered_evidence_ck_def terminal_ck_def)
qed

theorem delivered_final_witness:
  "\<exists>r. r \<in> set (outbox (fold (alert_step id) [w_record, OpLease ''wk'' 2000 DEFAULT_LEASE_SECONDS 10 [],
         OpDelivered w_lease 200 2001 2002, OpRedrive w_op 1 3000 5] empty_alerts))
     \<and> ob_state r = DELIVERED"
proof -
  let ?ops = "[w_record, OpLease ''wk'' 2000 DEFAULT_LEASE_SECONDS 10 [], OpDelivered w_lease 200 2001 2002]"
  have "delivery_inv w_leased" unfolding w_leased_reached by (rule reachable_deliveries)
  moreover have "holds w_leased w_lease"
    by (rule lease_holds [OF _ w_leases]) (use w_announced_inv in \<open>simp_all add: delivery_inv_def\<close>)
  ultimately obtain e r where "record_delivered w_lease 200 2001 2002 w_leased = (Inr (), e)"
    "r \<in> set (outbox e)" "ob_state r = DELIVERED"
    using delivered_outcome [of w_leased w_lease 200 2001 2002] w_active by auto
  then have "r \<in> set (outbox (fold (alert_step id) ?ops empty_alerts))"
    using w_announced_reached w_leases by simp
  from delivered_final [OF this \<open>ob_state r = DELIVERED\<close>, of "[OpRedrive w_op 1 3000 5]"] \<open>ob_state r = DELIVERED\<close>
  show ?thesis by auto
qed

text \<open>C19. The budget of an intent, in every reachable database: re-drives never outnumber attempts,
  attempts never exceed the ceiling in force, the ceiling never exceeds 100, a pending row has an
  attempt left, and the log has no attempt beyond the counted ones.\<close>

theorem attempt_budget:
  assumes "r \<in> set (outbox (fold (alert_step num) ops empty_alerts))"
  shows "0 \<le> redrive_count r \<and> redrive_count r \<le> attempt_count r \<and> attempt_count r \<le> max_attempts r
     \<and> max_attempts r \<le> MAX_ATTEMPT_CEILING \<and> (ob_state r = PENDING \<longrightarrow> attempt_count r < max_attempts r)
     \<and> (\<forall>a \<in> set (attempt_log (fold (alert_step num) ops empty_alerts)).
          ae_outbox_id a = outbox_id r \<longrightarrow> ae_number a \<le> attempt_count r)"
  using alert_inv_row(1,3,4) [OF reachable_alerts assms]
  by (auto simp: outbox_checks_def budget_ok_def log_ok_def MAX_ATTEMPT_CEILING_def)

theorem attempt_budget_witness:
  "w_taken \<in> set (outbox (fold (alert_step id) [w_record, OpLease ''wk'' 2000 DEFAULT_LEASE_SECONDS 10 []] empty_alerts))
     \<and> attempt_count w_taken \<le> max_attempts w_taken"
proof -
  have "w_taken \<in> set (outbox (fold (alert_step id) [w_record, OpLease ''wk'' 2000 DEFAULT_LEASE_SECONDS 10 []] empty_alerts))"
    unfolding w_leased_reached [symmetric] by (simp add: w_leased_def)
  from this attempt_budget [OF this] show ?thesis by blast
qed

text \<open>C23. A crash during the last attempt loses the delivery: a row in flight with its budget used up is
  never leased again, however long ago its lease expired, never dead-lettered and never re-driven.
  Only a report of that very attempt by its own holder could still move it: any sequence of other operations, the
  reports of every other lease included, leaves the row as it is. (ADR-0009 says that a crash cannot lose a
  delivery intent.)\<close>

theorem final_attempt_never_retaken:
  assumes "r \<in> set (outbox (fold (alert_step num) ops empty_alerts))"
    and "ob_state r = IN_FLIGHT" and "attempt_count r = max_attempts r"
    and "\<forall>op \<in> set later. \<forall>l. reported op = Some l \<longrightarrow> \<not> active_attempt l r"
  shows "r \<in> set (outbox (fold (alert_step num) (ops @ later) empty_alerts))"
proof -
  have "\<not> due now r" for now using assms(3) by (simp add: due_def)
  then have "\<forall>op \<in> set later. leaves_row r op"
    using assms(4) by (auto simp: leaves_row_def split: option.split)
  from inflight_stays_later [OF reachable_alerts assms(1,2) this] show ?thesis by simp
qed

theorem final_attempt_never_retaken_witness:
  "w_taken \<in> set (outbox (alert_step id (OpLease ''other'' 99000000000 30 10 []) w_leased))
     \<and> ob_state w_taken = IN_FLIGHT \<and> lease_expires_at w_taken = Some 30002000"
proof -
  have "w_taken \<in> set (outbox (fold (alert_step id) [w_record, OpLease ''wk'' 2000 DEFAULT_LEASE_SECONDS 10 []] empty_alerts))"
    unfolding w_leased_reached [symmetric] by (simp add: w_leased_def)
  from final_attempt_never_retaken [OF this, of "[OpLease ''other'' 99000000000 30 10 []]"]
  have "w_taken \<in> set (outbox (fold (alert_step id) [OpLease ''other'' 99000000000 30 10 []] w_leased))"
    unfolding fold_append w_leased_reached [symmetric] comp_apply by (simp add: w_taken_def take_lease_def w_intent_simps)
  then show ?thesis by (simp add: w_taken_def take_lease_def)
qed

text \<open>The completion of \<^verbatim>\<open>delivery.py\<close> on a ledger where no row is claimed.\<close>

lemma complete_settled:
  assumes "settled d"
  shows "\<exists>e. delivery_complete p ev st n http err t d = (Inl e, d)"
proof -
  let ?P = "\<lambda>r. ledger_of (principal_tenant p) (alert_evaluation_id ev) r \<and> led_status r = St_claimed"
  have none: "filter ?P (ledger d) = []" using assms by (auto simp: settled_def filter_empty_conv)
  have idle: "update_where ?P f (ledger d) = ledger d" for f
    by (rule update_where_idle) (use none in \<open>auto simp: filter_empty_conv\<close>)
  have "complete_ledger (principal_tenant p) (alert_evaluation_id ev) f d = (Inr False, d)" for f
    using complete_ledger_run [OF none, of f] idle by simp
  then show ?thesis
    by (simp add: delivery_complete_def atomically_def comp_defs)
qed

text \<open>C14. The terminal ledger agrees with the outbox in every database the program reaches (by recording, leases,
  reports and re-drives; it never calls the ledger primitives of \<^verbatim>\<open>delivery.py\<close> on their own): an intent that is
  open and was never re-driven has no ledger row; every other one has a row with the same alert,
  transition, destination and payload, marked delivered exactly when the intent was delivered
  without a re-drive; and no ledger row is left claimed, so that \<^verbatim>\<open>AlertDeliveryRepository.complete\<close>, if it
  were called, would raise and change nothing.\<close>

theorem ledger_agrees:
  assumes "r \<in> set (outbox (fold (alert_step num) ops empty_alerts))"
  shows "(if redrive_count r = 0 \<and> ob_state r \<in> {PENDING, IN_FLIGHT}
      then ledger_row (fold (alert_step num) ops empty_alerts) r = None
      else \<exists>l. ledger_row (fold (alert_step num) ops empty_alerts) r = Some l \<and> ledger_identity r l
             \<and> led_status l = (if redrive_count r = 0 \<and> ob_state r = DELIVERED then St_delivered else St_failed))
    \<and> (\<forall>l \<in> set (ledger (fold (alert_step num) ops empty_alerts)). led_status l \<noteq> St_claimed)
    \<and> (\<exists>e. delivery_complete p ev st n http err t (fold (alert_step num) ops empty_alerts)
          = (Inl e, fold (alert_step num) ops empty_alerts))"
proof -
  have "settled (fold (alert_step num) ops empty_alerts)"
    using reachable_deliveries [of num ops] by (simp add: delivery_inv_def)
  then show ?thesis
    using alert_inv_row(5) [OF reachable_alerts assms] complete_settled
    unfolding ledger_ok_def settled_def by blast
qed

theorem ledger_agrees_witness:
  "w_intent \<in> set (outbox (fold (alert_step id) [w_record] empty_alerts))
     \<and> ledger_row (fold (alert_step id) [w_record] empty_alerts) w_intent = None"
proof -
  have w: "w_intent \<in> set (outbox (fold (alert_step id) [w_record] empty_alerts))"
    unfolding w_announced_reached [symmetric] by (simp add: w_announced_def)
  moreover have "redrive_count w_intent = 0" by (simp add: w_intent_def intent_for_def new_intent_def)
  ultimately show ?thesis using ledger_agrees [OF w] by (simp add: w_intent_simps del: fold.simps)
qed

subsection \<open>Evaluations and announcements\<close>

text \<open>C6. No alert is lost and none is announced twice: when every recording runs with delivery
  enabled, each evaluation that fired or resolved an alert has exactly one delivery intent and
  every other evaluation has none, in every reachable database.\<close>

theorem announced_exactly_once:
  assumes "\<forall>op \<in> set ops. delivery_on op" and "e \<in> set (evaluations (fold (alert_step num) ops empty_alerts))"
  shows "length (filter (\<lambda>r. ob_evaluation_id r = alert_evaluation_id e)
            (outbox (fold (alert_step num) ops empty_alerts)))
     = (if alr_transition e \<in> LIFECYCLE_TRANSITIONS then 1 else 0)"
proof -
  show ?thesis
    using reachable_announced [OF assms(1), of num] assms(2)
    by (simp add: announced_def filter_map comp_def LIFECYCLE_TRANSITIONS_def lifecycle_def)
qed

theorem announced_exactly_once_witness:
  "length (filter (\<lambda>r. ob_evaluation_id r = 1) (outbox (fold (alert_step id) [w_record] empty_alerts))) = 1"
proof -
  have "w_alert \<in> set (evaluations (fold (alert_step id) [w_record] empty_alerts))"
    unfolding w_announced_reached [symmetric] by (simp add: w_announced_def)
  from announced_exactly_once [OF _ this] show ?thesis
    by (simp add: delivery_on_def w_record_def w_alert_simps LIFECYCLE_TRANSITIONS_def del: fold.simps)
qed

text \<open>C16. The announcements of one alert of one tenant strictly alternate, beginning with a firing,
  and the alert's current state is firing exactly after an unanswered firing.\<close>

theorem announcements_alternate:
  "alternates T_FIRED (announcements (fold (alert_step num) ops empty_alerts) tenant fp)
   \<and> (previous_state tenant fp (fold (alert_step num) ops empty_alerts) = Some FIRING
      \<longleftrightarrow> odd (length (announcements (fold (alert_step num) ops empty_alerts) tenant fp)))"
  using reachable_story [of num ops] by (simp add: story_def well_told_def)

text \<open>Two evaluations never share a key, or a payload, within one alert.\<close>

definition unique_history :: "alert_db \<Rightarrow> bool" where
  "unique_history d \<longleftrightarrow> alert_inv d \<and> sorted_wrt (\<lambda>x r. evaluation_unique r x) (evaluations d)"

lemma step_unique_history:
  assumes "unique_history d"
  shows "unique_history (alert_step num op d)"
proof -
  have inv: "alert_inv d" and u: "sorted_wrt (\<lambda>x r. evaluation_unique r x) (evaluations d)"
    using assms by (simp_all add: unique_history_def)
  have "sorted_wrt (\<lambda>x r. evaluation_unique r x) (evaluations (alert_step num op d))"
  proof (cases "\<exists>enq p s a key now. op = OpRecord enq p s a key now")
    case False
    with step_evaluations(1) [OF inv, of op num] u show ?thesis by simp
  next
    case True
    then obtain enq p s a key now where op: "op = OpRecord enq p s a key now" by blast
    obtain res d' where e: "record_alert num enq p s a key now d = (res, d')" by force
    from inv e u have "sorted_wrt (\<lambda>x r. evaluation_unique r x) (evaluations d')"
      by (cases rule: record_alert_cases) (auto simp: sorted_wrt_append)
    with op e show ?thesis by simp
  qed
  with alert_step_inv [OF inv, of num op] show ?thesis by (simp add: unique_history_def)
qed

interpretation histories: op_invariant "alert_step num" unique_history for num
  by unfold_locales (rule step_unique_history)

lemma unique_history_rows:
  assumes "unique_history d" and "x \<in> set (evaluations d)" "y \<in> set (evaluations d)"
    and "alr_tenant_id x = alr_tenant_id y" "alr_fingerprint x = alr_fingerprint y"
    and "alr_idempotency_key x = alr_idempotency_key y \<or> alr_payload_hash x = alr_payload_hash y"
  shows "x = y"
proof -
  let ?es = "evaluations d"
  obtain i j where ij: "i < length ?es" "j < length ?es" "?es ! i = x" "?es ! j = y"
    using assms(2,3) by (auto simp: in_set_conv_nth)
  have u: "evaluation_unique (?es ! n) (?es ! m)" if "m < n" "n < length ?es" for m n
    using assms(1) that by (simp add: unique_history_def sorted_wrt_iff_nth_less)
  have no: "\<not> evaluation_unique x y" "\<not> evaluation_unique y x"
    using assms(4-6) unfolding evaluation_unique_def by auto
  have "\<not> i < j" using u [of i j] no ij by metis
  moreover have "\<not> j < i" using u [of j i] no ij by metis
  ultimately have "i = j" by simp
  with ij show ?thesis by simp
qed

lemma unique_history_empty: "unique_history empty_alerts"
  by (simp add: unique_history_def) (simp add: empty_alerts_def)

lemma select_one_the:
  assumes "x \<in> set xs" "P x" and "\<And>y. y \<in> set xs \<Longrightarrow> P y \<Longrightarrow> y = x"
  shows "select_one P xs = Some x"
proof (cases "select_one P xs")
  case None
  with assms(1,2) show ?thesis by (simp add: select_one_None_iff)
next
  case (Some y)
  with assms(3) [of y] show ?thesis by (simp add: select_one_SomeD)
qed

text \<open>What a recording did, seen from any later database.\<close>

lemma recorded_row:
  assumes inv: "unique_history d" and run: "record_alert num enq p s a key now d = (Inr ev, d')"
    and fresh: "\<not> idempotent_replay ev" and d'': "d'' = fold (alert_step num) ops d'"
  obtains r where "r \<in> set (evaluations d'')" "unique_history d''" "ev = row_to_evaluation r False"
    "cor_tenant_id (correlation s) = principal_tenant p"
    "alr_tenant_id r = principal_tenant p" "alr_fingerprint r = alert_fingerprint s a"
    "alr_idempotency_key r = key" "alr_payload_hash r = assessment_hash s a"
proof -
  have ai: "alert_inv d" using inv by (simp add: unique_history_def)
  have u': "unique_history d'" using step_unique_history [OF inv, of num "OpRecord enq p s a key now"] run by simp
  have u'': "unique_history d''" unfolding d'' by (rule histories.run_inv [OF u'])
  have "alert_before d' d''"
    unfolding d'' by (rule alerts.run_before) (use u' in \<open>simp add: unique_history_def\<close>)
  then have later: "set (evaluations d') \<subseteq> set (evaluations d'')" by (auto simp: alert_before_def)
  from ai run show thesis
  proof (cases rule: record_alert_cases)
    case (kept i j)
    from kept(4) [of ev] fresh show thesis by auto
  next
    case (added r j)
    have "r \<in> set (evaluations d'')" using added(8) later by auto
    with that [of r] added(1,2,5) u'' show thesis by simp
  qed
qed

lemma record_alert_replays:
  assumes u: "unique_history d" and r: "r \<in> set (evaluations d)" "alr_tenant_id r = principal_tenant p"
    "alr_fingerprint r = alert_fingerprint s a" "alr_idempotency_key r = key"
    and t: "cor_tenant_id (correlation s) = principal_tenant p"
  shows "record_alert num enq p s a key now d
    = (if alr_payload_hash r \<noteq> assessment_hash s a then
         (Inl (ConflictError ''ALERT_IDEMPOTENCY_CONFLICT''
                 ''Alert idempotency key was already used with a different payload''), d)
       else (Inr (row_to_evaluation r True), d))"
proof -
  have "select_one (\<lambda>x. alert_of (principal_tenant p) (alert_fingerprint s a) x \<and> alr_idempotency_key x = key)
      (evaluations d) = Some r"
    by (rule select_one_the [OF r(1)]) (use r unique_history_rows [OF u] in \<open>auto simp: alert_of_def\<close>)
  with t show ?thesis
    by (simp add: record_alert_def Let_def atomically_def returnE_def raiseE_def)
qed

text \<open>C8. Recording is idempotent over any later history: once an assessment was freshly recorded under
  a key, recording it again under that key returns the same evaluation as a replay, whatever clock,
  actor of the tenant or delivery settings the repetition has, and leaves the database as it is; any
  other assessment of the same alert under that key is refused, again without a write.\<close>

theorem recording_idempotent:
  assumes "d = fold (alert_step num) ops empty_alerts"
    and "record_alert num enq p s a key now d = (Inr ev, d')" and "\<not> idempotent_replay ev"
    and "d'' = fold (alert_step num) ops' d'"
    and "principal_tenant p' = principal_tenant p" and "alert_fingerprint s' a' = alert_fingerprint s a"
    and "cor_tenant_id (correlation s') = principal_tenant p'"
  shows "record_alert num enq' p' s' a' key now' d''
     = (if assessment_hash s' a' = assessment_hash s a
        then (Inr (ev\<lparr>idempotent_replay := True\<rparr>), d'')
        else (Inl (ConflictError ''ALERT_IDEMPOTENCY_CONFLICT''
                 ''Alert idempotency key was already used with a different payload''), d''))"
proof -
  have u: "unique_history d" unfolding assms(1) by (rule histories.run_inv [OF unique_history_empty])
  from recorded_row [OF u assms(2-4)] obtain r where r: "r \<in> set (evaluations d'')" "unique_history d''"
    "ev = row_to_evaluation r False" "alr_tenant_id r = principal_tenant p"
    "alr_fingerprint r = alert_fingerprint s a" "alr_idempotency_key r = key"
    "alr_payload_hash r = assessment_hash s a" by metis
  have "ev\<lparr>idempotent_replay := True\<rparr> = row_to_evaluation r True"
    by (simp add: r(3) row_to_evaluation_def AlertRow.defs AlertEvaluation.defs)
  then show ?thesis
    using record_alert_replays [OF r(2,1), of p' s' a' key num enq' now'] r(4-7) assms(5-7) by auto
qed

theorem recording_idempotent_witness:
  "record_alert id None w_op w_snap w_breach w_key 9999
      (fold (alert_step id) [OpLease ''wk'' 2000 DEFAULT_LEASE_SECONDS 10 []] w_announced)
    = (Inr (row_to_evaluation w_alert False\<lparr>idempotent_replay := True\<rparr>), w_leased)"
proof -
  have "cor_tenant_id (correlation w_snap) = principal_tenant w_op" by (simp add: w_snap_def w_op_def)
  moreover have "empty_alerts = fold (alert_step id) [] empty_alerts" by simp
  ultimately have "record_alert id None w_op w_snap w_breach w_key 9999 w_leased
    = (Inr (row_to_evaluation w_alert False\<lparr>idempotent_replay := True\<rparr>), w_leased)"
    using recording_idempotent [OF _ w_recorded, where ops = "[]" and p' = w_op and s' = w_snap and a' = w_breach
        and d'' = w_leased and ops' = "[OpLease ''wk'' 2000 DEFAULT_LEASE_SECONDS 10 []]" and enq' = None and now' = 9999]
      w_leases by simp
  then show ?thesis using w_leases by simp
qed

subsection \<open>The control service\<close>

text \<open>Every stored evaluation is the outcome of an assessment some operation recorded, whose hash it carries.\<close>

definition recorded_by :: "alert_op list \<Rightarrow> AlertRow \<Rightarrow> bool" where
  "recorded_by ops r \<longleftrightarrow> (\<exists>enq p s a key now previous. OpRecord enq p s a key now \<in> set ops
     \<and> alr_payload_hash r = assessment_hash s a \<and> alr_state r = fst (next_state previous a))"

lemma recorded_by_later: "recorded_by ops r \<Longrightarrow> recorded_by (ops @ ops') r"
  unfolding recorded_by_def by (metis Un_iff set_append)

lemma rows_recorded_by: "r \<in> set (evaluations (fold (alert_step num) ops empty_alerts)) \<Longrightarrow> recorded_by ops r"
proof (induction ops rule: rev_induct)
  case Nil
  then show ?case by (simp add: empty_alerts_def)
next
  case (snoc op ops)
  let ?d = "fold (alert_step num) ops empty_alerts"
  have inv: "alert_inv ?d" by (rule reachable_alerts)
  show ?case
  proof (cases "r \<in> set (evaluations ?d)")
    case True
    with snoc.IH show ?thesis by (simp add: recorded_by_later)
  next
    case new: False
    have r: "r \<in> set (evaluations (alert_step num op ?d))" using snoc.prems by simp
    with new step_evaluations(1) [OF inv, of op num] obtain enq p s a key now where
      op: "op = OpRecord enq p s a key now" by metis
    obtain res d' where e: "record_alert num enq p s a key now ?d = (res, d')" by force
    from inv e show ?thesis
    proof (cases rule: record_alert_cases)
      case (kept i j)
      with new r op e show ?thesis by simp
    next
      case (added x j)
      with new r op e have "r = x" by auto
      have "OpRecord enq p s a key now \<in> set (ops @ [op])" by (simp add: op)
      then show ?thesis unfolding \<open>r = x\<close> added(2) recorded_by_def new_alert_simps by blast
    qed
  qed
qed

lemma external_action_breach:
  assumes "external_action_count s = Some n" and "0 < n"
  shows "as_policy_id (assess (POLICIES ! 0) s) = external_action_policy"
    and "as_breached (assess (POLICIES ! 0) s) = Some True"
    and "as_measurement_status (assess (POLICIES ! 0) s) = EVALUATED"
  using assms fl_count_pos [of n] by (simp_all add: assess_def POLICIES_def external_action_policy_def Let_def)

text \<open>C12. The evaluation fails closed: on a snapshot that counts an external action it never returns, and records one
  policy at most. If a count is too large for binary64 it raises before any recording; if the recording of the
  first policy raises, so does the evaluation; otherwise, freshly recorded or replayed, the evaluation leaves what
  the recording committed and raises \<^verbatim>\<open>SHADOW_EXTERNAL_ACTION_DETECTED\<close>. A fresh recording commits one firing
  evaluation, with its delivery intent when delivery is on. (The one way out is a SHA-256 collision: a replay finds
  the stored evaluation by its hash, which an earlier operation could have recorded for a different assessment.)\<close>

theorem evaluate_fails_closed:
  assumes "has_role p ''operator''" and "cor_tenant_id (correlation s) = principal_tenant p"
    and "external_action_count s = Some n" and "0 < n" and "d = fold (alert_step num) ops empty_alerts"
  shows "case assess_policies s of
      Inl e \<Rightarrow> evaluate num enq clock p s prefix d = (Inl e, d)
    | Inr _ \<Rightarrow>
       (case record_alert num enq p s (assess (POLICIES ! 0) s) (prefix @ '':'' @ external_action_policy) (clock 0) d of
         (Inl e, d') \<Rightarrow> evaluate num enq clock p s prefix d = (Inl e, d')
       | (Inr ev, d') \<Rightarrow>
           (evaluate num enq clock p s prefix d
              = (Inl (ConflictError ''SHADOW_EXTERNAL_ACTION_DETECTED''
                   ''Shadow external_action_count exceeded zero; evaluation failed closed''), d')
            \<or> idempotent_replay ev
              \<and> (\<exists>enq0 p0 s0 a0 key0 now0. OpRecord enq0 p0 s0 a0 key0 now0 \<in> set ops
                   \<and> assessment_dump a0 \<noteq> assessment_dump (assess (POLICIES ! 0) s)
                   \<and> assessment_hash s0 a0 = assessment_hash s (assess (POLICIES ! 0) s)))
           \<and> (if idempotent_replay ev then True else alr_state ev = Some FIRING
                \<and> (\<exists>r. ev = row_to_evaluation r False \<and> evaluations d' = evaluations d @ [r]
                     \<and> outbox d' = outbox d @ intents_of enq r (clock 0) (outbox_seq d + 1))))"
proof (cases "assess_policies s")
  case (Inl e)
  then show ?thesis using assms(1,2) by (simp add: evaluate_def raiseE_def)
next
  case assessed: (Inr bs)
  let ?a = "assess (POLICIES ! 0) s"
  note a = external_action_breach [OF assms(3,4)]
  obtain as where "bs = ?a # as"
    using assessed by (auto simp: assess_policies_def POLICIES_def Let_def split: if_splits)
  with assessed have ev: "evaluate num enq clock p s prefix d = evaluate_from num enq clock p s prefix 0 (?a # as) d"
    using assms(1,2) by (simp add: evaluate_def)
  have inv: "alert_inv d" unfolding assms(5) by (rule reachable_alerts)
  obtain res d' where rec: "record_alert num enq p s ?a (prefix @ '':'' @ external_action_policy) (clock 0) d = (res, d')"
    by force
  show ?thesis
  proof (cases res)
    case (Inl e)
    with rec ev a(1) assessed show ?thesis by (simp add: bindE_def)
  next
    case (Inr x)
    have raised: "evaluate num enq clock p s prefix d = (Inl (ConflictError ''SHADOW_EXTERNAL_ACTION_DETECTED''
        ''Shadow external_action_count exceeded zero; evaluation failed closed''), d')" if "alr_state x = Some FIRING"
      using that rec Inr ev a(1) by (simp add: bindE_def raiseE_def)
    from inv rec show ?thesis
    proof (cases rule: record_alert_cases)
      case (kept i j)
      from kept(4) [OF Inr] obtain r where r: "r \<in> set (evaluations d)" "x = row_to_evaluation r True"
        "alr_payload_hash r = assessment_hash s ?a" by blast
      show ?thesis
      proof (cases "alr_state x = Some FIRING")
        case True
        with raised r(2) rec Inr assessed show ?thesis by simp
      next
        case False
        from rows_recorded_by [OF r(1) [unfolded assms(5)]] obtain enq0 p0 s0 a0 key0 now0 previous where
          o: "OpRecord enq0 p0 s0 a0 key0 now0 \<in> set ops" "alr_payload_hash r = assessment_hash s0 a0"
            "alr_state r = fst (next_state previous a0)" unfolding recorded_by_def by blast
        have "as_measurement_status a0 = UNMEASURED \<or> as_breached a0 \<noteq> Some True"
          using False o(3) r(2) by (auto simp: next_state_def split: if_splits)
        then have "assessment_dump a0 \<noteq> assessment_dump ?a"
          using a(2,3) by (cases "as_breached a0") (auto simp: assessment_dump_def opt_bool_def)
        moreover have "assessment_hash s0 a0 = assessment_hash s ?a" using o(2) r(3) by simp
        ultimately have "\<exists>enq0 p0 s0 a0 key0 now0. OpRecord enq0 p0 s0 a0 key0 now0 \<in> set ops
            \<and> assessment_dump a0 \<noteq> assessment_dump ?a \<and> assessment_hash s0 a0 = assessment_hash s ?a"
          using o(1) by blast
        with r(2) rec Inr assessed show ?thesis by simp
      qed
    next
      case (added r j)
      have "alr_state r = Some FIRING" using added(2) a by (simp add: next_state_def)
      with added(5,8) raised rec Inr assessed show ?thesis by auto
    qed
  qed
qed

lemma w_measured: "\<exists>bs. assess_policies w_snap = Inr bs"
proof -
  have "\<bar>fl (1 / 4) - 1 / 4\<bar> \<le> (1 / 2 ^ 53 :: rat)" by (rule fl_unit_error) simp_all
  then have "\<bar>fl (1 / 4)\<bar> < (2 :: rat)" using abs_triangle_ineq2 [of "fl (1 / 4)" "1 / 4"] by simp
  moreover have "\<bar>fl 1\<bar> < (2 :: rat)" "\<bar>fl 0\<bar> < (2 :: rat)" using fl_count_exact [of 1] by (simp_all add: fl_def)
  moreover have "\<not> out_of_float x" if "\<bar>x\<bar> < 2" for x
    using that power_increasing [of 1 1024 "2 :: rat"] unfolding out_of_float_def by simp
  ultimately have "\<not> out_of_float (fl 1)" "\<not> out_of_float (fl 0)" "\<not> out_of_float (fl (1 / 4))" by blast+
  then show ?thesis
    by (simp add: assess_policies_def POLICIES_def Let_def assess_def observe_rate_def w_snap_def)
qed

theorem evaluate_fails_closed_witness:
  "evaluate id (Some w_enq) (\<lambda>k. 1000 + int k) w_op w_snap ''report-1'' empty_alerts
    = (Inl (ConflictError ''SHADOW_EXTERNAL_ACTION_DETECTED''
         ''Shadow external_action_count exceeded zero; evaluation failed closed''), w_announced)"
proof -
  have "has_role w_op ''operator''" "cor_tenant_id (correlation w_snap) = principal_tenant w_op"
    "external_action_count w_snap = Some 1" "(0 :: int) < 1"
    by (simp_all add: has_role_def w_op_def w_snap_def)
  moreover have "record_alert id (Some w_enq) w_op w_snap (assess (POLICIES ! 0) w_snap)
      (''report-1'' @ '':'' @ external_action_policy) ((\<lambda>k. 1000 + int k) 0) empty_alerts
      = (Inr (row_to_evaluation w_alert False), w_announced)"
    using w_recorded by (simp add: w_breach_def w_key_def)
  moreover obtain bs where "assess_policies w_snap = Inr bs" using w_measured by blast
  ultimately show ?thesis
    using evaluate_fails_closed [where p = w_op and s = w_snap and n = 1 and num = id and ops = "[]"
        and enq = "Some w_enq" and clock = "\<lambda>k. 1000 + int k" and d = empty_alerts and prefix = "''report-1''"]
    by simp
qed

subsection \<open>Numbers\<close>

text \<open>The delay before a retry doubles from two seconds and is capped at five minutes: exact for
  every attempt number, with an error below one.\<close>

theorem backoff_exact:
  "backoff_delay_seconds n DEFAULT_BACKOFF_BASE_SECONDS DEFAULT_BACKOFF_CAP_SECONDS
    = (if n < 1 then Inl (ValueError ''attempt_count must be >= 1'')
       else if n \<le> 8 then Inr (2 ^ nat n) else Inr 300)"
proof (cases "n < 1")
  case False
  have "min (fl (2 * 2 ^ k)) 300 = (if k < 8 then 2 * 2 ^ k else (300 :: rat))" if "k < 17" for k :: nat
  proof -
    have "(2 :: int) ^ k \<le> 2 ^ 16" using that by (intro power_increasing) simp_all
    with fl_count_exact [of "2 * 2 ^ k"] have e: "fl (2 * 2 ^ k) = (2 * 2 ^ k :: rat)" by simp
    show ?thesis
    proof (cases "k < 8")
      case True
      then have "(2 :: rat) ^ k \<le> 2 ^ 7" by (intro power_increasing) simp_all
      with True show ?thesis by (simp add: e)
    next
      case False
      then have "(2 :: rat) ^ 8 \<le> 2 ^ k" by (intro power_increasing) simp_all
      with False show ?thesis by (simp add: e)
    qed
  qed
  from this [of "nat (min (n - 1) 16)"]
  have v: "min (fl (2 * 2 ^ nat (min (n - 1) 16))) 300
      = (if nat (min (n - 1) 16) < 8 then 2 * 2 ^ nat (min (n - 1) 16) else (300 :: rat))" by simp
  have b: "backoff_delay_seconds n DEFAULT_BACKOFF_BASE_SECONDS DEFAULT_BACKOFF_CAP_SECONDS
      = Inr (if nat (min (n - 1) 16) < 8 then 2 * 2 ^ nat (min (n - 1) 16) else 300)"
    using False v by (simp add: backoff_delay_seconds_def DEFAULT_BACKOFF_BASE_SECONDS_def DEFAULT_BACKOFF_CAP_SECONDS_def)
  show ?thesis
  proof (cases "n \<le> 8")
    case True
    then have "nat (min (n - 1) 16) < 8" "(2 :: rat) * 2 ^ nat (min (n - 1) 16) = 2 ^ nat n"
      using False by (simp_all flip: power_Suc add: Suc_nat_eq_nat_zadd1)
    with b False True show ?thesis by simp
  next
    case big: False
    then have "\<not> nat (min (n - 1) 16) < 8" by simp
    with b False big show ?thesis by simp
  qed
qed (simp add: backoff_delay_seconds_def)

text \<open>C21. The rate policies are exact although rates and thresholds are binary64 quotients: below
  \<open>2^45\<close> cases, the disagreement policy is breached exactly when more than a fifth of the cases
  disagree, the error policy exactly when more than a twentieth failed, and rounding never turns
  the boundary itself into a breach.\<close>

theorem rate_thresholds_exact:
  assumes "valid_snapshot s" and "0 < case_count s" and "case_count s \<le> 2 ^ 45"
    and "escalation_disagreement_count s = Some a" and "shadow_processing_failure_count s = Some b"
  shows "as_breached (assess (POLICIES ! 1) s) = Some (case_count s < 5 * a)
    \<and> as_breached (assess (POLICIES ! 4) s) = Some (case_count s < 20 * b)"
proof -
  have n: "0 \<le> a" "a \<le> case_count s" "0 \<le> b" "b \<le> case_count s"
    using assms by (simp_all add: valid_snapshot_def nonneg_opt_def at_most_opt_def validate_counts_and_label_def)
  have "fl (20 / 100) = fl (1 / of_nat 5)" "fl (5 / 100) = fl (1 / of_nat 20)" by simp_all
  with rate_threshold [of "case_count s" 5 a] rate_threshold [of "case_count s" 20 b] n assms(2-5)
  show ?thesis
    by (simp add: assess_def POLICIES_def Let_def observe_rate_def)
qed

theorem rate_thresholds_exact_witness:
  "as_breached (assess (POLICIES ! 1) w_snap) = Some True
    \<and> as_breached (assess (POLICIES ! 1) (w_snap\<lparr>case_count := 5\<rparr>)) = Some False"
proof -
  have v: "valid_snapshot w_snap" "valid_snapshot (w_snap\<lparr>case_count := 5\<rparr>)"
    using w_sha by (simp_all add: w_snap_def valid_snapshot_def valid_correlation_def opt_bounded_def
        bounded_text_def nonneg_opt_def at_most_opt_def validate_counts_and_label_def)
  show ?thesis
    using rate_thresholds_exact [OF v(1), of 1 0] rate_thresholds_exact [OF v(2), of 1 0]
    by (simp add: w_snap_def)
qed

end
