(* ===== verification/ShadowContracts.thy ===== *)
theory ShadowContracts
  imports Reasoning
begin

section \<open>Shadow cases and their comparison (\<^verbatim>\<open>shadow/contracts.py\<close>, \<^verbatim>\<open>metrics.py\<close>, \<^verbatim>\<open>diff.py\<close>)\<close>

text \<open>
  A shadow case: a request, the fixtures it runs on, and the reference an analyst or a synthetic
  pack expects. \<open>validate_case\<close> and the other validators give the message of the first
  violated rule. An actual outcome is compared with the reference field by field. A field the
  source fixes to one literal (\<^verbatim>\<open>execute\<close>, the contract version) is a constant of the dump.
\<close>

subsection \<open>Vocabulary\<close>

datatype ExpectedState = Exp_awaiting_human | Exp_escalated

fun expected_state_value :: "ExpectedState \<Rightarrow> string" where
  "expected_state_value Exp_awaiting_human = ''awaiting_human''"
| "expected_state_value Exp_escalated = ''escalated''"

datatype Agreement = Exact | Partial | Disagree

fun agreement_value :: "Agreement \<Rightarrow> string" where
  "agreement_value Exact = ''exact''"
| "agreement_value Partial = ''partial''"
| "agreement_value Disagree = ''disagree''"

datatype ProvenanceLabel = Simulated_case | Genuine_uat

fun provenance_value :: "ProvenanceLabel \<Rightarrow> string" where
  "provenance_value Simulated_case = ''SIMULATED''"
| "provenance_value Genuine_uat = ''GENUINE_UAT_ANALYST_LABELLED''"

datatype BaselineSource = Controlled_synthetic_reference | Analyst_reference

fun baseline_value :: "BaselineSource \<Rightarrow> string" where
  "baseline_value Controlled_synthetic_reference = ''controlled_synthetic_reference''"
| "baseline_value Analyst_reference = ''analyst_reference''"

datatype DeidentificationStatus = Deid_not_applicable | Deid_owner_attested

fun deidentification_value :: "DeidentificationStatus \<Rightarrow> string" where
  "deidentification_value Deid_not_applicable = ''not_applicable_controlled_synthetic''"
| "deidentification_value Deid_owner_attested = ''deidentified_owner_attested''"

datatype ConsentDataUseStatus = Consent_not_applicable | Consent_held_offline

fun consent_value :: "ConsentDataUseStatus \<Rightarrow> string" where
  "consent_value Consent_not_applicable = ''not_applicable_controlled_synthetic''"
| "consent_value Consent_held_offline = ''owner_attested_consent_held_offline''"

text \<open>The patterns, as what they accept: the texts here have no line breaks to anchor at.\<close>

definition is_digit :: "char \<Rightarrow> bool" where
  "is_digit c \<longleftrightarrow> CHR ''0'' \<le> c \<and> c \<le> CHR ''9''"

definition consent_char :: "char \<Rightarrow> bool" where
  "consent_char c \<longleftrightarrow> CHR ''A'' \<le> c \<and> c \<le> CHR ''Z'' \<or> is_digit c \<or> c = CHR ''-''"

definition consent_reference_ok :: "string \<Rightarrow> bool" where
  "consent_reference_ok s \<longleftrightarrow>
     take 16 s = ''OFFLINE-CONSENT-'' \<and> 24 \<le> length s \<and> length s \<le> 80
     \<and> list_all consent_char (drop 16 s)"

fun positive_number :: "string \<Rightarrow> bool" where
  "positive_number [] = False"
| "positive_number (c # cs) \<longleftrightarrow> CHR ''1'' \<le> c \<and> c \<le> CHR ''9'' \<and> list_all is_digit cs"

fun case_version_ok :: "string \<Rightarrow> bool" where
  "case_version_ok [] = False"
| "case_version_ok (c # cs) \<longleftrightarrow> c = CHR ''v'' \<and> positive_number cs"

text \<open>\<^verbatim>\<open>m2-shadow-cases-v<number>-YYYY-MM-DD\<close>.\<close>

definition pack_version_ok :: "string \<Rightarrow> bool" where
  "pack_version_ok s \<longleftrightarrow>
     (let n = length s - 11; date = drop n s; digits = map (\<lambda>i. date ! i) [1, 2, 3, 4, 6, 7, 9, 10]
      in 29 \<le> length s \<and> take 17 s = ''m2-shadow-cases-v'' \<and> positive_number (drop 17 (take n s))
         \<and> date ! 0 = CHR ''-'' \<and> date ! 5 = CHR ''-'' \<and> date ! 8 = CHR ''-'' \<and> list_all is_digit digits)"

subsection \<open>Cases\<close>

record InventoryFixture =
  inv_on_hand :: rat
  inv_reserved :: rat
  inv_on_order :: rat
  inv_updated_at :: datetime

record DemandFixture =
  dem_units_sold :: rat
  dem_average_daily_units :: rat
  dem_demand_signal :: string
  dem_updated_at :: datetime

record SupplierFixture =
  sup_open_order_quantity :: rat
  sup_expected_receipt_at :: datetime
  sup_historical_lead_time_days :: rat
  sup_status :: string
  sup_updated_at :: datetime

record FixtureSetup =
  fx_inventory :: "InventoryFixture option"
  fx_demand :: "DemandFixture option"
  fx_supplier :: "SupplierFixture option"

record ReferenceOutcome =
  expected_state :: ExpectedState
  ref_root_cause_statement :: "string option"
  ref_action_type :: "ActionType option"
  ref_confidence :: "Confidence option"

record ReferenceEscalation =
  esc_expected :: bool
  esc_code :: "string option"

record MinimumEvidenceExpectation =
  required_tools :: "ToolName list"
  minimum_unique_citations :: int

record ShadowCase =
  case_id :: string
  case_version :: string
  category :: string
  case_tenant_id :: string
  as_of_timestamp :: datetime
  case_input :: IntakeRequest
  baseline_source :: BaselineSource
  reference_outcome :: ReferenceOutcome
  reference_escalation :: ReferenceEscalation
  minimum_evidence :: MinimumEvidenceExpectation
  provenance_label :: ProvenanceLabel
  deidentification_status :: DeidentificationStatus
  consent_data_use_status :: ConsentDataUseStatus
  consent_data_use_reference :: "string option"
  fixture_setup :: FixtureSetup
  case_notes :: string
  limitations :: "string list"

subsection \<open>Validators\<close>

definition rule_broken :: "string \<Rightarrow> unit result" where
  "rule_broken m = Inl (ValueError m)"

definition validate_code :: "ReferenceEscalation \<Rightarrow> unit result" where
  "validate_code e =
     (if esc_expected e \<and> (esc_code e = None \<or> esc_code e = Some []) then
        rule_broken ''Expected escalation requires a reference code''
      else if \<not> esc_expected e \<and> esc_code e \<noteq> None then
        rule_broken ''Non-escalation reference cannot include a code''
      else Inr ())"

definition validate_tools :: "MinimumEvidenceExpectation \<Rightarrow> unit result" where
  "validate_tools m =
     (if length (required_tools m) \<noteq> card (set (required_tools m)) then
        rule_broken ''Required evidence tools must be unique''
      else Inr ())"

definition empty_consent_reference_is_none :: "string option \<Rightarrow> string option" where
  "empty_consent_reference_is_none x = (if x = Some [] then None else x)"

definition validate_case :: "ShadowCase \<Rightarrow> unit result" where
  "validate_case c =
     (if tz_naive (as_of_timestamp c) then
        rule_broken ''as_of_timestamp must include a timezone''
      else if instant (as_of_timestamp c) \<noteq> instant (req_as_of_ts (case_input c)) then
        rule_broken ''as_of_timestamp must equal input.as_of_ts''
      else if esc_expected (reference_escalation c)
                \<noteq> (expected_state (reference_outcome c) = Exp_escalated) then
        rule_broken ''Reference state and escalation expectation disagree''
      else if expected_state (reference_outcome c) = Exp_escalated
           \<and> (ref_root_cause_statement (reference_outcome c) \<noteq> None
              \<or> ref_action_type (reference_outcome c) \<noteq> None
              \<or> ref_confidence (reference_outcome c) \<noteq> None) then
        rule_broken ''Escalated references cannot include a recommendation draft''
      else if provenance_label c = Simulated_case then
        (if baseline_source c \<noteq> Controlled_synthetic_reference then
           rule_broken ''SIMULATED cases require controlled_synthetic_reference''
         else if deidentification_status c \<noteq> Deid_not_applicable then
           rule_broken ''SIMULATED cases cannot carry a genuine de-identification status''
         else if consent_data_use_status c \<noteq> Consent_not_applicable then
           rule_broken ''SIMULATED cases cannot carry a genuine consent status''
         else if consent_data_use_reference c \<noteq> None then
           rule_broken ''SIMULATED cases cannot carry a consent/data-use reference''
         else Inr ())
      else
        (if baseline_source c \<noteq> Analyst_reference then
           rule_broken ''Genuine UAT cases require baseline_source=analyst_reference''
         else if deidentification_status c \<noteq> Deid_owner_attested then
           rule_broken ''Genuine UAT cases require owner-attested de-identification''
         else if consent_data_use_status c \<noteq> Consent_held_offline then
           rule_broken ''Genuine UAT cases require offline owner-attested consent status''
         else if consent_data_use_reference c = None then
           rule_broken ''Genuine UAT cases require an opaque offline consent/data-use reference''
         else Inr ()))"

definition valid_fixtures :: "FixtureSetup \<Rightarrow> bool" where
  "valid_fixtures f \<longleftrightarrow>
     (case fx_inventory f of None \<Rightarrow> True
      | Some i \<Rightarrow> 0 \<le> inv_on_hand i \<and> 0 \<le> inv_reserved i \<and> 0 \<le> inv_on_order i)
     \<and> (case fx_demand f of None \<Rightarrow> True
        | Some x \<Rightarrow> 0 \<le> dem_units_sold x \<and> 0 \<le> dem_average_daily_units x
            \<and> bounded_text 1 80 (dem_demand_signal x))
     \<and> (case fx_supplier f of None \<Rightarrow> True
        | Some s \<Rightarrow> 0 \<le> sup_open_order_quantity s \<and> 0 \<le> sup_historical_lead_time_days s
            \<and> bounded_text 1 80 (sup_status s))"

definition valid_minimum :: "MinimumEvidenceExpectation \<Rightarrow> bool" where
  "valid_minimum m \<longleftrightarrow>
     required_tools m \<noteq> [] \<and> set (required_tools m) \<subseteq> set evidence_tools
     \<and> 0 \<le> minimum_unique_citations m \<and> minimum_unique_citations m \<le> 3
     \<and> validate_tools m = Inr ()"

text \<open>A case Pydantic has built: every field constraint, then the validators.\<close>

definition valid_shadow_case :: "ShadowCase \<Rightarrow> bool" where
  "valid_shadow_case c \<longleftrightarrow>
     bounded_text 1 100 (case_id c) \<and> case_version_ok (case_version c)
     \<and> bounded_text 1 80 (category c) \<and> case_tenant_id c \<in> {''t_alpha'', ''t_beta''}
     \<and> validate_intake (case_input c) = Inr ()
     \<and> validate_code (reference_escalation c) = Inr () \<and> valid_minimum (minimum_evidence c)
     \<and> (case consent_data_use_reference c of None \<Rightarrow> True | Some r \<Rightarrow> consent_reference_ok r)
     \<and> valid_fixtures (fixture_setup c) \<and> bounded_text 1 1000 (case_notes c) \<and> limitations c \<noteq> []
     \<and> validate_case c = Inr ()"

record ShadowCasePack =
  case_pack_version :: string
  pack_cases :: "ShadowCase list"

definition validate_unique_cases :: "ShadowCasePack \<Rightarrow> unit result" where
  "validate_unique_cases p =
     (let identities = map (\<lambda>c. (case_id c, case_version c)) (pack_cases p)
      in if length identities \<noteq> card (set identities) then
           rule_broken ''Case IDs and versions must be unique within a pack''
         else if card (category ` set (pack_cases p)) < 4 then
           rule_broken ''The controlled-synthetic pack requires at least four categories''
         else if list_ex (\<lambda>c. provenance_label c \<noteq> Simulated_case) (pack_cases p) then
           rule_broken ''The controlled-synthetic pack cannot contain genuine UAT cases''
         else if list_ex (\<lambda>c. baseline_source c \<noteq> Controlled_synthetic_reference) (pack_cases p) then
           rule_broken ''The controlled-synthetic pack cannot contain analyst_reference baselines''
         else Inr ())"

definition valid_case_pack :: "ShadowCasePack \<Rightarrow> bool" where
  "valid_case_pack p \<longleftrightarrow>
     pack_version_ok (case_pack_version p) \<and> 12 \<le> length (pack_cases p)
     \<and> list_all valid_shadow_case (pack_cases p) \<and> validate_unique_cases p = Inr ()"

fun first_broken :: "('a \<Rightarrow> unit result) \<Rightarrow> 'a list \<Rightarrow> unit result" where
  "first_broken f [] = Inr ()"
| "first_broken f (x # xs) = (case f x of Inl e \<Rightarrow> Inl e | Inr _ \<Rightarrow> first_broken f xs)"

text \<open>The document of an intake is its cases: version and \<^verbatim>\<open>execute\<close> are literals.\<close>

definition validate_genuine_intake :: "ShadowCase list \<Rightarrow> unit result" where
  "validate_genuine_intake cases =
     (let identities = map (\<lambda>c. (case_id c, case_version c, case_tenant_id c)) cases
      in if length identities \<noteq> card (set identities) then
           rule_broken ''Intake document contains duplicate case identities''
         else first_broken (\<lambda>c.
           if provenance_label c \<noteq> Genuine_uat then
             rule_broken ''Genuine UAT intake rejects SIMULATED cases''
           else if baseline_source c \<noteq> Analyst_reference then
             rule_broken ''Genuine UAT intake requires analyst_reference baselines''
           else Inr ()) cases)"

definition valid_intake_document :: "ShadowCase list \<Rightarrow> bool" where
  "valid_intake_document cases \<longleftrightarrow>
     cases \<noteq> [] \<and> list_all valid_shadow_case cases \<and> validate_genuine_intake cases = Inr ()"

subsection \<open>What a case is as JSON\<close>

definition opt_dump :: "('a \<Rightarrow> json) \<Rightarrow> 'a option \<Rightarrow> json" where
  "opt_dump f x = (case x of None \<Rightarrow> JNull | Some y \<Rightarrow> f y)"

definition inventory_dump :: "InventoryFixture \<Rightarrow> json" where
  "inventory_dump i = JObj
     [(''on_hand'', JFloat (inv_on_hand i)), (''reserved'', JFloat (inv_reserved i)),
      (''on_order'', JFloat (inv_on_order i)), (''updated_at'', JTime (inv_updated_at i))]"

definition demand_dump :: "DemandFixture \<Rightarrow> json" where
  "demand_dump x = JObj
     [(''units_sold'', JFloat (dem_units_sold x)),
      (''average_daily_units'', JFloat (dem_average_daily_units x)),
      (''demand_signal'', JStr (dem_demand_signal x)), (''updated_at'', JTime (dem_updated_at x))]"

definition supplier_dump :: "SupplierFixture \<Rightarrow> json" where
  "supplier_dump s = JObj
     [(''open_order_quantity'', JFloat (sup_open_order_quantity s)),
      (''expected_receipt_at'', JTime (sup_expected_receipt_at s)),
      (''historical_lead_time_days'', JFloat (sup_historical_lead_time_days s)),
      (''status'', JStr (sup_status s)), (''updated_at'', JTime (sup_updated_at s))]"

definition fixture_setup_dump :: "FixtureSetup \<Rightarrow> json" where
  "fixture_setup_dump f = JObj
     [(''inventory'', opt_dump inventory_dump (fx_inventory f)),
      (''demand'', opt_dump demand_dump (fx_demand f)),
      (''supplier'', opt_dump supplier_dump (fx_supplier f))]"

definition reference_outcome_dump :: "ReferenceOutcome \<Rightarrow> json" where
  "reference_outcome_dump r = JObj
     [(''expected_state'', JStr (expected_state_value (expected_state r))),
      (''root_cause_statement'', opt_dump JStr (ref_root_cause_statement r)),
      (''recommendation_action_type'', opt_dump (JStr \<circ> action_type_value) (ref_action_type r)),
      (''confidence'', opt_dump (JStr \<circ> confidence_value) (ref_confidence r))]"

definition reference_escalation_dump :: "ReferenceEscalation \<Rightarrow> json" where
  "reference_escalation_dump e = JObj
     [(''expected'', JBool (esc_expected e)), (''code'', opt_dump JStr (esc_code e))]"

definition minimum_evidence_dump :: "MinimumEvidenceExpectation \<Rightarrow> json" where
  "minimum_evidence_dump m = JObj
     [(''required_tools'', JList (map (JStr \<circ> tool_value) (required_tools m))),
      (''minimum_unique_citations'', JInt (minimum_unique_citations m))]"

definition CASE_CONTRACT_VERSION :: string where
  "CASE_CONTRACT_VERSION = ''m2-shadow-case-contract-v2''"

definition case_dump :: "ShadowCase \<Rightarrow> json" where
  "case_dump c = JObj
     [(''case_id'', JStr (case_id c)), (''case_version'', JStr (case_version c)),
      (''case_contract_version'', JStr CASE_CONTRACT_VERSION), (''category'', JStr (category c)),
      (''tenant_id'', JStr (case_tenant_id c)), (''as_of_timestamp'', JTime (as_of_timestamp c)),
      (''execute'', JBool False), (''input'', intake_dump (case_input c)),
      (''baseline_source'', JStr (baseline_value (baseline_source c))),
      (''reference_outcome'', reference_outcome_dump (reference_outcome c)),
      (''reference_escalation_expectation'', reference_escalation_dump (reference_escalation c)),
      (''minimum_evidence_citation_expectations'', minimum_evidence_dump (minimum_evidence c)),
      (''provenance_label'', JStr (provenance_value (provenance_label c))),
      (''deidentification_status'', JStr (deidentification_value (deidentification_status c))),
      (''consent_data_use_status'', JStr (consent_value (consent_data_use_status c))),
      (''consent_data_use_reference'', opt_dump JStr (consent_data_use_reference c)),
      (''fixture_setup'', fixture_setup_dump (fixture_setup c)), (''notes'', JStr (case_notes c)),
      (''limitations'', JList (map JStr (limitations c)))]"

subsection \<open>Actual outcomes and comparisons\<close>

record ShadowActualOutcome =
  act_state :: string
  act_escalated :: bool
  act_escalation_code :: "string option"
  act_root_cause_statement :: "string option"
  act_action_type :: "string option"
  act_confidence :: "string option"
  act_evidence_tools :: "string list"
  act_evidence_ids :: "string list"
  act_citation_ids :: "string list"
  act_unsupported_citation_count :: int
  act_missing_required_count :: int
  act_citation_coverage :: rat
  act_schema_valid :: bool
  act_reasoning_invoked :: bool
  act_provider_label :: string
  act_latency_ms :: rat
  act_estimated_cost_usd :: "rat option"
  act_cost_evidence_label :: string

definition actual_dump :: "ShadowActualOutcome \<Rightarrow> json" where
  "actual_dump a = JObj
     [(''state'', JStr (act_state a)), (''escalated'', JBool (act_escalated a)),
      (''escalation_code'', opt_dump JStr (act_escalation_code a)),
      (''root_cause_statement'', opt_dump JStr (act_root_cause_statement a)),
      (''recommendation_action_type'', opt_dump JStr (act_action_type a)),
      (''confidence'', opt_dump JStr (act_confidence a)),
      (''evidence_tools'', JList (map JStr (act_evidence_tools a))),
      (''evidence_ids'', JList (map JStr (act_evidence_ids a))),
      (''citation_ids'', JList (map JStr (act_citation_ids a))),
      (''unsupported_citation_count'', JInt (act_unsupported_citation_count a)),
      (''missing_required_evidence_count'', JInt (act_missing_required_count a)),
      (''citation_coverage'', JFloat (act_citation_coverage a)),
      (''schema_valid'', JBool (act_schema_valid a)),
      (''reasoning_invoked'', JBool (act_reasoning_invoked a)),
      (''provider_label'', JStr (act_provider_label a)), (''latency_ms'', JFloat (act_latency_ms a)),
      (''estimated_cost_usd'', opt_dump JFloat (act_estimated_cost_usd a)),
      (''cost_evidence_label'', JStr (act_cost_evidence_label a)),
      (''execute'', JBool False), (''external_action_count'', JInt 0)]"

definition valid_actual :: "ShadowActualOutcome \<Rightarrow> bool" where
  "valid_actual a \<longleftrightarrow>
     0 \<le> act_unsupported_citation_count a \<and> 0 \<le> act_missing_required_count a
     \<and> 0 \<le> act_citation_coverage a \<and> act_citation_coverage a \<le> 1 \<and> 0 \<le> act_latency_ms a
     \<and> (case act_estimated_cost_usd a of None \<Rightarrow> True | Some x \<Rightarrow> 0 \<le> x)
     \<and> act_cost_evidence_label a \<in> {''SIMULATED'', ''UNMEASURED''}"

record ShadowDiffEntry =
  field_name :: string
  agreement :: Agreement
  expected :: json
  actual :: json
  de_category :: string

record ShadowComparison =
  exact_agreement :: bool
  entries :: "ShadowDiffEntry list"
  disagreement_categories :: "string list"
  cmp_unsupported_citation_count :: int
  cmp_missing_required_count :: int
  cmp_citation_coverage :: rat

definition entry_dump :: "ShadowDiffEntry \<Rightarrow> json" where
  "entry_dump e = JObj
     [(''field_name'', JStr (field_name e)), (''agreement'', JStr (agreement_value (agreement e))),
      (''expected'', expected e), (''actual'', actual e), (''category'', JStr (de_category e))]"

definition comparison_dump :: "ShadowComparison \<Rightarrow> json" where
  "comparison_dump c = JObj
     [(''exact_agreement'', JBool (exact_agreement c)),
      (''entries'', JList (map entry_dump (entries c))),
      (''disagreement_categories'', JList (map JStr (disagreement_categories c))),
      (''unsupported_citation_count'', JInt (cmp_unsupported_citation_count c)),
      (''missing_required_evidence_count'', JInt (cmp_missing_required_count c)),
      (''citation_coverage'', JFloat (cmp_citation_coverage c))]"

subsection \<open>Missing required evidence\<close>

definition BOUNDED_EVIDENCE_TOOLS :: "string set" where
  "BOUNDED_EVIDENCE_TOOLS = {''T1_inventory'', ''T2_sales_demand'', ''T3_supplier''}"

definition missing_required_count :: "string list \<Rightarrow> string list \<Rightarrow> int result" where
  "missing_required_count required actual_tools =
     (if required = [] then
        Inl (ValueError ''required_tools must contain at least one bounded evidence tool'')
      else if length required \<noteq> card (set required) then
        Inl (ValueError ''required_tools must be unique'')
      else if set required - BOUNDED_EVIDENCE_TOOLS \<noteq> {} then
        Inl (ValueError ''required_tools contains tools outside the T1-T3 boundary'')
      else Inr (int (card (set required - set actual_tools))))"

subsection \<open>The comparison\<close>

definition diff_entry :: "string \<Rightarrow> json \<Rightarrow> json \<Rightarrow> string \<Rightarrow> Agreement option \<Rightarrow> ShadowDiffEntry" where
  "diff_entry fname ex ac cat agr =
     \<lparr>field_name = fname,
      agreement = (case agr of Some g \<Rightarrow> g | None \<Rightarrow> if ex = ac then Exact else Disagree),
      expected = ex, actual = ac, de_category = cat\<rparr>"

definition sorted_texts :: "string list \<Rightarrow> string list" where
  "sorted_texts xs = sort (remdups xs)"

definition evidence_agreement :: "string set \<Rightarrow> string set \<Rightarrow> Agreement" where
  "evidence_agreement ex ac =
     (if ex - ac = {} then Exact else if ex \<inter> ac \<noteq> {} then Partial else Disagree)"

definition citation_agreement :: "int \<Rightarrow> int \<Rightarrow> Agreement" where
  "citation_agreement minimum unique =
     (if unique \<ge> minimum then Exact else if unique \<noteq> 0 then Partial else Disagree)"

definition compare_entries :: "ShadowCase \<Rightarrow> ShadowActualOutcome \<Rightarrow> ShadowDiffEntry list" where
  "compare_entries c a =
     (let reference = reference_outcome c; escalation = reference_escalation c;
          required = map tool_value (required_tools (minimum_evidence c));
          minimum = minimum_unique_citations (minimum_evidence c);
          unique = int (card (set (act_citation_ids a)))
      in [diff_entry ''state'' (JStr (expected_state_value (expected_state reference)))
            (JStr (act_state a)) ''outcome_state'' None,
          diff_entry ''escalated'' (JBool (esc_expected escalation)) (JBool (act_escalated a))
            ''escalation'' None,
          diff_entry ''escalation_code'' (opt_dump JStr (esc_code escalation))
            (opt_dump JStr (act_escalation_code a)) ''escalation'' None,
          diff_entry ''root_cause_statement'' (opt_dump JStr (ref_root_cause_statement reference))
            (opt_dump JStr (act_root_cause_statement a)) ''root_cause'' None,
          diff_entry ''recommendation_action_type''
            (opt_dump (JStr \<circ> action_type_value) (ref_action_type reference))
            (opt_dump JStr (act_action_type a)) ''recommendation'' None,
          diff_entry ''confidence'' (opt_dump (JStr \<circ> confidence_value) (ref_confidence reference))
            (opt_dump JStr (act_confidence a)) ''confidence'' None,
          diff_entry ''schema_valid'' (JBool True) (JBool (act_schema_valid a)) ''schema'' None,
          diff_entry ''required_evidence_tools'' (JList (map JStr (sorted_texts required)))
            (JList (map JStr (sorted_texts (act_evidence_tools a)))) ''evidence_coverage''
            (Some (evidence_agreement (set required) (set (act_evidence_tools a)))),
          diff_entry ''minimum_unique_citations'' (JInt minimum) (JInt unique) ''citation_coverage''
            (Some (citation_agreement minimum unique)),
          diff_entry ''unsupported_citation_count'' (JInt 0)
            (JInt (act_unsupported_citation_count a)) ''unsupported_claim'' None,
          diff_entry ''external_action_count'' (JInt 0) (JInt 0) ''execute_false_control'' None])"

definition compare :: "ShadowCase \<Rightarrow> ShadowActualOutcome \<Rightarrow> ShadowComparison result" where
  "compare c a =
     (let required = map tool_value (required_tools (minimum_evidence c));
          covered = set required \<inter> set (act_evidence_tools a);
          coverage = (if required \<noteq> [] then
                        fl (of_nat (card covered) / of_nat (card (set required))) else 1);
          es = compare_entries c a;
          disagreements = sorted_texts (map de_category (filter (\<lambda>e. agreement e \<noteq> Exact) es))
      in case missing_required_count required (act_evidence_tools a) of
           Inl e \<Rightarrow> Inl e
         | Inr missing \<Rightarrow> Inr \<lparr>exact_agreement = (disagreements = []), entries = es,
             disagreement_categories = disagreements,
             cmp_unsupported_citation_count = act_unsupported_citation_count a,
             cmp_missing_required_count = missing, cmp_citation_coverage = coverage\<rparr>)"

end
