(* ===== verification/ShadowRepository.thy ===== *)
theory ShadowRepository
  imports ShadowContracts
begin

section \<open>Shadow runs (\<^verbatim>\<open>shadow/repository.py\<close>, migrations \<^verbatim>\<open>0004\<close> and \<^verbatim>\<open>0005\<close>)\<close>

text \<open>
  The tables \<^verbatim>\<open>shadow_run\<close>, \<^verbatim>\<open>shadow_diff\<close> and \<^verbatim>\<open>shadow_control_event\<close>, and the
  session-level advisory locks a claim holds. \<open>begin_or_observe\<close> runs with autocommit, so the
  event of a rejected request stays although the call raises. It waits for its locks first: the
  operation is what happens once they are free, and \<open>locks_free\<close> says when that is. A claim is
  the list of the keys it holds. Whether an investigation run exists is a fact of another table,
  and so an argument (\<open>known\<close>) of the completion. A fresh \<^verbatim>\<open>uuid4\<close> is an argument.
\<close>

subsection \<open>Tables\<close>

datatype ShadowStatus = Sh_started | Sh_completed | Sh_escalated

record ShadowRunRecord =
  shadow_run_id :: string
  sr_tenant_id :: string
  sr_idempotency_key :: string
  sr_payload_hash :: string
  sr_case_id :: string
  sr_case_version :: string
  sr_case_pack_version :: string
  sr_processor_version :: string
  sr_prompt_version :: string
  sr_provenance_label :: ProvenanceLabel
  sr_baseline_source :: BaselineSource
  shr_status :: ShadowStatus
  sr_investigation_run_id :: "string option"
  sr_provider_label :: "string option"
  sr_output :: "ShadowActualOutcome option"
  sr_diff :: "ShadowComparison option"
  sr_output_hash :: "string option"
  sr_diff_hash :: "string option"
  sr_created_by :: string
  sr_created_at :: int
  sr_completed_at :: "int option"

record ShadowDiffRow =
  sd_run_id :: string
  sd_tenant_id :: string
  sd_entry :: ShadowDiffEntry
  sd_created_at :: int

record ShadowEvent =
  sc_run_id :: string
  sc_tenant_id :: string
  sc_event_type :: string
  sc_actor_id :: string
  sc_payload :: json
  sc_occurred_at :: int

record shadow_db =
  shadow_runs :: "ShadowRunRecord list"
  shadow_diffs :: "ShadowDiffRow list"
  shadow_events :: "ShadowEvent list"
  shadow_locks :: "int list"

definition provenance_consistent :: "ProvenanceLabel \<Rightarrow> BaselineSource \<Rightarrow> bool" where
  "provenance_consistent pl bs \<longleftrightarrow>
     pl = Simulated_case \<and> bs = Controlled_synthetic_reference
     \<or> pl = Genuine_uat \<and> bs = Analyst_reference"

definition shadow_run_checks :: "ShadowRunRecord \<Rightarrow> bool" where
  "shadow_run_checks r \<longleftrightarrow>
     bounded_text 1 200 (sr_idempotency_key r) \<and> is_hex64 (sr_payload_hash r) \<and> sr_case_id r \<noteq> []
     \<and> sr_case_version r \<noteq> [] \<and> sr_case_pack_version r \<noteq> [] \<and> sr_processor_version r \<noteq> []
     \<and> sr_prompt_version r \<noteq> []
     \<and> (case sr_output_hash r of None \<Rightarrow> True | Some h \<Rightarrow> is_hex64 h)
     \<and> (case sr_diff_hash r of None \<Rightarrow> True | Some h \<Rightarrow> is_hex64 h)
     \<and> (case sr_output r of None \<Rightarrow> True
        | Some a \<Rightarrow> 0 \<le> act_latency_ms a
            \<and> (case act_estimated_cost_usd a of None \<Rightarrow> True | Some x \<Rightarrow> 0 \<le> x)
            \<and> act_cost_evidence_label a \<in> {''SIMULATED'', ''UNMEASURED''})
     \<and> provenance_consistent (sr_provenance_label r) (sr_baseline_source r)"

text \<open>The unique keys of the table.\<close>

definition same_key :: "ShadowRunRecord \<Rightarrow> ShadowRunRecord \<Rightarrow> bool" where
  "same_key r x \<longleftrightarrow> sr_tenant_id x = sr_tenant_id r \<and> sr_idempotency_key x = sr_idempotency_key r"

definition same_case :: "ShadowRunRecord \<Rightarrow> ShadowRunRecord \<Rightarrow> bool" where
  "same_case r x \<longleftrightarrow> sr_tenant_id x = sr_tenant_id r \<and> sr_case_id x = sr_case_id r
     \<and> sr_case_version x = sr_case_version r \<and> sr_processor_version x = sr_processor_version r"

definition shadow_refused :: "(shadow_db, 'a) comp" where
  "shadow_refused = raiseE (DatabaseError ''constraint violation'')"

definition insert_shadow_event ::
  "ShadowRunRecord \<Rightarrow> string \<Rightarrow> string \<Rightarrow> json \<Rightarrow> int \<Rightarrow> shadow_db \<Rightarrow> shadow_db"
where
  "insert_shadow_event r actor etype pl now d = d\<lparr>shadow_events := shadow_events d @
     [\<lparr>sc_run_id = shadow_run_id r, sc_tenant_id = sr_tenant_id r, sc_event_type = etype,
       sc_actor_id = actor, sc_payload = pl, sc_occurred_at = now\<rparr>]\<rparr>"

subsection \<open>Locks\<close>

definition shadow_keys :: "string \<Rightarrow> string \<Rightarrow> string \<Rightarrow> string \<Rightarrow> string \<Rightarrow> int list" where
  "shadow_keys tenant key cid cver processor =
     sort (remdups
       [lock_key (''shadow:idempotency:'' @ tenant @ '':'' @ key),
        lock_key (''shadow:case:'' @ tenant @ '':'' @ cid @ '':'' @ cver @ '':'' @ processor)])"

definition locks_free :: "int list \<Rightarrow> shadow_db \<Rightarrow> bool" where
  "locks_free keys d \<longleftrightarrow> set keys \<inter> set (shadow_locks d) = {}"

type_synonym ShadowClaim = "int list"

text \<open>A session holds each key once, so releasing a claim removes one occurrence of each.\<close>

definition release_shadow :: "ShadowClaim \<Rightarrow> shadow_db \<Rightarrow> shadow_db" where
  "release_shadow keys d = d\<lparr>shadow_locks := fold remove1 (rev keys) (shadow_locks d)\<rparr>"

subsection \<open>Beginning\<close>

definition new_shadow_run ::
  "Principal \<Rightarrow> string \<Rightarrow> string \<Rightarrow> string \<Rightarrow> string \<Rightarrow> string \<Rightarrow> string \<Rightarrow> string \<Rightarrow> ProvenanceLabel
   \<Rightarrow> BaselineSource \<Rightarrow> int \<Rightarrow> string \<Rightarrow> ShadowRunRecord"
where
  "new_shadow_run p key phash cid cver pack processor prompt pl bs now uuid =
     \<lparr>shadow_run_id = uuid, sr_tenant_id = principal_tenant p, sr_idempotency_key = key,
      sr_payload_hash = phash, sr_case_id = cid, sr_case_version = cver, sr_case_pack_version = pack,
      sr_processor_version = processor, sr_prompt_version = prompt, sr_provenance_label = pl,
      sr_baseline_source = bs, shr_status = Sh_started, sr_investigation_run_id = None,
      sr_provider_label = None, sr_output = None, sr_diff = None, sr_output_hash = None,
      sr_diff_hash = None, sr_created_by = actor_id p, sr_created_at = now, sr_completed_at = None\<rparr>"

definition insert_shadow_run :: "ShadowRunRecord \<Rightarrow> (shadow_db, unit) comp" where
  "insert_shadow_run r d =
     (if \<not> shadow_run_checks r
         \<or> (\<exists>x \<in> set (shadow_runs d). same_key r x \<or> same_case r x \<or> shadow_run_id x = shadow_run_id r)
      then shadow_refused d
      else returnE () (d\<lparr>shadow_runs := shadow_runs d @ [r]\<rparr>))"

definition shadow_matches :: "ShadowRunRecord \<Rightarrow> ShadowRunRecord \<Rightarrow> bool" where
  "shadow_matches r x \<longleftrightarrow> same_key r x \<or> same_case r x"

definition observe_shadow ::
  "Principal \<Rightarrow> string \<Rightarrow> int \<Rightarrow> ShadowClaim \<Rightarrow> ShadowRunRecord
   \<Rightarrow> (shadow_db, ShadowRunRecord \<times> ShadowClaim option \<times> bool) comp"
where
  "observe_shadow p phash now keys run d =
     (if sr_payload_hash run \<noteq> phash then
        raiseE (ConflictError ''SHADOW_IDEMPOTENCY_CONFLICT''
                  ''Shadow identity was already used with a different payload'')
          (insert_shadow_event run (actor_id p) ''shadow_request_rejected''
             (JObj [(''code'', JStr ''SHADOW_IDEMPOTENCY_CONFLICT'')]) now d)
      else if shr_status run \<noteq> Sh_started then returnE (run, None, False) d
      else returnE (run, Some keys, False) (d\<lparr>shadow_locks := keys @ shadow_locks d\<rparr>))"

definition begin_or_observe ::
  "Principal \<Rightarrow> string \<Rightarrow> string \<Rightarrow> string \<Rightarrow> string \<Rightarrow> string \<Rightarrow> string \<Rightarrow> string \<Rightarrow> ProvenanceLabel
   \<Rightarrow> BaselineSource \<Rightarrow> int \<Rightarrow> string \<Rightarrow> (shadow_db, ShadowRunRecord \<times> ShadowClaim option \<times> bool) comp"
where
  "begin_or_observe p key phash cid cver pack processor prompt pl bs now uuid d =
     (let r = new_shadow_run p key phash cid cver pack processor prompt pl bs now uuid;
          keys = shadow_keys (principal_tenant p) key cid cver processor
      in case filter (shadow_matches r) (shadow_runs d) of
           [] \<Rightarrow>
             bindE (insert_shadow_run r) (\<lambda>_ d.
               returnE (r, Some keys, True)
                 (insert_shadow_event r (actor_id p) ''shadow_run_started''
                   (JObj [(''execute'', JBool False), (''external_action_count'', JInt 0)]) now
                   (d\<lparr>shadow_locks := keys @ shadow_locks d\<rparr>))) d
         | [run] \<Rightarrow> observe_shadow p phash now keys run d
         | _ \<Rightarrow> raiseE (ConflictError ''SHADOW_IDENTITY_CONFLICT''
                  ''Idempotency key and case identity resolve to different shadow runs'') d)"

subsection \<open>Completing\<close>

definition finished ::
  "ShadowStatus \<Rightarrow> string \<Rightarrow> ShadowActualOutcome \<Rightarrow> ShadowComparison \<Rightarrow> string \<Rightarrow> string \<Rightarrow> int
   \<Rightarrow> ShadowRunRecord \<Rightarrow> ShadowRunRecord"
where
  "finished st rid a c ohash dhash now r =
     r\<lparr>shr_status := st, sr_investigation_run_id := Some rid,
       sr_provider_label := Some (act_provider_label a), sr_output := Some a, sr_diff := Some c,
       sr_output_hash := Some ohash, sr_diff_hash := Some dhash, sr_completed_at := Some now\<rparr>"

definition startable :: "Principal \<Rightarrow> ShadowRunRecord \<Rightarrow> ShadowRunRecord \<Rightarrow> bool" where
  "startable p run x \<longleftrightarrow> shadow_run_id x = shadow_run_id run \<and> sr_tenant_id x = principal_tenant p
     \<and> shr_status x = Sh_started"

definition diff_rows :: "ShadowRunRecord \<Rightarrow> Principal \<Rightarrow> ShadowComparison \<Rightarrow> int \<Rightarrow> ShadowDiffRow list" where
  "diff_rows run p c now =
     map (\<lambda>e. \<lparr>sd_run_id = shadow_run_id run, sd_tenant_id = principal_tenant p, sd_entry = e,
               sd_created_at = now\<rparr>) (entries c)"

definition diff_rows_ok :: "shadow_db \<Rightarrow> ShadowDiffRow list \<Rightarrow> bool" where
  "diff_rows_ok d new \<longleftrightarrow>
     (\<forall>x \<in> set new. field_name (sd_entry x) \<noteq> [] \<and> de_category (sd_entry x) \<noteq> [])
     \<and> distinct (map (\<lambda>x. (sd_run_id x, field_name (sd_entry x))) (shadow_diffs d @ new))"

definition complete_shadow ::
  "(string \<Rightarrow> string \<Rightarrow> bool) \<Rightarrow> Principal \<Rightarrow> ShadowRunRecord \<Rightarrow> string \<Rightarrow> ShadowActualOutcome
   \<Rightarrow> ShadowComparison \<Rightarrow> string \<Rightarrow> string \<Rightarrow> int \<Rightarrow> (shadow_db, ShadowRunRecord) comp"
where
  "complete_shadow known p run rid a c ohash dhash now d =
     (let st = (if act_escalated a then Sh_escalated else Sh_completed);
          f = finished st rid a c ohash dhash now;
          new = diff_rows run p c now
      in case select_one (startable p run) (shadow_runs d) of
           None \<Rightarrow> raiseE (ConflictError ''SHADOW_COMPLETION_CONFLICT'' ''Shadow run is no longer startable'') d
         | Some x \<Rightarrow>
             if \<not> shadow_run_checks (f x) \<or> \<not> known rid (sr_tenant_id x) \<or> \<not> diff_rows_ok d new
             then shadow_refused d
             else returnE (f x)
               (insert_shadow_event (f x) (actor_id p) ''shadow_run_completed''
                 (JObj [(''status'', JStr (if act_escalated a then ''escalated'' else ''completed'')),
                        (''execute'', JBool False), (''external_action_count'', JInt 0),
                        (''output_hash'', JStr ohash), (''diff_hash'', JStr dhash)]) now
                 (d\<lparr>shadow_runs := update_where (startable p run) f (shadow_runs d),
                    shadow_diffs := shadow_diffs d @ new\<rparr>)))"

subsection \<open>Reads\<close>

definition shadow_visible :: "Principal \<Rightarrow> string \<Rightarrow> ShadowRunRecord \<Rightarrow> bool" where
  "shadow_visible p sid r \<longleftrightarrow> shadow_run_id r = sid \<and> sr_tenant_id r = principal_tenant p"

definition get_shadow :: "Principal \<Rightarrow> string \<Rightarrow> (shadow_db, ShadowRunRecord) comp" where
  "get_shadow p sid d =
     (case select_one (shadow_visible p sid) (shadow_runs d) of
        None \<Rightarrow> raiseE NotFoundError d | Some r \<Rightarrow> returnE r d)"

definition shadow_events_of :: "Principal \<Rightarrow> string \<Rightarrow> (shadow_db, ShadowEvent list) comp" where
  "shadow_events_of p sid =
     bindE (get_shadow p sid) (\<lambda>_ d.
       returnE (filter (\<lambda>e. sc_run_id e = sid \<and> sc_tenant_id e = principal_tenant p) (shadow_events d)) d)"

end
