(* ===== verification/ShadowService.thy ===== *)
theory ShadowService
  imports ShadowRepository InvestigationService
begin

section \<open>The shadow processor (\<^verbatim>\<open>shadow/service.py\<close>)\<close>

text \<open>
  A shadow case is processed by the investigation service in shadow mode; what came out is
  compared with the reference and stored once. The world is that of the investigation service
  beside the shadow tables; the environment adds the processor's clock, and what other callers do
  to the shadow tables before each call (for the beginning: until its locks are free).
  The result is \<open>None\<close> when the fuel of the investigation runs out.
\<close>

definition PROCESSOR_VERSION :: string where "PROCESSOR_VERSION = ''m2-shadow-processor-v1.1''"
definition PROMPT_VERSION :: string where "PROMPT_VERSION = ''m1-bounded-reasoning-v1''"
definition TOOL_SCHEMA_VERSION :: string where "TOOL_SCHEMA_VERSION = ''v1''"

record shadow_world =
  sw_world :: world
  sw_db :: shadow_db
  sw_clock_reads :: nat
  sw_calls :: nat

record shadow_env =
  se_service :: env
  se_fuel :: nat
  se_clock :: "nat \<Rightarrow> int"
  se_others :: "nat \<Rightarrow> shadow_db \<Rightarrow> shadow_db"

definition shadow_clock :: "shadow_env \<Rightarrow> (shadow_world, int) comp" where
  "shadow_clock env w =
     returnE (se_clock env (sw_clock_reads w)) (w\<lparr>sw_clock_reads := Suc (sw_clock_reads w)\<rparr>)"

definition call_service :: "(world, 'a) comp \<Rightarrow> (shadow_world, 'a) comp" where
  "call_service m w = (case m (sw_world w) of (r, w') \<Rightarrow> (r, w\<lparr>sw_world := w'\<rparr>))"

definition call_shadow :: "shadow_env \<Rightarrow> (shadow_db, 'a) comp \<Rightarrow> (shadow_world, 'a) comp" where
  "call_shadow env m w =
     (case m (se_others env (sw_calls w) (sw_db w)) of
        (r, d) \<Rightarrow> (r, w\<lparr>sw_db := d, sw_calls := Suc (sw_calls w)\<rparr>))"

subsection \<open>Results\<close>

record ShadowResult =
  res_shadow_run_id :: string
  res_investigation_run_id :: string
  res_case_id :: string
  res_case_version :: string
  res_case_pack_version :: string
  res_tenant_id :: string
  res_processor_version :: string
  res_prompt_version :: string
  res_provenance_label :: ProvenanceLabel
  res_baseline_source :: BaselineSource
  res_output_hash :: string
  res_diff_hash :: string
  res_actual :: ShadowActualOutcome
  res_comparison :: ShadowComparison
  res_idempotent_replay :: bool

definition result_from_record :: "ShadowRunRecord \<Rightarrow> bool \<Rightarrow> ShadowResult result" where
  "result_from_record run replay1 =
     (case (sr_investigation_run_id run, sr_output run, sr_diff run, sr_output_hash run, sr_diff_hash run) of
        (Some rid, Some a, Some c, Some oh, Some dh) \<Rightarrow>
          Inr \<lparr>res_shadow_run_id = shadow_run_id run, res_investigation_run_id = rid,
               res_case_id = sr_case_id run, res_case_version = sr_case_version run,
               res_case_pack_version = sr_case_pack_version run, res_tenant_id = sr_tenant_id run,
               res_processor_version = sr_processor_version run,
               res_prompt_version = sr_prompt_version run,
               res_provenance_label = sr_provenance_label run,
               res_baseline_source = sr_baseline_source run, res_output_hash = oh,
               res_diff_hash = dh, res_actual = a, res_comparison = c,
               res_idempotent_replay = replay1\<rparr>
      | _ \<Rightarrow> Inl (RuntimeError ''Completed shadow record is missing its persisted result''))"

subsection \<open>The actual outcome\<close>

definition text_of :: "string \<Rightarrow> json \<Rightarrow> string" where
  "text_of k j = (case get as_str k j of None \<Rightarrow> [] | Some s \<Rightarrow> s)"

text \<open>The draft's fields; a draft that does not validate, or cites the unknown, has none.\<close>

record DraftReading =
  dr_valid :: bool
  dr_statement :: "string option"
  dr_action_type :: "string option"
  dr_confidence :: "string option"
  dr_citations :: "string list"

definition no_reading :: "bool \<Rightarrow> DraftReading" where
  "no_reading ok = \<lparr>dr_valid = ok, dr_statement = None, dr_action_type = None, dr_confidence = None,
     dr_citations = []\<rparr>"

definition read_draft :: "json option \<Rightarrow> string set \<Rightarrow> DraftReading" where
  "read_draft draft1 ids =
     (case draft1 of
        None \<Rightarrow> no_reading True
      | Some j \<Rightarrow>
          (case model_validate j of
             Inl _ \<Rightarrow> no_reading False
           | Inr r \<Rightarrow>
               (case validate_citations r ids of
                  Inl _ \<Rightarrow> no_reading False
                | Inr _ \<Rightarrow>
                    \<lparr>dr_valid = True, dr_statement = Some (statement (root_cause_hypothesis r)),
                     dr_action_type = Some (action_type_value (action_type (recommendation_draft r))),
                     dr_confidence = Some (confidence_value (confidence (root_cause_hypothesis r))),
                     dr_citations = rc_citations (root_cause_hypothesis r)
                       @ rd_citations (recommendation_draft r)\<rparr>)))"

definition escalation_code_of :: "WorkflowEvent list \<Rightarrow> string option" where
  "escalation_code_of es =
     (case select_last (\<lambda>e. event_type e = ''run_escalated'') es of
        None \<Rightarrow> None | Some e \<Rightarrow> get as_str ''code'' (payload e))"

definition coverage_of :: "string list \<Rightarrow> string set \<Rightarrow> rat" where
  "coverage_of cited ids =
     (if ids \<noteq> {} then fl (of_nat (card (set cited \<inter> ids)) / of_nat (card ids)) else 0)"

definition actual_of ::
  "ShadowCase \<Rightarrow> RunDetail \<Rightarrow> AuditReport \<Rightarrow> ToolRow option \<Rightarrow> ShadowActualOutcome result"
where
  "actual_of c det aud invocation =
     (let evidence_ids = map (text_of ''evidence_id'') (det_evidence det);
          tools = map (text_of ''tool'') (det_evidence det);
          ids = set evidence_ids;
          reading = read_draft (draft_json (det_run det)) ids;
          md = (case invocation of None \<Rightarrow> JObj [] | Some row \<Rightarrow> metadata_json row);
          escalated = (state (det_run det) = ESCALATED)
      in and_then (missing_required_count (map tool_value (required_tools (minimum_evidence c))) tools) (\<lambda>missing.
         let a = \<lparr>act_state = state_value (state (det_run det)), act_escalated = escalated,
                 act_escalation_code = (if escalated then escalation_code_of (rep_events aud) else None),
                 act_root_cause_statement = dr_statement reading,
                 act_action_type = dr_action_type reading, act_confidence = dr_confidence reading,
                 act_evidence_tools = tools, act_evidence_ids = evidence_ids,
                 act_citation_ids = dr_citations reading,
                 act_unsupported_citation_count = int (card (set (dr_citations reading) - ids)),
                 act_missing_required_count = missing,
                 act_citation_coverage = coverage_of (dr_citations reading) ids,
                 act_schema_valid = dr_valid reading, act_reasoning_invoked = (invocation \<noteq> None),
                 act_provider_label = (case get as_str ''model_id'' md of None \<Rightarrow> ''not-invoked'' | Some m \<Rightarrow> m),
                 act_latency_ms = (case get as_float ''latency_ms'' md of None \<Rightarrow> 0 | Some x \<Rightarrow> x),
                 act_estimated_cost_usd = get as_float ''estimated_cost_usd'' md,
                 act_cost_evidence_label = (if invocation \<noteq> None then ''SIMULATED'' else ''UNMEASURED'')\<rparr>
         in if valid_actual a then Inr a else Inl PydanticValidationError))"

definition actual_outcome :: "env \<Rightarrow> Principal \<Rightarrow> string \<Rightarrow> ShadowCase \<Rightarrow> (world, ShadowActualOutcome) comp" where
  "actual_outcome env p rid c =
     bindE (InvestigationService.detail env p rid) (\<lambda>det.
     bindE (InvestigationService.audit env p rid) (\<lambda>aud.
     bindE (call_repo env (read_reasoning p rid)) (\<lambda>invocation.
       liftE (actual_of c det aud invocation))))"

subsection \<open>Processing\<close>

definition shadow_payload_hash :: "ShadowCase \<Rightarrow> string \<Rightarrow> string" where
  "shadow_payload_hash c pack = canonical_hash (JObj
     [(''case'', case_dump c), (''case_pack_version'', JStr pack),
      (''processor_version'', JStr PROCESSOR_VERSION), (''prompt_version'', JStr PROMPT_VERSION),
      (''tool_schema_version'', JStr TOOL_SCHEMA_VERSION), (''execute'', JBool False)])"

definition known_runs :: "shadow_world \<Rightarrow> string \<Rightarrow> string \<Rightarrow> bool" where
  "known_runs w rid tenant \<longleftrightarrow>
     list_ex (\<lambda>r. run_id r = rid \<and> tenant_id r = tenant) (runs (db (sw_world w)))"

text \<open>The body of \<^verbatim>\<open>with claim:\<close>.\<close>

definition process_claimed ::
  "shadow_env \<Rightarrow> Principal \<Rightarrow> ShadowCase \<Rightarrow> ShadowRunRecord \<Rightarrow> string
   \<Rightarrow> (shadow_world, ShadowRunRecord option) comp"
where
  "process_claimed env p c run uuid =
     bindE (call_service (intake (se_service env) (se_fuel env) p (case_input c)
              (''shadow:'' @ shadow_run_id run) Shadow uuid)) (\<lambda>(investigation, _).
       case investigation of
         None \<Rightarrow> returnE None
       | Some irun \<Rightarrow>
           bindE (call_service (actual_outcome (se_service env) p (run_id irun) c)) (\<lambda>a.
           bindE (liftE (compare c a)) (\<lambda>cmp.
             if act_missing_required_count a \<noteq> cmp_missing_required_count cmp then
               raiseE (RuntimeError ''Canonical missing-required-evidence counts diverged between actual and comparison'')
             else
               bindE (shadow_clock env) (\<lambda>now w.
               bindE (call_shadow env (complete_shadow (known_runs w) p run (run_id irun) a cmp
                        (canonical_hash (actual_dump a)) (canonical_hash (comparison_dump cmp)) now))
                 (\<lambda>completed. returnE (Some completed)) w))))"

definition release_after :: "ShadowClaim \<Rightarrow> shadow_world \<Rightarrow> shadow_world" where
  "release_after keys w = w\<lparr>sw_db := release_shadow keys (sw_db w)\<rparr>"

definition process_case ::
  "shadow_env \<Rightarrow> Principal \<Rightarrow> ShadowCase \<Rightarrow> string \<Rightarrow> string \<Rightarrow> bool \<Rightarrow> string \<Rightarrow> string
   \<Rightarrow> (shadow_world, ShadowResult option) comp"
where
  "process_case env p c pack key execute uuid run_uuid =
     (if execute then
        raiseE (ValidationError ''SHADOW_EXECUTION_FORBIDDEN''
          ''M2 shadow processing is permanently hard-locked to execute=false'')
      else if principal_tenant p \<noteq> case_tenant_id c then raiseE NotFoundError
      else if \<not> has_role p ''operator'' then
        raiseE (AuthorizationError ''Shadow processing requires the simulated operator role'')
      else if key = [] \<or> 200 < length key then
        raiseE (ValidationError ''INVALID_IDEMPOTENCY_KEY'' ''Idempotency key must contain 1-200 characters'')
      else if manifest_version (se_service env) \<noteq> pack then
        raiseE (ValidationError ''SHADOW_CASE_PACK_MISMATCH''
          ''Runtime evidence provenance must use the verified shadow case-pack version'')
      else
        bindE (shadow_clock env) (\<lambda>now.
        bindE (call_shadow env (begin_or_observe p key (shadow_payload_hash c pack) (case_id c)
                 (case_version c) pack PROCESSOR_VERSION PROMPT_VERSION (provenance_label c)
                 (baseline_source c) now uuid)) (\<lambda>(run, claim, _).
          case claim of
            None \<Rightarrow> bindE (liftE (result_from_record run True)) (\<lambda>r. returnE (Some r))
          | Some keys \<Rightarrow>
              bindE (finallyE (process_claimed env p c run run_uuid) (release_after keys)) (\<lambda>done1.
                case done1 of
                  None \<Rightarrow> returnE None
                | Some completed \<Rightarrow> bindE (liftE (result_from_record completed False)) (\<lambda>r. returnE (Some r))))))"

end
