(* ===== verification/ShadowHistory.thy ===== *)
theory ShadowHistory
  imports ShadowRepository
begin

section \<open>Invariants of the shadow tables\<close>

text \<open>
  The operations on the shadow tables, with whatever arguments; the invariant each keeps; and the
  order in which the tables only grow: a run keeps its identity, and once terminal it is never
  touched again. A beginning that finds its locks held waits: the step leaves the tables alone.
\<close>

datatype shadow_op =
    ShBegin Principal string string string string string string string ProvenanceLabel BaselineSource int string
  | ShComplete "string \<Rightarrow> string \<Rightarrow> bool" Principal ShadowRunRecord string ShadowActualOutcome
      ShadowComparison string string int
  | ShRelease ShadowClaim

fun shadow_step :: "shadow_op \<Rightarrow> shadow_db \<Rightarrow> shadow_db" where
  "shadow_step (ShBegin p key phash cid cver pack processor prompt pl bs now uuid) d =
     (if locks_free (shadow_keys (principal_tenant p) key cid cver processor) d
      then snd (begin_or_observe p key phash cid cver pack processor prompt pl bs now uuid d) else d)"
| "shadow_step (ShComplete known p run rid a c oh dh now) d =
     snd (complete_shadow known p run rid a c oh dh now d)"
| "shadow_step (ShRelease keys) d = release_shadow keys d"

subsection \<open>The invariant\<close>

definition diffs_of :: "shadow_db \<Rightarrow> string \<Rightarrow> ShadowDiffEntry list" where
  "diffs_of d sid = map sd_entry (filter (\<lambda>x. sd_run_id x = sid) (shadow_diffs d))"

definition result_ok :: "shadow_db \<Rightarrow> ShadowRunRecord \<Rightarrow> bool" where
  "result_ok d r \<longleftrightarrow>
     (if shr_status r = Sh_started then
        sr_investigation_run_id r = None \<and> sr_output r = None \<and> sr_diff r = None
        \<and> sr_output_hash r = None \<and> sr_diff_hash r = None \<and> sr_completed_at r = None
        \<and> diffs_of d (shadow_run_id r) = []
      else (\<exists>rid a c oh dh t. sr_investigation_run_id r = Some rid \<and> sr_output r = Some a
        \<and> sr_diff r = Some c \<and> sr_output_hash r = Some oh \<and> sr_diff_hash r = Some dh
        \<and> sr_completed_at r = Some t \<and> diffs_of d (shadow_run_id r) = entries c
        \<and> shr_status r = (if act_escalated a then Sh_escalated else Sh_completed)))"

definition shadow_keyed :: "shadow_db \<Rightarrow> bool" where
  "shadow_keyed d \<longleftrightarrow> keyed shadow_run_id (shadow_runs d)
     \<and> keyed (\<lambda>r. (sr_tenant_id r, sr_idempotency_key r)) (shadow_runs d)
     \<and> keyed (\<lambda>r. (sr_tenant_id r, sr_case_id r, sr_case_version r, sr_processor_version r)) (shadow_runs d)"

definition shadow_inv :: "shadow_db \<Rightarrow> bool" where
  "shadow_inv d \<longleftrightarrow> shadow_keyed d \<and> distinct (shadow_locks d)
     \<and> (\<forall>r \<in> set (shadow_runs d). shadow_run_checks r \<and> result_ok d r)
     \<and> (\<forall>x \<in> set (shadow_diffs d). sd_run_id x \<in> shadow_run_id ` set (shadow_runs d))"

lemma shadow_unique:
  assumes "shadow_keyed d" and "x \<in> set (shadow_runs d)" "y \<in> set (shadow_runs d)"
  shows "shadow_run_id x = shadow_run_id y \<longleftrightarrow> x = y" and "same_key x y \<longleftrightarrow> x = y" and "same_case x y \<longleftrightarrow> x = y"
  using assms
  by (auto simp: shadow_keyed_def same_key_def same_case_def distinct_map inj_on_def)

definition shadow_identity :: "ShadowRunRecord \<Rightarrow> ShadowRunRecord \<Rightarrow> bool" where
  "shadow_identity r r' \<longleftrightarrow> shadow_run_id r' = shadow_run_id r \<and> sr_tenant_id r' = sr_tenant_id r
     \<and> sr_idempotency_key r' = sr_idempotency_key r \<and> sr_payload_hash r' = sr_payload_hash r
     \<and> sr_case_id r' = sr_case_id r \<and> sr_case_version r' = sr_case_version r
     \<and> sr_case_pack_version r' = sr_case_pack_version r
     \<and> sr_processor_version r' = sr_processor_version r \<and> sr_prompt_version r' = sr_prompt_version r
     \<and> sr_provenance_label r' = sr_provenance_label r \<and> sr_baseline_source r' = sr_baseline_source r
     \<and> sr_created_by r' = sr_created_by r \<and> sr_created_at r' = sr_created_at r"

definition row_moves :: "ShadowRunRecord \<Rightarrow> ShadowRunRecord \<Rightarrow> bool" where
  "row_moves r r' \<longleftrightarrow> shadow_identity r r' \<and> (shr_status r \<noteq> Sh_started \<longrightarrow> r' = r)"

lemma shadow_identity_refl [simp]: "shadow_identity r r"
  by (simp add: shadow_identity_def)

lemma finished_simps [simp]:
  "shr_status (finished st rid a c oh dh now r) = st"
  "sr_investigation_run_id (finished st rid a c oh dh now r) = Some rid"
  "sr_output (finished st rid a c oh dh now r) = Some a"
  "sr_diff (finished st rid a c oh dh now r) = Some c"
  "sr_output_hash (finished st rid a c oh dh now r) = Some oh"
  "sr_diff_hash (finished st rid a c oh dh now r) = Some dh"
  "sr_completed_at (finished st rid a c oh dh now r) = Some now"
  "shadow_identity r (finished st rid a c oh dh now r)"
  "shadow_run_id (finished st rid a c oh dh now r) = shadow_run_id r"
  "sr_tenant_id (finished st rid a c oh dh now r) = sr_tenant_id r"
  by (simp_all add: finished_def shadow_identity_def)

text \<open>The outcomes of the three operations.\<close>

lemma begin_cases:
  assumes run: "begin_or_observe p key phash cid cver pack processor prompt pl bs now uuid d = (res, d')"
  defines "r \<equiv> new_shadow_run p key phash cid cver pack processor prompt pl bs now uuid"
  defines "keys \<equiv> shadow_keys (principal_tenant p) key cid cver processor"
  obtains (refused) e where "res = Inl e" and "d' = d \<or> (\<exists>x pl. d' = insert_shadow_event x (actor_id p) ''shadow_request_rejected'' pl now d)"
  | (over) x where "res = Inr (x, None, False)" and "d' = d" and "x \<in> set (shadow_runs d)"
  | (resumed) x where "res = Inr (x, Some keys, False)" and "d' = d\<lparr>shadow_locks := keys @ shadow_locks d\<rparr>"
  | (started) e where "res = Inr (r, Some keys, True)" and "shadow_run_checks r"
    and "\<And>x. x \<in> set (shadow_runs d) \<Longrightarrow> \<not> same_key r x \<and> \<not> same_case r x \<and> shadow_run_id x \<noteq> shadow_run_id r"
    and "d' = d\<lparr>shadow_runs := shadow_runs d @ [r], shadow_locks := keys @ shadow_locks d, shadow_events := e\<rparr>"
proof -
  note r_def [symmetric, simp] keys_def [symmetric, simp]
  consider (none) "filter (shadow_matches r) (shadow_runs d) = []"
    | (one) x where "filter (shadow_matches r) (shadow_runs d) = [x]"
    | (more) x y zs where "filter (shadow_matches r) (shadow_runs d) = x # y # zs"
    by (metis list.exhaust)
  then show thesis
  proof cases
    case none
    show thesis
    proof (cases "\<not> shadow_run_checks r
         \<or> (\<exists>x \<in> set (shadow_runs d). same_key r x \<or> same_case r x \<or> shadow_run_id x = shadow_run_id r)")
      case True
      with run none show thesis
        by (intro refused) (auto simp: begin_or_observe_def Let_def insert_shadow_run_def shadow_refused_def comp_defs)
    next
      case False
      with run none show thesis
        by (intro started) (auto simp: begin_or_observe_def Let_def insert_shadow_run_def insert_shadow_event_def comp_defs)
    qed
  next
    case (one x)
    then have "x \<in> set (filter (shadow_matches r) (shadow_runs d))" by simp
    then have x: "x \<in> set (shadow_runs d)" by simp
    from one run have o: "observe_shadow p phash now keys x d = (res, d')"
      by (simp add: begin_or_observe_def Let_def)
    then show thesis
    proof (cases "sr_payload_hash x \<noteq> phash")
      case True
      with o show thesis by (intro refused) (auto simp: observe_shadow_def raiseE_def)
    next
      case False
      with o x show thesis
        by (cases "shr_status x \<noteq> Sh_started") (auto simp: observe_shadow_def returnE_def intro: over resumed)
    qed
  next
    case (more x y zs)
    with run show thesis by (intro refused) (auto simp: begin_or_observe_def Let_def raiseE_def)
  qed
qed

lemma complete_cases:
  assumes "complete_shadow known p run rid a c oh dh now d = (res, d')"
  defines "f \<equiv> finished (if act_escalated a then Sh_escalated else Sh_completed) rid a c oh dh now"
  obtains (refused) e where "res = Inl e" and "d' = d"
  | (completes) x e where "x \<in> set (shadow_runs d)" and "startable p run x" and "res = Inr (f x)"
    and "shadow_run_checks (f x)" and "known rid (sr_tenant_id x)" and "diff_rows_ok d (diff_rows run p c now)"
    and "d' = d\<lparr>shadow_runs := update_where (startable p run) f (shadow_runs d),
           shadow_diffs := shadow_diffs d @ diff_rows run p c now, shadow_events := e\<rparr>"
proof (cases "select_one (startable p run) (shadow_runs d)")
  case None
  with assms show thesis by (intro refused) (auto simp: complete_shadow_def Let_def raiseE_def)
next
  case (Some x)
  note f_def [symmetric, simp]
  have x: "x \<in> set (shadow_runs d)" "startable p run x" using Some by (auto dest: select_one_SomeD)
  show thesis
  proof (cases "\<not> shadow_run_checks (f x) \<or> \<not> known rid (sr_tenant_id x) \<or> \<not> diff_rows_ok d (diff_rows run p c now)")
    case True
    with assms(1) Some show thesis
      by (intro refused) (auto simp: complete_shadow_def Let_def shadow_refused_def raiseE_def)
  next
    case False
    with assms(1) Some x show thesis
      by (intro completes [of x]) (auto simp: complete_shadow_def Let_def returnE_def insert_shadow_event_def)
  qed
qed

lemma result_ok_cong:
  "shadow_diffs d' = shadow_diffs d \<Longrightarrow> result_ok d' r = result_ok d r"
  by (simp add: result_ok_def diffs_of_def)

lemma shadow_inv_locks:
  assumes "shadow_inv d" and "distinct lk"
  shows "shadow_inv (d\<lparr>shadow_locks := lk\<rparr>)"
proof -
  have "result_ok (d\<lparr>shadow_locks := lk\<rparr>) = result_ok d"
    by (rule ext, rule result_ok_cong) simp
  with assms show ?thesis by (simp add: shadow_inv_def shadow_keyed_def)
qed

lemma distinct_locks:
  "distinct (shadow_locks d) \<Longrightarrow> locks_free keys d \<Longrightarrow> distinct keys \<Longrightarrow> distinct (keys @ shadow_locks d)"
  by (auto simp: locks_free_def)

lemma distinct_release: "distinct (shadow_locks d) \<Longrightarrow> distinct (shadow_locks (release_shadow keys d))"
proof -
  have "distinct (fold remove1 ks xs)" if "distinct xs" for ks xs :: "int list"
    using that by (induction ks arbitrary: xs) (auto intro: distinct_remove1)
  then show "distinct (shadow_locks d) \<Longrightarrow> distinct (shadow_locks (release_shadow keys d))"
    by (simp add: release_shadow_def)
qed

lemma shadow_keys_distinct [simp]: "distinct (shadow_keys tenant key cid cver processor)"
  by (simp add: shadow_keys_def)

lemma begin_inv:
  assumes inv: "shadow_inv d" and run: "begin_or_observe p key phash cid cver pack processor prompt pl bs now uuid d = (res, d')"
    and free: "locks_free (shadow_keys (principal_tenant p) key cid cver processor) d"
  shows "shadow_inv d'"
  using run
proof (cases rule: begin_cases)
  case (refused e)
  have "shadow_runs d' = shadow_runs d" "shadow_diffs d' = shadow_diffs d" "shadow_locks d' = shadow_locks d"
    using refused(2) by (auto simp: insert_shadow_event_def)
  with inv show ?thesis by (simp add: shadow_inv_def shadow_keyed_def result_ok_cong [of d' d])
next
  case (over x)
  with inv show ?thesis by simp
next
  case (resumed x)
  have "distinct (shadow_locks d)" using inv by (simp add: shadow_inv_def)
  from shadow_inv_locks [OF inv distinct_locks [OF this free]] resumed(2) show ?thesis by simp
next
  case (started e)
  let ?r = "new_shadow_run p key phash cid cver pack processor prompt pl bs now uuid"
  have keys: "shadow_keyed d'"
  proof -
    have new: "k ?r \<notin> k ` set (shadow_runs d)" if "\<And>x. k x = k ?r \<Longrightarrow> same_key ?r x \<or> same_case ?r x \<or> shadow_run_id x = shadow_run_id ?r"
      for k :: "ShadowRunRecord \<Rightarrow> 'k"
      using started(3) that by (metis imageE)
    show ?thesis
      using inv new [of shadow_run_id] new [of "\<lambda>r. (sr_tenant_id r, sr_idempotency_key r)"]
        new [of "\<lambda>r. (sr_tenant_id r, sr_case_id r, sr_case_version r, sr_processor_version r)"]
      by (simp add: shadow_inv_def shadow_keyed_def started(4) same_key_def same_case_def)
  qed
  have "diffs_of d (shadow_run_id ?r) = []"
    using inv started(3) by (fastforce simp: shadow_inv_def diffs_of_def filter_empty_conv)
  then have "result_ok d' ?r"
    using result_ok_cong [of d' d ?r] started(4) by (simp add: result_ok_def new_shadow_run_def)
  moreover have "result_ok d' x = result_ok d x" for x
    by (rule result_ok_cong) (simp add: started(4))
  moreover have "distinct (shadow_locks d')"
    using distinct_locks [OF _ free] inv started(4) by (simp add: shadow_inv_def)
  ultimately show ?thesis
    using keys inv started(2) unfolding shadow_inv_def by (auto simp: started(4))
qed

lemma diffs_of_append:
  "diffs_of (d\<lparr>shadow_runs := rs, shadow_diffs := shadow_diffs d @ diff_rows run p c now, shadow_events := e\<rparr>) sid
    = diffs_of d sid @ (if shadow_run_id run = sid then entries c else [])"
  by (simp add: diffs_of_def diff_rows_def filter_map comp_def)

lemma complete_inv:
  assumes inv: "shadow_inv d" and run: "complete_shadow known p run rid a c oh dh now d = (res, d')"
  shows "shadow_inv d'"
  using run
proof (cases rule: complete_cases)
  case (completes x e)
  let ?f = "finished (if act_escalated a then Sh_escalated else Sh_completed) rid a c oh dh now"
  have keyed: "shadow_keyed d" using inv by (simp add: shadow_inv_def)
  have only: "startable p run y \<longleftrightarrow> y = x" if "y \<in> set (shadow_runs d)" for y
    using shadow_unique(1) [OF keyed that completes(1)] completes(2) by (auto simp: startable_def)
  have maps: "map k (update_where (startable p run) ?f (shadow_runs d)) = map k (shadow_runs d)"
    if "\<And>r. k (?f r) = k r" for k :: "ShadowRunRecord \<Rightarrow> 'k"
    by (rule map_update_where) (rule that)
  have "shadow_keyed d'"
    using keyed unfolding shadow_keyed_def completes(7)
    by (simp add: maps finished_def)
  moreover have "shadow_run_checks r \<and> result_ok d' r" if r: "r \<in> set (shadow_runs d')" for r
  proof -
    from r obtain y where y: "y \<in> set (shadow_runs d)" "r = (if startable p run y then ?f y else y)"
      by (auto simp: completes(7) set_update_where)
    show ?thesis
    proof (cases "y = x")
      case True
      have "diffs_of d (shadow_run_id x) = []" "shr_status x = Sh_started" "shadow_run_id run = shadow_run_id x"
        using inv completes(1,2) by (auto simp: shadow_inv_def result_ok_def startable_def)
      then have "result_ok d' (?f x)"
        by (simp add: result_ok_def completes(7) diffs_of_append)
      with True y only completes(4) show ?thesis by simp
    next
      case False
      then have "shadow_run_id run \<noteq> shadow_run_id y"
        using shadow_unique(1) [OF keyed y(1) completes(1)] completes(2) by (auto simp: startable_def)
      then have "diffs_of d' (shadow_run_id y) = diffs_of d (shadow_run_id y)"
        by (simp add: completes(7) diffs_of_append)
      then have "result_ok d' y = result_ok d y" by (simp add: result_ok_def)
      with False y only inv show ?thesis by (simp add: shadow_inv_def)
    qed
  qed
  moreover have "shadow_run_id ` set (shadow_runs d') = shadow_run_id ` set (shadow_runs d)"
    using maps [of shadow_run_id] by (simp add: completes(7) flip: set_map)
  moreover have "shadow_run_id run \<in> shadow_run_id ` set (shadow_runs d)"
  proof (rule image_eqI)
    show "shadow_run_id run = shadow_run_id x" using completes(2) by (simp add: startable_def)
  qed (rule completes(1))
  ultimately show ?thesis
    using inv by (auto simp: shadow_inv_def completes(7) diff_rows_def)
qed (use inv in simp)

lemma shadow_step_inv:
  assumes inv: "shadow_inv d"
  shows "shadow_inv (shadow_step op d)"
proof (cases op)
  case (ShBegin p key phash cid cver pack processor prompt pl bs now uuid)
  obtain res d' where "begin_or_observe p key phash cid cver pack processor prompt pl bs now uuid d = (res, d')" by force
  with ShBegin begin_inv [OF inv this] inv show ?thesis by simp
next
  case (ShComplete known p run rid a c oh dh now)
  obtain res d' where "complete_shadow known p run rid a c oh dh now d = (res, d')" by force
  with ShComplete complete_inv [OF inv this] show ?thesis by simp
next
  case (ShRelease keys)
  have "distinct (shadow_locks (release_shadow keys d))"
    using distinct_release inv by (simp add: shadow_inv_def)
  from shadow_inv_locks [OF inv this] ShRelease show ?thesis by (simp add: release_shadow_def)
qed

subsection \<open>The history only grows\<close>

definition shadow_before :: "shadow_db \<Rightarrow> shadow_db \<Rightarrow> bool" where
  "shadow_before d d' \<longleftrightarrow>
     (\<exists>kept new. shadow_runs d' = kept @ new \<and> list_all2 row_moves (shadow_runs d) kept)
     \<and> (\<exists>ds. shadow_diffs d' = shadow_diffs d @ ds) \<and> (\<exists>es. shadow_events d' = shadow_events d @ es)"

lemma row_moves_refl [simp]: "row_moves r r"
  by (simp add: row_moves_def shadow_identity_def)

lemma row_moves_trans: "row_moves r s \<Longrightarrow> row_moves s t \<Longrightarrow> row_moves r t"
  unfolding row_moves_def shadow_identity_def by auto

lemma shadow_before_refl: "shadow_before d d"
  unfolding shadow_before_def
  by (intro conjI exI [of _ "shadow_runs d"] exI [of _ "[]"]) (simp_all add: list_all2_refl)

lemma shadow_before_trans:
  assumes "shadow_before d e" and "shadow_before e f"
  shows "shadow_before d f"
proof -
  from assms obtain e1 e2 f1 f2 where e: "shadow_runs e = e1 @ e2" "list_all2 row_moves (shadow_runs d) e1"
    and f: "shadow_runs f = f1 @ f2" "list_all2 row_moves (e1 @ e2) f1" by (auto simp: shadow_before_def)
  from f(2) obtain u v where uv: "f1 = u @ v" "list_all2 row_moves e1 u" by (auto simp: list_all2_append1)
  from list_all2_trans [OF _ e(2) uv(2), of row_moves] have "list_all2 row_moves (shadow_runs d) u"
    using row_moves_trans by blast
  with f(1) uv(1) assms show ?thesis by (auto simp: shadow_before_def)
qed

lemma shadow_before_keep:
  assumes "shadow_runs d' = shadow_runs d @ new" and "shadow_diffs d' = shadow_diffs d"
    and "shadow_events d' = shadow_events d @ es"
  shows "shadow_before d d'"
  using assms unfolding shadow_before_def by (auto simp: list_all2_refl)

lemma begin_events:
  assumes "begin_or_observe p key phash cid cver pack processor prompt pl bs now uuid d = (res, d')"
  shows "\<exists>es. shadow_events d' = shadow_events d @ es"
  using assms
  by (auto simp: begin_or_observe_def observe_shadow_def Let_def insert_shadow_run_def insert_shadow_event_def
      shadow_refused_def comp_defs split: list.splits if_splits)

lemma complete_events:
  assumes "complete_shadow known p run rid a c oh dh now d = (res, d')"
  shows "\<exists>es. shadow_events d' = shadow_events d @ es"
  using assms
  by (auto simp: complete_shadow_def Let_def insert_shadow_event_def shadow_refused_def comp_defs
      split: option.splits if_splits)

lemma shadow_step_before: "shadow_before d (shadow_step op d)"
proof (cases op)
  case (ShBegin p key phash cid cver pack processor prompt pl bs now uuid)
  obtain res d' where run: "begin_or_observe p key phash cid cver pack processor prompt pl bs now uuid d = (res, d')" by force
  from begin_events [OF run] obtain es where es: "shadow_events d' = shadow_events d @ es" ..
  from run obtain new where "shadow_runs d' = shadow_runs d @ new" "shadow_diffs d' = shadow_diffs d"
    by (cases rule: begin_cases) (auto simp: insert_shadow_event_def)
  with shadow_before_keep [OF _ _ es] have "shadow_before d d'" by blast
  with ShBegin run shadow_before_refl show ?thesis by simp
next
  case (ShComplete known p run rid a c oh dh now)
  obtain res d' where r: "complete_shadow known p run rid a c oh dh now d = (res, d')" by force
  from r have "shadow_before d d'"
  proof (cases rule: complete_cases)
    case (completes x e)
    let ?f = "finished (if act_escalated a then Sh_escalated else Sh_completed) rid a c oh dh now"
    have "row_moves y (if startable p run y then ?f y else y)" for y
      by (auto simp: row_moves_def startable_def)
    then have "list_all2 row_moves (shadow_runs d) (update_where (startable p run) ?f (shadow_runs d))"
      by (simp add: update_where_def list_all2_map2 list_all2_same)
    then have "\<exists>kept new. shadow_runs d' = kept @ new \<and> list_all2 row_moves (shadow_runs d) kept"
      by (intro exI [of _ "update_where (startable p run) ?f (shadow_runs d)"] exI [of _ "[]"])
        (simp add: completes(7))
    moreover have "\<exists>ds. shadow_diffs d' = shadow_diffs d @ ds" by (simp add: completes(7))
    ultimately show ?thesis using complete_events [OF r] by (simp add: shadow_before_def)
  qed (simp add: shadow_before_refl)
  with ShComplete r show ?thesis by simp
next
  case (ShRelease keys)
  then show ?thesis using shadow_before_keep [of "release_shadow keys d" d "[]" "[]"] by (simp add: release_shadow_def)
qed

interpretation shadows: op_progress shadow_step shadow_inv shadow_before
  by unfold_locales (auto intro: shadow_step_inv shadow_before_refl shadow_before_trans shadow_step_before)

definition empty_shadows :: shadow_db where
  "empty_shadows = \<lparr>shadow_runs = [], shadow_diffs = [], shadow_events = [], shadow_locks = []\<rparr>"

lemma shadow_inv_empty [simp]: "shadow_inv empty_shadows"
  by (simp add: shadow_inv_def empty_shadows_def shadow_keyed_def)

lemma reachable_shadows: "shadow_inv (fold shadow_step ops empty_shadows)"
  by (rule shadows.run_inv) simp

lemma shadow_run_later:
  assumes "shadow_before d d'" and "r \<in> set (shadow_runs d)"
  obtains r' where "r' \<in> set (shadow_runs d')" and "row_moves r r'"
proof -
  from assms(1) obtain kept new where k: "shadow_runs d' = kept @ new" "list_all2 row_moves (shadow_runs d) kept"
    by (auto simp: shadow_before_def)
  from assms(2) obtain i where "i < length (shadow_runs d)" "shadow_runs d ! i = r" by (auto simp: in_set_conv_nth)
  with k have "kept ! i \<in> set (shadow_runs d')" "row_moves r (kept ! i)"
    using list_all2_lengthD [OF k(2)] by (auto simp: list_all2_conv_all_nth)
  then show thesis by (rule that)
qed

text \<open>A repeated beginning finds the run it matches by key and by case.\<close>

lemma begin_observes:
  assumes keyed: "shadow_keyed d" and r: "r \<in> set (shadow_runs d)" "sr_tenant_id r = principal_tenant p"
    "sr_idempotency_key r = key" "sr_case_id r = cid" "sr_case_version r = cver" "sr_processor_version r = processor"
  shows "begin_or_observe p key phash cid cver pack processor prompt pl bs now uuid d
    = observe_shadow p phash now (shadow_keys (principal_tenant p) key cid cver processor) r d"
proof -
  let ?n = "new_shadow_run p key phash cid cver pack processor prompt pl bs now uuid"
  have "shadow_matches ?n x \<longleftrightarrow> same_key r x \<or> same_case r x" for x
    using r by (auto simp: shadow_matches_def same_key_def same_case_def new_shadow_run_def)
  then have m: "shadow_matches ?n x \<longleftrightarrow> x = r" if "x \<in> set (shadow_runs d)" for x
    using shadow_unique(2,3) [OF keyed r(1) that] by auto
  have "distinct (shadow_runs d)" using keyed by (simp add: shadow_keyed_def distinct_map)
  then have "filter (\<lambda>x. x = r) (shadow_runs d) = [r]"
    using r(1) by (rule filter_only)
  moreover have "filter (shadow_matches ?n) (shadow_runs d) = filter (\<lambda>x. x = r) (shadow_runs d)"
    by (rule filter_cong) (use m in simp_all)
  ultimately show ?thesis by (simp add: begin_or_observe_def Let_def)
qed

end
