(* ===== verification/ShadowProperties.thy ===== *)
theory ShadowProperties
  imports ShadowService ShadowHistory FloatBounds ServiceContracts
begin

section \<open>What the shadow subsystem promises\<close>

text \<open>
  The comparison says what it should; a shadow run is started once per key and once per case
  version, is completed at most once, and is final from then on, with exactly the difference rows
  of its comparison; a finished case is never processed again.
\<close>

subsection \<open>A concrete case\<close>

definition w_case :: ShadowCase where
  "w_case = \<lparr>case_id = ''CASE-1'', case_version = ''v1'', category = ''stock_low'', case_tenant_id = ''t_alpha'',
     as_of_timestamp = utc 3000, case_input = w_request, baseline_source = Controlled_synthetic_reference,
     reference_outcome = \<lparr>expected_state = Exp_awaiting_human, ref_root_cause_statement = Some ''late'',
       ref_action_type = Some Monitor, ref_confidence = Some Low\<rparr>,
     reference_escalation = \<lparr>esc_expected = False, esc_code = None\<rparr>,
     minimum_evidence = \<lparr>required_tools = [T1_inventory, T3_supplier], minimum_unique_citations = 1\<rparr>,
     provenance_label = Simulated_case, deidentification_status = Deid_not_applicable,
     consent_data_use_status = Consent_not_applicable, consent_data_use_reference = None,
     fixture_setup = \<lparr>fx_inventory = None, fx_demand = None, fx_supplier = None\<rparr>,
     case_notes = ''a note'', limitations = [''synthetic'']\<rparr>"

definition w_detail :: RunDetail where
  "w_detail = \<lparr>det_run = w_at AWAITING_HUMAN 6,
     det_evidence = [JObj [(''evidence_id'', JStr ''ev_1''), (''tool'', JStr ''T1_inventory'')]], det_decision = None\<rparr>"

definition w_actual :: ShadowActualOutcome where
  "w_actual = \<lparr>act_state = ''awaiting_human'', act_escalated = False, act_escalation_code = None,
     act_root_cause_statement = None, act_action_type = None, act_confidence = None,
     act_evidence_tools = [''T1_inventory''], act_evidence_ids = [''ev_1''], act_citation_ids = [],
     act_unsupported_citation_count = 0, act_missing_required_count = 1, act_citation_coverage = 0,
     act_schema_valid = True, act_reasoning_invoked = False, act_provider_label = ''not-invoked'',
     act_latency_ms = 0, act_estimated_cost_usd = None, act_cost_evidence_label = ''UNMEASURED''\<rparr>"

lemma w_case_valid: "valid_shadow_case w_case"
  by code_simp

lemma w_case_actual:
  "actual_of w_case w_detail \<lparr>rep_run_id = ''run-1'', rep_current_state = AWAITING_HUMAN,
     rep_replayed_state = None, rep_events = []\<rparr> None = Inr w_actual"
proof -
  have "fl 0 = 0" by (simp add: fl_def)
  then show ?thesis
    by (simp add: actual_of_def w_detail_def w_case_def w_at_def w_run_def new_run_def text_of_def get_def
        read_draft_def no_reading_def coverage_of_def missing_required_count_def
        BOUNDED_EVIDENCE_TOOLS_def valid_actual_def w_actual_def and_then_def Let_def)
qed

subsection \<open>The comparison\<close>

lemma tool_value_inject [simp]: "tool_value a = tool_value b \<longleftrightarrow> a = b"
  by (cases a; cases b) simp_all

lemma required_missing:
  assumes "valid_minimum m"
  defines "needed \<equiv> map tool_value (required_tools m)"
  shows "missing_required_count needed ts = Inr (int (card (set needed - set ts)))"
    and "needed \<noteq> []" and "distinct needed" and "set needed \<subseteq> BOUNDED_EVIDENCE_TOOLS"
proof -
  have m: "required_tools m \<noteq> []" "set (required_tools m) \<subseteq> set evidence_tools" "distinct (required_tools m)"
    using assms(1) by (auto simp: valid_minimum_def validate_tools_def rule_broken_def intro: card_distinct split: if_splits)
  show ne: "needed \<noteq> []" using m(1) by (simp add: needed_def)
  show d: "distinct needed" using m(3) by (simp add: needed_def distinct_map inj_on_def)
  show b: "set needed \<subseteq> BOUNDED_EVIDENCE_TOOLS"
    using m(2) by (auto simp: needed_def evidence_tools_def BOUNDED_EVIDENCE_TOOLS_def)
  show "missing_required_count needed ts = Inr (int (card (set needed - set ts)))"
    using ne b distinct_card [OF d] by (simp add: missing_required_count_def)
qed

lemma sorted_texts_Nil [simp]: "sorted_texts xs = [] \<longleftrightarrow> xs = []"
  by (simp add: sorted_texts_def) (metis length_0_conv length_sort remdups_eq_nil_iff)

lemma opt_dump_inject [simp]:
  "opt_dump JStr x = opt_dump JStr y \<longleftrightarrow> x = y"
  by (auto simp: opt_dump_def split: option.splits)

lemma opt_dump_comp: "opt_dump (JStr \<circ> f) x = opt_dump JStr (map_option f x)"
  by (cases x) (simp_all add: opt_dump_def)

lemma diff_entry_agreement [simp]:
  "agreement (diff_entry f ex ac cat None) = Exact \<longleftrightarrow> ex = ac"
  "agreement (diff_entry f ex ac cat (Some g)) = g"
  by (simp_all add: diff_entry_def)

text \<open>The reference and the outcome agree on everything the comparison looks at.\<close>

definition agrees :: "ShadowCase \<Rightarrow> ShadowActualOutcome \<Rightarrow> bool" where
  "agrees c a \<longleftrightarrow>
     act_state a = expected_state_value (expected_state (reference_outcome c))
     \<and> act_escalated a = esc_expected (reference_escalation c)
     \<and> act_escalation_code a = esc_code (reference_escalation c)
     \<and> act_root_cause_statement a = ref_root_cause_statement (reference_outcome c)
     \<and> act_action_type a = map_option action_type_value (ref_action_type (reference_outcome c))
     \<and> act_confidence a = map_option confidence_value (ref_confidence (reference_outcome c))
     \<and> act_schema_valid a
     \<and> tool_value ` set (required_tools (minimum_evidence c)) \<subseteq> set (act_evidence_tools a)
     \<and> minimum_unique_citations (minimum_evidence c) \<le> int (card (set (act_citation_ids a)))
     \<and> act_unsupported_citation_count a = 0"

lemma all_exact_iff: "filter (\<lambda>e. agreement e \<noteq> Exact) (compare_entries c a) = [] \<longleftrightarrow> agrees c a"
proof -
  have ev: "evidence_agreement S T = Exact \<longleftrightarrow> S \<subseteq> T" for S T :: "string set"
    by (auto simp: evidence_agreement_def)
  have ci: "citation_agreement m u = Exact \<longleftrightarrow> m \<le> u" for m u
    by (simp add: citation_agreement_def)
  show ?thesis
    unfolding compare_entries_def Let_def agrees_def
    by (auto simp: opt_dump_comp ev ci)
qed

text \<open>C27. The comparison of a valid case with any outcome is total, and reports exact agreement exactly
  when the outcome agrees with the reference on state, escalation and its code, statement, action,
  confidence, schema validity, every required tool, the number of citations and the absence of
  unsupported ones; its disagreement categories are then empty, and otherwise name the disagreeing
  fields' categories, each once and in order.\<close>

theorem compare_exact_iff:
  assumes "valid_shadow_case c"
  shows "\<exists>cmp. compare c a = Inr cmp \<and> (exact_agreement cmp \<longleftrightarrow> agrees c a)
     \<and> set (disagreement_categories cmp) = de_category ` {e \<in> set (entries cmp). agreement e \<noteq> Exact}
     \<and> sorted_wrt (<) (disagreement_categories cmp)"
proof -
  let ?required = "map tool_value (required_tools (minimum_evidence c))"
  have m: "valid_minimum (minimum_evidence c)" using assms by (simp add: valid_shadow_case_def)
  have s: "sorted_wrt (<) (sorted_texts xs)" for xs
    by (simp add: sorted_texts_def strict_sorted_iff)
  have "exact_agreement cmp \<longleftrightarrow> agrees c a" if "compare c a = Inr cmp" for cmp
    using that all_exact_iff [of c a]
    by (auto simp: compare_def Let_def split: sum.splits)
  moreover obtain cmp where cmp: "compare c a = Inr cmp"
    "disagreement_categories cmp = sorted_texts (map de_category (filter (\<lambda>e. agreement e \<noteq> Exact) (entries cmp)))"
    using required_missing(1) [OF m] by (auto simp: compare_def Let_def)
  moreover have "set (disagreement_categories cmp) = de_category ` {e \<in> set (entries cmp). agreement e \<noteq> Exact}"
    by (simp add: cmp(2) sorted_texts_def)
  ultimately show ?thesis using s by auto
qed

theorem compare_exact_iff_witness:
  "\<exists>cmp. compare w_case w_actual = Inr cmp \<and> (exact_agreement cmp \<longleftrightarrow> agrees w_case w_actual)
     \<and> set (disagreement_categories cmp) = de_category ` {e \<in> set (entries cmp). agreement e \<noteq> Exact}
     \<and> sorted_wrt (<) (disagreement_categories cmp)"
  by (rule compare_exact_iff) (rule w_case_valid)

lemma coverage_value:
  assumes "0 < n" "k \<le> n" "n \<le> (3 :: nat)"
  shows "0 \<le> fl (of_nat k / of_nat n)" "fl (of_nat k / of_nat n) \<le> 1"
    and "fl (of_nat k / of_nat n) = 1 \<longleftrightarrow> k = n"
proof -
  let ?x = "of_nat k / of_nat n :: rat"
  have one: "fl 1 = 1" using fl_count_exact [of 1] by simp
  have zero: "fl 0 = 0" by (simp add: fl_def)
  consider "k = n" | "k = 0" "k \<noteq> n" | "0 < k" "k < n" using assms(2) by linarith
  then have "0 \<le> fl ?x \<and> fl ?x \<le> 1 \<and> (fl ?x = 1 \<longleftrightarrow> k = n)"
  proof cases
    case 3
    have "?x \<le> 2 / 3" "1 / 3 \<le> ?x"
      using 3 assms(3) by (cases n rule: nat.exhaust; auto simp: divide_simps)+
    moreover have "\<bar>fl ?x - ?x\<bar> \<le> 1 / 2 ^ 53"
      using 3 by (intro fl_unit_error) (simp_all add: divide_simps)
    moreover have "y < 1 \<and> 0 \<le> y" if "x \<le> 2 / 3" "1 / 3 \<le> x" "\<bar>y - x\<bar> \<le> 1 / 2 ^ 53" for x y :: rat
      using that unfolding abs_if by (auto split: if_splits)
    ultimately have "fl ?x < 1 \<and> 0 \<le> fl ?x" by blast
    with 3 show ?thesis by simp
  qed (use assms(1) one zero in simp_all)
  then show "0 \<le> fl ?x" "fl ?x \<le> 1" "fl ?x = 1 \<longleftrightarrow> k = n" by blast+
qed

text \<open>Missing evidence is counted the same way everywhere: the outcome the processor builds
  from a run and the comparison of that outcome with its case report the same number, so the
  check for diverging counts never fires; the number is the required tools the evidence lacks, it is
  zero exactly when the coverage is the float one, and the coverage lies between zero and one.\<close>

theorem missing_counts_agree:
  assumes "valid_shadow_case c" and "actual_of c det aud invocation = Inr a"
  shows "\<exists>cmp. compare c a = Inr cmp \<and> cmp_missing_required_count cmp = act_missing_required_count a
     \<and> act_missing_required_count a
         = int (card (tool_value ` set (required_tools (minimum_evidence c)) - set (act_evidence_tools a)))
     \<and> (cmp_missing_required_count cmp = 0 \<longleftrightarrow> cmp_citation_coverage cmp = 1)
     \<and> 0 \<le> cmp_citation_coverage cmp \<and> cmp_citation_coverage cmp \<le> 1"
proof -
  let ?needed = "map tool_value (required_tools (minimum_evidence c))"
  let ?ts = "set (act_evidence_tools a)"
  have m: "valid_minimum (minimum_evidence c)" using assms(1) by (simp add: valid_shadow_case_def)
  note need = required_missing [OF m]
  from assms(2) obtain ts where a: "missing_required_count ?needed ts = Inr (act_missing_required_count a)"
    "act_evidence_tools a = ts"
    by (auto simp: actual_of_def Let_def and_then_def split: sum.splits if_splits)
  with need(1) have missing: "act_missing_required_count a = int (card (set ?needed - ?ts))" by simp
  have n: "0 < card (set ?needed)" "card (set ?needed) \<le> 3"
    using need(2) card_mono [OF _ need(4)] by (auto simp: card_gt_0_iff BOUNDED_EVIDENCE_TOOLS_def)
  have split: "card (set ?needed) = card (set ?needed \<inter> ?ts) + card (set ?needed - ?ts)"
    by (rule card_Int_Diff) simp
  let ?cov = "fl (of_nat (card (set ?needed \<inter> ?ts)) / of_nat (card (set ?needed)))"
  have le: "card (set ?needed \<inter> ?ts) \<le> card (set ?needed)" using split by simp
  note cov = coverage_value [OF n(1) le n(2)]
  obtain cmp where cmp: "compare c a = Inr cmp"
    "cmp_missing_required_count cmp = int (card (set ?needed - ?ts))" "cmp_citation_coverage cmp = ?cov"
    using need(1,2) by (auto simp: compare_def Let_def)
  have "card (set ?needed - ?ts) = 0 \<longleftrightarrow> ?cov = 1" using cov(3) split by linarith
  with cmp cov(1,2) missing show ?thesis by auto
qed

theorem missing_counts_agree_witness:
  "\<exists>cmp. compare w_case w_actual = Inr cmp \<and> cmp_missing_required_count cmp = act_missing_required_count w_actual
     \<and> act_missing_required_count w_actual
         = int (card (tool_value ` set (required_tools (minimum_evidence w_case)) - set (act_evidence_tools w_actual)))
     \<and> (cmp_missing_required_count cmp = 0 \<longleftrightarrow> cmp_citation_coverage cmp = 1)
     \<and> 0 \<le> cmp_citation_coverage cmp \<and> cmp_citation_coverage cmp \<le> 1"
  by (rule missing_counts_agree [OF w_case_valid w_case_actual])

subsection \<open>Shadow runs\<close>

lemma shadow_run_stays:
  assumes inv: "shadow_inv d" and r: "r \<in> set (shadow_runs d)" "shr_status r \<noteq> Sh_started"
  shows "r \<in> set (shadow_runs (fold shadow_step ops d))"
    and "\<exists>a c. sr_output r = Some a \<and> sr_diff r = Some c
      \<and> shr_status r = (if act_escalated a then Sh_escalated else Sh_completed)
      \<and> diffs_of (fold shadow_step ops d) (shadow_run_id r) = entries c"
proof -
  let ?d = "fold shadow_step ops d"
  have later: "shadow_inv ?d" by (rule shadows.run_inv) (rule inv)
  have "shadow_before d ?d" by (rule shadows.run_before) (rule inv)
  from shadow_run_later [OF this r(1)] r(2) show kept: "r \<in> set (shadow_runs ?d)"
    by (auto simp: row_moves_def)
  with later have "result_ok ?d r" by (simp add: shadow_inv_def)
  with r(2) show "\<exists>a c. sr_output r = Some a \<and> sr_diff r = Some c
      \<and> shr_status r = (if act_escalated a then Sh_escalated else Sh_completed)
      \<and> diffs_of ?d (shadow_run_id r) = entries c"
    by (auto simp: result_ok_def split: if_splits)
qed

text \<open>C24. A finished shadow run is final: once a run is completed or escalated, whatever operations
  follow, its row is the same, it has an output and a comparison, its status says whether the outcome
  escalated, and its difference rows are exactly the entries of that comparison, in order.\<close>

theorem shadow_result_final:
  assumes "r \<in> set (shadow_runs (fold shadow_step ops empty_shadows))" and "shr_status r \<noteq> Sh_started"
  shows "r \<in> set (shadow_runs (fold shadow_step (ops @ later) empty_shadows))
    \<and> (\<exists>a c. sr_output r = Some a \<and> sr_diff r = Some c
        \<and> shr_status r = (if act_escalated a then Sh_escalated else Sh_completed)
        \<and> diffs_of (fold shadow_step (ops @ later) empty_shadows) (shadow_run_id r) = entries c)"
  using shadow_run_stays [OF reachable_shadows assms, of later] by (simp add: fold_append)

definition w_shadow_op :: Principal where
  "w_shadow_op = \<lparr>actor_id = ''op-1'', principal_tenant = ''t_alpha'', roles = {''operator''}\<rparr>"

definition w_begin :: shadow_op where
  "w_begin = ShBegin w_shadow_op ''key-1'' w_hash ''CASE-1'' ''v1'' ''pack-1'' ''proc'' ''prompt''
     Simulated_case Controlled_synthetic_reference 100 ''shadow-1''"

definition w_shadow_run :: ShadowRunRecord where
  "w_shadow_run = new_shadow_run w_shadow_op ''key-1'' w_hash ''CASE-1'' ''v1'' ''pack-1'' ''proc'' ''prompt''
     Simulated_case Controlled_synthetic_reference 100 ''shadow-1''"

definition w_cmp :: ShadowComparison where
  "w_cmp = \<lparr>exact_agreement = False, entries = compare_entries w_case w_actual, disagreement_categories = [],
     cmp_unsupported_citation_count = 0, cmp_missing_required_count = 1, cmp_citation_coverage = 0\<rparr>"

definition w_complete :: shadow_op where
  "w_complete = ShComplete (\<lambda>_ _. True) w_shadow_op w_shadow_run ''run-1'' w_actual w_cmp w_hash w_hash' 200"

definition w_finished :: ShadowRunRecord where
  "w_finished = finished Sh_completed ''run-1'' w_actual w_cmp w_hash w_hash' 200 w_shadow_run"

lemma w_hashes_hex: "is_hex64 w_hash" "is_hex64 w_hash'"
  by code_simp+

lemma w_run_checks: "shadow_run_checks w_shadow_run" "shadow_run_checks w_finished"
  by (simp_all add: shadow_run_checks_def w_shadow_run_def new_shadow_run_def w_finished_def finished_def
      w_hashes_hex bounded_text_def provenance_consistent_def w_actual_def)

definition w_begun :: shadow_db where "w_begun = shadow_step w_begin empty_shadows"

lemma w_begun_rows [simp]: "shadow_runs w_begun = [w_shadow_run]" "shadow_diffs w_begun = []"
  using w_run_checks(1)
  by (simp_all add: w_begun_def w_begin_def empty_shadows_def locks_free_def begin_or_observe_def Let_def
      insert_shadow_run_def insert_shadow_event_def comp_defs w_shadow_run_def)

lemma w_entry_names: "distinct (map field_name (compare_entries w_case w_actual))"
  "\<forall>e \<in> set (compare_entries w_case w_actual). field_name e \<noteq> [] \<and> de_category e \<noteq> []"
  by (simp_all add: compare_entries_def Let_def diff_entry_def)

lemma w_diff_rows_ok: "diff_rows_ok w_begun (diff_rows w_shadow_run w_shadow_op w_cmp 200)"
proof -
  have "map (\<lambda>x. (shadow_run_id w_shadow_run, x)) (map field_name (compare_entries w_case w_actual))
      = map (\<lambda>x. (sd_run_id x, field_name (sd_entry x))) (diff_rows w_shadow_run w_shadow_op w_cmp 200)"
    by (simp add: diff_rows_def w_cmp_def comp_def)
  moreover have "distinct (map (\<lambda>x. (shadow_run_id w_shadow_run, x)) (map field_name (compare_entries w_case w_actual)))"
    by (rule distinct_map [THEN iffD2]) (simp only: w_entry_names inj_on_def prod.inject, simp)
  ultimately show ?thesis
    using w_entry_names(2) by (simp add: diff_rows_ok_def diff_rows_def w_cmp_def comp_def)
qed

lemma w_completed: "shadow_runs (shadow_step w_complete w_begun) = [w_finished]"
proof -
  have "startable w_shadow_op w_shadow_run w_shadow_run"
    by (simp add: startable_def w_shadow_run_def new_shadow_run_def)
  moreover have "\<not> act_escalated w_actual" by (simp add: w_actual_def)
  ultimately show ?thesis
    using w_run_checks(2) w_diff_rows_ok
    by (simp add: w_complete_def complete_shadow_def Let_def insert_shadow_event_def comp_defs
        update_where_def flip: w_finished_def)
qed

theorem shadow_result_final_witness:
  "w_finished \<in> set (shadow_runs (fold shadow_step ([w_begin, w_complete] @ [w_begin, w_complete]) empty_shadows))
    \<and> (\<exists>a c. sr_output w_finished = Some a \<and> sr_diff w_finished = Some c
        \<and> shr_status w_finished = (if act_escalated a then Sh_escalated else Sh_completed)
        \<and> diffs_of (fold shadow_step ([w_begin, w_complete] @ [w_begin, w_complete]) empty_shadows)
             (shadow_run_id w_finished) = entries c)"
proof (rule shadow_result_final)
  show "w_finished \<in> set (shadow_runs (fold shadow_step [w_begin, w_complete] empty_shadows))"
    using w_completed by (simp add: w_begun_def)
  show "shr_status w_finished \<noteq> Sh_started" by (simp add: w_finished_def)
qed

text \<open>A shadow case is begun once. After a beginning has created a run, whatever operations follow,
  exactly one run of the tenant has its key or its case, version and processor; a repeated beginning,
  whoever makes it and whatever else it says, adds no run: another payload is refused and recorded as a
  rejection, a finished run is returned without a claim, an unfinished one with a claim on its locks.\<close>

theorem shadow_begun_once:
  assumes "begin_or_observe p key phash cid cver pack processor prompt pl bs now uuid
      (fold shadow_step ops empty_shadows) = (Inr (r, claim, True), d1)"
    and "locks_free (shadow_keys (principal_tenant p) key cid cver processor) (fold shadow_step ops empty_shadows)"
    and "principal_tenant q = principal_tenant p"
  shows "\<exists>r'. shadow_identity r r'
    \<and> filter (shadow_matches r) (shadow_runs (fold shadow_step later d1)) = [r']
    \<and> begin_or_observe q key phash2 cid cver pack2 processor prompt2 pl2 bs2 now2 uuid2 (fold shadow_step later d1)
      = (let d2 = fold shadow_step later d1; keys = shadow_keys (principal_tenant p) key cid cver processor
         in if phash2 \<noteq> phash then
              (Inl (ConflictError ''SHADOW_IDEMPOTENCY_CONFLICT'' ''Shadow identity was already used with a different payload''),
               insert_shadow_event r' (actor_id q) ''shadow_request_rejected''
                 (JObj [(''code'', JStr ''SHADOW_IDEMPOTENCY_CONFLICT'')]) now2 d2)
            else if shr_status r' \<noteq> Sh_started then (Inr (r', None, False), d2)
            else (Inr (r', Some keys, False), d2\<lparr>shadow_locks := keys @ shadow_locks d2\<rparr>))"
proof -
  let ?d2 = "fold shadow_step later d1"
  let ?new = "new_shadow_run p key phash cid cver pack processor prompt pl bs now uuid"
  have inv1: "shadow_inv d1" by (rule begin_inv [OF reachable_shadows assms(1,2)])
  then have inv2: "shadow_inv ?d2" by (rule shadows.run_inv)
  then have keyed: "shadow_keyed ?d2" by (simp add: shadow_inv_def)
  from assms(1) have r: "r = ?new" "r \<in> set (shadow_runs d1)"
    by (cases rule: begin_cases; simp)+
  from shadow_run_later [OF shadows.run_before [OF inv1] r(2)] obtain r' where
    r': "r' \<in> set (shadow_runs ?d2)" "row_moves r r'" by blast
  then have id: "shadow_identity r r'" by (simp add: row_moves_def)
  then have fields: "sr_tenant_id r' = principal_tenant q" "sr_idempotency_key r' = key" "sr_case_id r' = cid"
    "sr_case_version r' = cver" "sr_processor_version r' = processor" "sr_payload_hash r' = phash"
    using assms(3) by (simp_all add: shadow_identity_def r(1) new_shadow_run_def)
  have "shadow_matches r x \<longleftrightarrow> x = r'" if "x \<in> set (shadow_runs ?d2)" for x
    using shadow_unique(2,3) [OF keyed r'(1) that] id
    by (auto simp: shadow_matches_def same_key_def same_case_def shadow_identity_def)
  then have "filter (shadow_matches r) (shadow_runs ?d2) = filter (\<lambda>x. x = r') (shadow_runs ?d2)"
    by (intro filter_cong) simp_all
  also have "\<dots> = [r']"
    using keyed r'(1) by (intro filter_only) (simp_all add: shadow_keyed_def distinct_map)
  finally have one: "filter (shadow_matches r) (shadow_runs ?d2) = [r']" .
  have "begin_or_observe q key phash2 cid cver pack2 processor prompt2 pl2 bs2 now2 uuid2 ?d2
      = observe_shadow q phash2 now2 (shadow_keys (principal_tenant q) key cid cver processor) r' ?d2"
    by (rule begin_observes [OF keyed r'(1) fields(1-5)])
  with id one fields(6) assms(3) show ?thesis
    by (intro exI [of _ r']) (auto simp: observe_shadow_def Let_def raiseE_def returnE_def)
qed

theorem shadow_begun_once_witness:
  "\<exists>r'. shadow_identity w_shadow_run r'
    \<and> filter (shadow_matches w_shadow_run) (shadow_runs (fold shadow_step [w_complete] w_begun)) = [r']
    \<and> begin_or_observe w_shadow_op ''key-1'' w_hash' ''CASE-1'' ''v1'' ''pack-1'' ''proc'' ''prompt''
        Simulated_case Controlled_synthetic_reference 300 ''shadow-2'' (fold shadow_step [w_complete] w_begun)
      = (let d2 = fold shadow_step [w_complete] w_begun;
             keys = shadow_keys (principal_tenant w_shadow_op) ''key-1'' ''CASE-1'' ''v1'' ''proc''
         in if w_hash' \<noteq> w_hash then
              (Inl (ConflictError ''SHADOW_IDEMPOTENCY_CONFLICT'' ''Shadow identity was already used with a different payload''),
               insert_shadow_event r' (actor_id w_shadow_op) ''shadow_request_rejected''
                 (JObj [(''code'', JStr ''SHADOW_IDEMPOTENCY_CONFLICT'')]) 300 d2)
            else if shr_status r' \<noteq> Sh_started then (Inr (r', None, False), d2)
            else (Inr (r', Some keys, False), d2\<lparr>shadow_locks := keys @ shadow_locks d2\<rparr>))"
proof (rule shadow_begun_once [where ops = "[]", OF _ _ refl])
  show "begin_or_observe w_shadow_op ''key-1'' w_hash ''CASE-1'' ''v1'' ''pack-1'' ''proc'' ''prompt''
      Simulated_case Controlled_synthetic_reference 100 ''shadow-1'' (fold shadow_step [] empty_shadows)
    = (Inr (w_shadow_run, Some (shadow_keys ''t_alpha'' ''key-1'' ''CASE-1'' ''v1'' ''proc''), True), w_begun)"
    using w_run_checks(1)
    by (simp add: w_begun_def w_begin_def empty_shadows_def locks_free_def begin_or_observe_def Let_def
        insert_shadow_run_def insert_shadow_event_def comp_defs w_shadow_run_def w_shadow_op_def)
  show "locks_free (shadow_keys (principal_tenant w_shadow_op) ''key-1'' ''CASE-1'' ''v1'' ''proc'')
      (fold shadow_step [] empty_shadows)"
    by (simp add: locks_free_def empty_shadows_def)
qed

end
