(* ===== verification/ShadowProcessing.thy ===== *)
theory ShadowProcessing
  imports ShadowProperties
begin

section \<open>What processing a shadow case promises\<close>

text \<open>
  The service on top of the shadow tables: a case that is already finished is answered from its row
  without running anything, and whatever processing returns is what is stored, for good.
\<close>

definition case_keys :: "Principal \<Rightarrow> string \<Rightarrow> ShadowCase \<Rightarrow> int list" where
  "case_keys p key c = shadow_keys (principal_tenant p) key (case_id c) (case_version c) PROCESSOR_VERSION"

text \<open>The run a case is processed as, by its key and by its identity.\<close>

definition run_of_case :: "Principal \<Rightarrow> string \<Rightarrow> ShadowCase \<Rightarrow> ShadowRunRecord \<Rightarrow> bool" where
  "run_of_case p key c r \<longleftrightarrow> sr_tenant_id r = principal_tenant p \<and> sr_idempotency_key r = key
     \<and> sr_case_id r = case_id c \<and> sr_case_version r = case_version c \<and> sr_processor_version r = PROCESSOR_VERSION"

text \<open>What the service checks before it touches a table.\<close>

definition admissible :: "shadow_env \<Rightarrow> Principal \<Rightarrow> ShadowCase \<Rightarrow> string \<Rightarrow> string \<Rightarrow> bool" where
  "admissible env p c pack key \<longleftrightarrow> principal_tenant p = case_tenant_id c \<and> has_role p ''operator''
     \<and> bounded_text 1 200 key \<and> manifest_version (se_service env) = pack"

lemma process_admitted:
  assumes "admissible env p c pack key"
  shows "process_case env p c pack key False uuid ruuid =
    bindE (shadow_clock env) (\<lambda>now.
    bindE (call_shadow env (begin_or_observe p key (shadow_payload_hash c pack) (case_id c)
             (case_version c) pack PROCESSOR_VERSION PROMPT_VERSION (provenance_label c)
             (baseline_source c) now uuid)) (\<lambda>(run, claim, _).
      case claim of
        None \<Rightarrow> bindE (liftE (result_from_record run True)) (\<lambda>r. returnE (Some r))
      | Some keys \<Rightarrow>
          bindE (finallyE (process_claimed env p c run ruuid) (release_after keys)) (\<lambda>done1.
            case done1 of
              None \<Rightarrow> returnE None
            | Some completed \<Rightarrow> bindE (liftE (result_from_record completed False)) (\<lambda>r. returnE (Some r)))))"
  using assms
  by (auto simp: process_case_def admissible_def bounded_text_def Suc_le_eq not_less)

lemma process_refused:
  assumes "\<not> admissible env p c pack key"
  shows "\<exists>e. process_case env p c pack key False uuid ruuid = raiseE e"
  using assms
  by (auto simp: process_case_def admissible_def bounded_text_def Suc_le_eq not_less)

lemma begin_finished:
  assumes "begin_or_observe p key phash cid cver pack processor prompt pl bs now uuid d = (Inr (r, None, created), d')"
  shows "r \<in> set (shadow_runs d') \<and> shr_status r \<noteq> Sh_started \<and> sr_tenant_id r = principal_tenant p"
  using assms
  by (auto simp: begin_or_observe_def observe_shadow_def Let_def comp_defs shadow_matches_def same_key_def
      same_case_def new_shadow_run_def dest!: arg_cong [of "filter _ _" _ set] split: list.splits if_splits sum.splits prod.splits)

lemma result_of_finished:
  assumes "result_ok d r" and "shr_status r \<noteq> Sh_started"
  obtains res where "result_from_record r replayed = Inr res" and "res_idempotent_replay res = replayed"
    and "res_shadow_run_id res = shadow_run_id r" and "sr_output r = Some (res_actual res)"
    and "sr_diff r = Some (res_comparison res)" and "sr_output_hash r = Some (res_output_hash res)"
    and "sr_diff_hash r = Some (res_diff_hash res)"
    and "sr_investigation_run_id r = Some (res_investigation_run_id res)"
    and "diffs_of d (shadow_run_id r) = entries (res_comparison res)"
proof -
  from assms obtain rid a c oh dh where "sr_investigation_run_id r = Some rid" "sr_output r = Some a"
    "sr_diff r = Some c" "sr_output_hash r = Some oh" "sr_diff_hash r = Some dh"
    "diffs_of d (shadow_run_id r) = entries c"
    by (auto simp: result_ok_def)
  then show thesis by (intro that) (auto simp: result_from_record_def)
qed

text \<open>C29. A finished case is not processed again: if the tables the beginning finds already have a
  finished run of the case with the same payload, processing the case returns what that run stores,
  marked as a replay, and does nothing else: no investigation is started, no other table is
  touched, only the clock is read once and the tables are asked once.\<close>

theorem process_replay:
  assumes "admissible env p c pack key"
    and "shadow_inv (se_others env (sw_calls w) (sw_db w))"
    and "r \<in> set (shadow_runs (se_others env (sw_calls w) (sw_db w)))" and "run_of_case p key c r"
    and "sr_payload_hash r = shadow_payload_hash c pack" and "shr_status r \<noteq> Sh_started"
  shows "\<exists>res. process_case env p c pack key False uuid ruuid w
      = (Inr (Some res), w\<lparr>sw_db := se_others env (sw_calls w) (sw_db w),
           sw_clock_reads := Suc (sw_clock_reads w), sw_calls := Suc (sw_calls w)\<rparr>)
    \<and> res_idempotent_replay res \<and> res_shadow_run_id res = shadow_run_id r
    \<and> sr_output r = Some (res_actual res) \<and> sr_diff r = Some (res_comparison res)
    \<and> sr_output_hash r = Some (res_output_hash res) \<and> sr_diff_hash r = Some (res_diff_hash res)"
proof -
  let ?d = "se_others env (sw_calls w) (sw_db w)"
  have keyed: "shadow_keyed ?d" and ok: "result_ok ?d r"
    using assms(2,3) by (simp_all add: shadow_inv_def)
  have observed: "begin_or_observe p key (shadow_payload_hash c pack) (case_id c) (case_version c) pack
      PROCESSOR_VERSION PROMPT_VERSION (provenance_label c) (baseline_source c) now uuid ?d
      = (Inr (r, None, False), ?d)" for now
    using assms(4-6) begin_observes [OF keyed assms(3)]
    by (simp add: run_of_case_def observe_shadow_def returnE_def)
  from result_of_finished [OF ok assms(6)] obtain res where
    res: "result_from_record r True = Inr res" "res_idempotent_replay res" "res_shadow_run_id res = shadow_run_id r"
      "sr_output r = Some (res_actual res)" "sr_diff r = Some (res_comparison res)"
      "sr_output_hash r = Some (res_output_hash res)" "sr_diff_hash r = Some (res_diff_hash res)"
    by metis
  have "process_case env p c pack key False uuid ruuid w
      = (Inr (Some res), w\<lparr>sw_db := ?d, sw_clock_reads := Suc (sw_clock_reads w), sw_calls := Suc (sw_calls w)\<rparr>)"
    by (simp add: process_admitted [OF assms(1)] comp_defs shadow_clock_def call_shadow_def observed res(1))
  with res show ?thesis by blast
qed

text \<open>What is stored when processing returns.\<close>

definition stored :: "shadow_db \<Rightarrow> Principal \<Rightarrow> ShadowResult \<Rightarrow> ShadowRunRecord \<Rightarrow> bool" where
  "stored d p res r \<longleftrightarrow> r \<in> set (shadow_runs d) \<and> shr_status r \<noteq> Sh_started
     \<and> shadow_run_id r = res_shadow_run_id res \<and> sr_tenant_id r = principal_tenant p
     \<and> result_from_record r (res_idempotent_replay res) = Inr res
     \<and> diffs_of d (shadow_run_id r) = entries (res_comparison res)"

lemma shadow_status_final [simp]: "shr_status (finished (if b then Sh_escalated else Sh_completed) rid a c oh dh now x) \<noteq> Sh_started"
  by simp

lemma complete_stores:
  assumes "shadow_inv d" and "complete_shadow known p run rid a c oh dh now d = (Inr r, d')"
  shows "r \<in> set (shadow_runs d')" and "shr_status r \<noteq> Sh_started" and "sr_tenant_id r = principal_tenant p"
    and "shadow_inv d'" and "sr_output r = Some a" "sr_diff r = Some c" "sr_output_hash r = Some oh"
    "sr_diff_hash r = Some dh"
proof -
  show "shadow_inv d'" by (rule complete_inv [OF assms])
  from assms(2) show "r \<in> set (shadow_runs d')" "shr_status r \<noteq> Sh_started" "sr_tenant_id r = principal_tenant p"
    "sr_output r = Some a" "sr_diff r = Some c" "sr_output_hash r = Some oh" "sr_diff_hash r = Some dh"
    by (cases rule: complete_cases; auto simp: set_update_where startable_def)+
qed

lemma process_claimed_stores:
  assumes rely: "\<And>k d. shadow_inv d \<Longrightarrow> shadow_inv (se_others env k d)" and inv: "shadow_inv (sw_db w)"
    and run: "process_claimed env p c run uuid w = (Inr (Some r), w')"
  shows "shadow_inv (sw_db w') \<and> r \<in> set (shadow_runs (sw_db w')) \<and> shr_status r \<noteq> Sh_started
    \<and> sr_tenant_id r = principal_tenant p
    \<and> (\<exists>a cmp. sr_output r = Some a \<and> sr_diff r = Some cmp \<and> compare c a = Inr cmp
        \<and> sr_output_hash r = Some (canonical_hash (actual_dump a))
        \<and> sr_diff_hash r = Some (canonical_hash (comparison_dump cmp)))"
proof -
  from run obtain irun a cmp known now d k where
    cmp: "compare c a = Inr cmp" and d: "d = se_others env k (sw_db w)"
    and done1: "complete_shadow known p run irun a cmp (canonical_hash (actual_dump a))
        (canonical_hash (comparison_dump cmp)) now d = (Inr r, sw_db w')"
    unfolding process_claimed_def comp_defs call_service_def call_shadow_def shadow_clock_def
    by (clarsimp split: prod.splits sum.splits option.splits if_splits)
  from rely [OF inv] d have "shadow_inv d" by simp
  from complete_stores [OF this done1] cmp show ?thesis by blast
qed

lemma release_stores:
  assumes "shadow_inv d"
  shows "shadow_inv (release_shadow keys d)" and "shadow_runs (release_shadow keys d) = shadow_runs d"
    and "shadow_diffs (release_shadow keys d) = shadow_diffs d"
  using shadow_step_inv [OF assms, of "ShRelease keys"] by (simp_all add: release_shadow_def)

lemma storedI:
  assumes "shadow_inv d" and "r \<in> set (shadow_runs d)" "shr_status r \<noteq> Sh_started"
    and "sr_tenant_id r = principal_tenant p" and "result_from_record r replayed = Inr res"
  shows "stored d p res r" and "res_idempotent_replay res = replayed"
    and "sr_output r = Some (res_actual res)" "sr_diff r = Some (res_comparison res)"
    and "sr_output_hash r = Some (res_output_hash res)" "sr_diff_hash r = Some (res_diff_hash res)"
proof -
  have "result_ok d r" using assms(1,2) by (simp add: shadow_inv_def)
  from result_of_finished [OF this assms(3), of replayed] assms(5) have
    "res_idempotent_replay res = replayed" "res_shadow_run_id res = shadow_run_id r"
    "sr_output r = Some (res_actual res)" "sr_diff r = Some (res_comparison res)"
    "sr_output_hash r = Some (res_output_hash res)" "sr_diff_hash r = Some (res_diff_hash res)"
    "diffs_of d (shadow_run_id r) = entries (res_comparison res)" by (metis sum.inject(2))+
  with assms show "stored d p res r" "res_idempotent_replay res = replayed"
    "sr_output r = Some (res_actual res)" "sr_diff r = Some (res_comparison res)"
    "sr_output_hash r = Some (res_output_hash res)" "sr_diff_hash r = Some (res_diff_hash res)"
    by (simp_all add: stored_def)
qed

text \<open>C25. What processing returns is what it stored. However other callers' operations on the shadow
  tables fall between its own, when processing a case returns a result, the tenant's finished run of
  that id gives exactly this result and its difference rows are the entries of the comparison; if the
  result is not a replay, the comparison is that of the case with the reported outcome, and the hashes
  are those of the outcome and of the comparison.\<close>

theorem process_result_stored:
  assumes rely: "\<And>k d. shadow_inv d \<Longrightarrow> shadow_inv (se_others env k d)" and "shadow_inv (sw_db w)"
    and "locks_free (case_keys p key c) (se_others env (sw_calls w) (sw_db w))"
    and "process_case env p c pack key execute uuid ruuid w = (Inr (Some res), w')"
  shows "(\<exists>r. stored (sw_db w') p res r)
    \<and> (\<not> res_idempotent_replay res \<longrightarrow> compare c (res_actual res) = Inr (res_comparison res)
        \<and> res_output_hash res = canonical_hash (actual_dump (res_actual res))
        \<and> res_diff_hash res = canonical_hash (comparison_dump (res_comparison res)))"
proof -
  let ?d = "se_others env (sw_calls w) (sw_db w)"
  have inv: "shadow_inv ?d" by (rule rely) (rule assms(2))
  have ex: "execute = False" using assms(4) by (auto simp: process_case_def raiseE_def)
  have adm: "admissible env p c pack key"
  proof (rule ccontr)
    assume "\<not> ?thesis"
    from process_refused [OF this, of uuid ruuid] assms(4) ex show False by (auto simp: raiseE_def)
  qed
  let ?beginning = "begin_or_observe p key (shadow_payload_hash c pack) (case_id c) (case_version c) pack
      PROCESSOR_VERSION PROMPT_VERSION (provenance_label c) (baseline_source c) (se_clock env (sw_clock_reads w)) uuid ?d"
  note run = assms(4) [unfolded ex process_admitted [OF adm], unfolded comp_defs shadow_clock_def call_shadow_def]
  obtain run claim created d1 where begun: "?beginning = (Inr (run, claim, created), d1)"
    using run by (auto split: prod.splits sum.splits)
  have inv1: "shadow_inv d1"
    by (rule begin_inv [OF inv begun]) (use assms(3) in \<open>simp add: case_keys_def\<close>)
  show ?thesis
  proof (cases claim)
    case None
    then have "run \<in> set (shadow_runs d1)" "sr_tenant_id run = principal_tenant p" "shr_status run \<noteq> Sh_started"
      using begin_finished [OF begun [unfolded None]] by simp_all
    moreover have "result_from_record run True = Inr res" "sw_db w' = d1"
      using run begun None by (auto split: sum.splits)
    ultimately show ?thesis using storedI(1,2) inv1 by metis
  next
    case (Some keys)
    let ?w1 = "w\<lparr>sw_clock_reads := Suc (sw_clock_reads w), sw_db := d1, sw_calls := Suc (sw_calls w)\<rparr>"
    obtain r w2 where claimed: "process_claimed env p c run ruuid ?w1 = (Inr (Some r), w2)"
      and res: "result_from_record r False = Inr res" and w': "w' = release_after keys w2"
      using run begun Some by (auto split: prod.splits sum.splits option.splits)
    have inv2: "shadow_inv (sw_db ?w1)" using inv1 by simp
    from process_claimed_stores [OF rely inv2 claimed] obtain a cmp where
      st: "shadow_inv (sw_db w2)" "r \<in> set (shadow_runs (sw_db w2))" "shr_status r \<noteq> Sh_started"
        "sr_tenant_id r = principal_tenant p" and
      ac: "sr_output r = Some a" "sr_diff r = Some cmp" "compare c a = Inr cmp"
        "sr_output_hash r = Some (canonical_hash (actual_dump a))"
        "sr_diff_hash r = Some (canonical_hash (comparison_dump cmp))" by blast
    have db: "sw_db w' = release_shadow keys (sw_db w2)" by (simp add: w' release_after_def)
    have "shadow_inv (sw_db w')" "r \<in> set (shadow_runs (sw_db w'))"
      using st(1,2) by (simp_all add: db release_stores)
    note s = storedI [OF this st(3,4) res]
    with ac show ?thesis by auto
  qed
qed

subsection \<open>A finished case\<close>

definition w_pack_hash :: string where
  "w_pack_hash = shadow_payload_hash w_case ''pack-1''"

definition w_done_run :: ShadowRunRecord where
  "w_done_run = finished Sh_completed ''run-1'' w_actual w_cmp w_hash w_hash' 200
     (new_shadow_run w_shadow_op ''key-1'' w_pack_hash ''CASE-1'' ''v1'' ''pack-1'' PROCESSOR_VERSION PROMPT_VERSION
        Simulated_case Controlled_synthetic_reference 100 ''shadow-1'')"

definition w_done :: shadow_db where
  "w_done = \<lparr>shadow_runs = [w_done_run], shadow_diffs = diff_rows w_done_run w_shadow_op w_cmp 200,
     shadow_events = [], shadow_locks = []\<rparr>"

definition w_shadow_env :: shadow_env where
  "w_shadow_env = \<lparr>se_service = busy_env (\<lambda>k. 4000 + int k) (\<lambda>k. []) stub_reason (assigned_reviewer w_idp) ''pack-1'',
     se_fuel = 9, se_clock = (\<lambda>k. 500), se_others = (\<lambda>k d. d)\<rparr>"

definition w_shadow_world :: shadow_world where
  "w_shadow_world = \<lparr>sw_world = w_world, sw_db = w_done, sw_clock_reads = 0, sw_calls = 0\<rparr>"

lemma w_done_checks: "shadow_run_checks w_done_run"
  by (simp add: shadow_run_checks_def w_done_run_def finished_def new_shadow_run_def w_hashes_hex bounded_text_def
      provenance_consistent_def w_actual_def PROCESSOR_VERSION_def PROMPT_VERSION_def w_pack_hash_def
      shadow_payload_hash_def is_hex64_canonical_hash)

lemma w_done_inv: "shadow_inv w_done"
proof -
  have "result_ok w_done w_done_run"
    by (simp add: result_ok_def w_done_run_def new_shadow_run_def w_done_def diffs_of_def diff_rows_def
        filter_map comp_def w_actual_def)
  with w_done_checks show ?thesis
    by (auto simp: shadow_inv_def w_done_def shadow_keyed_def diff_rows_def)
qed

lemma w_done_case:
  "run_of_case w_shadow_op ''key-1'' w_case w_done_run" "sr_payload_hash w_done_run = shadow_payload_hash w_case ''pack-1''"
  "shr_status w_done_run \<noteq> Sh_started" "shadow_run_id w_done_run = ''shadow-1''"
  by (simp_all add: run_of_case_def w_done_run_def finished_def new_shadow_run_def w_case_def w_shadow_op_def
      w_pack_hash_def)

lemma w_admissible: "admissible w_shadow_env w_shadow_op w_case ''pack-1'' ''key-1''"
  by (simp add: admissible_def w_shadow_env_def busy_env_def w_shadow_op_def w_case_def has_role_def bounded_text_def)

lemma w_shadow_found: "sw_db w_shadow_world = w_done" "se_others w_shadow_env k d = d"
  by (simp_all add: w_shadow_env_def w_shadow_world_def)

theorem process_replay_witness:
  "\<exists>res. process_case w_shadow_env w_shadow_op w_case ''pack-1'' ''key-1'' False ''shadow-2'' ''run-2'' w_shadow_world
      = (Inr (Some res), w_shadow_world\<lparr>sw_db := se_others w_shadow_env (sw_calls w_shadow_world) (sw_db w_shadow_world),
           sw_clock_reads := Suc (sw_clock_reads w_shadow_world), sw_calls := Suc (sw_calls w_shadow_world)\<rparr>)
    \<and> res_idempotent_replay res \<and> res_shadow_run_id res = shadow_run_id w_done_run
    \<and> sr_output w_done_run = Some (res_actual res) \<and> sr_diff w_done_run = Some (res_comparison res)
    \<and> sr_output_hash w_done_run = Some (res_output_hash res) \<and> sr_diff_hash w_done_run = Some (res_diff_hash res)"
  by (rule process_replay [OF w_admissible _ _ w_done_case(1-3)]; unfold w_shadow_found)
     (simp_all add: w_done_inv, simp add: w_done_def)

text \<open>The result stored in the finished run.\<close>

definition w_result :: ShadowResult where
  "w_result = \<lparr>res_shadow_run_id = ''shadow-1'', res_investigation_run_id = ''run-1'', res_case_id = ''CASE-1'',
     res_case_version = ''v1'', res_case_pack_version = ''pack-1'', res_tenant_id = ''t_alpha'',
     res_processor_version = PROCESSOR_VERSION, res_prompt_version = PROMPT_VERSION,
     res_provenance_label = Simulated_case, res_baseline_source = Controlled_synthetic_reference,
     res_output_hash = w_hash, res_diff_hash = w_hash', res_actual = w_actual, res_comparison = w_cmp,
     res_idempotent_replay = True\<rparr>"

lemma w_process:
  "process_case w_shadow_env w_shadow_op w_case ''pack-1'' ''key-1'' False ''shadow-2'' ''run-2'' w_shadow_world
    = (Inr (Some w_result), w_shadow_world\<lparr>sw_clock_reads := 1, sw_calls := 1\<rparr>)"
proof -
  have keyed: "shadow_keyed w_done" using w_done_inv by (simp add: shadow_inv_def)
  have r: "w_done_run \<in> set (shadow_runs w_done)" by (simp add: w_done_def)
  have "begin_or_observe w_shadow_op ''key-1'' (shadow_payload_hash w_case ''pack-1'') (case_id w_case)
      (case_version w_case) ''pack-1'' PROCESSOR_VERSION PROMPT_VERSION (provenance_label w_case)
      (baseline_source w_case) now ''shadow-2'' w_done = (Inr (w_done_run, None, False), w_done)" for now
    using w_done_case begin_observes [OF keyed r]
    by (simp add: run_of_case_def observe_shadow_def returnE_def)
  moreover have "result_from_record w_done_run True = Inr w_result"
    by (simp add: result_from_record_def w_done_run_def finished_def new_shadow_run_def w_result_def w_shadow_op_def)
  ultimately show ?thesis
    by (simp add: process_admitted [OF w_admissible] comp_defs shadow_clock_def call_shadow_def w_shadow_found)
       (simp add: w_shadow_world_def comp_defs)
qed

theorem process_result_stored_witness:
  "res_idempotent_replay w_result
    \<and> (\<exists>r. stored (sw_db (w_shadow_world\<lparr>sw_clock_reads := 1, sw_calls := 1\<rparr>)) w_shadow_op w_result r)"
proof
  show "res_idempotent_replay w_result" by (simp add: w_result_def)
  have "shadow_inv (sw_db w_shadow_world)" by (simp add: w_shadow_world_def w_done_inv)
  moreover have "locks_free (case_keys w_shadow_op ''key-1'' w_case)
      (se_others w_shadow_env (sw_calls w_shadow_world) (sw_db w_shadow_world))"
    by (simp add: w_shadow_found locks_free_def w_done_def)
  moreover have "shadow_inv d \<Longrightarrow> shadow_inv (se_others w_shadow_env k d)" for k d
    by (simp add: w_shadow_found)
  ultimately show "\<exists>r. stored (sw_db (w_shadow_world\<lparr>sw_clock_reads := 1, sw_calls := 1\<rparr>)) w_shadow_op w_result r"
    using process_result_stored [OF _ _ _ w_process] by blast
qed

end
