(* ===== verification/ShadowIntake.thy ===== *)
theory ShadowIntake
  imports ShadowContracts
begin

section \<open>Genuine UAT intake (\<^verbatim>\<open>shadow/intake.py\<close>) and the official count (\<^verbatim>\<open>shadow/collection.py\<close>)\<close>

text \<open>
  The append-only tables of imported analyst cases and of their control events, the repository's
  operations with the checks of migration \<^verbatim>\<open>0005\<close>, the service in front of them, and the count
  of cases that are officially accepted. The fields a row has by a literal default
  (\<^verbatim>\<open>execute = false\<close>, no external action) are constants. A fresh \<^verbatim>\<open>uuid4\<close> is an argument.
\<close>

subsection \<open>Tables\<close>

record ShadowIntakeRecord =
  intake_id :: string
  in_tenant_id :: string
  in_case_id :: string
  in_case_version :: string
  in_contract_version :: string
  in_payload_hash :: string
  in_provenance_label :: ProvenanceLabel
  in_baseline_source :: BaselineSource
  in_deidentification_status :: DeidentificationStatus
  in_consent_status :: ConsentDataUseStatus
  in_consent_reference :: "string option"
  in_category :: string
  in_case_json :: json
  in_created_by :: string
  in_created_at :: int

record IntakeEvent =
  ie_intake_id :: string
  ie_tenant_id :: string
  ie_event_type :: string
  ie_actor_id :: string
  ie_payload :: json
  ie_occurred_at :: int

record intake_db =
  intakes :: "ShadowIntakeRecord list"
  intake_log :: "IntakeEvent list"

definition intake_checks :: "ShadowIntakeRecord \<Rightarrow> bool" where
  "intake_checks r \<longleftrightarrow>
     in_case_id r \<noteq> [] \<and> in_case_version r \<noteq> [] \<and> in_contract_version r = CASE_CONTRACT_VERSION
     \<and> is_hex64 (in_payload_hash r) \<and> in_provenance_label r = Genuine_uat
     \<and> in_baseline_source r = Analyst_reference \<and> in_deidentification_status r = Deid_owner_attested
     \<and> in_consent_status r = Consent_held_offline
     \<and> (case in_consent_reference r of None \<Rightarrow> False | Some s \<Rightarrow> consent_reference_ok s)
     \<and> in_category r \<noteq> []"

definition same_identity :: "ShadowIntakeRecord \<Rightarrow> ShadowIntakeRecord \<Rightarrow> bool" where
  "same_identity r x \<longleftrightarrow> in_tenant_id x = in_tenant_id r \<and> in_case_id x = in_case_id r
     \<and> in_case_version x = in_case_version r"

definition insert_intake_event ::
  "ShadowIntakeRecord \<Rightarrow> string \<Rightarrow> string \<Rightarrow> json \<Rightarrow> int \<Rightarrow> intake_db \<Rightarrow> intake_db"
where
  "insert_intake_event r actor etype pl now d = d\<lparr>intake_log := intake_log d @
     [\<lparr>ie_intake_id = intake_id r, ie_tenant_id = in_tenant_id r, ie_event_type = etype,
       ie_actor_id = actor, ie_payload = pl, ie_occurred_at = now\<rparr>]\<rparr>"

subsection \<open>Importing\<close>

definition case_payload_hash :: "ShadowCase \<Rightarrow> string" where
  "case_payload_hash c = canonical_hash (case_dump c)"

definition EXCLUSION_REASON_CODES :: "string set" where
  "EXCLUSION_REASON_CODES = {''participant_withdrawal'', ''owner_data_quality_exclusion''}"

definition validate_exclusion_reason :: "string \<Rightarrow> string result" where
  "validate_exclusion_reason reason =
     (if reason \<notin> EXCLUSION_REASON_CODES then
        Inl (ValidationError ''SHADOW_INTAKE_EXCLUSION_REASON_INVALID''
          ''Exclusion reason must be an allow-listed non-identifying reason code'')
      else Inr reason)"

definition new_intake :: "Principal \<Rightarrow> ShadowCase \<Rightarrow> string \<Rightarrow> int \<Rightarrow> string \<Rightarrow> ShadowIntakeRecord" where
  "new_intake p c phash now uuid =
     \<lparr>intake_id = uuid, in_tenant_id = principal_tenant p, in_case_id = case_id c,
      in_case_version = case_version c, in_contract_version = CASE_CONTRACT_VERSION,
      in_payload_hash = phash, in_provenance_label = provenance_label c,
      in_baseline_source = baseline_source c, in_deidentification_status = deidentification_status c,
      in_consent_status = consent_data_use_status c,
      in_consent_reference = consent_data_use_reference c, in_category = category c,
      in_case_json = case_dump c, in_created_by = actor_id p, in_created_at = now\<rparr>"

definition import_or_observe ::
  "Principal \<Rightarrow> ShadowCase \<Rightarrow> string \<Rightarrow> int \<Rightarrow> string \<Rightarrow> (intake_db, ShadowIntakeRecord \<times> bool) comp"
where
  "import_or_observe p c phash now uuid d =
     (let r = new_intake p c phash now uuid
      in case select_one (same_identity r) (intakes d) of
           Some existing \<Rightarrow>
             if in_payload_hash existing \<noteq> phash then
               raiseE (ConflictError ''SHADOW_INTAKE_CONFLICT''
                         ''Case identity was already imported with a different payload'')
                 (insert_intake_event existing (actor_id p) ''shadow_intake_rejected''
                   (JObj [(''code'', JStr ''SHADOW_INTAKE_CONFLICT'')]) now d)
             else returnE (existing, False)
                    (insert_intake_event existing (actor_id p) ''shadow_intake_replayed''
                      (JObj [(''payload_hash'', JStr phash), (''execute'', JBool False)]) now d)
         | None \<Rightarrow>
             if \<not> intake_checks r \<or> uuid \<in> intake_id ` set (intakes d) then
               raiseE (DatabaseError ''constraint violation'') d
             else returnE (r, True)
                    (insert_intake_event r (actor_id p) ''shadow_intake_imported''
                      (JObj [(''execute'', JBool False), (''external_action_count'', JInt 0),
                             (''payload_hash'', JStr phash), (''accepted_for_m2_05'', JBool False)]) now
                      (d\<lparr>intakes := intakes d @ [r]\<rparr>)))"

subsection \<open>Reads\<close>

definition intake_visible :: "Principal \<Rightarrow> string \<Rightarrow> ShadowIntakeRecord \<Rightarrow> bool" where
  "intake_visible p iid r \<longleftrightarrow> intake_id r = iid \<and> in_tenant_id r = principal_tenant p"

definition get_intake :: "Principal \<Rightarrow> string \<Rightarrow> (intake_db, ShadowIntakeRecord) comp" where
  "get_intake p iid d =
     (case select_one (intake_visible p iid) (intakes d) of
        None \<Rightarrow> raiseE NotFoundError d | Some r \<Rightarrow> returnE r d)"

definition list_for_tenant :: "Principal \<Rightarrow> intake_db \<Rightarrow> ShadowIntakeRecord list" where
  "list_for_tenant p d =
     sort_key (\<lambda>r. [in_case_id r, in_case_version r])
       (filter (\<lambda>r. in_tenant_id r = principal_tenant p) (intakes d))"

definition list_all_intakes :: "intake_db \<Rightarrow> ShadowIntakeRecord list" where
  "list_all_intakes d = sort_key (\<lambda>r. [in_tenant_id r, in_case_id r, in_case_version r]) (intakes d)"

definition control_events :: "string \<Rightarrow> string \<Rightarrow> string \<Rightarrow> intake_db \<Rightarrow> IntakeEvent list" where
  "control_events iid tenant etype d =
     filter (\<lambda>e. ie_intake_id e = iid \<and> ie_tenant_id e = tenant \<and> ie_event_type e = etype) (intake_log d)"

definition intake_events :: "Principal \<Rightarrow> string \<Rightarrow> (intake_db, IntakeEvent list) comp" where
  "intake_events p iid =
     bindE (get_intake p iid) (\<lambda>_ d.
       returnE (filter (\<lambda>e. ie_intake_id e = iid \<and> ie_tenant_id e = principal_tenant p) (intake_log d)) d)"

subsection \<open>Acceptance and exclusion\<close>

definition accept_for_m2_05 :: "Principal \<Rightarrow> string \<Rightarrow> int \<Rightarrow> (intake_db, ShadowIntakeRecord) comp" where
  "accept_for_m2_05 p iid now =
     bindE (get_intake p iid) (\<lambda>r.
       if \<not> has_role p ''operator'' then
         raiseE (AuthorizationError ''M2-05 acceptance requires the simulated operator role'')
       else (\<lambda>d.
         if control_events (intake_id r) (principal_tenant p) ''accepted_for_m2_05'' d = [] then
           returnE r (insert_intake_event r (actor_id p) ''accepted_for_m2_05''
             (JObj [(''official_m2_05'', JBool True), (''execute'', JBool False)]) now d)
         else returnE r d))"

definition exclude ::
  "Principal \<Rightarrow> string \<Rightarrow> string \<Rightarrow> int \<Rightarrow> (intake_db, ShadowIntakeRecord \<times> bool) comp"
where
  "exclude p iid reason now =
     bindE (get_intake p iid) (\<lambda>r.
       if \<not> has_role p ''operator'' then
         raiseE (AuthorizationError ''Shadow intake exclusion requires the simulated operator role'')
       else bindE (liftE (validate_exclusion_reason reason)) (\<lambda>reason d.
         case rev (control_events (intake_id r) (principal_tenant p) ''excluded'' d) of
           existing # _ \<Rightarrow>
             if field ''reason'' (ie_payload existing) \<noteq> Some (JStr reason) then
               raiseE (ConflictError ''SHADOW_INTAKE_EXCLUSION_CONFLICT''
                         ''Intake was already excluded with a different reason code'') d
             else returnE (r, False) d
         | [] \<Rightarrow>
             returnE (r, True) (insert_intake_event r (actor_id p) ''excluded''
               (JObj [(''reason'', JStr reason), (''execute'', JBool False)]) now d)))"

definition accepted_intake_ids :: "intake_db \<Rightarrow> string set" where
  "accepted_intake_ids d =
     ie_intake_id ` set (filter (\<lambda>e. ie_event_type e = ''accepted_for_m2_05'') (intake_log d))"

text \<open>The last exclusion of each intake, in the order of the ids.\<close>

definition excluded_intake_ids :: "intake_db \<Rightarrow> (string \<times> string) list" where
  "excluded_intake_ids d =
     (let out = filter (\<lambda>e. ie_event_type e = ''excluded'') (intake_log d)
      in map (\<lambda>i. (i, case select_last (\<lambda>e. ie_intake_id e = i) out of
                         None \<Rightarrow> ''unspecified''
                       | Some e \<Rightarrow> (case get as_str ''reason'' (ie_payload e) of
                                     None \<Rightarrow> ''unspecified'' | Some s \<Rightarrow> s)))
           (sort (remdups (map ie_intake_id out))))"

subsection \<open>The service\<close>

text \<open>\<^verbatim>\<open>case.execute\<close>, the contract version and the outcome flags are literals of the types.\<close>

definition import_case ::
  "Principal \<Rightarrow> ShadowCase \<Rightarrow> bool \<Rightarrow> int \<Rightarrow> string \<Rightarrow> (intake_db, ShadowIntakeRecord \<times> bool) comp"
where
  "import_case p c execute now uuid =
     (if execute then
        raiseE (ValidationError ''SHADOW_EXECUTION_FORBIDDEN''
          ''M2 shadow intake is permanently hard-locked to execute=false'')
      else if principal_tenant p \<noteq> case_tenant_id c then raiseE NotFoundError
      else if \<not> has_role p ''operator'' then
        raiseE (AuthorizationError ''Shadow intake requires the simulated operator role'')
      else if provenance_label c \<noteq> Genuine_uat then
        raiseE (ValidationError ''SHADOW_INTAKE_PROVENANCE_INVALID''
          ''Genuine UAT intake rejects SIMULATED or uncontrolled provenance'')
      else if required_tools (minimum_evidence c) = [] then
        raiseE (ValidationError ''SHADOW_INTAKE_REQUIRED_TOOLS_INVALID''
          ''Intake cases require a non-empty required_tools set'')
      else import_or_observe p c (case_payload_hash c) now uuid)"

definition exclude_case ::
  "Principal \<Rightarrow> string \<Rightarrow> string \<Rightarrow> int \<Rightarrow> (intake_db, ShadowIntakeRecord \<times> bool) comp"
where
  "exclude_case p iid reason now =
     bindE (liftE (validate_exclusion_reason reason)) (\<lambda>reason. exclude p iid reason now)"

definition intake_principal :: "ShadowCase \<Rightarrow> Principal" where
  "intake_principal c = \<lparr>actor_id = ''shadow-intake-'' @ case_tenant_id c,
     principal_tenant = case_tenant_id c, roles = {''operator''}\<rparr>"

text \<open>The clock and the ids of the import, one of each per case.\<close>

fun import_cases ::
  "(nat \<Rightarrow> int) \<Rightarrow> (nat \<Rightarrow> string) \<Rightarrow> nat \<Rightarrow> ShadowCase list \<Rightarrow> (intake_db, (ShadowIntakeRecord \<times> bool) list) comp"
where
  "import_cases clk uuids k [] = returnE []"
| "import_cases clk uuids k (c # cs) =
     bindE (import_case (intake_principal c) c False (clk k) (uuids k)) (\<lambda>r.
     bindE (import_cases clk uuids (Suc k) cs) (\<lambda>rs. returnE (r # rs)))"

definition import_document ::
  "(nat \<Rightarrow> int) \<Rightarrow> (nat \<Rightarrow> string) \<Rightarrow> ShadowCase list \<Rightarrow> bool \<Rightarrow> (intake_db, (ShadowIntakeRecord \<times> bool) list) comp"
where
  "import_document clk uuids cases execute =
     (if execute then
        raiseE (ValidationError ''SHADOW_EXECUTION_FORBIDDEN''
          ''M2 shadow intake is permanently hard-locked to execute=false'')
      else import_cases clk uuids 0 cases)"

subsection \<open>The official count\<close>

definition OFFICIAL_M2_05_REQUIREMENT :: int where "OFFICIAL_M2_05_REQUIREMENT = 100"

definition synthetic_contribution :: "int \<Rightarrow> int result" where
  "synthetic_contribution n =
     (if n < 0 then Inl (ValueError ''Synthetic case count cannot be negative'') else Inr 0)"

definition reject_synthetic_candidate :: "ProvenanceLabel \<Rightarrow> BaselineSource \<Rightarrow> unit result" where
  "reject_synthetic_candidate pl bs =
     (if pl = Simulated_case \<or> bs = Controlled_synthetic_reference then
        Inl (RuntimeError ''Synthetic cases cannot count toward the official M2-05 total'')
      else Inr ())"

definition eligible :: "string set \<Rightarrow> string set \<Rightarrow> ShadowIntakeRecord \<Rightarrow> bool" where
  "eligible accepted excluded1 r \<longleftrightarrow>
     \<not> (in_provenance_label r = Simulated_case \<or> in_baseline_source r = Controlled_synthetic_reference
        \<or> intake_id r \<notin> accepted \<or> intake_id r \<in> excluded1
        \<or> in_provenance_label r \<noteq> Genuine_uat \<or> in_baseline_source r \<noteq> Analyst_reference)"

definition official_m2_05_records ::
  "ShadowIntakeRecord list \<Rightarrow> string set \<Rightarrow> string set \<Rightarrow> ShadowIntakeRecord list result"
where
  "official_m2_05_records records accepted excluded1 =
     (let es = filter (eligible accepted excluded1) records
      in case first_broken (\<lambda>r. reject_synthetic_candidate (in_provenance_label r) (in_baseline_source r)) es of
           Inl e \<Rightarrow> Inl e | Inr _ \<Rightarrow> Inr es)"

definition intake_manifest_entry :: "ShadowIntakeRecord \<Rightarrow> json" where
  "intake_manifest_entry r = JObj
     [(''tenant_id'', JStr (in_tenant_id r)), (''case_id'', JStr (in_case_id r)),
      (''case_version'', JStr (in_case_version r)), (''payload_sha256'', JStr (in_payload_hash r)),
      (''provenance_label'', JStr (provenance_value (in_provenance_label r))),
      (''baseline_source'', JStr (baseline_value (in_baseline_source r))),
      (''category'', JStr (in_category r))]"

definition manifest_fields :: "ShadowIntakeRecord list \<Rightarrow> (string \<times> json) list" where
  "manifest_fields records =
     (let es = map intake_manifest_entry
                 (sort_key (\<lambda>r. [in_tenant_id r, in_case_id r, in_case_version r]) records)
      in [(''document'', JStr ''m2-genuine-intake-manifest-v1''),
          (''case_count'', JInt (int (length es))), (''cases'', JList es)])"

definition genuine_intake_manifest :: "ShadowIntakeRecord list \<Rightarrow> json" where
  "genuine_intake_manifest records =
     JObj (manifest_fields records
       @ [(''manifest_sha256'', JStr (canonical_hash (JObj (manifest_fields records))))])"

end
