(* ===== verification/ShadowIntakeProperties.thy ===== *)
theory ShadowIntakeProperties
  imports ShadowIntake ShadowProcessing
begin

section \<open>What the intake of genuine cases promises\<close>

text \<open>
  Every operation changes the append-only tables by the steps of the relation \<open>intake_change\<close>. From
  these follow the invariant (one row per case identity, at most one acceptance and one exclusion of
  an intake) and the order in which the tables only grow; the official count rests on both.
\<close>

datatype intake_op =
    InImport Principal ShadowCase bool int string
  | InAccept Principal string int
  | InExclude Principal string string int
  | InDocument "nat \<Rightarrow> int" "nat \<Rightarrow> string" "ShadowCase list" bool

fun intake_step :: "intake_op \<Rightarrow> intake_db \<Rightarrow> intake_db" where
  "intake_step (InImport p c execute now uuid) d = snd (import_case p c execute now uuid d)"
| "intake_step (InAccept p iid now) d = snd (accept_for_m2_05 p iid now d)"
| "intake_step (InExclude p iid reason now) d = snd (exclude_case p iid reason now d)"
| "intake_step (InDocument clk uuids cs execute) d = snd (import_document clk uuids cs execute d)"

subsection \<open>The steps\<close>

definition exclusion :: "string \<Rightarrow> json" where
  "exclusion reason = JObj [(''reason'', JStr reason), (''execute'', JBool False)]"

inductive intake_change :: "intake_db \<Rightarrow> intake_db \<Rightarrow> bool" where
  ic_same: "intake_change d d"
| ic_noted: "r \<in> set (intakes d) \<Longrightarrow> etype \<in> {''shadow_intake_rejected'', ''shadow_intake_replayed''}
    \<Longrightarrow> intake_change d (insert_intake_event r actor etype pl now d)"
| ic_accepted: "r \<in> set (intakes d) \<Longrightarrow> control_events (intake_id r) (in_tenant_id r) ''accepted_for_m2_05'' d = []
    \<Longrightarrow> intake_change d (insert_intake_event r actor ''accepted_for_m2_05'' pl now d)"
| ic_excluded: "r \<in> set (intakes d) \<Longrightarrow> control_events (intake_id r) (in_tenant_id r) ''excluded'' d = []
    \<Longrightarrow> reason \<in> EXCLUSION_REASON_CODES
    \<Longrightarrow> intake_change d (insert_intake_event r actor ''excluded'' (exclusion reason) now d)"
| ic_imported: "intake_checks r \<Longrightarrow> in_payload_hash r = canonical_hash (in_case_json r)
    \<Longrightarrow> intake_id r \<notin> intake_id ` set (intakes d) \<Longrightarrow> (\<And>x. x \<in> set (intakes d) \<Longrightarrow> \<not> same_identity r x)
    \<Longrightarrow> intake_change d (insert_intake_event r actor ''shadow_intake_imported'' pl now (d\<lparr>intakes := intakes d @ [r]\<rparr>))"

lemma insert_intake_event_simps [simp]:
  "intakes (insert_intake_event r actor etype pl now d) = intakes d"
  "intake_log (insert_intake_event r actor etype pl now d) = intake_log d @
     [\<lparr>ie_intake_id = intake_id r, ie_tenant_id = in_tenant_id r, ie_event_type = etype,
       ie_actor_id = actor, ie_payload = pl, ie_occurred_at = now\<rparr>]"
  by (simp_all add: insert_intake_event_def)

lemma get_intake_cases:
  obtains (missing) "get_intake p iid d = (Inl NotFoundError, d)"
  | (found) r where "get_intake p iid d = (Inr r, d)" "r \<in> set (intakes d)" "intake_id r = iid"
      "in_tenant_id r = principal_tenant p"
  by (cases "select_one (intake_visible p iid) (intakes d)")
     (auto simp: get_intake_def comp_defs intake_visible_def dest!: select_one_SomeD)

lemma import_or_observe_change: "intake_change d (snd (import_or_observe p c (case_payload_hash c) now uuid d))"
proof (cases "select_one (same_identity (new_intake p c (case_payload_hash c) now uuid)) (intakes d)")
  case None
  let ?r = "new_intake p c (case_payload_hash c) now uuid"
  have "intake_id ?r = uuid" "in_payload_hash ?r = canonical_hash (in_case_json ?r)"
    by (simp_all add: new_intake_def case_payload_hash_def)
  moreover have "\<not> same_identity ?r x" if "x \<in> set (intakes d)" for x
    using None that by (simp add: select_one_None_iff)
  ultimately show ?thesis
    using None by (auto simp: import_or_observe_def Let_def raiseE_def returnE_def intro: ic_same intro!: ic_imported)
next
  case (Some x)
  then have "x \<in> set (intakes d)" by (auto dest: select_one_SomeD)
  with Some show ?thesis by (auto simp: import_or_observe_def Let_def comp_defs intro!: ic_noted)
qed

lemma import_change: "intake_change d (snd (import_case p c execute now uuid d))"
  using import_or_observe_change [of d p c now uuid]
  by (auto simp: import_case_def raiseE_def intro: ic_same)

lemma accept_change: "intake_change d (snd (accept_for_m2_05 p iid now d))"
proof (cases rule: get_intake_cases [of p iid d])
  case (found r)
  then show ?thesis
    by (auto simp: accept_for_m2_05_def comp_defs intro: ic_same intro!: ic_accepted)
qed (simp add: accept_for_m2_05_def comp_defs ic_same)

lemma exclude_change: "intake_change d (snd (exclude_case p iid reason now d))"
proof (cases rule: get_intake_cases [of p iid d])
  case (found r)
  then show ?thesis
    using ic_excluded [of r d reason "actor_id p" now]
    by (auto simp: exclude_case_def exclude_def validate_exclusion_reason_def comp_defs exclusion_def
        intro: ic_same split: list.splits)
qed (simp add: exclude_case_def exclude_def validate_exclusion_reason_def comp_defs ic_same)

lemma import_cases_change: "intake_change\<^sup>*\<^sup>* d (snd (import_cases clk uuids k cs d))"
proof (induction cs arbitrary: d k)
  case (Cons c cs)
  obtain res d1 where i: "import_case (intake_principal c) c False (clk k) (uuids k) d = (res, d1)" by force
  then have one: "intake_change d d1" using import_change [of d "intake_principal c" c False "clk k" "uuids k"] by simp
  show ?case
  proof (cases res)
    case (Inl e)
    with i one show ?thesis by (auto simp: bindE_def)
  next
    case (Inr x)
    with i have "snd (import_cases clk uuids k (c # cs) d) = snd (import_cases clk uuids (Suc k) cs d1)"
      by (auto simp: comp_defs split: prod.splits sum.splits)
    with one Cons.IH [of d1 "Suc k"] show ?thesis by (simp add: converse_rtranclp_into_rtranclp)
  qed
qed (simp add: returnE_def)

lemma step_change: "intake_change\<^sup>*\<^sup>* d (intake_step op d)"
proof (cases op)
  case (InDocument clk uuids cs execute)
  then show ?thesis using import_cases_change by (simp add: import_document_def raiseE_def)
qed (simp_all add: import_change accept_change exclude_change r_into_rtranclp)

subsection \<open>The invariant\<close>

definition once :: "string \<Rightarrow> intake_db \<Rightarrow> bool" where
  "once etype d \<longleftrightarrow> distinct (map ie_intake_id (filter (\<lambda>e. ie_event_type e = etype) (intake_log d)))"

definition intake_inv :: "intake_db \<Rightarrow> bool" where
  "intake_inv d \<longleftrightarrow> distinct (map intake_id (intakes d))
     \<and> distinct (map (\<lambda>r. (in_tenant_id r, in_case_id r, in_case_version r)) (intakes d))
     \<and> (\<forall>r \<in> set (intakes d). intake_checks r \<and> in_payload_hash r = canonical_hash (in_case_json r))
     \<and> (\<forall>e \<in> set (intake_log d). \<exists>r \<in> set (intakes d). intake_id r = ie_intake_id e \<and> in_tenant_id r = ie_tenant_id e)
     \<and> once ''accepted_for_m2_05'' d \<and> once ''excluded'' d
     \<and> (\<forall>e \<in> set (intake_log d). ie_event_type e = ''excluded'' \<longrightarrow>
          (\<exists>reason \<in> EXCLUSION_REASON_CODES. ie_payload e = exclusion reason))"

lemma intake_unique:
  "intake_inv d \<Longrightarrow> x \<in> set (intakes d) \<Longrightarrow> y \<in> set (intakes d) \<Longrightarrow> intake_id x = intake_id y \<Longrightarrow> x = y"
  by (auto simp: intake_inv_def distinct_map inj_on_def)

lemma intake_identity_unique:
  "intake_inv d \<Longrightarrow> x \<in> set (intakes d) \<Longrightarrow> y \<in> set (intakes d) \<Longrightarrow> same_identity x y \<Longrightarrow> x = y"
  by (auto simp: intake_inv_def distinct_map inj_on_def same_identity_def)

text \<open>The events of an intake are those with its id: the tenant is that of the row.\<close>

lemma control_events_by_id:
  assumes "intake_inv d" and "r \<in> set (intakes d)"
  shows "control_events (intake_id r) (in_tenant_id r) etype d
    = filter (\<lambda>e. ie_intake_id e = intake_id r \<and> ie_event_type e = etype) (intake_log d)"
proof -
  have "ie_tenant_id e = in_tenant_id r" if e: "e \<in> set (intake_log d)" "ie_intake_id e = intake_id r" for e
  proof -
    from assms(1) e obtain x where "x \<in> set (intakes d)" "intake_id x = ie_intake_id e" "in_tenant_id x = ie_tenant_id e"
      by (auto simp: intake_inv_def)
    with intake_unique [OF assms(1) this(1) assms(2)] e show ?thesis by simp
  qed
  then show ?thesis by (auto simp: control_events_def intro: filter_cong)
qed

lemma once_event:
  assumes inv: "intake_inv d" and r: "r \<in> set (intakes d)"
    and "once k d" and "etype = k \<Longrightarrow> control_events (intake_id r) (in_tenant_id r) k d = []"
  shows "once k (insert_intake_event r actor etype pl now d)"
  using assms(3,4) by (auto simp: once_def control_events_by_id [OF inv r] filter_empty_conv)

lemma intake_inv_event:
  assumes inv: "intake_inv d" and r: "r \<in> set (intakes d)"
    and "etype = ''accepted_for_m2_05'' \<Longrightarrow> control_events (intake_id r) (in_tenant_id r) etype d = []"
    and "etype = ''excluded'' \<Longrightarrow> control_events (intake_id r) (in_tenant_id r) etype d = []
        \<and> (\<exists>reason \<in> EXCLUSION_REASON_CODES. pl = exclusion reason)"
  shows "intake_inv (insert_intake_event r actor etype pl now d)"
proof -
  have "once ''accepted_for_m2_05'' (insert_intake_event r actor etype pl now d)"
    "once ''excluded'' (insert_intake_event r actor etype pl now d)"
    using inv assms(3,4) by (auto intro!: once_event [OF inv r] simp: intake_inv_def)
  with inv r assms(4) show ?thesis by (auto simp: intake_inv_def)
qed

lemma intake_change_inv: "intake_change d d' \<Longrightarrow> intake_inv d \<Longrightarrow> intake_inv d'"
proof (induction rule: intake_change.induct)
  case (ic_imported r d actor pl now)
  let ?d = "d\<lparr>intakes := intakes d @ [r]\<rparr>"
  have "intake_inv ?d"
    using ic_imported unfolding intake_inv_def once_def by (fastforce simp: same_identity_def)
  then show ?case by (rule intake_inv_event) simp_all
next
  case (ic_noted r d etype actor pl now)
  show ?case by (rule intake_inv_event) (use ic_noted in auto)
qed (auto intro: intake_inv_event)

definition intake_before :: "intake_db \<Rightarrow> intake_db \<Rightarrow> bool" where
  "intake_before d d' \<longleftrightarrow> (\<exists>rs. intakes d' = intakes d @ rs) \<and> (\<exists>es. intake_log d' = intake_log d @ es)"

lemma intake_before_trans: "intake_before d e \<Longrightarrow> intake_before e f \<Longrightarrow> intake_before d f"
  by (auto simp: intake_before_def)

lemma intake_change_before: "intake_change d d' \<Longrightarrow> intake_before d d'"
  by (induction rule: intake_change.induct) (auto simp: intake_before_def)

lemma intake_step_inv: "intake_inv d \<Longrightarrow> intake_inv (intake_step op d)"
  using step_change [of d op] by (induction rule: rtranclp_induct) (auto dest: intake_change_inv)

lemma intake_step_before: "intake_before d (intake_step op d)"
  using step_change [of d op]
proof (induction rule: rtranclp_induct)
  case base
  show ?case by (simp add: intake_before_def)
next
  case (step d' d'')
  from step.IH intake_change_before [OF step.hyps(2)] show ?case by (rule intake_before_trans)
qed

interpretation intakes: op_progress intake_step intake_inv intake_before
  by unfold_locales
     (auto intro: intake_step_inv intake_step_before intake_before_trans simp: intake_before_def [of s s for s])

definition empty_intakes :: intake_db where
  "empty_intakes = \<lparr>intakes = [], intake_log = []\<rparr>"

lemma reachable_intakes: "intake_inv (fold intake_step ops empty_intakes)"
  by (rule intakes.run_inv) (simp add: intake_inv_def empty_intakes_def once_def)


subsection \<open>A concrete intake\<close>

definition w_uat :: ShadowCase where
  "w_uat = w_case\<lparr>baseline_source := Analyst_reference, provenance_label := Genuine_uat,
     deidentification_status := Deid_owner_attested, consent_data_use_status := Consent_held_offline,
     consent_data_use_reference := Some ''OFFLINE-CONSENT-ABCDEFGH''\<rparr>"

definition w_intake :: ShadowIntakeRecord where
  "w_intake = new_intake w_shadow_op w_uat (case_payload_hash w_uat) 10 ''in-1''"

definition w_imported :: intake_db where
  "w_imported = intake_step (InImport w_shadow_op w_uat False 10 ''in-1'') empty_intakes"

lemma w_uat_fields [simp]:
  "case_id w_uat = ''CASE-1''" "case_version w_uat = ''v1''" "case_tenant_id w_uat = ''t_alpha''"
  "provenance_label w_uat = Genuine_uat" "required_tools (minimum_evidence w_uat) \<noteq> []"
  by (simp_all add: w_uat_def w_case_def)

lemma w_uat_valid: "valid_shadow_case w_uat"
  by code_simp

lemma w_intake_checks: "intake_checks w_intake"
proof -
  have "consent_reference_ok ''OFFLINE-CONSENT-ABCDEFGH''" by code_simp
  then show ?thesis
    by (simp add: intake_checks_def w_intake_def new_intake_def case_payload_hash_def is_hex64_canonical_hash
        w_uat_def w_case_def)
qed

lemma w_import: "import_case w_shadow_op w_uat False 10 ''in-1'' empty_intakes = (Inr (w_intake, True), w_imported)"
proof -
  have "has_role w_shadow_op ''operator''" "principal_tenant w_shadow_op = ''t_alpha''"
    by (simp_all add: w_shadow_op_def has_role_def)
  then show ?thesis
    using w_intake_checks
    by (simp add: w_imported_def import_case_def import_or_observe_def Let_def comp_defs empty_intakes_def w_intake_def)
qed

lemma w_imported_rows [simp]: "intakes w_imported = [w_intake]"
  using w_import w_intake_checks
  by (simp add: w_imported_def import_case_def import_or_observe_def Let_def comp_defs empty_intakes_def
      w_intake_def w_shadow_op_def has_role_def)

lemma w_intake_id [simp]: "intake_id w_intake = ''in-1''" "in_tenant_id w_intake = ''t_alpha''"
  by (simp_all add: w_intake_def new_intake_def w_shadow_op_def)

lemma w_imported_log: "control_events ''in-1'' ''t_alpha'' ''excluded'' w_imported = []"
  using w_intake_checks
  by (simp add: w_imported_def import_case_def import_or_observe_def Let_def comp_defs empty_intakes_def
      w_intake_def w_shadow_op_def has_role_def control_events_def)

definition w_excluded :: intake_db where
  "w_excluded = intake_step (InExclude w_shadow_op ''in-1'' ''participant_withdrawal'' 20) w_imported"

lemma w_exclude:
  "exclude_case w_shadow_op ''in-1'' ''participant_withdrawal'' 20 w_imported = (Inr (w_intake, True), w_excluded)"
proof -
  have "has_role w_shadow_op ''operator''" "principal_tenant w_shadow_op = ''t_alpha''"
    by (simp_all add: w_shadow_op_def has_role_def)
  then show ?thesis
    by (simp add: w_excluded_def exclude_case_def exclude_def validate_exclusion_reason_def EXCLUSION_REASON_CODES_def
        get_intake_def intake_visible_def comp_defs w_imported_log)
qed

subsection \<open>The official count\<close>

lemma accepted_iff:
  assumes "intake_inv d" and "r \<in> set (intakes d)"
  shows "intake_id r \<in> accepted_intake_ids d
    \<longleftrightarrow> control_events (intake_id r) (in_tenant_id r) ''accepted_for_m2_05'' d \<noteq> []"
  by (auto simp: control_events_by_id [OF assms] accepted_intake_ids_def filter_empty_conv intro: rev_image_eqI)

lemma excluded_iff:
  assumes "intake_inv d" and "r \<in> set (intakes d)"
  shows "intake_id r \<in> fst ` set (excluded_intake_ids d)
    \<longleftrightarrow> control_events (intake_id r) (in_tenant_id r) ''excluded'' d \<noteq> []"
  by (auto simp: control_events_by_id [OF assms] excluded_intake_ids_def Let_def filter_empty_conv image_image intro: rev_image_eqI)

lemma official_records:
  assumes "intake_inv d"
  defines "ok \<equiv> \<lambda>r. control_events (intake_id r) (in_tenant_id r) ''accepted_for_m2_05'' d \<noteq> []
      \<and> control_events (intake_id r) (in_tenant_id r) ''excluded'' d = []"
  shows "official_m2_05_records (list_all_intakes d) (accepted_intake_ids d) (fst ` set (excluded_intake_ids d))
    = Inr (filter ok (list_all_intakes d))"
proof -
  have genuine: "in_provenance_label r = Genuine_uat" "in_baseline_source r = Analyst_reference"
    if "r \<in> set (intakes d)" for r
    using assms that by (auto simp: intake_inv_def intake_checks_def)
  have all: "set (list_all_intakes d) = set (intakes d)" by (simp add: list_all_intakes_def)
  have "filter (eligible (accepted_intake_ids d) (fst ` set (excluded_intake_ids d))) (list_all_intakes d)
      = filter ok (list_all_intakes d)"
    by (rule filter_cong [OF refl])
       (simp add: all eligible_def genuine accepted_iff [OF assms(1)] excluded_iff [OF assms(1)] ok_def)
  moreover have "first_broken (\<lambda>r. reject_synthetic_candidate (in_provenance_label r) (in_baseline_source r)) rs = Inr ()"
    if "set rs \<subseteq> set (intakes d)" for rs
    using that by (induction rs) (auto simp: reject_synthetic_candidate_def genuine)
  moreover have "set (filter ok (list_all_intakes d)) \<subseteq> set (intakes d)" by (auto simp: all)
  ultimately show ?thesis by (simp add: official_m2_05_records_def Let_def)
qed

text \<open>C26. The official count is exact: after any operations, the guard against synthetic cases never
  fires and the official records are exactly the imported intakes with an acceptance and no exclusion,
  each once, in the order of tenant, case and version, all of them genuine analyst references.\<close>

theorem official_exact:
  "let d = fold intake_step ops empty_intakes in \<exists>rs.
     official_m2_05_records (list_all_intakes d) (accepted_intake_ids d) (fst ` set (excluded_intake_ids d)) = Inr rs
     \<and> set rs = {r \<in> set (intakes d). control_events (intake_id r) (in_tenant_id r) ''accepted_for_m2_05'' d \<noteq> []
          \<and> control_events (intake_id r) (in_tenant_id r) ''excluded'' d = []}
     \<and> distinct (map intake_id rs) \<and> sorted (map (\<lambda>r. [in_tenant_id r, in_case_id r, in_case_version r]) rs)
     \<and> in_provenance_label ` set rs \<subseteq> {Genuine_uat} \<and> in_baseline_source ` set rs \<subseteq> {Analyst_reference}"
proof -
  let ?d = "fold intake_step ops empty_intakes"
  let ?P = "\<lambda>r. control_events (intake_id r) (in_tenant_id r) ''accepted_for_m2_05'' ?d \<noteq> []
      \<and> control_events (intake_id r) (in_tenant_id r) ''excluded'' ?d = []"
  let ?rs = "filter ?P (list_all_intakes ?d)"
  note inv = reachable_intakes [of ops]
  have "distinct (map intake_id (list_all_intakes ?d))"
    using inv by (simp add: list_all_intakes_def intake_inv_def distinct_map)
  then have "distinct (map intake_id ?rs)" by (rule distinct_map_filter)
  moreover have "sorted (map (\<lambda>r. [in_tenant_id r, in_case_id r, in_case_version r]) ?rs)"
    by (simp add: list_all_intakes_def sorted_filter)
  ultimately show ?thesis
    using official_records [OF inv] inv
    by (auto simp: Let_def list_all_intakes_def intake_inv_def intake_checks_def)
qed


subsection \<open>Exclusion\<close>

lemma once_only:
  assumes "once etype d" and "e \<in> set (intake_log d)" "ie_event_type e = etype"
  shows "filter (\<lambda>x. ie_intake_id x = ie_intake_id e \<and> ie_event_type x = etype) (intake_log d) = [e]"
proof -
  let ?es = "filter (\<lambda>x. ie_event_type x = etype) (intake_log d)"
  have e: "e \<in> set ?es" and k: "distinct (map ie_intake_id ?es)" using assms by (simp_all add: once_def)
  have "filter (\<lambda>x. ie_intake_id x = ie_intake_id e) ?es = filter (\<lambda>x. x = e) ?es"
    using k e by (intro filter_cong) (auto simp: distinct_map inj_on_def)
  also have "\<dots> = [e]"
    using k e by (intro filter_only) (simp_all add: distinct_map)
  finally show ?thesis by (simp add: conj_commute)
qed

lemma select_last_only: "filter P xs = [x] \<Longrightarrow> select_last P xs = Some x"
proof (cases "select_last P xs")
  case None
  moreover assume "filter P xs = [x]"
  then have "x \<in> set (filter P xs)" by simp
  ultimately show ?thesis by (auto simp: select_last_None_iff)
next
  case (Some y)
  moreover assume "filter P xs = [x]"
  moreover have "y \<in> set (filter P xs)" using Some by (auto dest: select_last_SomeD)
  ultimately show ?thesis by simp
qed

lemma excludes:
  assumes inv: "intake_inv d" and run: "exclude_case p iid reason now d = (Inr (r, created), d')"
  obtains e where "r \<in> set (intakes d)" and "intake_id r = iid" and "in_tenant_id r = principal_tenant p"
    and "reason \<in> EXCLUSION_REASON_CODES" and "e \<in> set (intake_log d')" and "ie_event_type e = ''excluded''"
    and "ie_intake_id e = iid" and "ie_payload e = exclusion reason" and "intakes d' = intakes d"
    and "intake_inv d'"
proof -
  have inv': "intake_inv d'"
    using intake_change_inv [OF exclude_change inv, of p iid reason now] run by simp
  have reason: "reason \<in> EXCLUSION_REASON_CODES"
    using run by (auto simp: exclude_case_def validate_exclusion_reason_def comp_defs split: if_splits)
  show thesis
  proof (cases rule: get_intake_cases [of p iid d])
    case missing
    with run reason show thesis
      by (simp add: exclude_case_def exclude_def validate_exclusion_reason_def comp_defs)
  next
    case (found x)
    note eqs = exclude_case_def exclude_def validate_exclusion_reason_def comp_defs
    show thesis
    proof (cases "rev (control_events iid (principal_tenant p) ''excluded'' d)")
      case Nil
      with run reason found show thesis
        by (intro that [of "\<lparr>ie_intake_id = iid, ie_tenant_id = in_tenant_id r, ie_event_type = ''excluded'',
             ie_actor_id = actor_id p, ie_payload = exclusion reason, ie_occurred_at = now\<rparr>"])
           (auto simp: eqs exclusion_def inv' split: if_splits)
    next
      case (Cons e es)
      then have "e \<in> set (control_events iid (principal_tenant p) ''excluded'' d)"
        by (metis list.set_intros(1) set_rev)
      then have e: "e \<in> set (intake_log d)" "ie_intake_id e = iid" "ie_event_type e = ''excluded''"
        by (auto simp: control_events_def)
      with inv obtain s where s: "ie_payload e = exclusion s" by (auto simp: intake_inv_def)
      with run reason found Cons have "r = x" "d' = d" "s = reason"
        by (auto simp: eqs exclusion_def split: if_splits)
      with e s found reason inv show thesis by (intro that [of e]) simp_all
    qed
  qed
qed

lemma excluded_listed:
  assumes "intake_inv d" and "e \<in> set (intake_log d)" "ie_event_type e = ''excluded''" "ie_payload e = exclusion reason"
  shows "(ie_intake_id e, reason) \<in> set (excluded_intake_ids d)"
proof -
  let ?out = "filter (\<lambda>e. ie_event_type e = ''excluded'') (intake_log d)"
  have "once ''excluded'' d" using assms(1) by (simp add: intake_inv_def)
  from once_only [OF this assms(2,3)] have "filter (\<lambda>x. ie_intake_id x = ie_intake_id e) ?out = [e]"
    by (simp add: conj_commute)
  then have "select_last (\<lambda>x. ie_intake_id x = ie_intake_id e) ?out = Some e"
    by (rule select_last_only)
  then show ?thesis
    using assms(2-4) by (auto simp: excluded_intake_ids_def Let_def exclusion_def get_def image_iff)
qed

lemma intake_rows_stay:
  assumes "intake_inv d" and "r \<in> set (intakes d)"
  shows "r \<in> set (intakes (fold intake_step ops d))"
  using intakes.run_before [OF assms(1), of ops] assms(2) by (auto simp: intake_before_def)

lemma intake_log_stays:
  assumes "intake_inv d" and "e \<in> set (intake_log d)"
  shows "e \<in> set (intake_log (fold intake_step ops d))"
  using intakes.run_before [OF assms(1), of ops] assms(2) by (auto simp: intake_before_def)

lemma get_own_intake:
  assumes "intake_inv d" and "r \<in> set (intakes d)" and "in_tenant_id r = principal_tenant q"
  shows "get_intake q (intake_id r) d = (Inr r, d)"
proof (cases rule: get_intake_cases [of q "intake_id r" d])
  case missing
  with assms(2,3) show ?thesis
    by (auto simp: get_intake_def comp_defs select_one_None_iff intake_visible_def split: option.splits)
next
  case (found x)
  with intake_unique [OF assms(1) found(2) assms(2)] show ?thesis by simp
qed

lemma exclude_again:
  assumes inv: "intake_inv d" and r: "r \<in> set (intakes d)" "in_tenant_id r = principal_tenant q"
    and op: "has_role q ''operator''"
    and e: "e \<in> set (intake_log d)" "ie_event_type e = ''excluded''" "ie_intake_id e = intake_id r"
      "ie_payload e = exclusion reason"
  shows "exclude_case q (intake_id r) reason2 now2 d =
      (if reason2 \<notin> EXCLUSION_REASON_CODES then
         (Inl (ValidationError ''SHADOW_INTAKE_EXCLUSION_REASON_INVALID''
            ''Exclusion reason must be an allow-listed non-identifying reason code''), d)
       else if reason2 = reason then (Inr (r, False), d)
       else (Inl (ConflictError ''SHADOW_INTAKE_EXCLUSION_CONFLICT''
            ''Intake was already excluded with a different reason code''), d))"
proof -
  have "once ''excluded'' d" using inv by (simp add: intake_inv_def)
  from once_only [OF this e(1,2)] have only: "control_events (intake_id r) (principal_tenant q) ''excluded'' d = [e]"
    using control_events_by_id [OF inv r(1)] e(3) r(2) by simp
  show ?thesis
    using op
    by (auto simp: exclude_case_def exclude_def validate_exclusion_reason_def comp_defs
        get_own_intake [OF inv r] only e(4) exclusion_def)
qed

text \<open>C28. An exclusion is permanent. Once an intake is excluded for a reason, whatever operations
  follow (a later acceptance included), the report lists it as excluded for that reason and the
  official count leaves it out; excluding it again changes nothing: the same reason is observed, any
  other is refused.\<close>

theorem exclusion_permanent:
  assumes "exclude_case p iid reason now (fold intake_step ops empty_intakes) = (Inr (r, created), d1)"
    and "has_role q ''operator''" and "principal_tenant q = principal_tenant p"
  shows "let d2 = fold intake_step later d1 in
     (iid, reason) \<in> set (excluded_intake_ids d2) \<and> iid \<in> intake_id ` set (intakes d2)
     \<and> (\<exists>rs. official_m2_05_records (list_all_intakes d2) (accepted_intake_ids d2)
               (fst ` set (excluded_intake_ids d2)) = Inr rs \<and> iid \<notin> intake_id ` set rs)
     \<and> exclude_case q iid reason2 now2 d2 =
      (if reason2 \<notin> EXCLUSION_REASON_CODES then
         (Inl (ValidationError ''SHADOW_INTAKE_EXCLUSION_REASON_INVALID''
            ''Exclusion reason must be an allow-listed non-identifying reason code''), d2)
       else if reason2 = reason then (Inr (r, False), d2)
       else (Inl (ConflictError ''SHADOW_INTAKE_EXCLUSION_CONFLICT''
            ''Intake was already excluded with a different reason code''), d2))"
proof -
  let ?d2 = "fold intake_step later d1"
  from excludes [OF reachable_intakes assms(1)] obtain e where
    r: "r \<in> set (intakes d1)" "intake_id r = iid" "in_tenant_id r = principal_tenant q" and
    e: "e \<in> set (intake_log d1)" "ie_event_type e = ''excluded''" "ie_intake_id e = iid" "ie_payload e = exclusion reason"
    and inv1: "intake_inv d1" using assms(3) by metis
  have inv: "intake_inv ?d2" by (rule intakes.run_inv) (rule inv1)
  have r2: "r \<in> set (intakes ?d2)" by (rule intake_rows_stay [OF inv1 r(1)])
  have e2: "e \<in> set (intake_log ?d2)" by (rule intake_log_stays [OF inv1 e(1)])
  have listed: "(iid, reason) \<in> set (excluded_intake_ids ?d2)"
    using excluded_listed [OF inv e2 e(2,4)] e(3) by simp
  have "control_events (intake_id x) (in_tenant_id x) ''excluded'' ?d2 \<noteq> []"
    if "x \<in> set (intakes ?d2)" "intake_id x = iid" for x
    using excluded_iff [OF inv that(1)] that(2) listed by (force simp: image_iff)
  then have "\<exists>rs. official_m2_05_records (list_all_intakes ?d2) (accepted_intake_ids ?d2)
      (fst ` set (excluded_intake_ids ?d2)) = Inr rs \<and> iid \<notin> intake_id ` set rs"
    using official_records [OF inv] by (auto simp: list_all_intakes_def)
  with listed r2 r(2) exclude_again [OF inv r2 r(3) assms(2) e2 e(2) _ e(4)] e(3) show ?thesis
    by (auto simp: Let_def)
qed

theorem exclusion_permanent_witness:
  "let d2 = fold intake_step [InAccept w_shadow_op ''in-1'' 30] w_excluded in
     (''in-1'', ''participant_withdrawal'') \<in> set (excluded_intake_ids d2) \<and> ''in-1'' \<in> intake_id ` set (intakes d2)
     \<and> (\<exists>rs. official_m2_05_records (list_all_intakes d2) (accepted_intake_ids d2)
               (fst ` set (excluded_intake_ids d2)) = Inr rs \<and> ''in-1'' \<notin> intake_id ` set rs)
     \<and> exclude_case w_shadow_op ''in-1'' ''owner_data_quality_exclusion'' 40 d2 =
      (if ''owner_data_quality_exclusion'' \<notin> EXCLUSION_REASON_CODES then
         (Inl (ValidationError ''SHADOW_INTAKE_EXCLUSION_REASON_INVALID''
            ''Exclusion reason must be an allow-listed non-identifying reason code''), d2)
       else if ''owner_data_quality_exclusion'' = ''participant_withdrawal'' then (Inr (w_intake, False), d2)
       else (Inl (ConflictError ''SHADOW_INTAKE_EXCLUSION_CONFLICT''
            ''Intake was already excluded with a different reason code''), d2))"
proof (rule exclusion_permanent [where ops = "[InImport w_shadow_op w_uat False 10 ''in-1'']", OF _ _ refl])
  show "exclude_case w_shadow_op ''in-1'' ''participant_withdrawal'' 20
      (fold intake_step [InImport w_shadow_op w_uat False 10 ''in-1''] empty_intakes) = (Inr (w_intake, True), w_excluded)"
    using w_exclude by (simp add: w_imported_def)
qed (simp add: w_shadow_op_def has_role_def)

text \<open>C30. An import is idempotent. Once a case is imported, whatever operations follow, importing a case
  with the same identity again adds no row: the same content gives the stored row and a logged replay,
  any other content is refused and the refusal is logged.\<close>

theorem import_idempotent:
  assumes "import_case p c False now uuid (fold intake_step ops empty_intakes) = (Inr (r, created), d1)"
    and "has_role q ''operator''" and "principal_tenant q = principal_tenant p"
    and "case_id c2 = case_id c" "case_version c2 = case_version c" "case_tenant_id c2 = case_tenant_id c"
    and "provenance_label c2 = Genuine_uat" "required_tools (minimum_evidence c2) \<noteq> []"
  shows "let d2 = fold intake_step later d1 in
     in_payload_hash r = case_payload_hash c
     \<and> filter (\<lambda>x. same_identity r x) (intakes d2) = [r]
     \<and> import_case q c2 False now2 uuid2 d2 =
       (if case_payload_hash c2 = case_payload_hash c then
          (Inr (r, False), insert_intake_event r (actor_id q) ''shadow_intake_replayed''
             (JObj [(''payload_hash'', JStr (case_payload_hash c2)), (''execute'', JBool False)]) now2 d2)
        else
          (Inl (ConflictError ''SHADOW_INTAKE_CONFLICT'' ''Case identity was already imported with a different payload''),
           insert_intake_event r (actor_id q) ''shadow_intake_rejected''
             (JObj [(''code'', JStr ''SHADOW_INTAKE_CONFLICT'')]) now2 d2))"
proof -
  let ?d = "fold intake_step ops empty_intakes" and ?d2 = "fold intake_step later d1"
  let ?n = "new_intake p c (case_payload_hash c) now uuid"
  have inv1: "intake_inv d1"
    using intake_change_inv [OF import_change reachable_intakes] assms(1) by (metis snd_conv)
  have inv: "intake_inv ?d2" by (rule intakes.run_inv) (rule inv1)
  have tenant: "principal_tenant p = case_tenant_id c"
    and run: "import_or_observe p c (case_payload_hash c) now uuid ?d = (Inr (r, created), d1)"
    using assms(1) by (auto simp: import_case_def raiseE_def split: if_splits)
  have r: "r \<in> set (intakes d1)" "same_identity ?n r" "in_payload_hash r = case_payload_hash c"
  proof -
    have "r \<in> set (intakes d1) \<and> same_identity ?n r \<and> in_payload_hash r = case_payload_hash c"
    proof (cases "select_one (same_identity ?n) (intakes ?d)")
      case None
      with run show ?thesis
        by (auto simp: import_or_observe_def Let_def comp_defs split: if_splits)
           (simp_all add: same_identity_def new_intake_def)
    next
      case (Some x)
      with run select_one_SomeD [OF Some] show ?thesis
        by (auto simp: import_or_observe_def Let_def comp_defs split: if_splits)
    qed
    then show "r \<in> set (intakes d1)" "same_identity ?n r" "in_payload_hash r = case_payload_hash c" by simp_all
  qed
  have r2: "r \<in> set (intakes ?d2)" by (rule intake_rows_stay [OF inv1 r(1)])
  have same: "same_identity (new_intake q c2 h now2 uuid2) x \<longleftrightarrow> same_identity r x" for h x
    using r(2) assms(3-5) by (auto simp: same_identity_def new_intake_def)
  have "filter (same_identity r) (intakes ?d2) = filter (\<lambda>x. x = r) (intakes ?d2)"
    using intake_identity_unique [OF inv r2] by (intro filter_cong) (auto simp: same_identity_def)
  also have "\<dots> = [r]"
    using inv r2 by (intro filter_only) (simp_all add: intake_inv_def distinct_map)
  finally have only: "filter (same_identity r) (intakes ?d2) = [r]" .
  have "select_one (same_identity (new_intake q c2 h now2 uuid2)) (intakes ?d2) = Some r" for h
  proof (cases "select_one (same_identity (new_intake q c2 h now2 uuid2)) (intakes ?d2)")
    case None
    then have "\<not> same_identity r r" using r2 by (simp add: select_one_None_iff same)
    then show ?thesis by (simp add: same_identity_def)
  next
    case (Some x)
    then have "x \<in> set (intakes ?d2)" "same_identity r x" by (auto simp: same dest!: select_one_SomeD)
    with intake_identity_unique [OF inv r2] Some show ?thesis by metis
  qed
  then show ?thesis
    using assms(2,3,6-8) tenant r(3) only
    by (simp add: Let_def import_case_def import_or_observe_def comp_defs)
qed

theorem import_idempotent_witness:
  "let d2 = fold intake_step [InAccept w_shadow_op ''in-1'' 30] w_imported in
     in_payload_hash w_intake = case_payload_hash w_uat
     \<and> filter (\<lambda>x. same_identity w_intake x) (intakes d2) = [w_intake]
     \<and> import_case w_shadow_op (w_uat\<lparr>category := ''other''\<rparr>) False 50 ''in-2'' d2 =
       (if case_payload_hash (w_uat\<lparr>category := ''other''\<rparr>) = case_payload_hash w_uat then
          (Inr (w_intake, False), insert_intake_event w_intake (actor_id w_shadow_op) ''shadow_intake_replayed''
             (JObj [(''payload_hash'', JStr (case_payload_hash (w_uat\<lparr>category := ''other''\<rparr>))), (''execute'', JBool False)]) 50 d2)
        else
          (Inl (ConflictError ''SHADOW_INTAKE_CONFLICT'' ''Case identity was already imported with a different payload''),
           insert_intake_event w_intake (actor_id w_shadow_op) ''shadow_intake_rejected''
             (JObj [(''code'', JStr ''SHADOW_INTAKE_CONFLICT'')]) 50 d2))"
proof (rule import_idempotent [where ops = "[]", OF _ _ refl])
  show "import_case w_shadow_op w_uat False 10 ''in-1'' (fold intake_step [] empty_intakes)
      = (Inr (w_intake, True), w_imported)"
    using w_import by simp
qed (simp_all add: w_shadow_op_def has_role_def)

end
