(* ===== verification/ShadowReport.thy ===== *)
theory ShadowReport
  imports PyValues ShadowService ShadowIntake
begin

section \<open>Case packs and the reports on them\<close>

text \<open>
  \<^verbatim>\<open>shadow/cases.py\<close>: a pack is loaded only under the hash its manifest names.
  \<^verbatim>\<open>shadow/report.py\<close>: the aggregate report of a pilot.
  \<^verbatim>\<open>shadow/collection.py\<close>: the readiness report over the pack and the genuine intakes.
  Files are arguments: the JSON the library reads from one, the pack it decodes from one (before
  the validators), and the SHA-256 of its bytes. The reports are the JSON values the code builds.
\<close>

subsection \<open>Loading a pack\<close>

record LoadedCasePack =
  pack :: ShadowCasePack
  cases_sha256 :: string
  manifest_sha256 :: string

text \<open>\<^verbatim>\<open>set(manifest)\<close>: the keys of an object, the members of an array, the
  characters of a text; anything else cannot be iterated.\<close>

definition iterated :: "json \<Rightarrow> json set result" where
  "iterated j = (case j of
     JObj kvs \<Rightarrow> Inr (JStr ` fst ` set kvs)
   | JList js \<Rightarrow> (if list_ex (\<lambda>x. case x of JObj _ \<Rightarrow> True | JList _ \<Rightarrow> True | _ \<Rightarrow> False) js
                  then Inl (TypeError ''unhashable type'') else Inr (set js))
   | JStr s \<Rightarrow> Inr ((\<lambda>c. JStr [c]) ` set s)
   | _ \<Rightarrow> Inl (TypeError ''object is not iterable''))"

definition load_case_pack ::
  "json \<Rightarrow> string \<Rightarrow> ShadowCasePack option \<Rightarrow> string \<Rightarrow> LoadedCasePack result"
where
  "load_case_pack manifest manifest_hash decoded cases_hash =
     and_then (iterated manifest) (\<lambda>ks.
       if ks \<noteq> {JStr ''case_pack_version'', JStr ''files''} then
         Inl (ValueError ''Shadow case manifest has unexpected fields'')
       else (case manifest of
         JObj _ \<Rightarrow>
           if field ''files'' manifest \<noteq> Some (JObj [(''cases.json'', JStr cases_hash)]) then
             Inl (ValueError ''Shadow case manifest hash does not match cases.json'')
           else (case decoded of
             None \<Rightarrow> Inl PydanticValidationError
           | Some p \<Rightarrow>
               if \<not> valid_case_pack p then Inl PydanticValidationError
               else if field ''case_pack_version'' manifest \<noteq> Some (JStr (case_pack_version p)) then
                 Inl (ValueError ''Shadow case pack version does not match its manifest'')
               else Inr \<lparr>pack = p, cases_sha256 = cases_hash, manifest_sha256 = manifest_hash\<rparr>)
       | _ \<Rightarrow> Inl (TypeError ''list indices must be integers or slices, not str'')))"

subsection \<open>What the reports count\<close>

definition shadow_result_dump :: "ShadowResult \<Rightarrow> json" where
  "shadow_result_dump r = JObj
     [(''shadow_run_id'', JStr (res_shadow_run_id r)),
      (''investigation_run_id'', JStr (res_investigation_run_id r)),
      (''case_id'', JStr (res_case_id r)), (''case_version'', JStr (res_case_version r)),
      (''case_pack_version'', JStr (res_case_pack_version r)), (''tenant_id'', JStr (res_tenant_id r)),
      (''processor_version'', JStr (res_processor_version r)),
      (''prompt_version'', JStr (res_prompt_version r)),
      (''tool_schema_version'', JStr TOOL_SCHEMA_VERSION),
      (''provenance_label'', JStr (provenance_value (res_provenance_label r))),
      (''baseline_source'', JStr (baseline_value (res_baseline_source r))),
      (''output_hash'', JStr (res_output_hash r)), (''diff_hash'', JStr (res_diff_hash r)),
      (''actual'', actual_dump (res_actual r)), (''comparison'', comparison_dump (res_comparison r)),
      (''idempotent_replay'', JBool (res_idempotent_replay r))]"

text \<open>\<^verbatim>\<open>next(entry ... if entry.field_name == "escalated")\<close> has no default.\<close>

definition escalation_entry :: "ShadowResult \<Rightarrow> ShadowDiffEntry result" where
  "escalation_entry r =
     (case List.find (\<lambda>e. field_name e = ''escalated'') (entries (res_comparison r)) of
        None \<Rightarrow> Inl StopIteration | Some e \<Rightarrow> Inr e)"

definition escalation_agrees :: "ShadowResult \<Rightarrow> bool" where
  "escalation_agrees r = (case escalation_entry r of Inl _ \<Rightarrow> False | Inr e \<Rightarrow> agreement e = Exact)"

definition exact_result :: "ShadowResult \<Rightarrow> bool" where
  "exact_result r = exact_agreement (res_comparison r)"

definition partial_result :: "ShadowResult \<Rightarrow> bool" where
  "partial_result r \<longleftrightarrow> \<not> exact_agreement (res_comparison r)
     \<and> list_ex (\<lambda>e. agreement e = Exact) (entries (res_comparison r))"

definition all_categories :: "ShadowResult list \<Rightarrow> string list" where
  "all_categories rs = concat (map (\<lambda>r. disagreement_categories (res_comparison r)) rs)"

definition unsupported_total :: "ShadowResult list \<Rightarrow> int" where
  "unsupported_total rs = sum_list (map (\<lambda>r. cmp_unsupported_citation_count (res_comparison r)) rs)"

definition missing_total :: "ShadowResult list \<Rightarrow> int" where
  "missing_total rs = sum_list (map (\<lambda>r. cmp_missing_required_count (res_comparison r)) rs)"

subsection \<open>The aggregate report\<close>

text \<open>A dictionary keyed by id and version keeps the last case of a key.\<close>

definition case_of :: "LoadedCasePack \<Rightarrow> ShadowResult \<Rightarrow> ShadowCase result" where
  "case_of loaded r =
     (case select_last (\<lambda>c. case_id c = res_case_id r \<and> case_version c = res_case_version r)
             (pack_cases (pack loaded)) of
        None \<Rightarrow> Inl (KeyError (''('' @ repr_text (res_case_id r) @ '', '' @ repr_text (res_case_version r) @ '')''))
      | Some c \<Rightarrow> Inr c)"

fun per_case :: "LoadedCasePack \<Rightarrow> ShadowResult list \<Rightarrow> (ShadowCase \<times> json) list result" where
  "per_case loaded [] = Inr []"
| "per_case loaded (r # rs) =
     and_then (case_of loaded r) (\<lambda>c.
     and_then (escalation_entry r) (\<lambda>_.
     and_then (per_case loaded rs) (\<lambda>items.
       Inr ((c, JObj [(''category'', JStr (category c)),
                      (''case_payload_sha256'', JStr (canonical_hash (case_dump c))),
                      (''result'', shadow_result_dump r)]) # items))))"

definition mean_coverage :: "ShadowResult list \<Rightarrow> rat" where
  "mean_coverage rs =
     (if rs = [] then 0
      else fl (foldl (\<lambda>s r. fl (s + cmp_citation_coverage (res_comparison r))) 0 rs / of_nat (length rs)))"

definition latencies :: "ShadowResult list \<Rightarrow> rat list" where
  "latencies rs = map (\<lambda>r. act_latency_ms (res_actual r)) rs"

definition pilot_status :: json where
  "pilot_status = JObj
     [(''M2-01'', JStr ''merged engineering foundation (PR #18)''),
      (''M2-02'', JStr ''merged engineering foundation (PR #18)''),
      (''M2-03'', dashed ''PENDING '' '' no users recruited''),
      (''M2-04'', dashed ''PENDING '' '' no SLO alerts''),
      (''M2-05'', dashed ''PENDING '' '' no first 100 genuine shadow cases''),
      (''M2-06'', dashed ''PENDING '' '' no G1 exit report or verdict'')]"

definition pilot_metrics :: "ShadowResult list \<Rightarrow> json" where
  "pilot_metrics rs = JObj
     [(''case_count'', JInt (int (length rs))),
      (''exact_agreements'', JInt (count_where exact_result rs)),
      (''partial_agreements'', JInt (count_where partial_result rs)),
      (''disagreements'', JInt (int (length rs) - count_where exact_result rs)),
      (''escalation_agreements'', JInt (count_where escalation_agrees rs)),
      (''citation_coverage'', JFloat (mean_coverage rs)),
      (''unsupported_claim_count'', JInt (unsupported_total rs)),
      (''missing_required_evidence_count'', JInt (missing_total rs)),
      (''latency_ms'', JObj
         [(''minimum'', JFloat (py_min (latencies rs))),
          (''average'', JFloat (if rs = [] then 0 else fl (py_sum (latencies rs) / of_nat (length rs)))),
          (''maximum'', JFloat (py_max (latencies rs))),
          (''label'', JStr ''SIMULATED deterministic-provider metadata'')]),
      (''disagreement_categories'', counter (all_categories rs)),
      (''field_disagreements'', counter (concat (map (\<lambda>r.
          map field_name (filter (\<lambda>e. agreement e \<noteq> Exact) (entries (res_comparison r)))) rs)))]"

text \<open>\<^verbatim>\<open>external_action_count\<close> of an outcome is the literal 0, and so is the sum.\<close>

definition pilot_controls :: json where
  "pilot_controls = JObj
     [(''provider'', JStr ''deterministic-stub-v1''), (''execute'', JBool False),
      (''external_action_count'', JInt 0),
      (''openai_calls'', JObj [(''count'', JInt 0),
         (''label'', dashed ''CODE/CONFIGURATION EVIDENCE '' '' not network telemetry'')]),
      (''aws_resources_used'', JObj [(''count'', JInt 0),
         (''label'', dashed ''TASK-SCOPE EVIDENCE '' '' no AWS command or integration path'')])]"

definition aggregate_report ::
  "ShadowResult list \<Rightarrow> LoadedCasePack \<Rightarrow> string \<Rightarrow> datetime \<Rightarrow> json \<Rightarrow> json result"
where
  "aggregate_report rs loaded git_sha generated_at test_evidence =
     and_then (per_case loaded rs) (\<lambda>items. Inr (JObj
       [(''title'', dashed ''M2 SHADOW FOUNDATION '' '' SIMULATED ENGINEERING REHEARSAL''),
        (''evidence_label'', JStr ''SIMULATED''),
        (''claim_boundary'', JStr (''Controlled-synthetic deterministic engineering rehearsal only; not analyst ''
           @ ''agreement, model quality, UAT, production operation, or G1 exit evidence.'')),
        (''exact_git_sha'', JStr git_sha), (''generated_at'', JStr (isoformat generated_at)),
        (''case_pack'', JObj
           [(''version'', JStr (case_pack_version (pack loaded))),
            (''cases_sha256'', JStr (cases_sha256 loaded)),
            (''manifest_sha256'', JStr (manifest_sha256 loaded)),
            (''case_count'', JInt (int (length rs))),
            (''categories'', counter (map (category \<circ> fst) items)),
            (''baseline_source'', JStr ''controlled_synthetic_reference''),
            (''provenance_label'', JStr ''SIMULATED'')]),
        (''controls'', pilot_controls), (''metrics'', pilot_metrics rs),
        (''test_evidence'', test_evidence),
        (''limitations'', JList (map JStr
           [''All cases and reference outcomes are controlled synthetic fixtures.'',
            ''No genuine analyst decisions, UAT users, live stockout cases, or model call exist.'',
            ''Synthetic agreement cannot establish reasoning quality or operational reliability.'',
            ''missing_required_evidence_count uses each case's required_tools set; see evaluation/shadow/METRICS.md.'',
            ''M2-04 SLO alerts are pending; no SLO compliance is claimed.''])),
        (''m2_status'', pilot_status), (''cases'', JList (map snd items))]))"

end
