(* ===== verification/ShadowCollection.thy ===== *)
theory ShadowCollection
  imports ShadowReport
begin

section \<open>The readiness report (\<^verbatim>\<open>shadow/collection.py\<close>)\<close>

text \<open>
  The report on the first hundred genuine cases, over a loaded pack, the imported intakes and the
  results. Optional lists default to the empty list; the exclusions are a dictionary from intake to
  reason.
\<close>

definition agreement_stats :: "ShadowResult list \<Rightarrow> (string \<times> json) list result" where
  "agreement_stats rs =
     (if rs = [] then Inr
        [(''case_count'', JInt 0), (''exact_agreements'', JInt 0), (''partial_agreements'', JInt 0),
         (''disagreements'', JInt 0), (''escalation_agreements'', JInt 0),
         (''unsupported_claim_count'', JInt 0), (''missing_required_evidence_count'', JInt 0),
         (''disagreement_categories'', JObj []), (''status'', JStr ''UNMEASURED'')]
      else and_then (first_broken (\<lambda>r. and_then (escalation_entry r) (\<lambda>_. Inr ())) rs) (\<lambda>_. Inr
        [(''case_count'', JInt (int (length rs))),
         (''exact_agreements'', JInt (count_where exact_result rs)),
         (''partial_agreements'', JInt (count_where partial_result rs)),
         (''disagreements'', JInt (int (length rs) - count_where exact_result rs)),
         (''escalation_agreements'', JInt (count_where escalation_agrees rs)),
         (''unsupported_claim_count'', JInt (unsupported_total rs)),
         (''missing_required_evidence_count'', JInt (missing_total rs)),
         (''disagreement_categories'', counter (all_categories rs)), (''status'', JStr ''SIMULATED'')]))"

text \<open>A counter to which a count is added, so that the key is there even for nothing.\<close>

definition counter_plus :: "string \<Rightarrow> nat \<Rightarrow> string list \<Rightarrow> json" where
  "counter_plus k n xs =
     (let ys = xs @ replicate n k
      in JObj (map (\<lambda>x. (x, JInt (int (count_list ys x)))) (sort (remdups (k # ys)))))"

definition pack_audit :: "ShadowCase \<Rightarrow> json" where
  "pack_audit c = JObj
     [(''collection_class'', JStr ''SIMULATED''), (''case_id'', JStr (case_id c)),
      (''case_version'', JStr (case_version c)), (''tenant_id'', JStr (case_tenant_id c)),
      (''provenance_label'', JStr (provenance_value (provenance_label c))),
      (''baseline_source'', JStr (baseline_value (baseline_source c))),
      (''source'', JStr ''controlled_synthetic_pack''), (''official_m2_05_eligible'', JBool False)]"

definition intake_audit :: "ShadowIntakeRecord list \<Rightarrow> ShadowIntakeRecord \<Rightarrow> json" where
  "intake_audit official r = JObj
     [(''collection_class'', JStr ''GENUINE_UAT_ANALYST_LABELLED''), (''case_id'', JStr (in_case_id r)),
      (''case_version'', JStr (in_case_version r)), (''tenant_id'', JStr (in_tenant_id r)),
      (''intake_id'', JStr (intake_id r)), (''payload_sha256'', JStr (in_payload_hash r)),
      (''provenance_label'', JStr (provenance_value (in_provenance_label r))),
      (''baseline_source'', JStr (baseline_value (in_baseline_source r))),
      (''source'', JStr ''owner_approved_uat_import''),
      (''official_m2_05_eligible'', JBool (intake_id r \<in> intake_id ` set official))]"

definition overlap :: "LoadedCasePack \<Rightarrow> ShadowIntakeRecord list \<Rightarrow> bool" where
  "overlap loaded official \<longleftrightarrow>
     list_ex (\<lambda>c. provenance_label c = Simulated_case) (pack_cases (pack loaded)) \<and> official \<noteq> []
     \<and> list_ex (\<lambda>r. (in_case_id r, in_case_version r)
                 \<in> (\<lambda>c. (case_id c, case_version c)) ` set (pack_cases (pack loaded))) official"

definition COLLECTION_TITLE :: json where
  "COLLECTION_TITLE = dashed ''M2 FIRST-100 READINESS '' '' SIMULATED TOOLING REHEARSAL''"

definition cumulative ::
  "LoadedCasePack \<Rightarrow> ShadowIntakeRecord list \<Rightarrow> (string \<times> string) list \<Rightarrow> int \<Rightarrow> json"
where
  "cumulative loaded records excluded1 official_count =
     (let cs = pack_cases (pack loaded)
      in JObj
        [(''simulated_case_count'', JInt (int (length cs))),
         (''genuine_imported_count'', JInt (int (length records))),
         (''analyst_reference_coverage'', JInt (count_where (\<lambda>r. in_baseline_source r = Analyst_reference) records)),
         (''accepted_for_m2_05_count'', JInt official_count),
         (''excluded_count'', JInt (int (length excluded1))), (''invalid_case_count'', JInt 0),
         (''provenance_counts'', counter_plus ''SIMULATED'' (length cs)
            (map (provenance_value \<circ> in_provenance_label) records)),
         (''category_distribution'', counter (map category cs @ map in_category records)),
         (''exclusion_reasons'', counter (map snd excluded1))])"

definition official_section :: "LoadedCasePack \<Rightarrow> int \<Rightarrow> json result" where
  "official_section loaded official_count =
     and_then (synthetic_contribution (int (length (pack_cases (pack loaded))))) (\<lambda>n. Inr (JObj
       [(''eligible_count'', JInt official_count), (''requirement'', JInt OFFICIAL_M2_05_REQUIREMENT),
        (''remaining'', JInt (max 0 (OFFICIAL_M2_05_REQUIREMENT - official_count))),
        (''status'', dashed ''PENDING '' '' no first 100 genuine shadow cases''),
        (''synthetic_cases_excluded'', JInt (int (length (pack_cases (pack loaded))))),
        (''synthetic_contribution'', JInt n)]))"

definition collection_fields ::
  "LoadedCasePack \<Rightarrow> string \<Rightarrow> datetime \<Rightarrow> ShadowIntakeRecord list \<Rightarrow> (string \<times> string) list
   \<Rightarrow> int \<Rightarrow> json \<Rightarrow> json \<Rightarrow> json \<Rightarrow> json list \<Rightarrow> (string \<times> json) list"
where
  "collection_fields loaded git_sha generated_at records excluded1 official_count simulated uat section audits =
     [(''title'', COLLECTION_TITLE), (''evidence_label'', JStr ''SIMULATED TOOLING REHEARSAL''),
      (''claim_boundary'', JStr (''Collection/readiness tooling only. Synthetic cases are excluded from the official ''
         @ ''M2-05 genuine 100-case requirement. No users were recruited and no genuine UAT ''
         @ ''cases exist in this repository.'')),
      (''exact_git_sha'', JStr git_sha), (''generated_at'', JStr (isoformat generated_at)),
      (''simulated'', JObj
         [(''case_count'', JInt (int (length (pack_cases (pack loaded))))),
          (''pack_version'', JStr (case_pack_version (pack loaded))),
          (''cases_sha256'', JStr (cases_sha256 loaded)), (''manifest_sha256'', JStr (manifest_sha256 loaded)),
          (''provenance_label'', JStr ''SIMULATED''),
          (''baseline_source'', JStr ''controlled_synthetic_reference''),
          (''official_m2_05_eligible_count'', JInt 0)]),
      (''genuine_intake'', genuine_intake_manifest records),
      (''cumulative'', cumulative loaded records excluded1 official_count),
      (''agreement'', JObj [(''simulated'', simulated), (''genuine_uat_analyst_labelled'', uat)]),
      (''official_m2_05'', section),
      (''controls'', JObj
         [(''execute'', JBool False), (''external_action_count'', JInt 0), (''openai_calls'', JInt 0),
          (''aws_resources_used'', JInt 0)]),
      (''m2_status'', pilot_status), (''per_case_audit'', JList audits),
      (''limitations'', JList (map JStr
         [''The 12-case pack remains controlled synthetic and cannot satisfy M2-05.'',
          ''No genuine participant, consent record, or analyst-labelled case is stored in git.'',
          ''M2-04 SLO alerts remain unimplemented; this report is not an alert backend.'']))]"

definition eligible_row :: "json \<Rightarrow> bool" where
  "eligible_row j \<longleftrightarrow> field ''official_m2_05_eligible'' j = Some (JBool True)"

definition aggregate_collection ::
  "LoadedCasePack \<Rightarrow> string \<Rightarrow> datetime \<Rightarrow> ShadowIntakeRecord list \<Rightarrow> string set \<Rightarrow> (string \<times> string) list
   \<Rightarrow> ShadowResult list \<Rightarrow> ShadowResult list \<Rightarrow> json result"
where
  "aggregate_collection loaded git_sha generated_at records accepted excluded1 simulated_results genuine_results =
     (if list_ex (\<lambda>c. provenance_label c \<noteq> Simulated_case) (pack_cases (pack loaded)) then
        Inl (RuntimeError ''Controlled-synthetic pack contained a non-SIMULATED case'')
      else and_then (official_m2_05_records records accepted (fst ` set excluded1)) (\<lambda>official.
        if overlap loaded official then
          Inl (RuntimeError ''Synthetic pack identities cannot count toward official M2-05'')
        else
          let audits = map pack_audit (pack_cases (pack loaded)) @ map (intake_audit official) records;
              official_count = int (length official)
          in and_then (agreement_stats simulated_results) (\<lambda>sim.
             and_then (agreement_stats genuine_results) (\<lambda>gen.
               if list_ex (\<lambda>r. res_provenance_label r = Simulated_case) genuine_results then
                 Inl (RuntimeError ''SIMULATED results cannot enter genuine disagreement aggregation'')
               else and_then (official_section loaded official_count) (\<lambda>section.
                 let report = collection_fields loaded git_sha generated_at records excluded1 official_count
                       (JObj (sim @ [(''evidence_label'', JStr ''SIMULATED'')]))
                       (JObj (gen @ [(''evidence_label'', JStr (if genuine_results \<noteq> []
                          then ''GENUINE_UAT_ANALYST_LABELLED'' else ''UNMEASURED''))]))
                       section audits
                 in if field ''synthetic_contribution'' section \<noteq> Some (JInt 0) then
                      Inl (RuntimeError ''Synthetic cases cannot count toward the official M2-05 total'')
                    else if official_count \<noteq> count_where eligible_row audits then
                      Inl (RuntimeError ''Official M2-05 audit rows diverged from the eligible count'')
                    else Inr (JObj (report @ [(''report_sha256'', JStr (canonical_hash (JObj report)))])))))))"

end
