(* ===== verification/AlertReport.thy ===== *)
theory AlertReport
  imports PyValues AlertRepository
begin

section \<open>From the shadow report to alert evaluations (\<^verbatim>\<open>alerting/report.py\<close>, \<^verbatim>\<open>alerting/cli.py\<close>)\<close>

text \<open>
  The loaded JSON of a shadow report and the SHA-256 of its file become one metric snapshot per
  tenant; the evaluations of the snapshots become the alert report. The loader trusts nothing of
  the report: every missing or ill-typed member is an error, in the order the code meets them.
\<close>

subsection \<open>Reading members\<close>

definition mapping :: "string \<Rightarrow> json option \<Rightarrow> json result" where
  "mapping name j = (case j of
     Some (JObj kvs) \<Rightarrow> Inr (JObj kvs) | _ \<Rightarrow> Inl (ValueError (name @ '' must be an object'')))"

definition items :: "string \<Rightarrow> json option \<Rightarrow> json list result" where
  "items name j = (case j of
     Some (JList js) \<Rightarrow> Inr js | _ \<Rightarrow> Inl (ValueError (name @ '' must be an array'')))"

definition integer :: "string \<Rightarrow> json option \<Rightarrow> int result" where
  "integer name j = (case j of
     Some (JInt i) \<Rightarrow> (if i < 0 then Inl (ValueError (name @ '' must be a non-negative integer'')) else Inr i)
   | _ \<Rightarrow> Inl (ValueError (name @ '' must be a non-negative integer'')))"

text \<open>
  The latency is checked first and converted then: \<^verbatim>\<open>float(latency)\<close> raises on an integer that is too large.
\<close>

definition latency_of :: "json option \<Rightarrow> rat result" where
  "latency_of j =
     (let bad = Inl (ValueError ''actual.latency_ms must be a non-negative number'')
      in case j of
           Some (JInt i) \<Rightarrow> (if i < 0 then bad else float_of_int i)
         | Some (JFloat x) \<Rightarrow> (if x < 0 then bad else Inr x)
         | _ \<Rightarrow> bad)"

text \<open>\<^verbatim>\<open>str(payload.get(key, ""))\<close>.\<close>

definition text_member :: "string \<Rightarrow> json \<Rightarrow> string" where
  "text_member k j = (case field k j of None \<Rightarrow> [] | Some v \<Rightarrow> py_str v)"

definition guard :: "bool \<Rightarrow> string \<Rightarrow> unit result" where
  "guard b m = (if b then Inr () else Inl (ValueError m))"

subsection \<open>The source\<close>

record LoadedAlertSource =
  source_report_sha256 :: string
  source_shadow_git_sha :: string
  source_case_pack_version :: string
  snapshots :: "AlertMetricSnapshot list"

text \<open>The results of a tenant, in the order of the report; the tenants in their order.\<close>

fun tenant_results :: "json list \<Rightarrow> (string \<times> json) list result" where
  "tenant_results [] = Inr []"
| "tenant_results (c # cs) =
     and_then (mapping ''case'' (Some c)) (\<lambda>c.
     and_then (mapping ''case.result'' (field ''result'' c)) (\<lambda>r.
       let tenant = text_member ''tenant_id'' r
       in and_then (guard (tenant \<noteq> []) ''Every shadow result requires tenant_id'') (\<lambda>_.
          and_then (tenant_results cs) (\<lambda>rs. Inr ((tenant, r) # rs)))))"

record TenantCounts =
  tc_escalation :: int
  tc_missing :: int
  tc_unsupported :: int
  tc_external :: int
  tc_latencies :: "rat list"

definition is_escalated_entry :: "json \<Rightarrow> bool" where
  "is_escalated_entry e = (case e of JObj _ \<Rightarrow> field ''field_name'' e = Some (JStr ''escalated'') | _ \<Rightarrow> False)"

definition result_counts :: "json \<Rightarrow> TenantCounts result" where
  "result_counts r =
     and_then (mapping ''result.actual'' (field ''actual'' r)) (\<lambda>act.
     and_then (mapping ''result.comparison'' (field ''comparison'' r)) (\<lambda>cmp.
     and_then (guard (field ''execute'' act = Some (JBool False)) ''Every shadow case must have execute=false'') (\<lambda>_.
     and_then (integer ''actual.external_action_count'' (field ''external_action_count'' act)) (\<lambda>ext.
     and_then (integer ''comparison.missing_required_evidence_count''
                 (field ''missing_required_evidence_count'' cmp)) (\<lambda>mis.
     and_then (integer ''comparison.unsupported_citation_count''
                 (field ''unsupported_citation_count'' cmp)) (\<lambda>uns.
     and_then (latency_of (field ''latency_ms'' act)) (\<lambda>lat.
     and_then (items ''comparison.entries'' (field ''entries'' cmp)) (\<lambda>es.
       case List.find is_escalated_entry es of
         None \<Rightarrow> Inl (ValueError ''Every comparison requires an escalated field'')
       | Some e \<Rightarrow> Inr
           \<lparr>tc_escalation = (if field ''agreement'' e \<noteq> Some (JStr ''exact'') then 1 else 0),
            tc_missing = mis, tc_unsupported = uns, tc_external = ext, tc_latencies = [lat]\<rparr>))))))))"

definition add_counts :: "TenantCounts \<Rightarrow> TenantCounts \<Rightarrow> TenantCounts" where
  "add_counts a b = \<lparr>tc_escalation = tc_escalation a + tc_escalation b, tc_missing = tc_missing a + tc_missing b,
     tc_unsupported = tc_unsupported a + tc_unsupported b, tc_external = tc_external a + tc_external b,
     tc_latencies = tc_latencies a @ tc_latencies b\<rparr>"

definition no_counts :: TenantCounts where
  "no_counts = \<lparr>tc_escalation = 0, tc_missing = 0, tc_unsupported = 0, tc_external = 0, tc_latencies = []\<rparr>"

fun tenant_counts :: "TenantCounts \<Rightarrow> json list \<Rightarrow> TenantCounts result" where
  "tenant_counts acc [] = Inr acc"
| "tenant_counts acc (r # rs) = and_then (result_counts r) (\<lambda>c. tenant_counts (add_counts acc c) rs)"

definition tenant_snapshot :: "string \<Rightarrow> string \<Rightarrow> string \<Rightarrow> nat \<Rightarrow> TenantCounts \<Rightarrow> AlertMetricSnapshot" where
  "tenant_snapshot tenant window hash n c =
     \<lparr>correlation = \<lparr>cor_tenant_id = tenant, cor_run_id = None, cor_case_id = None\<rparr>,
      snap_window_id = window, snap_report_sha256 = hash, snap_evidence_label = SIMULATED,
      case_count = int n, escalation_disagreement_count = Some (tc_escalation c),
      missing_required_evidence_count = Some (tc_missing c), unsupported_claim_count = Some (tc_unsupported c),
      external_action_count = Some (tc_external c), shadow_processing_failure_count = None,
      deterministic_provider_latency_ms = Some (fl (py_sum (tc_latencies c) / of_nat n))\<rparr>"

fun snapshots_of ::
  "string \<Rightarrow> string \<Rightarrow> (string \<times> json) list \<Rightarrow> string list \<Rightarrow> (AlertMetricSnapshot list \<times> int) result"
where
  "snapshots_of window hash rs [] = Inr ([], 0)"
| "snapshots_of window hash rs (t # ts) =
     (let own = map snd (filter (\<lambda>x. fst x = t) rs)
      in and_then (tenant_counts no_counts own) (\<lambda>c.
         let s = tenant_snapshot t window hash (length own) c
         in if \<not> valid_snapshot s then Inl PydanticValidationError
            else and_then (snapshots_of window hash rs ts) (\<lambda>(ss, n). Inr (s # ss, tc_external c + n))))"

definition load_shadow_alert_source :: "json \<Rightarrow> string \<Rightarrow> LoadedAlertSource result" where
  "load_shadow_alert_source loaded source_hash =
     and_then (mapping ''shadow report'' (Some loaded)) (\<lambda>payload.
     and_then (guard (field ''title'' payload = Some source_report_label
                 \<and> field ''evidence_label'' payload = Some (JStr ''SIMULATED''))
                ''Alert pilot accepts only the labelled simulated M2 shadow report'') (\<lambda>_.
     and_then (mapping ''controls'' (field ''controls'' payload)) (\<lambda>controls.
     and_then (guard (field ''execute'' controls = Some (JBool False))
                ''Shadow alert source must be hard-locked to execute=false'') (\<lambda>_.
     and_then (guard (field ''provider'' controls = Some (JStr ''deterministic-stub-v1''))
                ''Alert pilot accepts only deterministic-stub shadow evidence'') (\<lambda>_.
     and_then (mapping ''case_pack'' (field ''case_pack'' payload)) (\<lambda>pack.
       let version = text_member ''version'' pack; generated = text_member ''generated_at'' payload
       in and_then (items ''cases'' (field ''cases'' payload)) (\<lambda>cases.
          and_then (tenant_results cases) (\<lambda>rs.
          and_then (guard (rs \<noteq> []) ''Shadow alert source requires at least one case result'') (\<lambda>_.
          and_then (snapshots_of (version @ '':'' @ generated) source_hash rs
                     (sort (remdups (map fst rs)))) (\<lambda>(ss, observed).
          and_then (integer ''controls.external_action_count'' (field ''external_action_count'' controls)) (\<lambda>total.
          and_then (guard (total = observed) ''Aggregate and per-case external action counts disagree'') (\<lambda>_.
            Inr \<lparr>source_report_sha256 = source_hash,
                 source_shadow_git_sha = text_member ''exact_git_sha'' payload,
                 source_case_pack_version = version, snapshots = ss\<rparr>))))))))))))"

subsection \<open>The rehearsal\<close>

definition alert_principal :: "string \<Rightarrow> Principal" where
  "alert_principal tenant = \<lparr>actor_id = ''m2-alert-policy-local-ci'', principal_tenant = tenant,
     roles = {''operator''}\<rparr>"

text \<open>The clock of the rehearsal stands still.\<close>

fun rehearse ::
  "(rat \<Rightarrow> rat) \<Rightarrow> WebhookOutboxEnqueuer option \<Rightarrow> int \<Rightarrow> string \<Rightarrow> AlertMetricSnapshot list
   \<Rightarrow> (alert_db, AlertEvaluation list) comp"
where
  "rehearse num enq now key [] = returnE []"
| "rehearse num enq now key (s # ss) =
     bindE (evaluate num enq (\<lambda>_. now) (alert_principal (cor_tenant_id (correlation s))) s key) (\<lambda>evs.
     bindE (rehearse num enq now key ss) (\<lambda>rest. returnE (evs @ rest)))"

subsection \<open>The alert report\<close>

definition unwired :: "string \<Rightarrow> string \<Rightarrow> string \<Rightarrow> json" where
  "unwired sg st reason = JObj
     [(''signal'', JStr sg), (''status'', JStr st), (''reason'', JStr reason)]"

definition UNWIRED_SIGNALS :: "json list" where
  "UNWIRED_SIGNALS =
    [unwired ''deterministic_provider_latency'' ''UNMEASURED''
       ''Current latency is SIMULATED deterministic-provider metadata, not a live SLI.'',
     unwired ''production_availability'' ''FUTURE''
       ''No production environment or availability measurement exists.'',
     unwired ''rls_leakage'' ''UNWIRED''
       ''The local application boundary is not production PostgreSQL RLS.'',
     unwired ''unauthorised_access'' ''UNWIRED''
       ''No production IdP or production access telemetry exists.'',
     unwired ''cost_per_investigation'' ''UNMEASURED''
       ''The accepted cost-allocation method and live AWS/model telemetry do not exist.'',
     unwired ''live_llm_provider_failure'' ''FUTURE''
       ''The deterministic CI provider makes no live model request.'',
     unwired ''external_alert_delivery'' ''UNWIRED''
       (''Live/staging CloudWatch/SNS/email/chat/paging adapters are absent. ''
        @ ''A local HTTPS webhook adapter exists but is disabled by default and ''
        @ ''is not a live/staging delivery proof.'')]"

definition policy_dump :: "AlertPolicy \<Rightarrow> json" where
  "policy_dump pol = JObj
     [(''policy_id'', JStr (pol_id pol)), (''policy_version'', JStr POLICY_VERSION),
      (''metric_name'', JStr (metric_value (pol_metric_name pol))),
      (''severity'', JStr (severity_value (pol_severity pol))), (''comparator'', JStr ''>''),
      (''threshold_value'', JFloat (pol_threshold_value pol)),
      (''threshold_classification'', JStr (classification_value (pol_classification pol))),
      (''window'', JStr (pol_window pol))]"

definition evaluation_dump :: "AlertEvaluation \<Rightarrow> json" where
  "evaluation_dump ev = JObj
     [(''evaluation_id'', JInt (int (alert_evaluation_id ev))), (''alert_fingerprint'', JStr (alr_fingerprint ev)),
      (''policy_id'', JStr (alr_policy_id ev)), (''policy_version'', JStr (alr_policy_version ev)),
      (''metric_name'', JStr (metric_value (alr_metric_name ev))), (''tenant_id'', JStr (alr_tenant_id ev)),
      (''correlation'', correlation_dump (alr_correlation ev)),
      (''severity'', JStr (severity_value (alr_severity ev))), (''state'', opt_state (alr_state ev)),
      (''previous_state'', opt_state (alr_previous_state ev)),
      (''transition'', JStr (transition_value (alr_transition ev))),
      (''measurement_status'', JStr (measurement_value (alr_measurement_status ev))),
      (''threshold_classification'', JStr (classification_value (alr_classification ev))),
      (''threshold_value'', JFloat (alr_threshold_value ev)), (''comparator'', JStr ''>''),
      (''observed_value'', opt_float (alr_observed_value ev)), (''window'', JStr (alr_window ev)),
      (''window_id'', JStr (alr_window_id ev)), (''evidence_label'', JStr (label_value (alr_evidence_label ev))),
      (''source_report_sha256'', JStr (alr_report_sha256 ev)), (''payload_hash'', JStr (alr_payload_hash ev)),
      (''idempotency_key'', JStr (alr_idempotency_key ev)), (''live_slo_evidence_eligible'', JBool False),
      (''execute'', JBool False), (''external_alert_delivery_count'', JInt 0),
      (''actor_id'', JStr (alr_actor_id ev)), (''evaluated_at'', JTime (utc (alr_evaluated_at ev))),
      (''idempotent_replay'', JBool (idempotent_replay ev))]"

text \<open>\<^verbatim>\<open>int(value or 0)\<close> of an optional float.\<close>

definition truncated :: "rat option \<Rightarrow> int" where
  "truncated x = (case x of None \<Rightarrow> 0 | Some r \<Rightarrow> if 0 \<le> r then \<lfloor>r\<rfloor> else - \<lfloor>- r\<rfloor>)"

definition state_text :: "AlertEvaluation \<Rightarrow> string" where
  "state_text ev = (case alr_state ev of None \<Rightarrow> ''UNMEASURED'' | Some s \<Rightarrow> alert_state_value s)"

definition evaluated_external_actions :: "AlertEvaluation list \<Rightarrow> int" where
  "evaluated_external_actions evs =
     sum_list (map (\<lambda>ev. truncated (alr_observed_value ev))
       (filter (\<lambda>ev. alr_metric_name ev = External_action_count) evs))"

definition alert_summary :: "AlertEvaluation list \<Rightarrow> json" where
  "alert_summary evs = JObj
     [(''evaluation_count'', JInt (int (length evs))),
      (''idempotent_replay_count'', JInt (count_where idempotent_replay evs)),
      (''state_counts'', counter (map state_text evs)),
      (''measurement_status_counts'', counter (map (\<lambda>ev. measurement_value (alr_measurement_status ev)) evs)),
      (''firing_by_severity'', counter (map (\<lambda>ev. severity_value (alr_severity ev))
          (filter (\<lambda>ev. alr_state ev = Some FIRING) evs)))]"

definition alert_limitations :: json where
  "alert_limitations = JList
     [JStr ''The source is the 12-case controlled-synthetic deterministic rehearsal.'',
      JStr ''Synthetic inputs are permanently ineligible as live SLO evidence in this schema.'',
      JStr (''Shadow processing failures are UNMEASURED because the current successful report ''
         @ ''does not export an attempt/failure denominator.''),
      JStr ''Deterministic-provider latency remains SIMULATED metadata without an alert rule.'',
      JStr (''A local HTTPS webhook adapter exists but is disabled by default and ''
         @ ''is not a live/staging delivery proof.''),
      dashed ''M2-04 PENDING '' '' no external/staging alert delivery has yet been proven.'',
      JStr ''M2-03, M2-05, and M2-06 remain pending.'']"

definition alert_status :: json where
  "alert_status = JObj
     [(''M2-01'', dashed ''DONE '' '' merged engineering foundation''),
      (''M2-02'', dashed ''DONE '' '' merged engineering foundation''),
      (''M2-03'', dashed ''PENDING '' '' no genuine UAT users/consent''),
      (''M2-04'', dashed ''PENDING '' ('' local webhook adapter candidate only; ''
         @ ''no external/staging alert delivery has yet been proven'')),
      (''M2-05'', dashed ''PENDING '' '' official genuine eligible count remains zero''),
      (''M2-06'', dashed ''PENDING '' '' no G1 exit report or Fizz verdict'')]"

definition build_alert_report ::
  "LoadedAlertSource \<Rightarrow> AlertEvaluation list \<Rightarrow> string \<Rightarrow> datetime \<Rightarrow> json"
where
  "build_alert_report source evs git_sha generated_at = JObj
     [(''title'', dashed ''M2-04 SLO ALERT WIRING FOUNDATION '' '' SIMULATED ENGINEERING REHEARSAL''),
      (''evidence_label'', JStr ''SIMULATED''),
      (''claim_boundary'', JStr (''Local/CI policy-wiring engineering evidence only. This is not live alert ''
         @ ''delivery, production SLO attainment, an error budget, or M2/G1 exit evidence.'')),
      (''exact_git_sha'', JStr git_sha), (''generated_at'', JStr (isoformat generated_at)),
      (''source'', JObj
         [(''shadow_report_sha256'', JStr (source_report_sha256 source)),
          (''shadow_report_git_sha'', JStr (source_shadow_git_sha source)),
          (''case_pack_version'', JStr (source_case_pack_version source)),
          (''tenant_window_count'', JInt (int (length (snapshots source))))]),
      (''controls'', JObj
         [(''execute'', JBool False), (''external_action_count'', JInt (evaluated_external_actions evs)),
          (''external_alert_delivery_count'', JInt 0), (''live_slo_evidence_eligible'', JBool False),
          (''provider'', JStr ''deterministic-policy-evaluator-v1''), (''aws_resources_used'', JInt 0),
          (''openai_calls'', JInt 0)]),
      (''summary'', alert_summary evs), (''policies'', JList (map policy_dump POLICIES)),
      (''evaluations'', JList (map evaluation_dump evs)),
      (''unwired_unmeasured_future_signals'', JList UNWIRED_SIGNALS),
      (''limitations'', alert_limitations), (''m2_status'', alert_status)]"

end
