(* ===== verification/ReportProperties.thy ===== *)
theory ReportProperties
  imports ShadowCollection AlertReport ShadowProcessing ShadowIntakeProperties
begin

section \<open>What the reports promise\<close>

text \<open>
  The two sides of the shadow report agree: what the shadow subsystem writes is what the alert
  subsystem reads. The readiness report counts exactly the official intakes, and its checks of
  itself never fail.
\<close>

text \<open>A result of processing a case of the pack.\<close>

definition processed :: "LoadedCasePack \<Rightarrow> ShadowResult \<Rightarrow> bool" where
  "processed loaded r \<longleftrightarrow> (\<exists>c \<in> set (pack_cases (pack loaded)).
     case_id c = res_case_id r \<and> case_version c = res_case_version r \<and> case_tenant_id c = res_tenant_id r
     \<and> valid_actual (res_actual r) \<and> compare c (res_actual r) = Inr (res_comparison r))"

lemma compare_fields:
  assumes "compare c a = Inr cmp" and "valid_actual a"
  shows "entries cmp = compare_entries c a" and "0 \<le> cmp_unsupported_citation_count cmp"
    and "0 \<le> cmp_missing_required_count cmp"
  using assms
  by (auto simp: compare_def Let_def missing_required_count_def valid_actual_def split: sum.splits if_splits)

lemma processed_facts:
  assumes "processed loaded r"
  obtains e c where "escalation_entry r = Inr e" and "c \<in> set (pack_cases (pack loaded))"
    and "case_id c = res_case_id r" "case_version c = res_case_version r" "case_tenant_id c = res_tenant_id r"
    and "0 \<le> cmp_unsupported_citation_count (res_comparison r)" "0 \<le> cmp_missing_required_count (res_comparison r)"
    and "0 \<le> act_latency_ms (res_actual r)"
proof -
  from assms obtain c where c: "c \<in> set (pack_cases (pack loaded))" "case_id c = res_case_id r"
    "case_version c = res_case_version r" "case_tenant_id c = res_tenant_id r"
    and v: "valid_actual (res_actual r)" and cmp: "compare c (res_actual r) = Inr (res_comparison r)"
    by (auto simp: processed_def)
  note f = compare_fields [OF cmp v]
  have "\<exists>e. escalation_entry r = Inr e"
    by (simp add: escalation_entry_def f(1) compare_entries_def Let_def diff_entry_def)
  with c f(2,3) v that show thesis by (auto simp: valid_actual_def)
qed

subsection \<open>Reading a result back\<close>

lemma field_of_dump [simp]:
  "field ''tenant_id'' (shadow_result_dump r) = Some (JStr (res_tenant_id r))"
  "field ''actual'' (shadow_result_dump r) = Some (actual_dump (res_actual r))"
  "field ''comparison'' (shadow_result_dump r) = Some (comparison_dump (res_comparison r))"
  by (simp_all add: shadow_result_dump_def)

lemma find_dump:
  "List.find is_escalated_entry (map entry_dump es)
    = map_option entry_dump (List.find (\<lambda>e. field_name e = ''escalated'') es)"
  by (induction es) (simp_all add: is_escalated_entry_def entry_dump_def)

lemma exact_dump: "field ''agreement'' (entry_dump e) = Some (JStr ''exact'') \<longleftrightarrow> agreement e = Exact"
  by (cases "agreement e") (simp_all add: entry_dump_def)

definition counts_of :: "ShadowResult list \<Rightarrow> TenantCounts" where
  "counts_of rs = \<lparr>tc_escalation = count_where (\<lambda>r. \<not> escalation_agrees r) rs, tc_missing = missing_total rs,
     tc_unsupported = unsupported_total rs, tc_external = 0, tc_latencies = latencies rs\<rparr>"

lemma actual_members [simp]:
  "field ''execute'' (actual_dump a) = Some (JBool False)"
  "field ''external_action_count'' (actual_dump a) = Some (JInt 0)"
  "field ''latency_ms'' (actual_dump a) = Some (JFloat (act_latency_ms a))"
  "mapping n (Some (actual_dump a)) = Inr (actual_dump a)"
  by (simp_all add: actual_dump_def mapping_def)

lemma comparison_members [simp]:
  "field ''missing_required_evidence_count'' (comparison_dump c) = Some (JInt (cmp_missing_required_count c))"
  "field ''unsupported_citation_count'' (comparison_dump c) = Some (JInt (cmp_unsupported_citation_count c))"
  "field ''entries'' (comparison_dump c) = Some (JList (map entry_dump (entries c)))"
  "mapping n (Some (comparison_dump c)) = Inr (comparison_dump c)"
  by (simp_all add: comparison_dump_def mapping_def)

lemma result_counts_dump:
  assumes "processed loaded r"
  shows "result_counts (shadow_result_dump r) = Inr (counts_of [r])"
proof -
  from processed_facts [OF assms] obtain e where e: "escalation_entry r = Inr e"
    and nonneg: "0 \<le> cmp_unsupported_citation_count (res_comparison r)"
      "0 \<le> cmp_missing_required_count (res_comparison r)" "0 \<le> act_latency_ms (res_actual r)" by metis
  from e have f: "List.find (\<lambda>e. field_name e = ''escalated'') (entries (res_comparison r)) = Some e"
    by (auto simp: escalation_entry_def split: option.splits)
  show ?thesis
    using nonneg e
    by (simp add: result_counts_def guard_def integer_def latency_of_def items_def find_dump f exact_dump
        counts_of_def escalation_agrees_def missing_total_def unsupported_total_def latencies_def Let_def)
qed

lemma add_counts_of: "add_counts (counts_of rs) (counts_of ss) = counts_of (rs @ ss)"
  by (simp add: add_counts_def counts_of_def missing_total_def unsupported_total_def latencies_def)

lemma tenant_counts_dump:
  assumes "\<And>r. r \<in> set ss \<Longrightarrow> processed loaded r"
  shows "tenant_counts (counts_of rs) (map shadow_result_dump ss) = Inr (counts_of (rs @ ss))"
  using assms
proof (induction ss arbitrary: rs)
  case (Cons s ss)
  have "processed loaded s" by (rule Cons.prems) simp
  then have "result_counts (shadow_result_dump s) = Inr (counts_of [s])" by (rule result_counts_dump)
  with Cons.IH [of "rs @ [s]"] Cons.prems show ?case by (simp add: add_counts_of)
qed simp

lemma no_counts_of: "no_counts = counts_of []"
  by (simp add: no_counts_def counts_of_def missing_total_def unsupported_total_def latencies_def)

lemma per_case_items:
  assumes "\<And>r. r \<in> set rs \<Longrightarrow> processed loaded r"
  shows "\<exists>items1. per_case loaded rs = Inr items1
    \<and> tenant_results (map snd items1) = (if \<forall>r \<in> set rs. res_tenant_id r \<noteq> []
        then Inr (map (\<lambda>r. (res_tenant_id r, shadow_result_dump r)) rs)
        else Inl (ValueError ''Every shadow result requires tenant_id''))"
  using assms
proof (induction rs)
  case (Cons r rs)
  then obtain items2 where i: "per_case loaded rs = Inr items2" "tenant_results (map snd items2)
      = (if \<forall>r \<in> set rs. res_tenant_id r \<noteq> [] then Inr (map (\<lambda>r. (res_tenant_id r, shadow_result_dump r)) rs)
         else Inl (ValueError ''Every shadow result requires tenant_id''))" by auto
  have "processed loaded r" by (rule Cons.prems) simp
  from processed_facts [OF this] obtain e c where e: "escalation_entry r = Inr e"
    and c: "c \<in> set (pack_cases (pack loaded))" "case_id c = res_case_id r" "case_version c = res_case_version r" by metis
  then have "case_of loaded r \<noteq> Inl x" for x
    by (auto simp: case_of_def select_last_None_iff split: option.splits)
  then obtain c where "case_of loaded r = Inr c" by (cases "case_of loaded r") auto
  moreover have "mapping n (Some (shadow_result_dump r)) = Inr (shadow_result_dump r)" for n
    by (simp add: mapping_def shadow_result_dump_def)
  ultimately show ?case
    using e i by (simp add: text_member_def guard_def) (simp add: mapping_def)
qed simp

subsection \<open>The report as the alerts see it\<close>

definition tenant_window :: "LoadedCasePack \<Rightarrow> datetime \<Rightarrow> string \<Rightarrow> ShadowResult list \<Rightarrow> string \<Rightarrow> AlertMetricSnapshot" where
  "tenant_window loaded gat hash rs t =
     (let own = filter (\<lambda>r. res_tenant_id r = t) rs
      in \<lparr>correlation = \<lparr>cor_tenant_id = t, cor_run_id = None, cor_case_id = None\<rparr>,
          snap_window_id = case_pack_version (pack loaded) @ '':'' @ isoformat gat,
          snap_report_sha256 = hash, snap_evidence_label = SIMULATED, case_count = int (length own),
          escalation_disagreement_count = Some (count_where (\<lambda>r. \<not> escalation_agrees r) own),
          missing_required_evidence_count = Some (missing_total own),
          unsupported_claim_count = Some (unsupported_total own), external_action_count = Some 0,
          shadow_processing_failure_count = None,
          deterministic_provider_latency_ms = Some (fl (py_sum (latencies own) / of_nat (length own)))\<rparr>)"

lemma processed_nonneg:
  "processed loaded r \<Longrightarrow> 0 \<le> cmp_unsupported_citation_count (res_comparison r)"
  "processed loaded r \<Longrightarrow> 0 \<le> cmp_missing_required_count (res_comparison r)"
  by (erule processed_facts, assumption)+

lemma totals_nonneg:
  assumes "\<And>r. r \<in> set rs \<Longrightarrow> processed loaded r"
  shows "0 \<le> missing_total rs" "0 \<le> unsupported_total rs"
proof -
  have "0 \<le> cmp_missing_required_count (res_comparison r)" "0 \<le> cmp_unsupported_citation_count (res_comparison r)"
    if "r \<in> set rs" for r using processed_nonneg [OF assms [OF that]] by simp_all
  then show "0 \<le> missing_total rs" "0 \<le> unsupported_total rs"
    unfolding missing_total_def unsupported_total_def by (auto intro!: sum_list_nonneg)
qed

lemma valid_case_text: "valid_shadow_case c \<Longrightarrow> bounded_text 1 100 (case_tenant_id c)"
  by (auto simp: valid_shadow_case_def bounded_text_def)

lemma window_valid:
  assumes rs: "\<And>r. r \<in> set rs \<Longrightarrow> processed loaded r" and "t \<in> res_tenant_id ` set rs"
    and pack: "valid_case_pack (pack loaded)" and "is_hex64 h"
    and "length (case_pack_version (pack loaded)) + length (isoformat gat) < 200"
    and "0 \<le> fl (py_sum (latencies (filter (\<lambda>r. res_tenant_id r = t) rs))
           / of_nat (length (filter (\<lambda>r. res_tenant_id r = t) rs)))"
  shows "valid_snapshot (tenant_window loaded gat h rs t)"
proof -
  let ?own = "filter (\<lambda>r. res_tenant_id r = t) rs"
  from assms(2) obtain r where r: "r \<in> set rs" "res_tenant_id r = t" by auto
  from processed_facts [OF rs [OF r(1)]] r(2) obtain c where c: "c \<in> set (pack_cases (pack loaded))" "case_tenant_id c = t"
    by metis
  have "valid_shadow_case c" using pack c(1) by (auto simp: valid_case_pack_def list_all_iff)
  from valid_case_text [OF this] c(2) have t: "bounded_text 1 100 t" by simp
  have nonneg: "0 \<le> missing_total ?own" "0 \<le> unsupported_total ?own"
    by (rule totals_nonneg [of ?own loaded]; use rs in simp)+
  show ?thesis
    using nonneg t assms(4-6) count_where_bounds [of "\<lambda>r. \<not> escalation_agrees r" ?own]
    by (simp add: valid_snapshot_def tenant_window_def Let_def valid_correlation_def opt_bounded_def
        nonneg_opt_def validate_counts_and_label_def at_most_opt_def) (simp add: bounded_text_def)
qed

lemma snapshots_read:
  assumes rs: "\<And>r. r \<in> set rs \<Longrightarrow> processed loaded r"
    and ok: "\<And>t. t \<in> set ts \<Longrightarrow> valid_snapshot (tenant_window loaded gat h rs t)"
  shows "snapshots_of (case_pack_version (pack loaded) @ '':'' @ isoformat gat) h
      (map (\<lambda>r. (res_tenant_id r, shadow_result_dump r)) rs) ts = Inr (map (tenant_window loaded gat h rs) ts, 0)"
  using ok
proof (induction ts)
  case (Cons t ts)
  let ?own = "filter (\<lambda>r. res_tenant_id r = t) rs"
  have own: "map snd (filter (\<lambda>x. fst x = t) (map (\<lambda>r. (res_tenant_id r, shadow_result_dump r)) rs))
      = map shadow_result_dump ?own"
    by (simp add: filter_map comp_def)
  have "tenant_counts no_counts (map shadow_result_dump ?own) = Inr (counts_of ?own)"
    unfolding no_counts_of using tenant_counts_dump [of ?own loaded "[]"] rs by simp
  moreover have "tenant_snapshot t (case_pack_version (pack loaded) @ '':'' @ isoformat gat) h (length ?own)
      (counts_of ?own) = tenant_window loaded gat h rs t"
    by (simp add: tenant_snapshot_def tenant_window_def counts_of_def Let_def)
  ultimately show ?case
    using Cons by (simp add: own Let_def) (simp add: counts_of_def)
qed simp

text \<open>The alert side reads back what the shadow side wrote: for results of processing cases of a valid
  pack, the aggregate report is built, and loading it gives one valid snapshot per tenant, in the
  order of the tenants, whose counts are exactly those of the tenant's results: the cases, the
  disagreements on escalation, the missing evidence, the unsupported citations, no external action,
  and the mean of the latencies.\<close>

theorem report_read_back:
  assumes "valid_case_pack (pack loaded)" and "rs \<noteq> []" and "\<And>r. r \<in> set rs \<Longrightarrow> processed loaded r"
    and "is_hex64 h" and "length (case_pack_version (pack loaded)) + length (isoformat gat) < 200"
    and "\<And>t. 0 \<le> fl (py_sum (latencies (filter (\<lambda>r. res_tenant_id r = t) rs))
           / of_nat (length (filter (\<lambda>r. res_tenant_id r = t) rs)))"
  shows "\<exists>report. aggregate_report rs loaded sha gat evidence = Inr report
    \<and> load_shadow_alert_source report h = Inr
        \<lparr>source_report_sha256 = h, source_shadow_git_sha = sha,
         source_case_pack_version = case_pack_version (pack loaded),
         snapshots = map (tenant_window loaded gat h rs) (sort (remdups (map res_tenant_id rs)))\<rparr>
    \<and> list_all valid_snapshot (map (tenant_window loaded gat h rs) (sort (remdups (map res_tenant_id rs))))"
proof -
  let ?ts = "sort (remdups (map res_tenant_id rs))"
  let ?pairs = "map (\<lambda>r. (res_tenant_id r, shadow_result_dump r)) rs"
  have tenants: "res_tenant_id r \<noteq> []" if r: "r \<in> set rs" for r
  proof -
    from processed_facts [OF assms(3) [OF r]] obtain c where c: "c \<in> set (pack_cases (pack loaded))"
      "case_tenant_id c = res_tenant_id r" by metis
    then have "valid_shadow_case c" using assms(1) by (auto simp: valid_case_pack_def list_all_iff)
    from valid_case_text [OF this] c(2) show ?thesis by (auto simp: bounded_text_def)
  qed
  from per_case_items [OF assms(3)] tenants obtain items1 where
    items: "per_case loaded rs = Inr items1" "tenant_results (map snd items1) = Inr ?pairs" by auto
  have ok: "valid_snapshot (tenant_window loaded gat h rs t)" if "t \<in> set ?ts" for t
    using window_valid [OF assms(3) _ assms(1,4,5,6)] that by auto
  have ss: "snapshots_of (case_pack_version (pack loaded) @ '':'' @ isoformat gat) h ?pairs ?ts
      = Inr (map (tenant_window loaded gat h rs) ?ts, 0)"
    by (rule snapshots_read [OF assms(3) ok]) simp_all
  show ?thesis
    using ok assms(2) items(2)
    by (simp add: aggregate_report_def items(1) load_shadow_alert_source_def mapping_def guard_def items_def
        integer_def text_member_def pilot_controls_def ss [unfolded append.simps] list_all_iff dashed_def Let_def comp_def source_report_label_def)
qed

subsection \<open>A concrete pack\<close>

definition w_pack_case :: "nat \<Rightarrow> ShadowCase" where
  "w_pack_case i = w_case\<lparr>case_id := ''CASE-'' @ nat_text (Suc i), category := ''category-'' @ nat_text (i mod 4)\<rparr>"

definition w_pack :: ShadowCasePack where
  "w_pack = \<lparr>case_pack_version = ''m2-shadow-cases-v1-2026-01-01'', pack_cases = map w_pack_case [0..<12]\<rparr>"

definition w_loaded :: LoadedCasePack where
  "w_loaded = \<lparr>pack = w_pack, cases_sha256 = w_hash, manifest_sha256 = w_hash'\<rparr>"

lemma w_pack_valid: "valid_case_pack (pack w_loaded)"
proof -
  have "valid_case_pack w_pack" by code_simp
  then show ?thesis by (simp add: w_loaded_def)
qed

definition w_compared :: ShadowComparison where
  "w_compared = projr (compare (w_pack_case 0) w_actual)"

lemma compare_total:
  assumes "valid_shadow_case c"
  shows "compare c a = Inr (projr (compare c a))"
proof -
  have "valid_minimum (minimum_evidence c)" using assms by (simp add: valid_shadow_case_def)
  then show ?thesis using required_missing(1) by (simp add: compare_def Let_def)
qed

definition w_reported :: ShadowResult where
  "w_reported = w_result\<lparr>res_comparison := w_compared\<rparr>"

lemma w_processed: "processed w_loaded w_reported"
proof -
  let ?c = "w_pack_case 0"
  have c: "?c \<in> set (pack_cases (pack w_loaded))" by (simp add: w_loaded_def w_pack_def)
  then have "valid_shadow_case ?c" using w_pack_valid by (simp add: valid_case_pack_def list_all_iff)
  then have "compare ?c w_actual = Inr w_compared" unfolding w_compared_def by (rule compare_total)
  moreover have "nat_text (Suc 0) = ''1''" by code_simp
  ultimately show ?thesis
    unfolding processed_def
    by (intro bexI [OF _ c])
       (simp add: w_reported_def w_result_def w_pack_case_def w_case_def, simp add: valid_actual_def w_actual_def)
qed

lemma w_latency: "0 \<le> fl (py_sum (latencies (filter (\<lambda>r. res_tenant_id r = t) [w_reported]))
    / of_nat (length (filter (\<lambda>r. res_tenant_id r = t) [w_reported])))"
  by (simp add: latencies_def w_reported_def w_result_def w_actual_def)

lemma w_versions: "length (case_pack_version (pack w_loaded)) + length (isoformat (utc 0)) < 200"
proof -
  have "length (isoformat (utc 0)) < 50" by code_simp
  then show ?thesis by (simp add: w_loaded_def w_pack_def)
qed

theorem report_read_back_witness:
  "\<exists>report. aggregate_report [w_reported] w_loaded ''sha'' (utc 0) JNull = Inr report
    \<and> load_shadow_alert_source report w_hash = Inr
        \<lparr>source_report_sha256 = w_hash, source_shadow_git_sha = ''sha'',
         source_case_pack_version = case_pack_version (pack w_loaded),
         snapshots = map (tenant_window w_loaded (utc 0) w_hash [w_reported]) (sort (remdups (map res_tenant_id [w_reported])))\<rparr>
    \<and> list_all valid_snapshot
        (map (tenant_window w_loaded (utc 0) w_hash [w_reported]) (sort (remdups (map res_tenant_id [w_reported]))))"
  by (rule report_read_back [OF w_pack_valid _ _ w_hashes_hex(1) w_versions w_latency]) (simp_all add: w_processed)

subsection \<open>The readiness report\<close>

definition countable_intake :: "intake_db \<Rightarrow> ShadowIntakeRecord \<Rightarrow> bool" where
  "countable_intake d r \<longleftrightarrow> control_events (intake_id r) (in_tenant_id r) ''accepted_for_m2_05'' d \<noteq> []
     \<and> control_events (intake_id r) (in_tenant_id r) ''excluded'' d = []"

lemma eligible_rows:
  "eligible_row (pack_audit c) \<longleftrightarrow> False"
  "eligible_row (intake_audit official r) \<longleftrightarrow> intake_id r \<in> intake_id ` set official"
  by (simp_all add: eligible_row_def pack_audit_def intake_audit_def)

lemma count_where_map: "count_where P (map f xs) = count_where (P \<circ> f) xs"
  by (induction xs) simp_all

lemma audit_count:
  fixes ok :: "ShadowIntakeRecord \<Rightarrow> bool"
  assumes "distinct (map intake_id records)"
  defines "official \<equiv> filter ok records"
  shows "count_where eligible_row (map pack_audit cs @ map (intake_audit official) records) = int (length official)"
proof -
  have "intake_id r \<in> intake_id ` set official \<longleftrightarrow> ok r" if "r \<in> set records" for r
    using assms that by (auto simp: official_def distinct_map inj_on_def)
  then have "filter (\<lambda>r. intake_id r \<in> intake_id ` set official) records = official"
    unfolding official_def by (intro filter_cong) simp_all
  moreover have "count_where (eligible_row \<circ> pack_audit) cs = 0"
    by (induction cs) (simp_all add: eligible_rows)
  ultimately show ?thesis
    by (simp add: count_where_map) (simp add: count_where_def comp_def eligible_rows)
qed

lemma stats_total:
  assumes "\<And>r. r \<in> set rs \<Longrightarrow> processed loaded r"
  shows "\<exists>fs. agreement_stats rs = Inr fs"
proof -
  have "first_broken (\<lambda>r. and_then (escalation_entry r) (\<lambda>_. Inr ())) rs = Inr ()"
    using assms
  proof (induction rs)
    case (Cons r rs)
    then have "processed loaded r" by simp
    from processed_facts [OF this] obtain e where "escalation_entry r = Inr e" by metis
    with Cons show ?case by simp
  qed simp
  then show ?thesis by (simp add: agreement_stats_def)
qed

text \<open>C31. The readiness report counts exactly the official intakes: after any operations on the intakes,
  over a valid pack and results of processing its cases, the report is refused only when an official
  intake shares its id and version with a synthetic case; otherwise its checks of itself pass, the
  synthetic cases contribute nothing, and the eligible and remaining counts are those of the intakes
  accepted and not excluded.\<close>

theorem readiness_exact:
  assumes "valid_case_pack (pack loaded)" and "\<And>r. r \<in> set rs \<Longrightarrow> processed loaded r"
  shows "let d = fold intake_step ops empty_intakes;
             official = filter (countable_intake d) (list_all_intakes d);
             res = aggregate_collection loaded sha gat (list_all_intakes d) (accepted_intake_ids d)
                     (excluded_intake_ids d) rs []
         in if overlap loaded official then
              res = Inl (RuntimeError ''Synthetic pack identities cannot count toward official M2-05'')
            else \<exists>report section. res = Inr report \<and> field ''official_m2_05'' report = Some section
              \<and> field ''eligible_count'' section = Some (JInt (int (length official)))
              \<and> field ''remaining'' section = Some (JInt (max 0 (100 - int (length official))))
              \<and> field ''synthetic_contribution'' section = Some (JInt 0)"
proof -
  let ?d = "fold intake_step ops empty_intakes"
  let ?records = "list_all_intakes ?d" and ?official = "filter (countable_intake ?d) (list_all_intakes ?d)"
  note inv = reachable_intakes [of ops]
  have off: "official_m2_05_records ?records (accepted_intake_ids ?d) (fst ` set (excluded_intake_ids ?d)) = Inr ?official"
    using official_records [OF inv] by (simp add: countable_intake_def [abs_def])
  have "distinct (map intake_id ?records)"
    using inv by (simp add: list_all_intakes_def intake_inv_def distinct_map)
  note audits = audit_count [OF this, where ok = "countable_intake ?d"]
  have sim: "\<not> list_ex (\<lambda>c. provenance_label c \<noteq> Simulated_case) (pack_cases (pack loaded))"
    using assms(1) by (auto simp: valid_case_pack_def validate_unique_cases_def rule_broken_def Let_def split: if_splits)
  obtain fs where fs: "agreement_stats rs = Inr fs" using stats_total [OF assms(2)] by blast
  obtain gs where gs: "agreement_stats [] = Inr gs" by (simp add: agreement_stats_def)
  show ?thesis
    by (simp add: Let_def aggregate_collection_def sim off fs gs audits official_section_def synthetic_contribution_def
        OFFICIAL_M2_05_REQUIREMENT_def collection_fields_def del: count_where_simps(3))
qed

theorem readiness_exact_witness:
  "let d = fold intake_step [InImport w_shadow_op w_uat False 10 ''in-1''] empty_intakes;
       official = filter (countable_intake d) (list_all_intakes d);
       res = aggregate_collection w_loaded ''sha'' (utc 0) (list_all_intakes d) (accepted_intake_ids d)
               (excluded_intake_ids d) [w_reported] []
   in if overlap w_loaded official then
        res = Inl (RuntimeError ''Synthetic pack identities cannot count toward official M2-05'')
      else \<exists>report section. res = Inr report \<and> field ''official_m2_05'' report = Some section
        \<and> field ''eligible_count'' section = Some (JInt (int (length official)))
        \<and> field ''remaining'' section = Some (JInt (max 0 (100 - int (length official))))
        \<and> field ''synthetic_contribution'' section = Some (JInt 0)"
  by (rule readiness_exact [OF w_pack_valid]) (simp add: w_processed)

end
