(* ===== verification/Fixtures.thy ===== *)
theory Fixtures
  imports ReportProperties
begin

section \<open>Migrations, manifests and fixtures\<close>

text \<open>
  \<^verbatim>\<open>database.py\<close> (\<^verbatim>\<open>run_migrations\<close>), \<^verbatim>\<open>evidence/manifest.py\<close>,
  \<^verbatim>\<open>evidence/seed.py\<close> and the seeding of \<^verbatim>\<open>shadow/cases.py\<close>. The SQL text of a
  migration is executed by PostgreSQL: \<open>run_sql\<close> is a parameter. A file's SHA-256 and the rows the
  library reads from a CSV file are arguments, the latter with the values the database gives their
  texts. A float column stores \<open>num x\<close>, what PostgreSQL's \<^verbatim>\<open>numeric\<close> makes of it. Each
  transaction is all or nothing.
\<close>

subsection \<open>Migrations\<close>

record 'b migrated =
  schema_migration :: "string list"
  base :: 'b

text \<open>The transaction of one migration: its name and the text of its file.\<close>

definition migrate_one ::
  "(string \<Rightarrow> 'b \<Rightarrow> 'b result) \<Rightarrow> string \<times> string \<Rightarrow> ('b migrated, bool) comp"
where
  "migrate_one run_sql m s =
     (if fst m \<in> set (schema_migration s) then (Inr False, s)
      else case run_sql (snd m) (base s) of
             Inl e \<Rightarrow> (Inl e, s)
           | Inr b \<Rightarrow> (Inr True, \<lparr>schema_migration = schema_migration s @ [fst m], base = b\<rparr>))"

fun migrate_all ::
  "(string \<Rightarrow> 'b \<Rightarrow> 'b result) \<Rightarrow> (string \<times> string) list \<Rightarrow> ('b migrated, string list) comp"
where
  "migrate_all run_sql [] = returnE []"
| "migrate_all run_sql (m # ms) =
     bindE (migrate_one run_sql m) (\<lambda>new.
     bindE (migrate_all run_sql ms) (\<lambda>rest. returnE (if new then fst m # rest else rest)))"

definition set_role_password ::
  "(string \<Rightarrow> 'b \<Rightarrow> 'b result) \<Rightarrow> (string \<Rightarrow> string) \<Rightarrow> string option \<Rightarrow> ('b migrated, unit) comp"
where
  "set_role_password run_sql literal password s =
     (case password of
        None \<Rightarrow> (Inr (), s)
      | Some pw \<Rightarrow>
          (if pw = [] then (Inr (), s)
           else case run_sql (''ALTER ROLE stockoutops_app PASSWORD '' @ literal pw) (base s) of
                  Inl e \<Rightarrow> (Inl e, s) | Inr b \<Rightarrow> (Inr (), s\<lparr>base := b\<rparr>)))"

text \<open>The table of the applied versions is created when it is missing: it is there.\<close>

definition run_migrations ::
  "(string \<Rightarrow> 'b \<Rightarrow> 'b result) \<Rightarrow> (string \<Rightarrow> string) \<Rightarrow> (string \<times> string) list \<Rightarrow> string option
   \<Rightarrow> ('b migrated, string list) comp"
where
  "run_migrations run_sql literal files password =
     bindE (migrate_all run_sql (sort_key fst files)) (\<lambda>applied.
     bindE (set_role_password run_sql literal password) (\<lambda>_. returnE applied))"

subsection \<open>The fixture manifest\<close>

fun check_hashes :: "(string \<Rightarrow> string) \<Rightarrow> (string \<times> json) list \<Rightarrow> unit result" where
  "check_hashes sha256_file [] = Inr ()"
| "check_hashes sha256_file ((name, ex) # rest) =
     (if JStr (sha256_file name) \<noteq> ex then Inl (ValueError (''Fixture hash mismatch: '' @ name))
      else check_hashes sha256_file rest)"

definition verify_manifest :: "json \<Rightarrow> (string \<Rightarrow> string) \<Rightarrow> string result" where
  "verify_manifest manifest sha256_file =
     (case manifest of
        JObj _ \<Rightarrow>
          (case (field ''files'' manifest, field ''fixture_manifest_version'' manifest) of
             (Some (JObj files), Some (JStr version)) \<Rightarrow>
               if fst ` set files \<noteq> {''inventory.csv'', ''demand.csv'', ''supplier.csv''} then
                 Inl (ValueError ''Fixture manifest must contain exactly T1, T2 and T3 files'')
               else and_then (check_hashes sha256_file files) (\<lambda>_. Inr version)
           | _ \<Rightarrow> Inl (ValueError ''Fixture manifest is malformed''))
      | _ \<Rightarrow> Inl (AttributeError ''get''))"

subsection \<open>Upserts\<close>

definition upsert :: "('a \<Rightarrow> 'k) \<Rightarrow> 'a \<Rightarrow> 'a list \<Rightarrow> 'a list" where
  "upsert k x xs =
     (if k x \<in> k ` set xs then update_where (\<lambda>y. k y = k x) (\<lambda>_. x) xs else xs @ [x])"

definition inventory_key :: "InventoryRow \<Rightarrow> string \<times> string \<times> string" where
  "inventory_key r = (ir_tenant r, ir_sku r, ir_store r)"

definition demand_key :: "DemandRow \<Rightarrow> string \<times> string \<times> string \<times> int \<times> int" where
  "demand_key r = (dr_tenant r, dr_sku r, dr_store r, dr_window_start r, dr_window_end r)"

definition supplier_key :: "SupplierRow \<Rightarrow> string \<times> string \<times> string" where
  "supplier_key r = (sr_tenant r, sr_sku r, sr_supplier r)"

definition fixture_checks :: "InventoryRow list \<Rightarrow> DemandRow list \<Rightarrow> SupplierRow list \<Rightarrow> bool" where
  "fixture_checks is ds ss \<longleftrightarrow>
     list_all (\<lambda>r. 0 \<le> ir_on_hand r \<and> 0 \<le> ir_reserved r \<and> 0 \<le> ir_on_order r) is
     \<and> list_all (\<lambda>r. 0 \<le> dr_units_sold r \<and> 0 \<le> dr_average_daily_units r) ds
     \<and> list_all (\<lambda>r. 0 \<le> sr_open_order_quantity r \<and> 0 \<le> sr_historical_lead_time_days r) ss"

definition seed_rows ::
  "InventoryRow list \<Rightarrow> DemandRow list \<Rightarrow> SupplierRow list \<Rightarrow> (run_db, unit) comp"
where
  "seed_rows is ds ss d =
     (if \<not> fixture_checks is ds ss then raiseE (DatabaseError ''constraint violation'') d
      else returnE () (d\<lparr>inventory_fixture := fold (upsert inventory_key) is (inventory_fixture d),
                         demand_fixture := fold (upsert demand_key) ds (demand_fixture d),
                         supplier_fixture := fold (upsert supplier_key) ss (supplier_fixture d)\<rparr>))"

definition seed_fixtures ::
  "json \<Rightarrow> (string \<Rightarrow> string) \<Rightarrow> InventoryRow list \<Rightarrow> DemandRow list \<Rightarrow> SupplierRow list \<Rightarrow> (run_db, string) comp"
where
  "seed_fixtures manifest sha256_file is ds ss =
     bindE (liftE (verify_manifest manifest sha256_file)) (\<lambda>version.
     bindE (seed_rows is ds ss) (\<lambda>_. returnE version))"

subsection \<open>The fixtures of a case pack\<close>

definition case_inventory :: "(rat \<Rightarrow> rat) \<Rightarrow> ShadowCase \<Rightarrow> InventoryRow list" where
  "case_inventory num c =
     (case fx_inventory (fixture_setup c) of
        None \<Rightarrow> []
      | Some i \<Rightarrow> [\<lparr>ir_tenant = case_tenant_id c, ir_sku = req_sku_id (case_input c),
          ir_store = req_store_id (case_input c), ir_on_hand = num (inv_on_hand i),
          ir_reserved = num (inv_reserved i), ir_on_order = num (inv_on_order i),
          ir_updated_at = instant (inv_updated_at i)\<rparr>])"

definition case_demand :: "(rat \<Rightarrow> rat) \<Rightarrow> ShadowCase \<Rightarrow> DemandRow list" where
  "case_demand num c =
     (case fx_demand (fixture_setup c) of
        None \<Rightarrow> []
      | Some x \<Rightarrow> [\<lparr>dr_tenant = case_tenant_id c, dr_sku = req_sku_id (case_input c),
          dr_store = req_store_id (case_input c), dr_window_start = instant (req_window_start (case_input c)),
          dr_window_end = instant (req_window_end (case_input c)), dr_units_sold = num (dem_units_sold x),
          dr_average_daily_units = num (dem_average_daily_units x),
          dr_demand_signal = dem_demand_signal x, dr_updated_at = instant (dem_updated_at x)\<rparr>])"

definition case_supplier :: "(rat \<Rightarrow> rat) \<Rightarrow> ShadowCase \<Rightarrow> SupplierRow list" where
  "case_supplier num c =
     (case fx_supplier (fixture_setup c) of
        None \<Rightarrow> []
      | Some s \<Rightarrow> [\<lparr>sr_tenant = case_tenant_id c, sr_sku = req_sku_id (case_input c),
          sr_supplier = req_supplier_id (case_input c), sr_open_order_quantity = num (sup_open_order_quantity s),
          sr_expected_receipt_at = instant (sup_expected_receipt_at s),
          sr_historical_lead_time_days = num (sup_historical_lead_time_days s),
          sr_status = sup_status s, sr_updated_at = instant (sup_updated_at s)\<rparr>])"

definition seed_case_fixtures :: "(rat \<Rightarrow> rat) \<Rightarrow> ShadowCasePack \<Rightarrow> (run_db, unit) comp" where
  "seed_case_fixtures num p =
     seed_rows (concat (map (case_inventory num) (pack_cases p)))
       (concat (map (case_demand num) (pack_cases p)))
       (concat (map (case_supplier num) (pack_cases p)))"

subsection \<open>Upserts as maps\<close>

lemma upsert_keyed: "distinct (map k xs) \<Longrightarrow> distinct (map k (upsert k x xs))"
proof -
  assume d: "distinct (map k xs)"
  have "map k (update_where (\<lambda>y. k y = k x) (\<lambda>_. x) xs) = map k xs"
    by (simp add: update_where_def)
  with d show ?thesis by (auto simp: upsert_def)
qed

lemma upsert_set: "set (upsert k x xs) = insert x {y \<in> set xs. k y \<noteq> k x}"
  by (auto simp: upsert_def set_update_where image_iff)

lemma fold_upsert_keyed: "distinct (map k xs) \<Longrightarrow> distinct (map k (fold (upsert k) ys xs))"
  by (induction ys arbitrary: xs) (simp_all add: upsert_keyed)

text \<open>The last row of a key is the one that stays.\<close>

lemma fold_upsert_set:
  "set (fold (upsert k) ys xs) = {y. select_last (\<lambda>z. k z = k y) (xs' @ ys) = Some y}"
  if "set xs = {y. select_last (\<lambda>z. k z = k y) xs' = Some y}"
  using that
proof (induction ys arbitrary: xs xs')
  case (Cons y ys)
  have "set (upsert k y xs) = {z. select_last (\<lambda>w. k w = k z) (xs' @ [y]) = Some z}"
    using Cons.prems by (auto simp: upsert_set)
  from Cons.IH [OF this] show ?case by simp
qed simp

lemma keyed_last:
  assumes "distinct (map k xs)"
  shows "set xs = {y. select_last (\<lambda>z. k z = k y) xs = Some y}"
  using assms
proof (induction xs rule: rev_induct)
  case (snoc x xs)
  then show ?case by (auto split: if_splits)
qed simp

lemma keyed_select:
  assumes "distinct (map k xs)"
  shows "select_one (\<lambda>x. k x = v) xs = Some y \<longleftrightarrow> y \<in> set xs \<and> k y = v"
  using assms
proof (induction xs)
  case (Cons x xs)
  then show ?case by (auto simp: image_iff)
qed simp

lemma upserted:
  assumes "distinct (map k xs)"
  shows "select_one (\<lambda>x. k x = v) (fold (upsert k) ys xs) = select_last (\<lambda>x. k x = v) (xs @ ys)"
proof -
  have "set (fold (upsert k) ys xs) = {y. select_last (\<lambda>z. k z = k y) (xs @ ys) = Some y}"
    by (rule fold_upsert_set) (rule keyed_last [OF assms])
  moreover have "k y = v" if "select_last (\<lambda>x. k x = v) (xs @ ys) = Some y" for y
    using select_last_SomeD [OF that] by simp
  ultimately have "select_one (\<lambda>x. k x = v) (fold (upsert k) ys xs) = Some y
      \<longleftrightarrow> select_last (\<lambda>x. k x = v) (xs @ ys) = Some y" for y
    using keyed_select [OF fold_upsert_keyed [OF assms]] by auto
  then show ?thesis by (metis not_None_eq)
qed

text \<open>A keyed list is its keys and what is under them.\<close>

lemma keyed_list_eq:
  assumes "map k xs = map k ys" and "distinct (map k xs)" and "set xs = set ys"
  shows "xs = ys"
proof (rule nth_equalityI)
  show len: "length xs = length ys" using assms(1) by (metis length_map)
  fix i assume i: "i < length xs"
  then have "xs ! i \<in> set ys" "ys ! i \<in> set ys" using assms(3) len by (metis nth_mem)+
  moreover have "k (xs ! i) = k (ys ! i)" using assms(1) i len by (metis nth_map)
  moreover have "inj_on k (set ys)" using assms(1,2) by (simp add: distinct_map)
  ultimately show "xs ! i = ys ! i" by (auto dest: inj_onD)
qed

lemma upsert_keys: "k x \<in> k ` set xs \<Longrightarrow> map k (upsert k x xs) = map k xs"
  by (simp add: upsert_def update_where_def)

lemma fold_upsert_keys: "k ` set ys \<subseteq> k ` set xs \<Longrightarrow> map k (fold (upsert k) ys xs) = map k xs"
proof (induction ys arbitrary: xs)
  case (Cons y ys)
  then have "map k (upsert k y xs) = map k xs" by (intro upsert_keys) simp
  moreover from this have "k ` set (upsert k y xs) = k ` set xs" by (metis set_map)
  ultimately show ?case using Cons by simp
qed simp

lemma fold_upsert_twice:
  assumes "distinct (map k xs)"
  shows "fold (upsert k) ys (fold (upsert k) ys xs) = fold (upsert k) ys xs"
proof (rule keyed_list_eq [where k = k])
  let ?zs = "fold (upsert k) ys xs"
  have last: "set (fold (upsert k) us vs) = {y. select_last (\<lambda>z. k z = k y) (vs @ us) = Some y}"
    if "distinct (map k vs)" for us vs
    by (rule fold_upsert_set) (rule keyed_last [OF that])
  have d: "distinct (map k ?zs)" by (rule fold_upsert_keyed [OF assms])
  have found: "select_last P (us @ vs) = (case select_last P vs of None \<Rightarrow> select_last P us | Some y \<Rightarrow> Some y)" for P us vs
    by (simp add: select_last_def select_one_append [unfolded select_one_def] split: option.splits)
  have "k ` set ys \<subseteq> k ` set ?zs"
  proof
    fix v assume "v \<in> k ` set ys"
    then obtain y where "select_last (\<lambda>z. k z = v) ys = Some y"
      by (metis (mono_tags, lifting) imageE not_None_eq select_last_None_iff)
    moreover from this have "k y = v" by (auto dest: select_last_SomeD)
    ultimately show "v \<in> k ` set ?zs" by (auto simp: last [OF assms] found)
  qed
  then show "map k (fold (upsert k) ys ?zs) = map k ?zs" by (rule fold_upsert_keys)
  show "distinct (map k (fold (upsert k) ys ?zs))" by (rule fold_upsert_keyed [OF d])
  have zs: "y \<in> set ?zs \<longleftrightarrow> select_last (\<lambda>z. k z = k y) (xs @ ys) = Some y" for y
    by (simp add: last [OF assms])
  have "select_last (\<lambda>z. k z = k y) ?zs = Some y \<longleftrightarrow> y \<in> set ?zs" for y
    using keyed_last [OF d] by blast
  then have "select_last (\<lambda>z. k z = k y) (?zs @ ys) = Some y \<longleftrightarrow> y \<in> set ?zs" for y
    by (auto simp: found zs split: option.splits)
  then show "set (fold (upsert k) ys ?zs) = set ?zs" by (auto simp: last [OF d])
qed

subsection \<open>Properties\<close>

definition fixtures_keyed :: "run_db \<Rightarrow> bool" where
  "fixtures_keyed d \<longleftrightarrow> distinct (map inventory_key (inventory_fixture d))
     \<and> distinct (map demand_key (demand_fixture d)) \<and> distinct (map supplier_key (supplier_fixture d))"

lemma case_rows_checks:
  assumes "valid_fixtures (fixture_setup c)" and num: "\<And>x. 0 \<le> x \<Longrightarrow> 0 \<le> num x"
  shows "list_all (\<lambda>r. 0 \<le> ir_on_hand r \<and> 0 \<le> ir_reserved r \<and> 0 \<le> ir_on_order r) (case_inventory num c)"
    and "list_all (\<lambda>r. 0 \<le> dr_units_sold r \<and> 0 \<le> dr_average_daily_units r) (case_demand num c)"
    and "list_all (\<lambda>r. 0 \<le> sr_open_order_quantity r \<and> 0 \<le> sr_historical_lead_time_days r) (case_supplier num c)"
  using assms(1)
  by (simp_all add: valid_fixtures_def case_inventory_def case_demand_def case_supplier_def num split: option.splits)

lemma case_fixture_checks:
  assumes "valid_case_pack p" and num: "\<And>x. 0 \<le> x \<Longrightarrow> 0 \<le> num x"
  shows "fixture_checks (concat (map (case_inventory num) (pack_cases p)))
     (concat (map (case_demand num) (pack_cases p))) (concat (map (case_supplier num) (pack_cases p)))"
proof -
  have all: "list_all P (concat (map f (pack_cases p)))"
    if "\<And>c. valid_fixtures (fixture_setup c) \<Longrightarrow> list_all P (f c)" for P :: "'r \<Rightarrow> bool" and f
    using assms(1) that by (auto simp: valid_case_pack_def list_all_iff valid_shadow_case_def)
  show ?thesis
    unfolding fixture_checks_def by (intro conjI all case_rows_checks num)
qed

text \<open>C32. What is seeded is what the evidence tools fetch: seeding a valid pack always succeeds and changes
  the three fixture tables only; afterwards a fetch gives the row of the last case of the pack that has
  a fixture under the key, or what was there before when no case has one; seeding the pack again
  changes nothing.\<close>

theorem seeding_read_back:
  assumes "valid_case_pack p" and "fixtures_keyed d" and "\<And>x. 0 \<le> x \<Longrightarrow> 0 \<le> num x"
  shows "\<exists>d'. seed_case_fixtures num p d = (Inr (), d') \<and> fixtures_keyed d'
    \<and> d' = d\<lparr>inventory_fixture := inventory_fixture d', demand_fixture := demand_fixture d',
             supplier_fixture := supplier_fixture d'\<rparr>
    \<and> fetch_inventory_fixture d' q sku store = select_last (\<lambda>r. inventory_key r = (principal_tenant q, sku, store))
        (inventory_fixture d @ concat (map (case_inventory num) (pack_cases p)))
    \<and> fetch_demand_fixture d' q sku store ws we = select_last (\<lambda>r. demand_key r = (principal_tenant q, sku, store, ws, we))
        (demand_fixture d @ concat (map (case_demand num) (pack_cases p)))
    \<and> fetch_supplier_fixture d' q sku spl = select_last (\<lambda>r. supplier_key r = (principal_tenant q, sku, spl))
        (supplier_fixture d @ concat (map (case_supplier num) (pack_cases p)))
    \<and> seed_case_fixtures num p d' = (Inr (), d')"
proof -
  have keyed: "distinct (map inventory_key (inventory_fixture d))" "distinct (map demand_key (demand_fixture d))"
    "distinct (map supplier_key (supplier_fixture d))"
    using assms(2) by (simp_all add: fixtures_keyed_def)
  note checks = case_fixture_checks [OF assms(1,3)]
  show ?thesis
    using upserted [OF keyed(1), of "(principal_tenant q, sku, store)"]
      upserted [OF keyed(2), of "(principal_tenant q, sku, store, ws, we)"]
      upserted [OF keyed(3), of "(principal_tenant q, sku, spl)"]
    by (simp add: seed_case_fixtures_def seed_rows_def checks returnE_def fixtures_keyed_def keyed fold_upsert_keyed
        fold_upsert_twice fetch_inventory_fixture_def fetch_demand_fixture_def fetch_supplier_fixture_def
        inventory_key_def demand_key_def supplier_key_def)
qed

text \<open>What is still to apply, in the order of the names.\<close>

definition pending :: "(string \<times> string) list \<Rightarrow> 'b migrated \<Rightarrow> (string \<times> string) list" where
  "pending files s = filter (\<lambda>m. fst m \<notin> set (schema_migration s)) (sort_key fst files)"

lemma migrate_all_pending:
  assumes "distinct (map fst ms)"
  shows "case migrate_all run_sql ms s of
     (Inr applied, s') \<Rightarrow> applied = map fst (filter (\<lambda>m. fst m \<notin> set (schema_migration s)) ms)
        \<and> schema_migration s' = schema_migration s @ applied
   | (Inl e, s') \<Rightarrow> (\<exists>past m rest. filter (\<lambda>m. fst m \<notin> set (schema_migration s)) ms = past @ m # rest
        \<and> schema_migration s' = schema_migration s @ map fst past \<and> run_sql (snd m) (base s') = Inl e)"
  using assms
proof (induction ms arbitrary: s)
  case (Cons m ms)
  show ?case
  proof (cases "fst m \<in> set (schema_migration s)")
    case True
    with Cons.IH [of s] Cons.prems show ?thesis
      by (auto simp: migrate_one_def bindE_def returnE_def split: prod.splits sum.splits)
  next
    case False
    show ?thesis
    proof (cases "run_sql (snd m) (base s)")
      case (Inl e)
      with False show ?thesis
        by (cases m) (auto simp: migrate_one_def bindE_def intro: exI [of _ "[]"])
    next
      case (Inr b)
      let ?s = "\<lparr>schema_migration = schema_migration s @ [fst m], base = b\<rparr>"
      have same: "filter (\<lambda>n. fst n \<noteq> fst m \<and> fst n \<notin> set (schema_migration s)) ms
          = filter (\<lambda>n. fst n \<notin> set (schema_migration s)) ms"
        using Cons.prems by (intro filter_cong) (auto simp: image_iff)
      have ih: "distinct (map fst ms)" using Cons.prems by simp
      show ?thesis
      proof (cases "migrate_all run_sql ms ?s")
        case (Pair r s')
        show ?thesis
        proof (cases r)
          case (Inl e)
          with Cons.IH [OF ih, of ?s] Pair obtain past n rest where f: "filter (\<lambda>n. fst n \<notin> set (schema_migration s)) ms = past @ n # rest"
            "schema_migration s' = schema_migration s @ fst m # map fst past" "run_sql (snd n) (base s') = Inl e" by (auto simp: same)
          have "migrate_all run_sql (m # ms) s = (Inl e, s')"
            using False \<open>run_sql (snd m) (base s) = Inr b\<close> Pair Inl by (simp add: migrate_one_def bindE_def)
          with f False show ?thesis by (cases n) (auto intro!: exI [of _ "m # past"])
        next
          case (Inr applied)
          with Cons.IH [OF ih, of ?s] Pair False \<open>run_sql (snd m) (base s) = Inr b\<close> show ?thesis
            by (simp add: migrate_one_def bindE_def returnE_def same)
        qed
      qed
    qed
  qed
qed (simp add: returnE_def)

text \<open>Migrations are applied exactly once, in the order of their names, and a run can be resumed: when
  a run succeeds, it applied and recorded exactly the pending files, and the next run has nothing to do; when
  it fails before the password is set, it stopped at one pending file, every earlier one is applied and
  recorded, and the pending files are now that file and those behind it.\<close>

theorem migrations_exact:
  assumes "distinct (map fst files)"
  shows "case run_migrations run_sql literal files None s of
     (Inr applied, s') \<Rightarrow> applied = map fst (pending files s)
        \<and> schema_migration s' = schema_migration s @ applied \<and> sorted applied
        \<and> run_migrations run_sql literal files None s' = (Inr [], s')
   | (Inl e, s') \<Rightarrow> (\<exists>past m rest. pending files s = past @ m # rest
        \<and> schema_migration s' = schema_migration s @ map fst past \<and> run_sql (snd m) (base s') = Inl e
        \<and> pending files s' = m # rest)"
proof -
  let ?fs = "sort_key fst files"
  have d: "distinct (map fst ?fs)" using assms by (simp add: distinct_map)
  have run: "run_migrations run_sql literal files None x = migrate_all run_sql ?fs x" for x
    by (simp add: run_migrations_def set_role_password_def bindE_def returnE_def split: prod.splits sum.splits)
  have none: "migrate_all run_sql ms x = (Inr [], x)" if "fst ` set ms \<subseteq> set (schema_migration x)" for ms x
    using that by (induction ms) (auto simp: migrate_one_def bindE_def returnE_def)
  have sorted: "sorted (map fst (filter P ?fs))" for P
    by (metis sorted_filter sorted_sort_key)
  note result = migrate_all_pending [OF d, where run_sql = run_sql and s = s, folded pending_def]
  show ?thesis
  proof (cases "migrate_all run_sql ?fs s")
    case (Pair r s')
    show ?thesis
    proof (cases r)
      case (Inl e)
      with result Pair obtain past m rest where p: "pending files s = past @ m # rest"
        "schema_migration s' = schema_migration s @ map fst past" "run_sql (snd m) (base s') = Inl e" by auto
      have "pending files s' = filter (\<lambda>n. fst n \<notin> set (map fst past)) (pending files s)"
        by (simp add: pending_def p(2) conj_commute)
      also have "\<dots> = m # rest"
      proof -
        have "distinct (map fst (past @ m # rest))"
          using d unfolding p(1) [symmetric] pending_def by (rule distinct_map_filter)
        then have "filter (\<lambda>n. fst n \<notin> set (map fst past)) past = []"
          "filter (\<lambda>n. fst n \<notin> set (map fst past)) rest = rest" "fst m \<notin> set (map fst past)"
          by (auto simp: filter_empty_conv filter_id_conv)
        then show ?thesis unfolding p(1) by simp
      qed
      finally show ?thesis using p Pair Inl by (cases m) (simp add: run)
    next
      case (Inr applied)
      with result Pair have a: "applied = map fst (pending files s)" "schema_migration s' = schema_migration s @ applied"
        by simp_all
      then have "fst ` set ?fs \<subseteq> set (schema_migration s')" by (auto simp: pending_def)
      from none [OF this] a Pair Inr sorted show ?thesis by (simp add: run pending_def)
    qed
  qed
qed

definition w_sql :: "string \<Rightarrow> string list \<Rightarrow> string list result" where
  "w_sql t b = (if t = ''bad'' then Inl (DatabaseError t) else Inr (b @ [t]))"

theorem migrations_exact_witness:
  "let files = [(''002.sql'', ''bad''), (''001.sql'', ''good'')]; s = \<lparr>schema_migration = [], base = []\<rparr>
   in case run_migrations w_sql id files None s of
     (Inr applied, s') \<Rightarrow> applied = map fst (pending files s)
        \<and> schema_migration s' = schema_migration s @ applied \<and> sorted applied
        \<and> run_migrations w_sql id files None s' = (Inr [], s')
   | (Inl e, s') \<Rightarrow> (\<exists>past m rest. pending files s = past @ m # rest
        \<and> schema_migration s' = schema_migration s @ map fst past \<and> w_sql (snd m) (base s') = Inl e
        \<and> pending files s' = m # rest)"
  unfolding Let_def by (rule migrations_exact) simp

theorem seeding_read_back_witness:
  "\<exists>d'. seed_case_fixtures id w_pack (empty_db [] [] []) = (Inr (), d') \<and> fixtures_keyed d'
    \<and> d' = (empty_db [] [] [])\<lparr>inventory_fixture := inventory_fixture d', demand_fixture := demand_fixture d',
             supplier_fixture := supplier_fixture d'\<rparr>
    \<and> fetch_inventory_fixture d' w_shadow_op ''SKU'' ''STORE'' =
        select_last (\<lambda>r. inventory_key r = (principal_tenant w_shadow_op, ''SKU'', ''STORE''))
        (inventory_fixture (empty_db [] [] []) @ concat (map (case_inventory id) (pack_cases w_pack)))
    \<and> fetch_demand_fixture d' w_shadow_op ''SKU'' ''STORE'' 0 1 =
        select_last (\<lambda>r. demand_key r = (principal_tenant w_shadow_op, ''SKU'', ''STORE'', 0, 1))
        (demand_fixture (empty_db [] [] []) @ concat (map (case_demand id) (pack_cases w_pack)))
    \<and> fetch_supplier_fixture d' w_shadow_op ''SKU'' ''SUPPLIER'' =
        select_last (\<lambda>r. supplier_key r = (principal_tenant w_shadow_op, ''SKU'', ''SUPPLIER''))
        (supplier_fixture (empty_db [] [] []) @ concat (map (case_supplier id) (pack_cases w_pack)))
    \<and> seed_case_fixtures id w_pack d' = (Inr (), d')"
  by (rule seeding_read_back) (use w_pack_valid in \<open>simp_all add: w_loaded_def fixtures_keyed_def empty_db_def\<close>)

end
