(* ===== verification/LoaderProperties.thy ===== *)
theory LoaderProperties
  imports AlertReport
begin

section \<open>The loader of shadow reports trusts nothing\<close>

text \<open>
  Whatever JSON value it is given, the loader either refuses it with an error of its own kind or
  returns well-formed snapshots that account for every case of the report.
\<close>

definition loader_error :: "exn \<Rightarrow> bool" where
  "loader_error e \<longleftrightarrow> e = PydanticValidationError \<or> (\<exists>m. e = ValueError m)
     \<or> e = OverflowError ''int too large to convert to float''"

lemma loader_errors [simp]: "loader_error PydanticValidationError" "loader_error (ValueError m)"
  "loader_error (OverflowError ''int too large to convert to float'')"
  by (simp_all add: loader_error_def)

lemma member_errors:
  "mapping n j = Inl e \<Longrightarrow> loader_error e" "items n j = Inl e \<Longrightarrow> loader_error e"
  "integer n j = Inl e \<Longrightarrow> loader_error e" "latency_of j = Inl e \<Longrightarrow> loader_error e"
  "guard b n = Inl e \<Longrightarrow> loader_error e"
  by (auto simp: mapping_def items_def integer_def latency_of_def float_of_int_def guard_def Let_def
      split: option.splits json.splits if_splits)

lemma guard_Inr_iff: "guard b n = Inr u \<longleftrightarrow> b"
  by (cases u) (simp add: guard_def)

lemma tenant_results_error: "tenant_results cs = Inl e \<Longrightarrow> loader_error e"
proof (induction cs)
  case (Cons c cs)
  from Cons.prems Cons.IH show ?case
    by (auto simp: and_then_Inl_iff Let_def dest: member_errors simp del: tenant_results.simps(1))
qed simp

lemma tenant_results_length: "tenant_results cs = Inr rs \<Longrightarrow> length rs = length cs"
  by (induction cs arbitrary: rs) (auto simp: and_then_Inr_iff Let_def)

lemma result_counts_error: "result_counts r = Inl e \<Longrightarrow> loader_error e"
  by (auto simp: result_counts_def and_then_Inl_iff dest: member_errors split: option.splits)

lemma tenant_counts_error: "tenant_counts acc rs = Inl e \<Longrightarrow> loader_error e"
  by (induction rs arbitrary: acc) (auto simp: and_then_Inl_iff dest: result_counts_error)

lemma snapshots_error: "snapshots_of window h rs ts = Inl e \<Longrightarrow> loader_error e"
proof (induction ts)
  case (Cons t ts)
  from Cons.prems Cons.IH show ?case
    by (auto simp: Let_def and_then_Inl_iff dest: tenant_counts_error split: if_splits)
qed simp

lemma snapshots_typed:
  assumes "snapshots_of window h rs ts = Inr (ss, n)"
  shows "list_all valid_snapshot ss \<and> map (cor_tenant_id \<circ> correlation) ss = ts
    \<and> map case_count ss = map (\<lambda>t. int (length (filter (\<lambda>x. fst x = t) rs))) ts
    \<and> sum_list (map (\<lambda>s. the (external_action_count s)) ss) = n"
  using assms
proof (induction ts arbitrary: ss n)
  case (Cons t ts)
  from Cons.prems obtain c ss2 m where s: "snapshots_of window h rs ts = Inr (ss2, m)"
    "ss = tenant_snapshot t window h (length (map snd (filter (\<lambda>x. fst x = t) rs))) c # ss2"
    "valid_snapshot (hd ss)" "n = tc_external c + m"
    by (auto simp: Let_def and_then_Inr_iff split: if_splits)
  with Cons.IH [OF s(1)] show ?case by (simp add: tenant_snapshot_def)
qed simp

lemma length_by_key: "(\<Sum>t \<leftarrow> sort (remdups (map fst rs)). int (length (filter (\<lambda>x. fst x = t) rs))) = int (length rs)"
proof -
  have "length (filter (\<lambda>x. fst x = t) rs) = count_list (map fst rs) t" for t
    by (induction rs) auto
  then show ?thesis using counter_total [of "map fst rs"] by simp
qed

text \<open>C33. Loading is typed and total: any JSON value (with the finite numbers JSON has) is refused with a
  \<^verbatim>\<open>ValueError\<close>, with a validation error, or, for an integer latency that binary64 cannot hold, with the
  \<^verbatim>\<open>OverflowError\<close> of \<^verbatim>\<open>float(latency)\<close>; or it yields snapshots that are all valid, one per tenant in strictly ascending order, whose case counts
  add up to the cases of the report and whose external actions to the count the report declares.\<close>

theorem loading_typed:
  "case load_shadow_alert_source j h of
     Inl e \<Rightarrow> e = PydanticValidationError \<or> (\<exists>m. e = ValueError m)
         \<or> e = OverflowError ''int too large to convert to float''
   | Inr src \<Rightarrow> list_all valid_snapshot (snapshots src) \<and> snapshots src \<noteq> []
       \<and> sorted_wrt (<) (map (cor_tenant_id \<circ> correlation) (snapshots src))
       \<and> (\<exists>cs controls. field ''cases'' j = Some (JList cs) \<and> field ''controls'' j = Some controls
            \<and> sum_list (map case_count (snapshots src)) = int (length cs)
            \<and> field ''external_action_count'' controls
                = Some (JInt (sum_list (map (\<lambda>s. the (external_action_count s)) (snapshots src)))))"
proof (cases "load_shadow_alert_source j h")
  case (Inl e)
  then have "loader_error e"
    unfolding load_shadow_alert_source_def Let_def
    by (auto simp: and_then_Inl_iff dest: member_errors tenant_results_error snapshots_error split: prod.splits)
  with Inl show ?thesis by (simp add: loader_error_def)
next
  case (Inr src)
  then obtain payload controls cs rs ss n where
    p: "mapping ''shadow report'' (Some j) = Inr payload"
      "mapping ''controls'' (field ''controls'' payload) = Inr controls"
      "items ''cases'' (field ''cases'' payload) = Inr cs" "tenant_results cs = Inr rs" "rs \<noteq> []"
      "\<exists>window. snapshots_of window h rs (sort (remdups (map fst rs))) = Inr (ss, n)"
      "integer ''controls.external_action_count'' (field ''external_action_count'' controls) = Inr n"
      "snapshots src = ss"
    unfolding load_shadow_alert_source_def Let_def
    by (simp only: and_then_Inr_iff guard_Inr_iff split_paired_Ex prod.case sum.inject)
       (elim exE conjE, rule that; (assumption | rule exI, assumption | fastforce))
  then obtain window where s: "snapshots_of window h rs (sort (remdups (map fst rs))) = Inr (ss, n)" by blast
  have members: "payload = j" "field ''controls'' j = Some controls" "field ''cases'' j = Some (JList cs)"
    "field ''external_action_count'' controls = Some (JInt n)"
    using p(1-3,7) by (auto simp: mapping_def items_def integer_def split: option.splits json.splits if_splits)
  note t = snapshots_typed [OF s]
  have "sum_list (map case_count ss) = int (length cs)"
    using t length_by_key [of rs] tenant_results_length [OF p(4)] by simp
  moreover have "sorted_wrt (<) (sort (remdups (map fst rs)))" by (simp add: strict_sorted_iff)
  moreover have "sort (remdups (map fst rs)) \<noteq> []" using p(5) by (metis list.map_disc_iff list.set(1) set_empty set_remdups set_sort)
  then have "ss \<noteq> []" using t by auto
  ultimately show ?thesis using Inr members t p(8) by (auto simp: members)
qed

end
