(* ===== verification/PyText.thy ===== *)
theory PyText
  imports PyValues Identity ShadowContracts
begin

section \<open>Python's readings of text\<close>

text \<open>
  What the settings use of \<^verbatim>\<open>str.strip\<close>, \<^verbatim>\<open>str.partition\<close>, \<^verbatim>\<open>int(text)\<close>,
  \<^verbatim>\<open>float(text)\<close> and \<^verbatim>\<open>urllib.parse.urlparse\<close> (Python 3.12), on strings of characters below
  code point 256. The float of a text may be infinite or not a number, so it has a type of its own.
\<close>

subsection \<open>Stripping and splitting\<close>

definition is_space :: "char \<Rightarrow> bool" where
  "is_space c \<longleftrightarrow> (let n = of_char c :: nat in 9 \<le> n \<and> n \<le> 13 \<or> 28 \<le> n \<and> n \<le> 32 \<or> n = 133 \<or> n = 160)"

definition strip :: "string \<Rightarrow> string" where
  "strip s = rev (dropWhile is_space (rev (dropWhile is_space s)))"

text \<open>What \<^verbatim>\<open>int\<close> and \<^verbatim>\<open>float\<close> skip around a number: the four information separators are not in it.\<close>

definition number_space :: "char \<Rightarrow> bool" where
  "number_space c \<longleftrightarrow> is_space c \<and> \<not> (28 \<le> (of_char c :: nat) \<and> (of_char c :: nat) \<le> 31)"

definition strip_number :: "string \<Rightarrow> string" where
  "strip_number s = rev (dropWhile number_space (rev (dropWhile number_space s)))"

text \<open>The text before the first separator, whether there is one, and the text behind it.\<close>

definition partition_at :: "char \<Rightarrow> string \<Rightarrow> string \<times> bool \<times> string" where
  "partition_at c s = (takeWhile (\<lambda>x. x \<noteq> c) s, c \<in> set s, drop 1 (dropWhile (\<lambda>x. x \<noteq> c) s))"

text \<open>\<^verbatim>\<open>rpartition\<close>: around the last separator.\<close>

definition rpartition_at :: "char \<Rightarrow> string \<Rightarrow> string \<times> bool \<times> string" where
  "rpartition_at c s =
     (let (b, found, a) = partition_at c (rev s)
      in if found then (rev a, True, rev b) else ([], False, s))"

fun split_at :: "char \<Rightarrow> string \<Rightarrow> string list" where
  "split_at c [] = [[]]"
| "split_at c (x # xs) =
     (if x = c then [] # split_at c xs
      else case split_at c xs of [] \<Rightarrow> [[x]] | w # ws \<Rightarrow> (x # w) # ws)"

subsection \<open>Numbers\<close>

definition digit_value :: "char \<Rightarrow> nat" where
  "digit_value c = of_char c - 48"

definition digits_value :: "string \<Rightarrow> nat" where
  "digits_value s = foldl (\<lambda>n c. 10 * n + digit_value c) 0 s"

text \<open>Digits with single underscores between them; the value leaves the underscores out.\<close>

fun digit_part :: "string \<Rightarrow> bool" where
  "digit_part [] = False"
| "digit_part [c] = is_digit c"
| "digit_part (c # d # cs) =
     (is_digit c \<and> (if d = CHR ''_'' then digit_part cs else digit_part (d # cs)))"

definition plain_digits :: "string \<Rightarrow> string" where
  "plain_digits s = filter is_digit s"

fun signed :: "string \<Rightarrow> bool \<times> string" where
  "signed (c # cs) = (if c = CHR ''-'' then (True, cs) else if c = CHR ''+'' then (False, cs) else (False, c # cs))"
| "signed [] = (False, [])"

text \<open>\<^verbatim>\<open>int(text)\<close>; \<open>None\<close> is a \<^verbatim>\<open>ValueError\<close>, also beyond the limit of 4300 digits.\<close>

definition py_int :: "string \<Rightarrow> int option" where
  "py_int text =
     (let (neg, ds) = signed (strip_number text)
      in if digit_part ds \<and> length (plain_digits ds) \<le> 4300 then
           Some (if neg then - int (digits_value (plain_digits ds)) else int (digits_value (plain_digits ds)))
         else None)"

datatype pyfloat = Finite rat | Infinite bool | Not_a_number

definition binary64 :: "rat \<Rightarrow> pyfloat" where
  "binary64 x = (let y = fl x in if 2 ^ 1024 \<le> \<bar>y\<bar> then Infinite (y < 0) else Finite y)"

text \<open>An exponent: a sign and digits, read at most once.\<close>

definition exponent_part :: "string \<Rightarrow> int option" where
  "exponent_part t =
     (let (neg, ds) = signed t
      in if digit_part ds then
           Some (if neg then - int (digits_value (plain_digits ds)) else int (digits_value (plain_digits ds)))
         else None)"

definition decimal_value :: "string \<Rightarrow> string \<Rightarrow> int \<Rightarrow> rat" where
  "decimal_value ip fp e =
     of_nat (digits_value (plain_digits ip @ plain_digits fp)) * pow_int 10 (e - int (length (plain_digits fp)))"

definition py_decimal :: "string \<Rightarrow> rat option" where
  "py_decimal t =
     (let m = takeWhile (\<lambda>c. lower_char c \<noteq> CHR ''e'') t;
          rest = dropWhile (\<lambda>c. lower_char c \<noteq> CHR ''e'') t;
          (ip, dot, fp) = partition_at (CHR ''.'') m;
          ok = (if dot then (ip = [] \<or> digit_part ip) \<and> (fp = [] \<or> digit_part fp) \<and> (ip \<noteq> [] \<or> fp \<noteq> [])
                else digit_part ip)
      in if \<not> ok then None
         else if rest = [] then Some (decimal_value ip fp 0)
         else map_option (decimal_value ip fp) (exponent_part (drop 1 rest)))"

text \<open>\<^verbatim>\<open>float(text)\<close>.\<close>

definition py_float :: "string \<Rightarrow> pyfloat option" where
  "py_float text =
     (let (neg, t) = signed (strip_number text)
      in if lower t = ''nan'' then Some Not_a_number
         else if lower t \<in> {''inf'', ''infinity''} then Some (Infinite neg)
         else map_option (\<lambda>x. binary64 (if neg then - x else x)) (py_decimal t))"

fun float_le :: "pyfloat \<Rightarrow> rat \<Rightarrow> bool" where
  "float_le (Finite x) y \<longleftrightarrow> x \<le> y"
| "float_le (Infinite neg) y \<longleftrightarrow> neg"
| "float_le Not_a_number y \<longleftrightarrow> False"

fun float_gt :: "pyfloat \<Rightarrow> rat \<Rightarrow> bool" where
  "float_gt (Finite x) y \<longleftrightarrow> x > y"
| "float_gt (Infinite neg) y \<longleftrightarrow> \<not> neg"
| "float_gt Not_a_number y \<longleftrightarrow> False"

subsection \<open>Addresses in brackets\<close>

definition is_hex :: "char \<Rightarrow> bool" where
  "is_hex c \<longleftrightarrow> is_digit c \<or> lower_char c \<in> set ''abcdef''"

text \<open>The texts \<^verbatim>\<open>ipaddress.IPv4Address\<close> and \<^verbatim>\<open>IPv6Address\<close> accept.\<close>

definition ipv4_octet :: "string \<Rightarrow> bool" where
  "ipv4_octet s \<longleftrightarrow> s \<noteq> [] \<and> list_all is_digit s \<and> length s \<le> 3
     \<and> (s = ''0'' \<or> hd s \<noteq> CHR ''0'') \<and> digits_value s \<le> 255"

definition ipv4_text :: "string \<Rightarrow> bool" where
  "ipv4_text s \<longleftrightarrow> length (split_at (CHR ''.'') s) = 4 \<and> list_all ipv4_octet (split_at (CHR ''.'') s)"

definition hextet :: "string \<Rightarrow> bool" where
  "hextet s \<longleftrightarrow> s \<noteq> [] \<and> length s \<le> 4 \<and> list_all is_hex s"

text \<open>
  The parts between colons: eight, or fewer around one empty inner part; an empty first or last part
  only next to it.
\<close>

definition ipv6_side :: "string \<Rightarrow> string list \<Rightarrow> bool" where
  "ipv6_side outer inner = (if outer = [] then inner = [] else list_all hextet (outer # inner))"

definition ipv6_length :: "string \<Rightarrow> string list \<Rightarrow> nat" where
  "ipv6_length outer inner = (if outer = [] then 0 else Suc (length inner))"

definition ipv6_parts :: "string list \<Rightarrow> bool" where
  "ipv6_parts ps =
     (let inner = butlast (tl ps); hi = takeWhile (\<lambda>p. p \<noteq> []) inner; gap = dropWhile (\<lambda>p. p \<noteq> []) inner
      in if gap = [] then length ps = 8 \<and> list_all hextet ps
         else [] \<notin> set (tl gap) \<and> ipv6_side (hd ps) hi \<and> ipv6_side (last ps) (tl gap)
              \<and> ipv6_length (hd ps) hi + ipv6_length (last ps) (tl gap) \<le> 7)"

definition ipv6_text :: "string \<Rightarrow> bool" where
  "ipv6_text s =
     (let (addr, scoped, scope) = partition_at (CHR ''%'') s; ps = split_at (CHR '':'') addr
      in CHR ''/'' \<notin> set s \<and> (scoped \<longrightarrow> scope \<noteq> [] \<and> CHR ''%'' \<notin> set scope)
         \<and> 3 \<le> length ps
         \<and> (if CHR ''.'' \<in> set (last ps) then
              ipv4_text (last ps) \<and> length ps \<le> 8 \<and> ipv6_parts (butlast ps @ [''0'', ''0''])
            else length ps \<le> 9 \<and> ipv6_parts ps))"

definition ipvfuture_text :: "string \<Rightarrow> bool" where
  "ipvfuture_text s =
     (let (v, dot, rest) = partition_at (CHR ''.'') (drop 1 s)
      in v \<noteq> [] \<and> list_all is_hex v \<and> dot \<and> rest \<noteq> [] \<and> CHR 10 \<notin> set rest)"

definition bracketed_host :: "string \<Rightarrow> bool" where
  "bracketed_host s \<longleftrightarrow> (if s \<noteq> [] \<and> hd s = CHR ''v'' then ipvfuture_text s else ipv6_text s)"

subsection \<open>URLs\<close>

text \<open>
  What the code reads of a \<^verbatim>\<open>ParseResult\<close>: its scheme and its network location.
  A malformed address in brackets raises one \<^verbatim>\<open>ValueError\<close> here, whichever check finds it.
\<close>

record ParsedUrl =
  url_scheme :: string
  netloc :: string

definition ascii_letter :: "char \<Rightarrow> bool" where
  "ascii_letter c \<longleftrightarrow> (let n = of_char (lower_char c) :: nat in 97 \<le> n \<and> n \<le> 122)"

definition scheme_char :: "char \<Rightarrow> bool" where
  "scheme_char c \<longleftrightarrow> is_digit c \<or> ascii_letter c \<or> c \<in> {CHR ''+'', CHR ''-'', CHR ''.''}"

definition split_scheme :: "string \<Rightarrow> string \<times> string" where
  "split_scheme url =
     (let (s, colon, rest) = partition_at (CHR '':'') url
      in if colon \<and> s \<noteq> [] \<and> ascii_letter (hd s)
            \<and> list_all scheme_char s
         then (lower s, rest) else ([], url))"

text \<open>The host and the port behind the last at-sign; an address in brackets keeps its colons.\<close>

definition host_and_port :: "string \<Rightarrow> string \<times> string" where
  "host_and_port loc =
     (let (_, _, hostinfo) = rpartition_at (CHR ''@'') loc;
          (_, br, bracketed) = partition_at (CHR ''['') hostinfo
      in if br then
           (let (host, _, rest) = partition_at (CHR '']'') bracketed; (_, _, port) = partition_at (CHR '':'') rest
            in (host, port))
         else (let (host, _, port) = partition_at (CHR '':'') hostinfo in (host, port)))"

definition netloc_checked :: "string \<Rightarrow> bool" where
  "netloc_checked loc =
     (let op = CHR ''['' \<in> set loc; cl = CHR '']'' \<in> set loc
      in op = cl \<and>
         (op \<longrightarrow>
           (let (_, _, hostinfo) = rpartition_at (CHR ''@'') loc;
                (pre, br, bracketed) = partition_at (CHR ''['') hostinfo;
                (host, _, rest) = partition_at (CHR '']'') bracketed
            in (if br then pre = [] \<and> (rest = [] \<or> hd rest = CHR '':'') \<and> bracketed_host host
                else bracketed_host (fst (partition_at (CHR '':'') hostinfo))))))"

definition urlparse :: "string \<Rightarrow> ParsedUrl result" where
  "urlparse text =
     (let url = filter (\<lambda>c. c \<notin> {CHR 9, CHR 10, CHR 13}) (dropWhile (\<lambda>c. (of_char c :: nat) \<le> 32) text);
          (sch, rest) = split_scheme url;
          loc = (if take 2 rest = ''//'' then
                   takeWhile (\<lambda>c. c \<notin> {CHR ''/'', CHR ''?'', CHR ''#''}) (drop 2 rest)
                 else [])
      in if \<not> netloc_checked loc then Inl (ValueError ''Invalid IPv6 URL'')
         else Inr \<lparr>url_scheme = sch, netloc = loc\<rparr>)"

text \<open>\<^verbatim>\<open>username\<close> and \<^verbatim>\<open>password\<close>.\<close>

definition url_username :: "ParsedUrl \<Rightarrow> string option" where
  "url_username p =
     (let (userinfo, have, _) = rpartition_at (CHR ''@'') (netloc p)
      in if have then Some (fst (partition_at (CHR '':'') userinfo)) else None)"

definition url_password :: "ParsedUrl \<Rightarrow> string option" where
  "url_password p =
     (let (userinfo, have, _) = rpartition_at (CHR ''@'') (netloc p); (_, colon, pw) = partition_at (CHR '':'') userinfo
      in if have \<and> colon then Some pw else None)"

text \<open>\<^verbatim>\<open>hostname\<close>: in lower case, but for the zone of an address.\<close>

definition url_hostname :: "ParsedUrl \<Rightarrow> string option" where
  "url_hostname p =
     (let host = fst (host_and_port (netloc p)); (h, zoned, zone) = partition_at (CHR ''%'') host
      in if host = [] then None else Some (lower h @ (if zoned then ''%'' @ zone else [])))"

definition url_port :: "ParsedUrl \<Rightarrow> nat option result" where
  "url_port p =
     (let port = snd (host_and_port (netloc p))
      in if port = [] then Inr None
         else if \<not> list_all is_digit port then
           Inl (ValueError (''Port could not be cast to integer value as '' @ repr_text port))
         else if 4300 < length port then
           Inl (ValueError (''Exceeds the limit (4300 digits) for integer string conversion: value has ''
             @ nat_text (length port) @ '' digits; use sys.set_int_max_str_digits() to increase the limit''))
         else if 65535 < digits_value port then Inl (ValueError ''Port out of range 0-65535'')
         else Inr (Some (digits_value port)))"

end
