(* ===== verification/DeliverySettings.thy ===== *)
theory DeliverySettings
  imports PyText AlertWorker
begin

section \<open>Delivery settings, the enqueuer and the worker built from them\<close>

text \<open>
  \<^verbatim>\<open>alerting/delivery_settings.py\<close>, the constructors of \<^verbatim>\<open>alerting/enqueue.py\<close>,
  \<^verbatim>\<open>alerting/webhook.py\<close> and \<^verbatim>\<open>alerting/worker.py\<close>, and
  \<^verbatim>\<open>alerting/worker_cli.py\<close>. The process environment is a function from names to texts.
\<close>

subsection \<open>The destination\<close>

definition LOOPBACK_HOSTS :: "string set" where
  "LOOPBACK_HOSTS = {''127.0.0.1'', ''localhost'', ''::1''}"

definition parse_enabled_flag :: "string option \<Rightarrow> bool" where
  "parse_enabled_flag value =
     (case value of None \<Rightarrow> False
      | Some v \<Rightarrow> lower (strip v) \<in> {''1'', ''true'', ''yes'', ''on''})"

definition no_host :: "string option \<Rightarrow> bool" where
  "no_host h \<longleftrightarrow> h = None \<or> h = Some []"

definition destination_host :: "string \<Rightarrow> string result" where
  "destination_host url =
     and_then (urlparse url) (\<lambda>p.
       if no_host (url_hostname p) then Inl (ConfigurationError ''Alert webhook URL requires a host'')
       else Inr (the (url_hostname p)))"

definition validate_webhook_url :: "string \<Rightarrow> string result" where
  "validate_webhook_url url =
     and_then (urlparse url) (\<lambda>p.
       if url_username p \<noteq> None \<or> url_password p \<noteq> None then
         Inl (ConfigurationError ''Alert webhook URL must not contain credentials'')
       else if url_scheme p \<notin> {''http'', ''https''} then
         Inl (ConfigurationError ''Alert webhook URL must use http or https'')
       else if no_host (url_hostname p) then
         Inl (ConfigurationError ''Alert webhook URL requires a host'')
       else if url_scheme p = ''http'' \<and> lower (the (url_hostname p)) \<notin> LOOPBACK_HOSTS then
         Inl (ConfigurationError ''Alert webhook URL must use HTTPS except for loopback proof receivers'')
       else and_then (url_port p) (\<lambda>port.
         if port = Some 0 then Inl (ConfigurationError ''Alert webhook URL port is invalid'')
         else Inr url))"

subsection \<open>The bounds\<close>

definition DEFAULT_TIMEOUT_SECONDS :: pyfloat where "DEFAULT_TIMEOUT_SECONDS = Finite 2"
definition MAX_TIMEOUT_SECONDS :: rat where "MAX_TIMEOUT_SECONDS = 5"
definition SETTINGS_DEFAULT_ATTEMPTS :: int where "SETTINGS_DEFAULT_ATTEMPTS = 5"
definition MAX_ATTEMPTS :: int where "MAX_ATTEMPTS = 10"

definition blank :: "string option \<Rightarrow> bool" where
  "blank raw = (case raw of None \<Rightarrow> True | Some r \<Rightarrow> strip r = [])"

definition parse_timeout :: "string option \<Rightarrow> pyfloat result" where
  "parse_timeout raw =
     (if blank raw then Inr DEFAULT_TIMEOUT_SECONDS
      else case py_float (the raw) of
        None \<Rightarrow> Inl (ConfigurationError ''STOCKOUTOPS_ALERT_WEBHOOK_TIMEOUT_SECONDS must be a number'')
      | Some t \<Rightarrow>
          if float_le t 0 \<or> float_gt t MAX_TIMEOUT_SECONDS then
            Inl (ConfigurationError ''STOCKOUTOPS_ALERT_WEBHOOK_TIMEOUT_SECONDS must be > 0 and <= 5'')
          else Inr t)"

definition parse_max_attempts :: "string option \<Rightarrow> int result" where
  "parse_max_attempts raw =
     (if blank raw then Inr SETTINGS_DEFAULT_ATTEMPTS
      else case py_int (the raw) of
        None \<Rightarrow> Inl (ConfigurationError ''STOCKOUTOPS_ALERT_WEBHOOK_MAX_ATTEMPTS must be an integer'')
      | Some n \<Rightarrow>
          if n < 1 \<or> n > MAX_ATTEMPTS then
            Inl (ConfigurationError ''STOCKOUTOPS_ALERT_WEBHOOK_MAX_ATTEMPTS must be between 1 and 10'')
          else Inr n)"

subsection \<open>The settings\<close>

record AlertDeliverySettings =
  enabled :: bool
  webhook_url :: "string option"
  timeout_seconds :: pyfloat
  set_max_attempts :: int
  token :: "string option"

definition delivery_validate :: "AlertDeliverySettings \<Rightarrow> unit result" where
  "delivery_validate s =
     (if \<not> enabled s then Inr ()
      else case webhook_url s of
        None \<Rightarrow> Inl (ConfigurationError ''STOCKOUTOPS_ALERT_WEBHOOK_URL is required when webhook delivery is enabled'')
      | Some url \<Rightarrow> and_then (validate_webhook_url url) (\<lambda>_.
          if float_le (timeout_seconds s) 0 \<or> float_gt (timeout_seconds s) MAX_TIMEOUT_SECONDS then
            Inl (ConfigurationError ''Webhook timeout is outside the allowed bound'')
          else if set_max_attempts s < 1 \<or> set_max_attempts s > MAX_ATTEMPTS then
            Inl (ConfigurationError ''Webhook max attempts are outside the allowed bound'')
          else Inr ()))"

definition delivery_from_env :: "(string \<Rightarrow> string option) \<Rightarrow> AlertDeliverySettings result" where
  "delivery_from_env env =
     (let url = env ''STOCKOUTOPS_ALERT_WEBHOOK_URL''; tok = env ''STOCKOUTOPS_ALERT_WEBHOOK_TOKEN''
      in and_then (parse_timeout (env ''STOCKOUTOPS_ALERT_WEBHOOK_TIMEOUT_SECONDS'')) (\<lambda>timeout.
         and_then (parse_max_attempts (env ''STOCKOUTOPS_ALERT_WEBHOOK_MAX_ATTEMPTS'')) (\<lambda>attempts.
           let s = \<lparr>enabled = parse_enabled_flag (env ''STOCKOUTOPS_ALERT_WEBHOOK_ENABLED''),
                    webhook_url = (if blank url then None else map_option strip url),
                    timeout_seconds = timeout, set_max_attempts = attempts,
                    token = (if tok = Some [] then None else tok)\<rparr>
           in and_then (delivery_validate s) (\<lambda>_. Inr s))))"

subsection \<open>What is built from them\<close>

definition make_enqueuer :: "AlertDeliverySettings \<Rightarrow> int \<Rightarrow> WebhookOutboxEnqueuer result" where
  "make_enqueuer s attempts =
     and_then (delivery_validate s) (\<lambda>_.
       if \<not> enabled s \<or> webhook_url s = None then
         Inl (ValueError ''WebhookOutboxEnqueuer requires enabled delivery settings'')
       else and_then (destination_host (the (webhook_url s))) (\<lambda>host.
         Inr \<lparr>enq_host = host, enq_max_attempts = attempts\<rparr>))"

definition build_delivery_enqueuer ::
  "AlertDeliverySettings \<Rightarrow> int \<Rightarrow> WebhookOutboxEnqueuer option result" where
  "build_delivery_enqueuer s attempts =
     (if \<not> enabled s then Inr None else and_then (make_enqueuer s attempts) (\<lambda>e. Inr (Some e)))"

definition make_transport :: "AlertDeliverySettings \<Rightarrow> AlertDeliverySettings result" where
  "make_transport s =
     and_then (delivery_validate s) (\<lambda>_.
       if webhook_url s = None then Inl (ValueError ''WebhookTransport requires a configured webhook URL'')
       else Inr s)"

text \<open>The request the transport hands to the HTTP client; the client follows no redirect.\<close>

record HttpRequest =
  req_url :: string
  req_headers :: "(string \<times> string) list"
  req_body :: json
  req_timeout :: pyfloat
  req_follow_redirects :: bool

definition transport_request :: "AlertDeliverySettings \<Rightarrow> json \<Rightarrow> string \<Rightarrow> HttpRequest" where
  "transport_request s payload key =
     \<lparr>req_url = the (webhook_url s),
      req_headers =
        [(''Accept'', ''application/json''), (''Content-Type'', ''application/json''), (''Idempotency-Key'', key)]
        @ (case token s of None \<Rightarrow> [] | Some t \<Rightarrow> if t = [] then [] else [(''Authorization'', ''Bearer '' @ t)]),
      req_body = payload, req_timeout = timeout_seconds s, req_follow_redirects = False\<rparr>"

text \<open>
  A worker is its transport and the environment of \<open>AlertWorker\<close>; \<open>client\<close> is what the HTTP client makes of
  the k-th request. The settings come before the worker's own check.
\<close>

definition build_worker ::
  "AlertDeliverySettings \<Rightarrow> string \<Rightarrow> (nat \<Rightarrow> int) \<Rightarrow> rat \<Rightarrow> (nat \<Rightarrow> PostResult)
   \<Rightarrow> (nat \<Rightarrow> alert_db \<Rightarrow> alert_db) \<Rightarrow> (nat \<Rightarrow> nat list) \<Rightarrow> (AlertDeliverySettings \<times> worker_env) result"
where
  "build_worker s worker clock lease_secs client others locked =
     (if \<not> enabled s then Inl (ValueError ''Alert outbox worker requires enabled delivery settings'')
      else and_then (make_transport s) (\<lambda>tr.
        if worker = [] then Inl (ValueError ''worker_id is required'')
        else Inr (tr, \<lparr>wk_clock = clock, wk_others = others, wk_post = client, wk_id = worker,
                       wk_lease_seconds = lease_secs, wk_locked = locked\<rparr>)))"

text \<open>
  The run of the command line: the JSON it prints or the exception it ends with, and in either case the requests
  it put on the wire.
\<close>

definition ran_report :: "WorkerRunResult \<Rightarrow> json" where
  "ran_report r = JObj [(''status'', JStr ''RAN''), (''leased'', JInt (int (leased r))),
     (''delivered'', JInt (int (delivered r))), (''retried'', JInt (int (retried r))),
     (''dead_lettered'', JInt (int (dead_lettered r))), (''lease_lost'', JInt (int (lost r)))]"

definition disabled_report :: json where
  "disabled_report = JObj [(''status'', JStr ''DISABLED''),
     (''reason'', JStr ''STOCKOUTOPS_ALERT_WEBHOOK_ENABLED is not set''), (''leased'', JInt 0)]"

definition drain_once ::
  "(string \<Rightarrow> string option) \<Rightarrow> string option \<Rightarrow> string \<Rightarrow> rat \<Rightarrow> int \<Rightarrow> (nat \<Rightarrow> int) \<Rightarrow> (nat \<Rightarrow> PostResult)
   \<Rightarrow> (nat \<Rightarrow> alert_db \<Rightarrow> alert_db) \<Rightarrow> (nat \<Rightarrow> nat list) \<Rightarrow> worker_world \<Rightarrow> (json result \<times> HttpRequest list) \<times> worker_world"
where
  "drain_once env worker_arg uuid lease_secs batch clock client others locked w =
     (case delivery_from_env env of
        Inl e \<Rightarrow> ((Inl e, []), w)
      | Inr s \<Rightarrow>
          if \<not> enabled s then ((Inr disabled_report, []), w)
          else case build_worker s
                 (if worker_arg = None \<or> worker_arg = Some [] then ''worker-'' @ uuid else the worker_arg)
                 clock lease_secs client others locked of
            Inl e \<Rightarrow> ((Inl e, []), w)
          | Inr (tr, wenv) \<Rightarrow>
              (case run_once wenv batch w of
                 (r, w') \<Rightarrow>
                   ((map_sum id ran_report r,
                     map (\<lambda>(key, payload). transport_request tr payload key) (drop (length (posts w)) (posts w'))), w')))"

subsection \<open>What accepted settings guarantee\<close>

lemma url_username_None: "url_username p = None \<longleftrightarrow> CHR ''@'' \<notin> set (netloc p)"
  by (auto simp: url_username_def rpartition_at_def partition_at_def Let_def)

lemma valid_url_facts:
  assumes "validate_webhook_url url = Inr u"
  obtains p host where "urlparse url = Inr p" "CHR ''@'' \<notin> set (netloc p)" "url_hostname p = Some host" "host \<noteq> []"
    "url_scheme p = ''https'' \<or> url_scheme p = ''http'' \<and> lower host \<in> LOOPBACK_HOSTS"
    "destination_host url = Inr host" "\<exists>n. url_port p = Inr n \<and> n \<noteq> Some 0"
proof -
  from assms obtain p where p: "urlparse url = Inr p" "url_username p = None" "url_scheme p \<in> {''http'', ''https''}"
    "\<not> no_host (url_hostname p)" "\<not> (url_scheme p = ''http'' \<and> lower (the (url_hostname p)) \<notin> LOOPBACK_HOSTS)"
    "\<exists>n. url_port p = Inr n \<and> n \<noteq> Some 0"
    unfolding validate_webhook_url_def by (auto simp: and_then_Inr_iff split: if_splits)
  then obtain host where "url_hostname p = Some host" "host \<noteq> []" by (auto simp: no_host_def)
  with p show ?thesis using that [of p host] by (auto simp: url_username_None destination_host_def no_host_def)
qed

definition setting_error :: "exn \<Rightarrow> bool" where
  "setting_error e \<longleftrightarrow> (\<exists>m. e = ConfigurationError m \<or> e = ValueError m)"

lemma setting_errors [simp]: "setting_error (ConfigurationError m)" "setting_error (ValueError m)"
  by (auto simp: setting_error_def)

lemma setting_error_steps:
  "urlparse u = Inl e \<Longrightarrow> setting_error e" "url_port p = Inl e \<Longrightarrow> setting_error e"
  "parse_timeout t = Inl e \<Longrightarrow> setting_error e" "parse_max_attempts t = Inl e \<Longrightarrow> setting_error e"
  by (auto simp: urlparse_def url_port_def parse_timeout_def parse_max_attempts_def Let_def
      split: if_splits option.splits prod.splits)

lemma validate_error: "validate_webhook_url u = Inl e \<Longrightarrow> setting_error e"
  by (auto simp: validate_webhook_url_def and_then_Inl_iff setting_error_steps split: if_splits)

lemma delivery_validate_error: "delivery_validate s = Inl e \<Longrightarrow> setting_error e"
  by (auto simp: delivery_validate_def and_then_Inl_iff validate_error split: if_splits option.splits)

lemma timeout_bound:
  assumes "\<not> (float_le t 0 \<or> float_gt t MAX_TIMEOUT_SECONDS)"
  shows "t = Not_a_number \<or> (\<exists>x. t = Finite x \<and> 0 < x \<and> x \<le> 5)"
  using assms by (cases t) (auto simp: MAX_TIMEOUT_SECONDS_def)

text \<open>C40. Delivery is off or well configured: reading the environment fails with a configuration or value error, or
  gives settings under which either delivery is disabled, nothing is enqueued and a run of the worker touches and
  sends nothing, or the destination is an HTTPS URL (HTTP for a loopback host only) with a host and without
  credentials, the attempts are within 1 to 10, the timeout is positive and at most five seconds or it is not a number
  (which passes both comparisons), the enqueuer addresses that host, and every request a worker run sends, whether
  the run returns or raises, goes to that URL under that timeout and follows no redirect.\<close>

theorem delivery_configured:
  "case delivery_from_env env of
     Inl e \<Rightarrow> \<exists>m. e = ConfigurationError m \<or> e = ValueError m
   | Inr s \<Rightarrow>
      if enabled s then
        (\<exists>url p host. webhook_url s = Some url \<and> urlparse url = Inr p \<and> url_hostname p = Some host \<and> host \<noteq> []
           \<and> (url_scheme p = ''https'' \<or> url_scheme p = ''http'' \<and> lower host \<in> LOOPBACK_HOSTS)
           \<and> CHR ''@'' \<notin> set (netloc p) \<and> 1 \<le> set_max_attempts s \<and> set_max_attempts s \<le> 10
           \<and> (timeout_seconds s = Not_a_number \<or> (\<exists>t. timeout_seconds s = Finite t \<and> 0 < t \<and> t \<le> 5))
           \<and> build_delivery_enqueuer s n = Inr (Some \<lparr>enq_host = host, enq_max_attempts = n\<rparr>)
           \<and> (case drain_once env arg uuid secs batch clock client others locked w of
                ((report, requests), w') \<Rightarrow> list_all (\<lambda>r. req_url r = url \<and> req_timeout r = timeout_seconds s
                   \<and> \<not> req_follow_redirects r) requests))
      else build_delivery_enqueuer s n = Inr None
        \<and> drain_once env arg uuid secs batch clock client others locked w = ((Inr disabled_report, []), w)"
proof (cases "delivery_from_env env")
  case (Inl e)
  then have "setting_error e"
    unfolding delivery_from_env_def Let_def
    by (auto simp: and_then_Inl_iff setting_error_steps dest: delivery_validate_error)
  with Inl show ?thesis by (simp add: setting_error_def)
next
  case (Inr s)
  then have valid: "delivery_validate s = Inr ()"
    unfolding delivery_from_env_def Let_def by (auto simp: and_then_Inr_iff)
  show ?thesis
  proof (cases "enabled s")
    case False
    with Inr show ?thesis by (simp add: build_delivery_enqueuer_def drain_once_def)
  next
    case True
    with valid obtain url u where v: "webhook_url s = Some url" "validate_webhook_url url = Inr u"
      "\<not> (float_le (timeout_seconds s) 0 \<or> float_gt (timeout_seconds s) MAX_TIMEOUT_SECONDS)"
      "\<not> (set_max_attempts s < 1 \<or> set_max_attempts s > MAX_ATTEMPTS)"
      by (auto simp: delivery_validate_def and_then_Inr_iff split: option.splits if_splits)
    from v(2) obtain p host where p: "urlparse url = Inr p" "CHR ''@'' \<notin> set (netloc p)" "url_hostname p = Some host"
      "host \<noteq> []" "url_scheme p = ''https'' \<or> url_scheme p = ''http'' \<and> lower host \<in> LOOPBACK_HOSTS"
      "destination_host url = Inr host" by (rule valid_url_facts) blast
    have "build_delivery_enqueuer s n = Inr (Some \<lparr>enq_host = host, enq_max_attempts = n\<rparr>)"
      using True valid v(1) p(6) by (simp add: build_delivery_enqueuer_def make_enqueuer_def)
    moreover have "case drain_once env arg uuid secs batch clock client others locked w of
        ((report, requests), w') \<Rightarrow> list_all (\<lambda>r. req_url r = url \<and> req_timeout r = timeout_seconds s
           \<and> \<not> req_follow_redirects r) requests"
      using Inr True valid v(1)
      by (auto simp: drain_once_def build_worker_def make_transport_def transport_request_def list_all_iff
          split: sum.splits prod.splits)
    ultimately show ?thesis
      using Inr True v p timeout_bound [OF v(3)] by (simp add: MAX_ATTEMPTS_def)
  qed
qed

text \<open>Two gaps of the checks: a timeout that is not a number passes, and a port that is not a number is a
  \<^verbatim>\<open>ValueError\<close> rather than a configuration error.\<close>

lemma nan_timeout_accepted: "parse_timeout (Some ''nan'') = Inr Not_a_number"
  by code_simp

lemma bad_port_raises: "validate_webhook_url ''http://localhost:abc''
    = Inl (ValueError (''Port could not be cast to integer value as '' @ [CHR 39] @ ''abc'' @ [CHR 39]))"
  by code_simp


end
