(* ===== verification/Api.thy ===== *)
theory Api
  imports ServiceContracts Fixtures
begin

section \<open>The HTTP boundary (\<^verbatim>\<open>api.py\<close>)\<close>

text \<open>
  What stands between an HTTP request and the service: the middleware, the server-derived principal,
  the handlers of the four resources, and the mapping of errors to answers. Routing and the reading of
  headers, paths and bodies are the web framework's: a request is what it hands over. As FastAPI documents,
  a body that is not JSON is refused before the dependencies are resolved, an exception of a dependency
  is answered before ill-typed parameters are, and those are answered with status 422. The
  JSON encoding of a body is left out, as is the page of the reviewer.
\<close>

subsection \<open>Requests and answers\<close>

datatype 'b ApiBody = Not_json | Ill_typed | Body 'b

record ApiRequest =
  query_params :: "string list"
  authorization_header :: "string option"
  idempotency_header :: "string option"

datatype 'a ApiResponse =
    Response nat 'a
  | ErrorResponse nat json
  | Unprocessable
  | Unhandled exn

text \<open>\<open>None\<close>: there is no answer, the fuel of the service ran out or it still waits for a lock.\<close>

type_synonym 'a handler = "world \<Rightarrow> 'a ApiResponse option \<times> world"

fun error_message :: "exn \<Rightarrow> string" where
  "error_message (AuthenticationError m) = m"
| "error_message (AuthorizationError m) = m"
| "error_message NotFoundError = ''Investigation not found''"
| "error_message (ConflictError c m) = m"
| "error_message (ValidationError c m) = m"
| "error_message _ = []"

definition error_content :: "string \<Rightarrow> string \<Rightarrow> json" where
  "error_content code message =
     JObj [(''error'', JObj [(''code'', JStr code), (''message'', JStr message)])]"

text \<open>Exceptions of other classes reach the server, which answers 500.\<close>

definition stockoutops_error_handler :: "exn \<Rightarrow> 'a ApiResponse" where
  "stockoutops_error_handler e =
     (case (status_code e, error_code e) of
        (Some st, Some code) \<Rightarrow> ErrorResponse st (error_content code (error_message e))
      | _ \<Rightarrow> Unhandled e)"

definition FORBIDDEN_CLIENT_CONTEXT :: "string set" where
  "FORBIDDEN_CLIENT_CONTEXT = {''actor_id'', ''tenant_id'', ''role'', ''roles''}"

definition reject_client_authority :: "ApiRequest \<Rightarrow> 'a handler \<Rightarrow> 'a handler" where
  "reject_client_authority req call_next w =
     (if list_ex (\<lambda>q. q \<in> FORBIDDEN_CLIENT_CONTEXT) (query_params req) then
        (Some (ErrorResponse 400
           (error_content ''CLIENT_AUTHORITY_FORBIDDEN'' ''Identity, tenant, and roles are server-derived'')), w)
      else call_next w)"

text \<open>The dependency \<open>_principal\<close>, resolved before the parameters are judged.\<close>

definition with_principal ::
  "SimulatedIdentityProvider \<Rightarrow> ApiRequest \<Rightarrow> 'b ApiBody \<Rightarrow> bool \<Rightarrow> (Principal \<Rightarrow> 'a handler) \<Rightarrow> 'a handler"
where
  "with_principal idp req body typed handler =
     reject_client_authority req (\<lambda>w.
       if body = Not_json then (Some Unprocessable, w)
       else case resolve idp (authorization_header req) of
         Inl e \<Rightarrow> (Some (stockoutops_error_handler e), w)
       | Inr p \<Rightarrow> if typed then handler p w else (Some Unprocessable, w))"

definition answer :: "(world, 'a) comp \<Rightarrow> ('a \<Rightarrow> 'b ApiResponse option) \<Rightarrow> 'b handler" where
  "answer m f w =
     (case m w of
        (Inl e, w') \<Rightarrow> (if is_waiting e then None else Some (stockoutops_error_handler e), w')
      | (Inr x, w') \<Rightarrow> (f x, w'))"

subsection \<open>The resources\<close>

record Posted =
  posted :: RunDetail
  idempotent_replay :: bool

definition typed_body :: "('b \<Rightarrow> unit result) \<Rightarrow> 'b ApiBody \<Rightarrow> bool" where
  "typed_body check body = (case body of Body b \<Rightarrow> check b = Inr () | _ \<Rightarrow> False)"

fun the_body :: "'b ApiBody \<Rightarrow> 'b" where
  "the_body (Body b) = b"

definition intake_and_detail ::
  "env \<Rightarrow> nat \<Rightarrow> Principal \<Rightarrow> IntakeRequest \<Rightarrow> string \<Rightarrow> string \<Rightarrow> (world, Posted option) comp"
where
  "intake_and_detail env fuel p req key uuid =
     bindE (intake env fuel p req key Human_review uuid) (\<lambda>(run, created).
       case run of
         None \<Rightarrow> returnE None
       | Some r \<Rightarrow> bindE (detail env p (run_id r)) (\<lambda>d.
           returnE (Some \<lparr>posted = d, idempotent_replay = (\<not> created)\<rparr>)))"

definition create_investigation ::
  "env \<Rightarrow> nat \<Rightarrow> SimulatedIdentityProvider \<Rightarrow> ApiRequest \<Rightarrow> IntakeRequest ApiBody \<Rightarrow> string \<Rightarrow> Posted handler"
where
  "create_investigation env fuel idp req body uuid =
     with_principal idp req body (typed_body validate_intake body \<and> idempotency_header req \<noteq> None) (\<lambda>p.
       answer (intake_and_detail env fuel p (the_body body) (the (idempotency_header req)) uuid)
         (map_option (\<lambda>b. Response (if idempotent_replay b then 200 else 201) b)))"

text \<open>A path that is no UUID is \<open>None\<close>.\<close>

definition get_investigation ::
  "env \<Rightarrow> SimulatedIdentityProvider \<Rightarrow> ApiRequest \<Rightarrow> string option \<Rightarrow> RunDetail handler" where
  "get_investigation env idp req rid =
     with_principal idp req (Body ()) (rid \<noteq> None) (\<lambda>p.
       answer (detail env p (the rid)) (\<lambda>d. Some (Response 200 d)))"

definition review_investigation ::
  "env \<Rightarrow> SimulatedIdentityProvider \<Rightarrow> ApiRequest \<Rightarrow> string option \<Rightarrow> ReviewRequest ApiBody \<Rightarrow> RunDetail handler" where
  "review_investigation env idp req rid body =
     with_principal idp req body
       (rid \<noteq> None \<and> typed_body validate_review body \<and> idempotency_header req \<noteq> None) (\<lambda>p.
       answer (bindE (review env p (the rid) (the_body body) (the (idempotency_header req))) (\<lambda>_. detail env p (the rid)))
         (\<lambda>d. Some (Response 200 d)))"

definition get_audit ::
  "env \<Rightarrow> SimulatedIdentityProvider \<Rightarrow> ApiRequest \<Rightarrow> string option \<Rightarrow> AuditReport handler" where
  "get_audit env idp req rid =
     with_principal idp req (Body ()) (rid \<noteq> None) (\<lambda>p.
       answer (audit env p (the rid)) (\<lambda>a. Some (Response 200 a)))"

subsection \<open>The application\<close>

text \<open>
  \<open>create_app\<close> without injected parts: the settings, the identity file (the tokens and assignments read
  from it) and the fixture manifest are checked, and the service gets the stub adapter.
\<close>

definition create_app ::
  "Settings \<Rightarrow> ((string \<times> Principal) list \<times> (string \<times> string) list) result \<Rightarrow> json \<Rightarrow> (string \<Rightarrow> string)
   \<Rightarrow> (nat \<Rightarrow> int) \<Rightarrow> (nat \<Rightarrow> run_db \<Rightarrow> run_db) \<Rightarrow> (SimulatedIdentityProvider \<times> env) result"
where
  "create_app settings identities manifest sha256_file clk callers =
     and_then (settings_validate settings) (\<lambda>_.
     and_then identities (\<lambda>(tokens, assignments).
     and_then (make_provider tokens assignments (app_env settings)) (\<lambda>idp.
     and_then (verify_manifest manifest sha256_file) (\<lambda>version.
       Inr (idp, \<lparr>clock = clk, interfere = callers, reasoning = stub_reason,
                  reviewer_of = assigned_reviewer idp, manifest_version = version\<rparr>)))))"

end
