(* ===== verification/ApiProperties.thy ===== *)
theory ApiProperties
  imports Api
begin

section \<open>Properties of the HTTP boundary\<close>

text \<open>
  A client that lost an answer may post again: the run is found under its key, never created twice, and
  since it needs no further step, the repetition only reads.
\<close>

subsection \<open>The key of an intake\<close>

definition keyed_run :: "Principal \<Rightarrow> string \<Rightarrow> string \<Rightarrow> RunRecord \<Rightarrow> run_db \<Rightarrow> bool" where
  "keyed_run p key h r d \<longleftrightarrow> (\<exists>row. select_idempotency p key d = Some row \<and> idem_payload_hash row = h
     \<and> idem_run_id row = run_id r)"

text \<open>What no automatic step leaves, none leads out of later.\<close>

lemma settled_path: "path st ts t \<Longrightarrow> st \<notin> machine_states \<Longrightarrow> t \<notin> machine_states"
proof (induction rule: path.induct)
  case (path_step s t ts u)
  then have "t \<notin> machine_states"
    by (cases s; cases t) (simp_all add: machine_states_def can_transition_def)
  with path_step show ?case by blast
qed

lemma settled_later: "run_advanced r x \<Longrightarrow> state r \<notin> machine_states \<Longrightarrow> state x \<notin> machine_states"
  by (auto simp: run_advanced_def dest: settled_path)

lemma before_idempotency:
  "repo_before d d' \<Longrightarrow> select_idempotency p key d = Some row \<Longrightarrow> select_idempotency p key d' = Some row"
  by (auto simp: repo_before_def prefix_def select_idempotency_def select_one_append)

lemma keyed_run_later: "repo_before d d' \<Longrightarrow> keyed_run p key h r d \<Longrightarrow> keyed_run p key h r d'"
  unfolding keyed_run_def using before_idempotency by blast

context service_env
begin

lemma begin_keyed:
  assumes "repo_inv (db w)"
  shows "wp (call_at env (\<lambda>now. begin_intake p req key h rv now mode uuid))
    (\<lambda>(r, created) w'. snap p r (db w') \<and> keyed_run p key h r (db w')
        \<and> (select_idempotency p key (db w) = None \<or> \<not> created)) (\<lambda>_ _. True) w"
proof -
  let ?d = "interfere env (repo_calls w) (db w)" and ?now = "clock env (clock_reads w)"
  have d: "repo_inv ?d" "repo_before (db w) ?d" using others_inv others_before assms by blast+
  have "wp (begin_intake p req key h rv ?now mode uuid)
      (\<lambda>(r, created) d'. snap p r d' \<and> keyed_run p key h r d'
        \<and> (select_idempotency p key (db w) = None \<or> \<not> created)) (\<lambda>_ _. True) ?d"
  proof (cases "begin_intake p req key h rv ?now mode uuid ?d")
    case (Pair res d')
    show ?thesis
    proof (cases res)
      case (Inr rc)
      obtain r created where rc: "rc = (r, created)" by (cases rc) auto
      obtain row where row: "select_idempotency p key d' = Some row" "idem_payload_hash row = h"
          "select_one (run_visible p (idem_run_id row)) (runs d') = Some r"
          "created = (select_idempotency p key ?d = None)"
        by (rule begin_intake_Inr [OF d(1) Pair [unfolded Inr rc]])
      have "repo_inv d'" using begin_intake_keeps_inv [OF d(1), of p req key h rv ?now mode uuid] Pair by simp
      with run_visible_select [OF row(3)] have "snap p r d'" "idem_run_id row = run_id r"
        by (auto simp: snap_def intro: bexI [of _ r])
      moreover have "select_idempotency p key (db w) = None \<or> \<not> created"
        using before_idempotency [OF d(2)] row(4) by (cases "select_idempotency p key (db w)") auto
      ultimately show ?thesis using Pair Inr rc row by (auto simp: wp_def keyed_run_def)
    qed (simp add: wp_def Pair)
  qed
  then show ?thesis
    by (simp add: call_at_def read_clock_def call_repo_def wp_def bindE_def returnE_def
        split: prod.splits sum.splits)
qed

lemma resume_keyed:
  assumes "snap p run (db w)" and "keyed_run p key h run (db w)" and "8 < fuel"
  shows "wp (resume env fuel p run)
    (\<lambda>res w'. \<exists>r. res = Some r \<and> snap p r (db w') \<and> keyed_run p key h r (db w') \<and> state r \<notin> machine_states)
    (\<lambda>_ _. True) w"
proof -
  have fuel: "remaining (state run) < fuel" using assms(3) by (cases "state run") simp_all
  note ends = resume_ends [OF assms(1) fuel]
  have "good (db w) w" using assms(1) by (simp add: good_def snap_def)
  then have "good (db w) (snd (resume env fuel p run w))" by (rule preservesD [OF preserves_resume])
  then have "keyed_run p key h run (db (snd (resume env fuel p run w)))"
    using keyed_run_later assms(2) by (auto simp: good_def)
  with ends show ?thesis
    by (auto simp: wp_def run_advanced_def same_run_def keyed_run_def split: prod.splits sum.splits)
qed

lemma intake_keyed:
  assumes "repo_inv (db w)" and "8 < fuel"
  shows "wp (intake env fuel p req key mode uuid)
    (\<lambda>(res, created) w'. \<exists>r. res = Some r \<and> snap p r (db w')
        \<and> keyed_run p key (canonical_hash (intake_dump req)) r (db w') \<and> state r \<notin> machine_states
        \<and> (select_idempotency p key (db w) = None \<or> \<not> created)) (\<lambda>_ _. True) w"
proof -
  let ?Q = "\<lambda>(res, created) w'. \<exists>r. res = Some r \<and> snap p r (db w')
        \<and> keyed_run p key (canonical_hash (intake_dump req)) r (db w') \<and> state r \<notin> machine_states
        \<and> (select_idempotency p key (db w) = None \<or> \<not> created)"
  have "wp (bindE (call_at env (\<lambda>now. begin_intake p req key (canonical_hash (intake_dump req))
          rv now mode uuid))
        (\<lambda>(run, created). bindE (resume env fuel p run) (\<lambda>r. returnE (r, created)))) ?Q (\<lambda>_ _. True) w" for rv
    unfolding wp_bind [of "call_at _ _"]
  proof (rule wp_mono [OF begin_keyed [OF assms(1)]], clarify)
    fix r created and w' :: world
    assume r: "snap p r (db w')" "keyed_run p key (canonical_hash (intake_dump req)) r (db w')"
      "select_idempotency p key (db w) = None \<or> \<not> created"
    show "wp (bindE (resume env fuel p r) (\<lambda>x. returnE (x, created))) ?Q (\<lambda>_ _. True) w'"
      unfolding wp_bind by (rule wp_mono [OF resume_keyed [OF r(1,2) assms(2)]]) (use r(3) in auto)
  qed simp
  then show ?thesis
    by (simp add: intake_def check_idempotency_key_def wp_bind [of "liftE _"] split: sum.split del: wp_bind)
qed

lemma detail_run:
  assumes "repo_inv (db w)"
  shows "wp (detail env p rid) (\<lambda>d _. run_id (det_run d) = rid) (\<lambda>_ _. True) w"
  by (auto simp: wp_def detail_def call_repo_def get_run_def comp_defs
      split: option.splits prod.splits sum.splits dest: run_visible_select)

lemma post_keyed:
  assumes "repo_inv (db w)" and "8 < fuel"
  shows "wp (intake_and_detail env fuel p req key uuid)
    (\<lambda>res w'. \<exists>b run. res = Some b \<and> run_id (det_run (posted b)) = run_id run \<and> snap p run (db w')
        \<and> keyed_run p key (canonical_hash (intake_dump req)) run (db w') \<and> state run \<notin> machine_states
        \<and> (select_idempotency p key (db w) = None \<or> idempotent_replay b)) (\<lambda>_ _. True) w"
  unfolding intake_and_detail_def wp_bind [of "intake _ _ _ _ _ _ _"]
proof (rule wp_mono [OF intake_keyed [OF assms]], clarify)
  fix res created r and w' :: world
  assume r: "snap p r (db w')" "keyed_run p key (canonical_hash (intake_dump req)) r (db w')"
    "state r \<notin> machine_states" "select_idempotency p key (db w) = None \<or> \<not> created"
  have "good (db w') w'" using r(1) by (simp add: good_def snap_def)
  then have "good (db w') (snd (detail env p (run_id r) w'))" by (rule preservesD [OF preserves_detail])
  then have "snap p r (db (snd (detail env p (run_id r) w')))
      \<and> keyed_run p key (canonical_hash (intake_dump req)) r (db (snd (detail env p (run_id r) w')))"
    using keyed_run_later r snap_later [OF r(1)] by (auto simp: good_def)
  moreover have "wp (detail env p (run_id r)) (\<lambda>d _. run_id (det_run d) = run_id r) (\<lambda>_ _. True) w'"
    using r(1) by (intro detail_run) (simp add: snap_def)
  ultimately have "wp (detail env p (run_id r)) (\<lambda>d w''. run_id (det_run d) = run_id r \<and> snap p r (db w'')
      \<and> keyed_run p key (canonical_hash (intake_dump req)) r (db w'')) (\<lambda>_ _. True) w'"
    by (auto simp: wp_def split: prod.splits sum.splits)
  then show "wp (case Some r of None \<Rightarrow> returnE None
        | Some r \<Rightarrow> bindE (detail env p (run_id r))
            (\<lambda>d. returnE (Some \<lparr>posted = d, idempotent_replay = (\<not> created)\<rparr>)))
      (\<lambda>res w'. \<exists>b run. res = Some b \<and> run_id (det_run (posted b)) = run_id run \<and> snap p run (db w')
        \<and> keyed_run p key (canonical_hash (intake_dump req)) run (db w') \<and> state run \<notin> machine_states
        \<and> (select_idempotency p key (db w) = None \<or> idempotent_replay b)) (\<lambda>_ _. True) w'"
    unfolding option.case wp_bind by (rule wp_mono) (use r(3,4) in auto)
qed simp

text \<open>A request on the key of a settled run: four calls that read.\<close>

lemma parse_rows_refusal: "parse_rows rows = Inl e \<Longrightarrow> e = PydanticValidationError"
  by (induction rows)
     (auto simp: parse_result_def parse_evidence_def make_evidence_def split: sum.splits option.splits if_splits)

lemma intake_observes:
  assumes "snap p run (db w)" and "keyed_run p key (canonical_hash (intake_dump req)) run (db w)"
    and "state run \<notin> machine_states" and "0 < fuel"
    and "has_role p ''operator''" "check_idempotency_key key = Inr ()" "reviewer_of env (principal_tenant p) = Inr rv"
  shows "\<exists>x w'. intake env fuel p req key mode uuid w = (Inr (Some x, False), w') \<and> run_id x = run_id run
      \<and> db w' = interfere env (repo_calls w) (db w) \<and> repo_calls w' = Suc (repo_calls w)"
proof -
  let ?d = "interfere env (repo_calls w) (db w)"
  have d: "repo_inv ?d" "repo_before (db w) ?d"
    using others_inv others_before assms(1) by (auto simp: snap_def)
  from snap_select [OF snap_later [OF assms(1) d]] obtain x where
    x: "select_one (run_visible p (run_id run)) (runs ?d) = Some x" "run_advanced run x" .
  obtain row where row: "select_idempotency p key ?d = Some row"
    "idem_payload_hash row = canonical_hash (intake_dump req)" "idem_run_id row = run_id run"
    using keyed_run_later [OF d(2) assms(2)] by (auto simp: keyed_run_def)
  have entry: "begin_intake p req key (canonical_hash (intake_dump req)) rv now mode uuid ?d = (Inr (x, False), ?d)" for now
    using row x(1) by (simp add: begin_intake_def begin_intake_after_select_def observe_intake_def returnE_def)
  have "state x \<notin> machine_states" by (rule settled_later [OF x(2) assms(3)])
  then have "resume_step env (Suc n) p x = returnE (Some x)" for n
    by (cases "state x") (simp_all add: machine_states_def)
  then have "resume env fuel p x = returnE (Some x)"
    using assms(4) by (cases fuel) (auto simp: step_fuel_def eval_nat_numeral comp_defs fun_eq_iff)
  with assms(5-7) entry x(2) show ?thesis
    by (auto simp: intake_def call_at_def read_clock_def call_repo_def comp_defs run_advanced_def same_run_def)
qed

lemma detail_observes:
  assumes "snap p run (db w)"
  shows "\<exists>ans w'. detail env p (run_id run) w = (ans, w') \<and> repo_calls w < repo_calls w'
      \<and> db w' = fold (interfere env) [repo_calls w ..< repo_calls w'] (db w)
      \<and> (case ans of
           Inr b \<Rightarrow> run_id (det_run b) = run_id run
         | Inl e \<Rightarrow> e = PydanticValidationError \<and> fst (list_evidence p (run_id run) (db w')) = Inl e)"
proof -
  let ?k = "repo_calls w"
  let ?d = "interfere env ?k (db w)" let ?d1 = "interfere env (Suc ?k) ?d"
  have d: "repo_inv ?d" "repo_before (db w) ?d"
    using others_inv others_before assms by (auto simp: snap_def)
  from snap_select [OF snap_later [OF assms d]] obtain x where
    x: "select_one (run_visible p (run_id run)) (runs ?d) = Some x" .
  then have id: "run_id x = run_id run" by (simp add: run_visible_select)
  show ?thesis
  proof (cases "parse_rows (evidence_rows p (run_id run) ?d1)")
    case (Inl e)
    with parse_rows_refusal [OF Inl] x id show ?thesis
      by (auto simp: detail_def call_repo_def get_run_def list_evidence_def comp_defs)
  next
    case (Inr es)
    with x id show ?thesis
      by (auto simp: detail_def call_repo_def get_run_def list_evidence_def comp_defs)
  qed
qed

lemma post_observes:
  assumes "snap p run (db w)" and "keyed_run p key (canonical_hash (intake_dump req)) run (db w)"
    and "state run \<notin> machine_states" and "0 < fuel"
    and "has_role p ''operator''" "check_idempotency_key key = Inr ()" "reviewer_of env (principal_tenant p) = Inr rv"
  shows "\<exists>ans w'. intake_and_detail env fuel p req key uuid w = (ans, w')
      \<and> db w' = fold (interfere env) [repo_calls w ..< repo_calls w'] (db w)
      \<and> (case ans of
           Inr res \<Rightarrow> \<exists>b. res = Some b \<and> run_id (det_run (posted b)) = run_id run \<and> idempotent_replay b
         | Inl e \<Rightarrow> e = PydanticValidationError \<and> fst (list_evidence p (run_id run) (db w')) = Inl e)"
proof -
  from intake_observes [OF assms] obtain x w1 where
    i: "intake env fuel p req key Human_review uuid w = (Inr (Some x, False), w1)" "run_id x = run_id run"
    and w1: "db w1 = interfere env (repo_calls w) (db w)" "repo_calls w1 = Suc (repo_calls w)" by blast
  have "snap p run (db w1)"
    using snap_later [OF assms(1)] others_inv others_before assms(1) by (simp add: snap_def w1(1))
  from detail_observes [OF this] obtain ans w' where d: "detail env p (run_id run) w1 = (ans, w')"
    "Suc (repo_calls w) < repo_calls w'"
    "db w' = fold (interfere env) [Suc (repo_calls w) ..< repo_calls w'] (interfere env (repo_calls w) (db w))"
    "case ans of Inr b \<Rightarrow> run_id (det_run b) = run_id run
       | Inl e \<Rightarrow> e = PydanticValidationError \<and> fst (list_evidence p (run_id run) (db w')) = Inl e" unfolding w1 by blast
  have "[repo_calls w ..< repo_calls w'] = repo_calls w # [Suc (repo_calls w) ..< repo_calls w']"
    using d(2) by (intro upt_conv_Cons) simp
  with i d show ?thesis
    by (cases ans) (auto simp: intake_and_detail_def comp_defs)
qed

lemma post_conflicts:
  assumes "snap p run (db w)" and "keyed_run p key h run (db w)" and "canonical_hash (intake_dump r) \<noteq> h"
    and "has_role p ''operator''" and "check_idempotency_key key = Inr ()"
    and "reviewer_of env (principal_tenant p) = Inr rv"
  shows "\<exists>w'. intake_and_detail env fuel p r key uuid w = (Inl (ConflictError ''IDEMPOTENCY_KEY_CONFLICT''
           ''Idempotency key was already used with a different payload''), w')
      \<and> runs (db w') = runs (interfere env (repo_calls w) (db w))
      \<and> idempotency (db w') = idempotency (interfere env (repo_calls w) (db w))"
proof -
  let ?d = "interfere env (repo_calls w) (db w)"
  have d: "repo_inv ?d" "repo_before (db w) ?d"
    using others_inv others_before assms(1) by (auto simp: snap_def)
  have sn: "snap p run ?d" by (rule snap_later [OF assms(1) d])
  obtain row where row: "select_idempotency p key ?d = Some row" "idem_payload_hash row = h" "idem_run_id row = run_id run"
    using keyed_run_later [OF d(2) assms(2)] by (auto simp: keyed_run_def)
  from sn obtain x where x: "x \<in> set (runs ?d)" "run_advanced run x" "tenant_id run = principal_tenant p"
    by (auto simp: snap_def)
  then have "run_id x = idem_run_id row" "tenant_id x = principal_tenant p"
    using row(3) by (auto simp: run_advanced_def same_run_def)
  with select_run_visible [OF inv_keyed [OF d(1)] x(1), of p]
  have "select_one (run_visible p (idem_run_id row)) (runs ?d) = Some x" by simp
  with row assms(3) have "\<exists>d1. begin_intake p r key (canonical_hash (intake_dump r)) rv now Human_review uuid ?d
      = (Inl (ConflictError ''IDEMPOTENCY_KEY_CONFLICT'' ''Idempotency key was already used with a different payload''), d1)
      \<and> runs d1 = runs ?d \<and> idempotency d1 = idempotency ?d" for now
    by (auto simp: begin_intake_def begin_intake_after_select_def observe_intake_def raiseE_def insert_event_def)
  then obtain d1 where "begin_intake p r key (canonical_hash (intake_dump r)) rv (clock env (clock_reads w)) Human_review uuid ?d
      = (Inl (ConflictError ''IDEMPOTENCY_KEY_CONFLICT'' ''Idempotency key was already used with a different payload''), d1)"
    "runs d1 = runs ?d" "idempotency d1 = idempotency ?d" by blast
  then show ?thesis
    using assms(4-6)
    by (simp add: intake_and_detail_def intake_def call_at_def read_clock_def call_repo_def comp_defs)
qed

end

subsection \<open>Properties\<close>

text \<open>What a first answer says of the request and of the key.\<close>

lemma posted_request:
  assumes "create_investigation env fuel idp req (Body r) uuid w = (Some (Response st b), w1)"
  obtains p key where "resolve idp (authorization_header req) = Inr p" and "idempotency_header req = Some key"
    and "validate_intake r = Inr ()" and "\<not> list_ex (\<lambda>q. q \<in> FORBIDDEN_CLIENT_CONTEXT) (query_params req)"
    and "intake_and_detail env fuel p r key uuid w = (Inr (Some b), w1)"
    and "st = (if idempotent_replay b then 200 else 201)"
proof -
  have not_error: "stockoutops_error_handler e \<noteq> Response n x" for e n and x :: Posted
    by (simp add: stockoutops_error_handler_def split: option.split)
  from assms have ok: "\<not> list_ex (\<lambda>q. q \<in> FORBIDDEN_CLIENT_CONTEXT) (query_params req)"
    by (auto simp: create_investigation_def with_principal_def reject_client_authority_def split: if_splits)
  with assms obtain p where p: "resolve idp (authorization_header req) = Inr p"
    by (auto simp: create_investigation_def with_principal_def reject_client_authority_def not_error
        not_error [symmetric] split: if_splits sum.splits)
  with assms ok obtain key where key: "idempotency_header req = Some key" "validate_intake r = Inr ()"
    by (auto simp: create_investigation_def with_principal_def reject_client_authority_def typed_body_def
        split: if_splits)
  show ?thesis
    by (rule that [OF p key ok])
       (use assms p key ok in \<open>auto simp: create_investigation_def with_principal_def reject_client_authority_def
          typed_body_def answer_def not_error not_error [symmetric] split: prod.splits sum.splits if_splits\<close>)
qed

lemma intake_admitted:
  assumes "intake_and_detail env fuel p r key uuid w = (Inr (Some b), w1)"
  shows "has_role p ''operator''" and "check_idempotency_key key = Inr ()"
    and "\<exists>rv. reviewer_of env (principal_tenant p) = Inr rv"
  using assms
  by (auto simp: intake_and_detail_def intake_def comp_defs split: if_splits sum.splits prod.splits)

lemma fold_repo_concat: "fold (\<lambda>k. fold repo_step (ops k)) ks d = fold repo_step (concat (map ops ks)) d"
  by (induction ks arbitrary: d) simp_all

text \<open>C39. A POST may be retried: whatever other callers did since a POST was answered with a run, and whatever
  they do meanwhile, the same POST again always ends and never waits, and it writes nothing: the database it
  leaves is what the operations of the other callers between its own calls made of the one it found, so that it
  never creates a second run. It answers 200 with the same run and says that it is a replay. The one
  thing that can stop it is a completed tool row of the run whose stored result is no evidence by then: reading it
  back raises Pydantic's exception, which no handler of the application answers.
  A different valid body under the key is refused with \<^verbatim>\<open>IDEMPOTENCY_KEY_CONFLICT\<close> and status 409, and leaves the
  runs and the keys as they are.\<close>

theorem post_retried:
  assumes "reasoning_adapter rs" and "reasoning_adapter rs'" and "8 < fuel"
    and "db w = fold repo_step before_ops (empty_db i d s)"
    and "create_investigation (busy_env c ops rs (assigned_reviewer idp) v) fuel idp req (Body r) uuid w
           = (Some (Response st b), w1)"
    and "db w2 = fold repo_step later (db w1)"
  shows "st = (if idempotent_replay b then 200 else 201)
    \<and> (\<exists>ans w3. create_investigation (busy_env c' ops' rs' (assigned_reviewer idp) v') fuel idp req (Body r) uuid' w2
           = (Some ans, w3)
         \<and> db w3 = fold repo_step (concat (map ops' [repo_calls w2 ..< repo_calls w3])) (db w2)
         \<and> (case ans of
              Response st2 b2 \<Rightarrow> st2 = 200 \<and> idempotent_replay b2
                \<and> run_id (det_run (posted b2)) = run_id (det_run (posted b))
            | Unhandled e \<Rightarrow> e = PydanticValidationError \<and> (\<exists>p. resolve idp (authorization_header req) = Inr p
                \<and> fst (list_evidence p (run_id (det_run (posted b))) (db w3)) = Inl e)
            | _ \<Rightarrow> False))
    \<and> (validate_intake r' = Inr () \<and> canonical_hash (intake_dump r') \<noteq> canonical_hash (intake_dump r) \<longrightarrow>
         (\<exists>w3. create_investigation (busy_env c' ops' rs' (assigned_reviewer idp) v') fuel idp req (Body r') uuid' w2
             = (Some (ErrorResponse 409 (error_content ''IDEMPOTENCY_KEY_CONFLICT''
                  ''Idempotency key was already used with a different payload'')), w3)
           \<and> runs (db w3) = runs (fold repo_step (ops' (repo_calls w2)) (db w2))
           \<and> idempotency (db w3) = idempotency (fold repo_step (ops' (repo_calls w2)) (db w2))))"
proof -
  let ?env = "busy_env c ops rs (assigned_reviewer idp) v" and ?env' = "busy_env c' ops' rs' (assigned_reviewer idp) v'"
  have inv: "repo_inv (db w)" unfolding assms(4) by (rule reachable_inv)
  from posted_request [OF assms(5)] obtain p key where q: "resolve idp (authorization_header req) = Inr p"
    "idempotency_header req = Some key" "validate_intake r = Inr ()"
    "\<not> list_ex (\<lambda>q. q \<in> FORBIDDEN_CLIENT_CONTEXT) (query_params req)"
    "intake_and_detail ?env fuel p r key uuid w = (Inr (Some b), w1)" "st = (if idempotent_replay b then 200 else 201)"
    by metis
  note first = busy_service_env [OF assms(1)] and again = busy_service_env [OF assms(2)]
  from wpD [OF service_env.post_keyed [OF first inv assms(3)] q(5)] obtain run where run:
    "run_id (det_run (posted b)) = run_id run" "snap p run (db w1)"
    "keyed_run p key (canonical_hash (intake_dump r)) run (db w1)" "state run \<notin> machine_states" by auto
  have w1: "repo_inv (db w1)" using run(2) by (simp add: snap_def)
  note before = repo.run_before [OF w1, of later, folded assms(6)] and w2 = repo.run_inv [OF w1, of later, folded assms(6)]
  have run2: "snap p run (db w2)" "keyed_run p key (canonical_hash (intake_dump r)) run (db w2)"
    by (rule snap_later [OF run(2) w2 before]) (rule keyed_run_later [OF before run(3)])
  obtain rv where rv: "reviewer_of ?env' (principal_tenant p) = Inr rv"
    using intake_admitted(3) [OF q(5)] by (auto simp: busy_env_def)
  note admitted = intake_admitted(1,2) [OF q(5)] rv
  have post: "create_investigation ?env' fuel idp req (Body x) uuid' w2 =
      answer (intake_and_detail ?env' fuel p x key uuid') (map_option (\<lambda>b. Response (if idempotent_replay b then 200 else 201) b)) w2"
    if "validate_intake x = Inr ()" for x
    using q that by (simp add: create_investigation_def with_principal_def reject_client_authority_def typed_body_def)
  have "0 < fuel" using assms(3) by simp
  from service_env.post_observes [OF again run2 run(4) this admitted, of uuid'] obtain res w3 where
    res: "intake_and_detail ?env' fuel p r key uuid' w2 = (res, w3)"
      "db w3 = fold repo_step (concat (map ops' [repo_calls w2 ..< repo_calls w3])) (db w2)"
      "case res of
         Inr x \<Rightarrow> \<exists>b. x = Some b \<and> run_id (det_run (posted b)) = run_id run \<and> idempotent_replay b
       | Inl e \<Rightarrow> e = PydanticValidationError \<and> fst (list_evidence p (run_id run) (db w3)) = Inl e"
    by (auto simp: busy_env_def fold_repo_concat)
  have "\<exists>ans. create_investigation ?env' fuel idp req (Body r) uuid' w2 = (Some ans, w3) \<and> (case ans of
              Response st2 b2 \<Rightarrow> st2 = 200 \<and> idempotent_replay b2
                \<and> run_id (det_run (posted b2)) = run_id (det_run (posted b))
            | Unhandled e \<Rightarrow> e = PydanticValidationError \<and> (\<exists>p. resolve idp (authorization_header req) = Inr p
                \<and> fst (list_evidence p (run_id (det_run (posted b))) (db w3)) = Inl e)
            | _ \<Rightarrow> False)"
    using res(1,3) run(1) q(1)
    by (cases res) (auto simp: post [OF q(3)] answer_def stockoutops_error_handler_def)
  moreover have "\<exists>w3. create_investigation ?env' fuel idp req (Body r') uuid' w2
      = (Some (ErrorResponse 409 (error_content ''IDEMPOTENCY_KEY_CONFLICT''
               ''Idempotency key was already used with a different payload'')), w3)
      \<and> runs (db w3) = runs (fold repo_step (ops' (repo_calls w2)) (db w2))
      \<and> idempotency (db w3) = idempotency (fold repo_step (ops' (repo_calls w2)) (db w2))"
    if "validate_intake r' = Inr ()" "canonical_hash (intake_dump r') \<noteq> canonical_hash (intake_dump r)"
  proof -
    from service_env.post_conflicts [OF again run2 that(2) admitted, of fuel uuid'] obtain w4 where
      w4: "intake_and_detail ?env' fuel p r' key uuid' w2 = (Inl (ConflictError ''IDEMPOTENCY_KEY_CONFLICT''
           ''Idempotency key was already used with a different payload''), w4)"
        "runs (db w4) = runs (interfere ?env' (repo_calls w2) (db w2))"
        "idempotency (db w4) = idempotency (interfere ?env' (repo_calls w2) (db w2))" by blast
    have "interfere ?env' = (\<lambda>k. fold repo_step (ops' k))" by (simp add: busy_env_def)
    with w4 show ?thesis
      by (intro exI [of _ w4]) (simp add: post [OF that(1)] answer_def stockoutops_error_handler_def)
  qed
  ultimately show ?thesis using q(6) res(2) by blast
qed

subsection \<open>A concrete retry\<close>

definition w_idp_bearer :: SimulatedIdentityProvider where
  "w_idp_bearer = \<lparr>token_map = [(''token-1'', w_operator)], reviewer_assignments = [(''t1'', ''rev-1'')]\<rparr>"

definition w_http :: ApiRequest where
  "w_http = \<lparr>query_params = [], authorization_header = Some ''Bearer token-1'', idempotency_header = Some ''key-1''\<rparr>"

definition w_hashed_run :: RunRecord where
  "w_hashed_run = new_run w_operator w_request (canonical_hash (intake_dump w_request)) ''rev-1'' 3000 Human_review ''run-1''"

definition w_posted_ops :: "repo_op list" where
  "w_posted_ops =
     [OpBeginIntake w_operator w_request ''key-1'' (canonical_hash (intake_dump w_request)) ''rev-1'' 3000 Human_review ''run-1'',
      OpTransition w_operator w_hashed_run VALIDATING ''validation_started'' 3001 None,
      OpTransition w_operator (w_hashed_run\<lparr>state := VALIDATING, state_version := 1\<rparr>) ESCALATED ''escalated'' 3002 None]"

definition w_posted :: world where
  "w_posted = \<lparr>db = fold repo_step w_posted_ops (empty_db [] [] []), clock_reads = 0, repo_calls = 0, reasoned = []\<rparr>"

lemma w_transitions: "can_transition CREATED VALIDATING" "can_transition VALIDATING ESCALATED"
  by code_simp+

lemma w_posted_tables:
  "runs (db w_posted) = [w_hashed_run\<lparr>state := ESCALATED, state_version := 2, run_updated_at := 3002\<rparr>]"
  "tools (db w_posted) = []" "decisions (db w_posted) = []"
  "select_idempotency w_operator ''key-1'' (db w_posted) = Some \<lparr>idem_tenant_id = ''t1'', idem_key = ''key-1'',
     idem_payload_hash = canonical_hash (intake_dump w_request), idem_run_id = ''run-1'', idem_created_at = 3000\<rparr>"
  by (simp_all add: w_posted_def w_posted_ops_def empty_db_def begin_intake_def begin_intake_after_select_def
      select_idempotency_def idem_matches_def w_operator_def run_checks_def new_run_def w_request_def w_hashed_run_def
      bounded_text_def returnE_def insert_event_def transition_def update_run_def update_where_def run_matches_def
      move_to_def machine_states_def w_transitions Let_def)

lemma w_http_admitted:
  "resolve w_idp_bearer (authorization_header w_http) = Inr w_operator" "validate_intake w_request = Inr ()"
  "has_role w_operator ''operator''" "check_idempotency_key ''key-1'' = Inr ()"
  "assigned_reviewer w_idp_bearer (principal_tenant w_operator) = Inr ''rev-1''"
  by code_simp+

lemma w_first_answer:
  "\<exists>b w1. create_investigation (busy_env (\<lambda>k. 4000 + int k) (\<lambda>_. []) stub_reason (assigned_reviewer w_idp_bearer) ''v1'')
     9 w_idp_bearer w_http (Body w_request) ''run-9'' w_posted = (Some (Response 200 b), w1)
     \<and> tools (db w1) = []"
proof -
  let ?env = "busy_env (\<lambda>k. 4000 + int k) (\<lambda>_. []) stub_reason (assigned_reviewer w_idp_bearer) ''v1''"
  let ?run = "w_hashed_run\<lparr>state := ESCALATED, state_version := 2, run_updated_at := 3002\<rparr>"
  have run: "run_visible w_operator ''run-1'' ?run"
    by (simp add: run_visible_def w_hashed_run_def new_run_def w_operator_def)
  then have visible: "select_one (run_visible w_operator ''run-1'') (runs (db w_posted)) = Some ?run"
    by (simp add: w_posted_tables)
  have "\<exists>w1. intake ?env 9 w_operator w_request ''key-1'' Human_review ''run-9'' w_posted = (Inr (Some ?run, False), w1)
      \<and> db w1 = db w_posted"
    by (simp add: intake_def w_http_admitted busy_env_def call_at_def read_clock_def call_repo_def comp_defs
        begin_intake_def begin_intake_after_select_def w_posted_tables(4) observe_intake_def visible
        eval_nat_numeral step_fuel_def)
  then obtain w1 where w1: "intake ?env 9 w_operator w_request ''key-1'' Human_review ''run-9'' w_posted
      = (Inr (Some ?run, False), w1)" "db w1 = db w_posted" by blast
  have "\<exists>d w2. detail ?env w_operator ''run-1'' w1 = (Inr d, w2) \<and> tools (db w2) = []"
    by (simp add: detail_def busy_env_def call_repo_def comp_defs get_run_def list_evidence_def w1(2)
        run evidence_rows_def w_posted_tables)
  then obtain d w2 where "detail ?env w_operator ''run-1'' w1 = (Inr d, w2)" "tools (db w2) = []" by blast
  moreover have "run_id ?run = ''run-1''" by (simp add: w_hashed_run_def new_run_def)
  ultimately have "intake_and_detail ?env 9 w_operator w_request ''key-1'' ''run-9'' w_posted
      = (Inr (Some \<lparr>posted = d, idempotent_replay = True\<rparr>), w2)"
    using w1(1) by (simp add: intake_and_detail_def comp_defs)
  moreover have "idempotency_header w_http = Some ''key-1''" "query_params w_http = []" by (simp_all add: w_http_def)
  ultimately show ?thesis
    using \<open>tools (db w2) = []\<close>
    by (simp add: create_investigation_def with_principal_def reject_client_authority_def w_http_admitted typed_body_def
        answer_def)
qed

lemma begin_tools: "tools (snd (begin_intake p req key h rv now mode uuid d)) = tools d"
  by (auto simp: begin_intake_def begin_intake_after_select_def observe_intake_def insert_event_def Let_def comp_defs
      split: option.split)

theorem post_retried_witness:
  "\<exists>b w1 b2 w3. create_investigation (busy_env (\<lambda>k. 4000 + int k) (\<lambda>_. []) stub_reason (assigned_reviewer w_idp_bearer) ''v1'')
       9 w_idp_bearer w_http (Body w_request) ''run-9'' w_posted = (Some (Response 200 b), w1)
     \<and> create_investigation (busy_env (\<lambda>k. 5000 + int k) (\<lambda>_. []) stub_reason (assigned_reviewer w_idp_bearer) ''v2'')
          9 w_idp_bearer w_http (Body w_request) ''run-10'' (w1\<lparr>db := repo_step w_create (db w1)\<rparr>)
        = (Some (Response 200 b2), w3)
     \<and> db w3 = repo_step w_create (db w1) \<and> idempotent_replay b2
     \<and> run_id (det_run (posted b2)) = run_id (det_run (posted b))"
proof -
  obtain b w1 where first: "create_investigation (busy_env (\<lambda>k. 4000 + int k) (\<lambda>_. []) stub_reason
      (assigned_reviewer w_idp_bearer) ''v1'') 9 w_idp_bearer w_http (Body w_request) ''run-9'' w_posted
      = (Some (Response 200 b), w1)" and t: "tools (db w1) = []" using w_first_answer by blast
  have start: "db w_posted = fold repo_step w_posted_ops (empty_db [] [] [])" by (simp add: w_posted_def)
  let ?w = "w1\<lparr>db := repo_step w_create (db w1)\<rparr>"
  have later: "db ?w = fold repo_step [w_create] (db w1)" by simp
  note lawful = stub.reasoning_adapter_axioms
  have "8 < (9 :: nat)" by simp
  from conjunct1 [OF conjunct2 [OF post_retried [OF lawful lawful this start first later, where c' = "\<lambda>k. 5000 + int k"
      and ops' = "\<lambda>_. []" and v' = "''v2''" and uuid' = "''run-10''" and r' = w_request]]]
  obtain ans w3 where a: "create_investigation (busy_env (\<lambda>k. 5000 + int k) (\<lambda>_. []) stub_reason
        (assigned_reviewer w_idp_bearer) ''v2'') 9 w_idp_bearer w_http (Body w_request) ''run-10'' ?w = (Some ans, w3)"
    "db w3 = fold repo_step (concat (map (\<lambda>_. []) [repo_calls ?w ..< repo_calls w3])) (db ?w)"
    and a3: "case ans of
        Response st2 b2 \<Rightarrow> st2 = 200 \<and> idempotent_replay b2
          \<and> run_id (det_run (posted b2)) = run_id (det_run (posted b))
      | Unhandled e \<Rightarrow> e = PydanticValidationError \<and> (\<exists>p. resolve w_idp_bearer (authorization_header w_http) = Inr p
          \<and> fst (list_evidence p (run_id (det_run (posted b))) (db w3)) = Inl e)
      | _ \<Rightarrow> False" by blast
  have "concat (map (\<lambda>_. []) ks) = ([] :: repo_op list)" for ks :: "nat list" by (induction ks) simp_all
  with a(2) have db3: "db w3 = repo_step w_create (db w1)" by simp
  then have "tools (db w3) = []" using t by (simp add: w_create_def begin_tools)
  then have "fst (list_evidence p rid (db w3)) = Inr []" for p rid
    by (simp add: list_evidence_def evidence_rows_def comp_defs)
  with a3 obtain b2 where "ans = Response 200 b2" "idempotent_replay b2"
    "run_id (det_run (posted b2)) = run_id (det_run (posted b))" by (cases ans) auto
  with first a(1) db3 show ?thesis by blast
qed

end
