(* ===== verification/Pilot.thy ===== *)
theory Pilot
  imports Fixtures
begin

section \<open>The shadow pilot, end to end (\<^verbatim>\<open>shadow/cli.py\<close>)\<close>

text \<open>
  The pilot seeds the fixtures of a pack, processes its cases one after the other under a clock that stands
  still half an hour after the case, and aggregates the results. It is the only caller: nothing
  happens between its calls. \<open>sids\<close> and \<open>rids\<close> are the identifiers the database and the
  service make up for the k-th case. \<open>None\<close>: the fuel of an investigation ran out.
\<close>

definition pilot_provider :: SimulatedIdentityProvider where
  "pilot_provider = \<lparr>token_map = [],
     reviewer_assignments = [(''t_alpha'', ''reviewer-alpha-primary''), (''t_beta'', ''reviewer-beta-primary'')]\<rparr>"

definition pilot_env :: "nat \<Rightarrow> string \<Rightarrow> ShadowCase \<Rightarrow> shadow_env" where
  "pilot_env fuel version c =
     (let now = instant (as_of_timestamp c) + 30 * 60 * microseconds
      in \<lparr>se_service = \<lparr>clock = (\<lambda>_. now), interfere = (\<lambda>_ d. d), reasoning = stub_reason,
                        reviewer_of = assigned_reviewer pilot_provider, manifest_version = version\<rparr>,
          se_fuel = fuel, se_clock = (\<lambda>_. now), se_others = (\<lambda>_ d. d)\<rparr>)"

definition pilot_principal :: "ShadowCase \<Rightarrow> Principal" where
  "pilot_principal c = \<lparr>actor_id = ''shadow-operator-'' @ case_tenant_id c,
     principal_tenant = case_tenant_id c, roles = {''operator''}\<rparr>"

definition pilot_key :: "string \<Rightarrow> ShadowCase \<Rightarrow> string" where
  "pilot_key version c = version @ '':'' @ case_id c @ '':'' @ case_version c"

fun run_cases ::
  "nat \<Rightarrow> string \<Rightarrow> (nat \<Rightarrow> string) \<Rightarrow> (nat \<Rightarrow> string) \<Rightarrow> nat \<Rightarrow> ShadowCase list
   \<Rightarrow> (shadow_world, ShadowResult list option) comp"
where
  "run_cases fuel version sids rids k [] = returnE (Some [])"
| "run_cases fuel version sids rids k (c # cs) =
     bindE (process_case (pilot_env fuel version c) (pilot_principal c) c version (pilot_key version c) False
              (sids k) (rids k)) (\<lambda>res. case res of
        None \<Rightarrow> returnE None
      | Some r \<Rightarrow> bindE (run_cases fuel version sids rids (Suc k) cs) (\<lambda>rest.
          returnE (map_option (\<lambda>rs. r # rs) rest)))"

definition seed_pack :: "(rat \<Rightarrow> rat) \<Rightarrow> ShadowCasePack \<Rightarrow> (shadow_world, unit) comp" where
  "seed_pack num p w =
     (case seed_case_fixtures num p (db (sw_world w)) of
        (r, d) \<Rightarrow> (r, w\<lparr>sw_world := (sw_world w)\<lparr>db := d\<rparr>\<rparr>))"

definition run_pilot ::
  "(rat \<Rightarrow> rat) \<Rightarrow> nat \<Rightarrow> LoadedCasePack \<Rightarrow> (nat \<Rightarrow> string) \<Rightarrow> (nat \<Rightarrow> string) \<Rightarrow> string \<Rightarrow> datetime \<Rightarrow> json
   \<Rightarrow> (shadow_world, (ShadowResult list \<times> json) option) comp"
where
  "run_pilot num fuel loaded sids rids git_sha generated_at test_evidence =
     bindE (seed_pack num (pack loaded)) (\<lambda>_.
     bindE (run_cases fuel (case_pack_version (pack loaded)) sids rids 0 (pack_cases (pack loaded))) (\<lambda>results.
       case results of
         None \<Rightarrow> returnE None
       | Some rs \<Rightarrow> bindE (liftE (aggregate_report rs loaded git_sha generated_at test_evidence)) (\<lambda>report.
           returnE (Some (rs, report)))))"

subsection \<open>What the pilot leaves in the shadow tables\<close>

text \<open>Every row is finished, with the comparison of a case of the pack with the outcome it stores; no lock is held.\<close>

definition sound_row :: "LoadedCasePack \<Rightarrow> ShadowRunRecord \<Rightarrow> bool" where
  "sound_row loaded r \<longleftrightarrow> shr_status r \<noteq> Sh_started
     \<and> (\<exists>c \<in> set (pack_cases (pack loaded)). case_id c = sr_case_id r \<and> case_version c = sr_case_version r
        \<and> case_tenant_id c = sr_tenant_id r
        \<and> (\<exists>a cmp. sr_output r = Some a \<and> sr_diff r = Some cmp \<and> valid_actual a \<and> compare c a = Inr cmp))"

definition pilot_tables :: "LoadedCasePack \<Rightarrow> shadow_db \<Rightarrow> bool" where
  "pilot_tables loaded d \<longleftrightarrow> shadow_inv d \<and> shadow_locks d = [] \<and> (\<forall>r \<in> set (shadow_runs d). sound_row loaded r)"

lemma sound_processed:
  assumes "sound_row loaded r" and "result_from_record r b = Inr res"
  shows "processed loaded res"
  using assms by (auto simp: sound_row_def processed_def result_from_record_def split: option.splits)

lemma released: "fold remove1 (rev keys) keys = ([] :: int list)"
proof -
  have "mset (fold remove1 xs ys) = mset ys - mset xs" for xs ys :: "int list"
    by (induction xs arbitrary: ys) simp_all
  from this [of "rev keys" keys] show ?thesis by simp
qed

text \<open>The claimed body on a run just started: the comparison is that of the case.\<close>

lemma claimed_sound:
  assumes quiet: "\<And>k d. se_others env k d = d" and inv: "shadow_inv (sw_db w)"
    and rows: "\<And>x. x \<in> set (shadow_runs (sw_db w)) \<Longrightarrow> x = run \<or> sound_row loaded x"
    and c: "c \<in> set (pack_cases (pack loaded))" "case_id c = sr_case_id run" "case_version c = sr_case_version run"
      "case_tenant_id c = sr_tenant_id run"
    and claimed: "process_claimed env p c run uuid w = (Inr (Some r), w')"
  shows "shadow_inv (sw_db w') \<and> r \<in> set (shadow_runs (sw_db w')) \<and> shadow_locks (sw_db w') = shadow_locks (sw_db w)
    \<and> (\<forall>x \<in> set (shadow_runs (sw_db w')). sound_row loaded x)"
proof -
  from claimed obtain irun a cmp known now det aud inv1 where
    cmp: "compare c a = Inr cmp" and a: "actual_of c det aud inv1 = Inr a"
    and d: "complete_shadow known p run irun a cmp (canonical_hash (actual_dump a))
        (canonical_hash (comparison_dump cmp)) now (sw_db w) = (Inr r, sw_db w')"
    unfolding process_claimed_def comp_defs call_service_def call_shadow_def shadow_clock_def quiet actual_outcome_def
    by (clarsimp split: prod.splits sum.splits option.splits if_splits)
  have valid: "valid_actual a"
    using a by (auto simp: actual_of_def Let_def and_then_Inr_iff split: if_splits)
  from d show ?thesis
  proof (cases rule: complete_cases)
    case (completes x e)
    let ?f = "finished (if act_escalated a then Sh_escalated else Sh_completed) irun a cmp
        (canonical_hash (actual_dump a)) (canonical_hash (comparison_dump cmp)) now"
    have "\<not> sound_row loaded x" using completes(2) by (simp add: startable_def sound_row_def)
    then have x: "x = run" using rows [OF completes(1)] by blast
    have "sound_row loaded (?f x)"
      using c valid cmp by (auto simp: sound_row_def x finished_def intro!: bexI [of _ c])
    moreover have "sound_row loaded y" if "y \<in> set (shadow_runs (sw_db w))" "\<not> startable p run y" for y
      using rows [OF that(1)] that(2) completes(2) x by auto
    moreover have "y = x" if "y \<in> set (shadow_runs (sw_db w))" "startable p run y" for y
      using rows [OF that(1)] that(2) x by (auto simp: startable_def sound_row_def)
    ultimately have "\<forall>y \<in> set (shadow_runs (sw_db w')). sound_row loaded y"
      by (auto simp: completes(7) set_update_where)
    moreover have "r \<in> set (shadow_runs (sw_db w'))"
      using completes(1,2,3) by (auto simp: completes(7) set_update_where)
    ultimately show ?thesis using complete_inv [OF inv d] by (simp add: completes(7))
  qed simp
qed

lemma begin_resumed:
  assumes "begin_or_observe p key phash cid cver pack1 processor prompt pl bs now uuid d = (Inr (r, Some keys, False), d')"
  shows "r \<in> set (shadow_runs d) \<and> shr_status r = Sh_started"
  using assms
  by (auto simp: begin_or_observe_def observe_shadow_def Let_def comp_defs dest!: arg_cong [of "filter _ _" _ set]
      split: list.splits if_splits sum.splits prod.splits)

lemma process_sound:
  assumes quiet: "\<And>k d. se_others env k d = d" and inv: "pilot_tables loaded (sw_db w)"
    and c: "c \<in> set (pack_cases (pack loaded))" "case_tenant_id c = principal_tenant p"
    and run: "process_case env p c pack1 key False uuid ruuid w = (Inr (Some res), w')"
  shows "pilot_tables loaded (sw_db w') \<and> processed loaded res"
proof -
  have adm: "admissible env p c pack1 key"
  proof (rule ccontr)
    assume "\<not> ?thesis"
    from process_refused [OF this, of uuid ruuid] run show False by (auto simp: raiseE_def)
  qed
  let ?d = "sw_db w"
  let ?beginning = "begin_or_observe p key (shadow_payload_hash c pack1) (case_id c) (case_version c) pack1
      PROCESSOR_VERSION PROMPT_VERSION (provenance_label c) (baseline_source c) (se_clock env (sw_clock_reads w)) uuid ?d"
  note run = run [unfolded process_admitted [OF adm], unfolded comp_defs shadow_clock_def call_shadow_def quiet]
  obtain run1 claim created d1 where begun: "?beginning = (Inr (run1, claim, created), d1)"
    using run by (auto split: prod.splits sum.splits)
  have inv0: "shadow_inv ?d" "shadow_locks ?d = []" "\<And>r. r \<in> set (shadow_runs ?d) \<Longrightarrow> sound_row loaded r"
    using inv by (simp_all add: pilot_tables_def)
  have inv1: "shadow_inv d1" by (rule begin_inv [OF inv0(1) begun]) (simp add: locks_free_def inv0(2))
  show ?thesis
  proof (cases claim)
    case None
    then have r: "run1 \<in> set (shadow_runs ?d)" "d1 = ?d"
      using begun by (auto elim!: begin_cases)
    moreover have "result_from_record run1 True = Inr res" "sw_db w' = d1"
      using run begun None by (auto split: sum.splits)
    ultimately show ?thesis using inv inv0(3) sound_processed by metis
  next
    case (Some keys)
    let ?w1 = "w\<lparr>sw_clock_reads := Suc (sw_clock_reads w), sw_db := d1, sw_calls := Suc (sw_calls w)\<rparr>"
    obtain r w2 where claimed: "process_claimed env p c run1 ruuid ?w1 = (Inr (Some r), w2)"
      and res: "result_from_record r False = Inr res" and w': "w' = release_after keys w2"
      using run begun Some by (auto split: prod.splits sum.splits option.splits)
    have fresh: "shadow_runs d1 = shadow_runs ?d @ [run1] \<and> shadow_locks d1 = keys
        \<and> sr_case_id run1 = case_id c \<and> sr_case_version run1 = case_version c \<and> sr_tenant_id run1 = principal_tenant p"
      using begun [unfolded Some]
    proof (cases rule: begin_cases)
      case (resumed x)
      from begin_resumed [OF begun [unfolded Some resumed(1)]] inv0(3) have False
        by (auto simp: sound_row_def)
      then show ?thesis ..
    next
      case (started e)
      then show ?thesis by (simp add: inv0(2) new_shadow_run_def)
    qed simp_all
    have "shadow_inv (sw_db w2) \<and> r \<in> set (shadow_runs (sw_db w2)) \<and> shadow_locks (sw_db w2) = shadow_locks (sw_db ?w1)
        \<and> (\<forall>x \<in> set (shadow_runs (sw_db w2)). sound_row loaded x)"
      by (rule claimed_sound [OF quiet _ _ c(1) _ _ _ claimed]) (use fresh inv1 inv0(3) c(2) in auto)
    then have st: "shadow_inv (sw_db w2)" "r \<in> set (shadow_runs (sw_db w2))" "shadow_locks (sw_db w2) = keys"
      "\<forall>x \<in> set (shadow_runs (sw_db w2)). sound_row loaded x" using fresh by auto
    have db: "sw_db w' = release_shadow keys (sw_db w2)" by (simp add: w' release_after_def)
    have "pilot_tables loaded (sw_db w')"
      unfolding db pilot_tables_def using release_stores(1) [OF st(1), of keys] st(3,4)
      by (simp add: release_shadow_def released)
    moreover have "processed loaded res" using st(2,4) res by (auto intro: sound_processed)
    ultimately show ?thesis ..
  qed
qed

subsection \<open>The pilot's report is what the alert side reads\<close>

lemma pilot_service:
  "se_service (pilot_env fuel version c)
     = busy_env (\<lambda>_. instant (as_of_timestamp c) + 30 * 60 * microseconds) (\<lambda>_. []) stub_reason
         (assigned_reviewer pilot_provider) version"
  by (simp add: pilot_env_def busy_env_def Let_def id_def)

text \<open>A call of the service keeps the invariant of the run tables, and nine rounds are enough.\<close>

context shared_repository
begin

lemma preserves_actual [pres]: "preserves (good d0) (actual_outcome env p rid c)"
  unfolding actual_outcome_def by (auto intro!: pres forward_ops)

end

definition runs_ok :: "shadow_world \<Rightarrow> bool" where
  "runs_ok w \<longleftrightarrow> repo_inv (db (sw_world w))"

lemma runs_ok_fields [simp]:
  "runs_ok (w\<lparr>sw_db := d\<rparr>) = runs_ok w" "runs_ok (w\<lparr>sw_calls := n\<rparr>) = runs_ok w"
  "runs_ok (w\<lparr>sw_clock_reads := n\<rparr>) = runs_ok w" "runs_ok (release_after keys w) = runs_ok w"
  by (simp_all add: runs_ok_def release_after_def)

definition has_result :: "'a option \<Rightarrow> shadow_world \<Rightarrow> bool" where
  "has_result res w \<longleftrightarrow> res \<noteq> None \<and> runs_ok w"

lemma has_result_simps [simp]: "has_result None w \<longleftrightarrow> False" "has_result (Some x) w \<longleftrightarrow> runs_ok w"
  "has_result res (release_after keys w) = has_result res w"
  by (simp_all add: has_result_def)

lemma has_resultD: "has_result x w \<Longrightarrow> \<exists>y. x = Some y"
  by (auto simp: has_result_def)

lemma wp_service:
  assumes "\<And>d0. preserves (good d0) m" and "runs_ok w"
  shows "wp (call_service m) (\<lambda>_. runs_ok) (\<lambda>_. runs_ok) w"
proof -
  have "good (db (sw_world w)) (sw_world w)" using assms(2) by (simp add: good_def runs_ok_def)
  then have "good (db (sw_world w)) (snd (m (sw_world w)))" by (rule preservesD [OF assms(1)])
  then show ?thesis by (auto simp: wp_def call_service_def good_def runs_ok_def split: prod.splits sum.splits)
qed

lemma wp_shadow_calls:
  "runs_ok w \<Longrightarrow> wp (shadow_clock env) (\<lambda>_. runs_ok) (\<lambda>_. runs_ok) w"
  "runs_ok w \<Longrightarrow> wp (call_shadow env m) (\<lambda>_. runs_ok) (\<lambda>_. runs_ok) w"
  by (simp_all add: wp_def shadow_clock_def call_shadow_def returnE_def split: prod.splits sum.splits)

lemma pilot_intake:
  assumes "runs_ok w" and "8 < fuel"
  shows "wp (call_service (intake (se_service (pilot_env fuel version c)) fuel p req key mode uuid))
    (\<lambda>(res, created) w'. res \<noteq> None \<and> runs_ok w') (\<lambda>_. runs_ok) w"
proof -
  let ?env = "se_service (pilot_env fuel version c)"
  have env: "service_env ?env" "shared_repository ?env"
    unfolding pilot_service by (rule busy_stub.service_env_axioms, rule busy.shared_repository_axioms)
  have "wp (intake ?env fuel p req key mode uuid) (\<lambda>(res, created) w'. \<exists>r. res = Some r \<and> snap p r (db w') \<and> state r \<notin> machine_states)
      (\<lambda>e _. \<not> is_state_conflict e) (sw_world w)"
    using assms by (intro service_env.intake_ends [OF env(1)])
      (auto simp: runs_ok_def pilot_service busy_env_def dest: assigned_reviewer_orderly)
  then have "wp (call_service (intake ?env fuel p req key mode uuid)) (\<lambda>(res, created) w'. res \<noteq> None) (\<lambda>_ _. True) w"
    by (auto simp: wp_def call_service_def split: prod.splits sum.splits)
  moreover have "wp (call_service (intake ?env fuel p req key mode uuid)) (\<lambda>_. runs_ok) (\<lambda>_. runs_ok) w"
    by (rule wp_service [OF shared_repository.preserves_intake [OF env(2)] assms(1)])
  ultimately show ?thesis by (auto simp: wp_def split: prod.splits sum.splits)
qed

lemma claimed_returns:
  assumes "runs_ok w" and "8 < fuel"
  shows "wp (process_claimed (pilot_env fuel version c) p c1 run uuid) has_result (\<lambda>_. runs_ok) w"
proof -
  have env: "shared_repository (se_service (pilot_env fuel version c))"
    unfolding pilot_service by (rule busy.shared_repository_axioms)
  have fuel: "se_fuel (pilot_env fuel version c) = fuel" by (simp add: pilot_env_def Let_def)
  let ?env = "pilot_env fuel version c"
  have tail: "wp (bindE (liftE (compare c1 a)) (\<lambda>cmp.
      if act_missing_required_count a \<noteq> cmp_missing_required_count cmp then
        raiseE (RuntimeError ''Canonical missing-required-evidence counts diverged between actual and comparison'')
      else
        bindE (shadow_clock ?env) (\<lambda>now w.
        bindE (call_shadow ?env (complete_shadow (known_runs w) p run rid a cmp
                 (canonical_hash (actual_dump a)) (canonical_hash (comparison_dump cmp)) now))
          (\<lambda>completed. returnE (Some completed)) w))) has_result (\<lambda>_. runs_ok) w"
    if "runs_ok w" for a rid and w :: shadow_world
    using that by (auto simp: wp_def comp_defs shadow_clock_def call_shadow_def split: prod.splits sum.splits)
  have rest: "wp (bindE (call_service (actual_outcome (se_service ?env) p rid c1)) (\<lambda>a.
      bindE (liftE (compare c1 a)) (\<lambda>cmp.
      if act_missing_required_count a \<noteq> cmp_missing_required_count cmp then
        raiseE (RuntimeError ''Canonical missing-required-evidence counts diverged between actual and comparison'')
      else
        bindE (shadow_clock ?env) (\<lambda>now w.
        bindE (call_shadow ?env (complete_shadow (known_runs w) p run rid a cmp
                 (canonical_hash (actual_dump a)) (canonical_hash (comparison_dump cmp)) now))
          (\<lambda>completed. returnE (Some completed)) w)))) has_result (\<lambda>_. runs_ok) w"
    if "runs_ok w" for rid and w :: shadow_world
    unfolding wp_bind [of "call_service _"]
    by (rule wp_mono [OF wp_service [OF shared_repository.preserves_actual [OF env] that]]) (rule tail, assumption)
  show ?thesis
    unfolding process_claimed_def wp_bind [of "call_service (intake _ _ _ _ _ _ _)"] fuel
    by (rule wp_mono [OF pilot_intake [OF assms]]) (auto simp del: wp_bind intro: rest split: prod.split option.split)
qed

lemma process_returns:
  assumes "runs_ok w" and "8 < fuel"
  shows "wp (process_case (pilot_env fuel version c) p c1 pack1 key execute uuid ruuid) has_result
    (\<lambda>_. runs_ok) w"
proof -
  let ?env = "pilot_env fuel version c"
  have finish: "wp (bindE (finallyE (process_claimed ?env p c1 run ruuid) (release_after keys)) (\<lambda>done1.
        case done1 of
          None \<Rightarrow> returnE None
        | Some completed \<Rightarrow> bindE (liftE (result_from_record completed False)) (\<lambda>r. returnE (Some r))))
      has_result (\<lambda>_. runs_ok) w" if "runs_ok w" for run keys w
    unfolding wp_bind [of "finallyE _ _"] wp_finally
    by (rule wp_mono [OF claimed_returns [OF that assms(2)]]) (auto split: sum.split option.split intro: has_resultD)
  have begun: "wp (call_shadow ?env m) (\<lambda>_. runs_ok) (\<lambda>_. runs_ok) w" if "runs_ok w"
    for m :: "(shadow_db, ShadowRunRecord \<times> ShadowClaim option \<times> bool) comp" and w
    by (rule wp_shadow_calls(2) [OF that])
  have "wp (bindE (call_shadow ?env m) (\<lambda>(run, claim, _).
        case claim of
          None \<Rightarrow> bindE (liftE (result_from_record run True)) (\<lambda>r. returnE (Some r))
        | Some keys \<Rightarrow>
            bindE (finallyE (process_claimed ?env p c1 run ruuid) (release_after keys)) (\<lambda>done1.
              case done1 of
                None \<Rightarrow> returnE None
              | Some completed \<Rightarrow> bindE (liftE (result_from_record completed False)) (\<lambda>r. returnE (Some r)))))
      has_result (\<lambda>_. runs_ok) w" if "runs_ok w"
    for m :: "(shadow_db, ShadowRunRecord \<times> ShadowClaim option \<times> bool) comp" and w
    unfolding wp_bind [of "call_shadow _ _"]
    by (rule wp_mono [OF begun [OF that]]) (auto simp del: wp_bind simp: wp_bind [of "liftE _"] intro: finish split: prod.split option.split sum.split)
  note after = this
  have "wp (bindE (shadow_clock ?env) (\<lambda>now. bindE (call_shadow ?env (m now)) (\<lambda>(run, claim, _).
        case claim of
          None \<Rightarrow> bindE (liftE (result_from_record run True)) (\<lambda>r. returnE (Some r))
        | Some keys \<Rightarrow>
            bindE (finallyE (process_claimed ?env p c1 run ruuid) (release_after keys)) (\<lambda>done1.
              case done1 of
                None \<Rightarrow> returnE None
              | Some completed \<Rightarrow> bindE (liftE (result_from_record completed False)) (\<lambda>r. returnE (Some r))))))
      has_result (\<lambda>_. runs_ok) w"
    for m :: "int \<Rightarrow> (shadow_db, ShadowRunRecord \<times> ShadowClaim option \<times> bool) comp"
    unfolding wp_bind [of "shadow_clock _"]
    by (rule wp_mono [OF wp_shadow_calls(1) [OF assms(1)]]) (auto simp del: wp_bind intro: after)
  then show ?thesis
    unfolding process_case_def using assms(1) by (auto simp del: wp_bind)
qed

lemma run_cases_returns:
  assumes "runs_ok w" and "8 < fuel"
  shows "wp (run_cases fuel version sids rids k cs) has_result (\<lambda>_. runs_ok) w"
  using assms(1)
proof (induction cs arbitrary: k w)
  case (Cons c cs)
  have rest: "wp (bindE (run_cases fuel version sids rids (Suc k) cs) (\<lambda>rest. returnE (map_option (\<lambda>rs. r # rs) rest)))
      has_result (\<lambda>_. runs_ok) w'" if "runs_ok w'" for r and w' :: shadow_world
    unfolding wp_bind by (rule wp_mono [OF Cons.IH [OF that]]) (auto simp: has_result_def)
  show ?case
    unfolding run_cases.simps wp_bind [of "process_case _ _ _ _ _ _ _ _"]
    by (rule wp_mono [OF process_returns [OF Cons.prems assms(2)]])
       (auto simp del: wp_bind intro: rest has_resultD split: option.split)
qed simp

lemma run_cases_sound:
  assumes "pilot_tables loaded (sw_db w)" and "set cs \<subseteq> set (pack_cases (pack loaded))"
    and "run_cases fuel version sids rids k cs w = (Inr (Some rs), w')"
  shows "pilot_tables loaded (sw_db w') \<and> length rs = length cs \<and> (\<forall>r \<in> set rs. processed loaded r)"
  using assms
proof (induction cs arbitrary: k w rs)
  case (Cons c cs)
  let ?process = "process_case (pilot_env fuel version c) (pilot_principal c) c version (pilot_key version c) False (sids k) (rids k)"
  from Cons.prems(3) obtain r w1 rs1 where first: "?process w = (Inr (Some r), w1)"
    and rest: "run_cases fuel version sids rids (Suc k) cs w1 = (Inr (Some rs1), w')" and rs: "rs = r # rs1"
    by (auto simp: comp_defs split: prod.splits sum.splits option.splits)
  have quiet: "se_others (pilot_env fuel version c) j d = d" for j d by (simp add: pilot_env_def Let_def)
  have "pilot_tables loaded (sw_db w1) \<and> processed loaded r"
    by (rule process_sound [OF quiet Cons.prems(1) _ _ first]) (use Cons.prems(2) in \<open>auto simp: pilot_principal_def\<close>)
  with Cons.IH [OF _ _ rest] Cons.prems(2) show ?case by (simp add: rs)
qed (simp add: returnE_def)

lemma pilot_parts:
  assumes "run_pilot num fuel loaded sids rids sha gat evidence w = (Inr (Some (rs, report)), w')"
  obtains w1 where "sw_db w1 = sw_db w"
    and "run_cases fuel (case_pack_version (pack loaded)) sids rids 0 (pack_cases (pack loaded)) w1 = (Inr (Some rs), w')"
    and "aggregate_report rs loaded sha gat evidence = Inr report"
proof -
  obtain r d where seeded: "seed_case_fixtures num (pack loaded) (db (sw_world w)) = (r, d)" by force
  show ?thesis
    by (rule that [of "w\<lparr>sw_world := (sw_world w)\<lparr>db := d\<rparr>\<rparr>"])
       (use assms in \<open>auto simp: run_pilot_def seed_pack_def seeded comp_defs split: prod.splits sum.splits option.splits\<close>)
qed

lemma seed_keeps: "runs_ok w \<Longrightarrow> runs_ok (snd (seed_pack num p w))"
  by (auto simp: runs_ok_def seed_pack_def seed_case_fixtures_def seed_rows_def comp_defs repo_inv_def trail_inv_def
      idem_inv_def tool_inv_def gate_inv_def split: prod.splits)

text \<open>The snapshots of processed results: all of them, or a validation error when one is out of its bounds.\<close>

lemma snapshots_exact:
  assumes rs: "\<And>r. r \<in> set rs \<Longrightarrow> processed loaded r"
  shows "snapshots_of (case_pack_version (pack loaded) @ '':'' @ isoformat gat) h
      (map (\<lambda>r. (res_tenant_id r, shadow_result_dump r)) rs) ts
    = (if list_all valid_snapshot (map (tenant_window loaded gat h rs) ts)
       then Inr (map (tenant_window loaded gat h rs) ts, 0) else Inl PydanticValidationError)"
proof (induction ts)
  case (Cons t ts)
  let ?own = "filter (\<lambda>r. res_tenant_id r = t) rs"
  have own: "map snd (filter (\<lambda>x. fst x = t) (map (\<lambda>r. (res_tenant_id r, shadow_result_dump r)) rs))
      = map shadow_result_dump ?own"
    by (simp add: filter_map comp_def)
  have "tenant_counts no_counts (map shadow_result_dump ?own) = Inr (counts_of ?own)"
    unfolding no_counts_of using tenant_counts_dump [of ?own loaded "[]"] rs by simp
  moreover have "tenant_snapshot t (case_pack_version (pack loaded) @ '':'' @ isoformat gat) h (length ?own)
      (counts_of ?own) = tenant_window loaded gat h rs t"
    by (simp add: tenant_snapshot_def tenant_window_def counts_of_def Let_def)
  ultimately show ?case
    using Cons by (simp add: own Let_def) (simp add: counts_of_def)
qed simp

definition tenants_of :: "ShadowResult list \<Rightarrow> string list" where
  "tenants_of rs = sort (remdups (map res_tenant_id rs))"

lemma report_loads:
  assumes "valid_case_pack (pack loaded)" and "rs \<noteq> []" and "\<And>r. r \<in> set rs \<Longrightarrow> processed loaded r"
    and "aggregate_report rs loaded sha gat evidence = Inr report"
  shows "load_shadow_alert_source report h =
    (if list_all valid_snapshot (map (tenant_window loaded gat h rs) (tenants_of rs)) then
       Inr \<lparr>source_report_sha256 = h, source_shadow_git_sha = sha,
            source_case_pack_version = case_pack_version (pack loaded),
            snapshots = map (tenant_window loaded gat h rs) (tenants_of rs)\<rparr>
     else Inl PydanticValidationError)"
proof -
  let ?pairs = "map (\<lambda>r. (res_tenant_id r, shadow_result_dump r)) rs"
  have tenants: "res_tenant_id r \<noteq> []" if r: "r \<in> set rs" for r
  proof -
    from processed_facts [OF assms(3) [OF r]] obtain c where c: "c \<in> set (pack_cases (pack loaded))"
      "case_tenant_id c = res_tenant_id r" by metis
    then have "valid_shadow_case c" using assms(1) by (auto simp: valid_case_pack_def list_all_iff)
    from valid_case_text [OF this] c(2) show ?thesis by (auto simp: bounded_text_def)
  qed
  from per_case_items [OF assms(3)] tenants obtain items1 where
    items: "per_case loaded rs = Inr items1" "tenant_results (map snd items1) = Inr ?pairs" by auto
  have ss: "snapshots_of (case_pack_version (pack loaded) @ '':'' @ isoformat gat) h ?pairs (tenants_of rs)
      = (if list_all valid_snapshot (map (tenant_window loaded gat h rs) (tenants_of rs))
         then Inr (map (tenant_window loaded gat h rs) (tenants_of rs), 0) else Inl PydanticValidationError)"
    by (rule snapshots_exact [OF assms(3)]) simp
  show ?thesis
    using assms(2,4) items(2)
    by (auto simp: aggregate_report_def items(1) load_shadow_alert_source_def mapping_def guard_def items_def
        integer_def text_member_def pilot_controls_def tenants_of_def ss [unfolded append.simps tenants_of_def]
        dashed_def Let_def comp_def source_report_label_def)
qed

lemma cases_by_tenant:
  "(\<Sum>t \<leftarrow> tenants_of rs. int (length (filter (\<lambda>r. res_tenant_id r = t) rs))) = int (length rs)"
proof -
  have "length (filter (\<lambda>r. res_tenant_id r = t) rs) = count_list (map res_tenant_id rs) t" for t
    by (induction rs) auto
  then show ?thesis using counter_total [of "map res_tenant_id rs"] by (simp add: tenants_of_def)
qed

text \<open>The pilot always comes to an end, and what it reports is what the alert side reads: over a valid pack, from
  any reachable run tables and from shadow tables that are empty or hold only results of this pack,
  the pilot never runs out of fuel; when it succeeds it has one result per case, leaves the shadow tables with
  such rows only and no lock, and loading its report gives exactly the snapshots of its tenants, which account for
  every case, unless one of them is out of its bounds, which is a validation error.\<close>

theorem pilot_report_loads:
  assumes "valid_case_pack (pack loaded)" and "pilot_tables loaded (sw_db w)"
    and "db (sw_world w) = fold repo_step before_ops (empty_db i d s)" and "8 < fuel"
  shows "case run_pilot num fuel loaded sids rids sha gat evidence w of
     (Inl e, w') \<Rightarrow> True
   | (Inr None, w') \<Rightarrow> False
   | (Inr (Some (rs, report)), w') \<Rightarrow>
       length rs = length (pack_cases (pack loaded)) \<and> pilot_tables loaded (sw_db w')
       \<and> sum_list (map case_count (map (tenant_window loaded gat h rs) (tenants_of rs))) = int (length rs)
       \<and> load_shadow_alert_source report h =
           (if list_all valid_snapshot (map (tenant_window loaded gat h rs) (tenants_of rs)) then
              Inr \<lparr>source_report_sha256 = h, source_shadow_git_sha = sha,
                   source_case_pack_version = case_pack_version (pack loaded),
                   snapshots = map (tenant_window loaded gat h rs) (tenants_of rs)\<rparr>
            else Inl PydanticValidationError)"
proof (cases "run_pilot num fuel loaded sids rids sha gat evidence w")
  case (Pair r w')
  have "runs_ok w" using assms(3) by (simp add: runs_ok_def reachable_inv)
  show ?thesis
  proof (cases "\<exists>rs report. r = Inr (Some (rs, report))")
    case False
    have "r \<noteq> Inr None"
    proof
      assume none: "r = Inr None"
      obtain x w1 where seeded: "seed_pack num (pack loaded) w = (x, w1)" by force
      have "runs_ok w1" using seed_keeps [OF \<open>runs_ok w\<close>, of num "pack loaded"] seeded by simp
      from run_cases_returns [OF this assms(4), of "case_pack_version (pack loaded)" sids rids 0 "pack_cases (pack loaded)"]
      show False
        using Pair none seeded
        by (auto simp: run_pilot_def wp_def comp_defs has_result_def split: sum.splits prod.splits option.splits)
    qed
    with False Pair show ?thesis by (auto split: sum.split option.split)
  next
    case True
    then obtain rs report where r: "r = Inr (Some (rs, report))" by blast
    from pilot_parts [OF Pair [unfolded r]] obtain w1 where w1: "sw_db w1 = sw_db w"
      and cases1: "run_cases fuel (case_pack_version (pack loaded)) sids rids 0 (pack_cases (pack loaded)) w1 = (Inr (Some rs), w')"
      and report: "aggregate_report rs loaded sha gat evidence = Inr report" by metis
    from run_cases_sound [OF _ subset_refl cases1] assms(2) have sound: "pilot_tables loaded (sw_db w')"
      "length rs = length (pack_cases (pack loaded))" "\<And>r. r \<in> set rs \<Longrightarrow> processed loaded r" by (auto simp: w1)
    have "pack_cases (pack loaded) \<noteq> []" using assms(1) by (auto simp: valid_case_pack_def)
    with sound(2) have "rs \<noteq> []" by auto
    from report_loads [OF assms(1) this sound(3) report] sound(1,2) cases_by_tenant [of rs] Pair r show ?thesis
      by (simp add: tenant_window_def comp_def Let_def)
  qed
qed

definition w_pilot_world :: shadow_world where
  "w_pilot_world = \<lparr>sw_world = w_world, sw_db = empty_shadows, sw_clock_reads = 0, sw_calls = 0\<rparr>"

theorem pilot_report_loads_witness:
  "case run_pilot id 9 w_loaded (\<lambda>k. ''shadow-'' @ nat_text k) (\<lambda>k. ''run-'' @ nat_text k) ''sha'' (utc 0) JNull w_pilot_world of
     (Inl e, w') \<Rightarrow> True
   | (Inr None, w') \<Rightarrow> False
   | (Inr (Some (rs, report)), w') \<Rightarrow>
       length rs = length (pack_cases (pack w_loaded)) \<and> pilot_tables w_loaded (sw_db w')
       \<and> sum_list (map case_count (map (tenant_window w_loaded (utc 0) w_hash rs) (tenants_of rs))) = int (length rs)
       \<and> load_shadow_alert_source report w_hash =
           (if list_all valid_snapshot (map (tenant_window w_loaded (utc 0) w_hash rs) (tenants_of rs)) then
              Inr \<lparr>source_report_sha256 = w_hash, source_shadow_git_sha = ''sha'',
                   source_case_pack_version = case_pack_version (pack w_loaded),
                   snapshots = map (tenant_window w_loaded (utc 0) w_hash rs) (tenants_of rs)\<rparr>
            else Inl PydanticValidationError)"
  by (rule pilot_report_loads [OF w_pack_valid, where before_ops = "[w_create]" and i = "[]" and d = "[]" and s = "[]"])
     (simp_all add: w_pilot_world_def pilot_tables_def empty_shadows_def shadow_inv_empty [unfolded empty_shadows_def]
       w_world_def w_created_ops)

end
