(* ===== verification/FloatText.thy ===== *)
theory FloatText
  imports FloatBounds
begin

section \<open>The text of a float reads back as the same float\<close>

text \<open>
  Why \<^verbatim>\<open>float(repr(x)) == x\<close> holds of the model's \<open>fl\<close> and \<open>float_repr\<close>: the
  logarithm is exact, a number closer to a binary64 value than a quarter of its last place rounds to
  it, and so one of the two decimals of seventeen digits around a binary64 value rounds to it.
\<close>

subsection \<open>Powers and logarithms\<close>

lemma pow_int_powi: "pow_int b i = b powi i"
  by (simp add: pow_int_def power_int_def power_one_over inverse_eq_divide)

lemma num_digits_step: "2 \<le> b \<Longrightarrow> 0 < n \<Longrightarrow> num_digits b n = Suc (num_digits b (n div b))"
  by (subst num_digits.simps) simp

lemma num_digits_none [simp]: "num_digits b 0 = 0"
  by (subst num_digits.simps) simp

lemma num_digits_bounds:
  assumes "2 \<le> b" and "0 < n"
  shows "b ^ (num_digits b n - 1) \<le> n \<and> n < b ^ num_digits b n"
  using assms(2)
proof (induction n rule: less_induct)
  case (less n)
  let ?m = "n div b"
  have d: "num_digits b n = Suc (num_digits b ?m)" by (rule num_digits_step [OF assms(1) less.prems])
  have n: "b * ?m \<le> n" "n < b * Suc ?m"
    using assms(1) by (simp, metis assms(1) dividend_less_times_div less_le_trans mult_Suc_right pos2 add.commute)
  show ?case
  proof (cases "?m = 0")
    case True
    then show ?thesis using less.prems n(2) by (simp add: d)
  next
    case False
    then have "b ^ (num_digits b ?m - 1) \<le> ?m \<and> ?m < b ^ num_digits b ?m"
      using assms(1) less.prems by (intro less.IH) simp_all
    moreover have "num_digits b ?m = Suc (num_digits b ?m - 1)"
      using num_digits_step [OF assms(1), of ?m] False by simp
    ultimately have "b * b ^ (num_digits b ?m - 1) \<le> n \<and> b * Suc ?m \<le> b * b ^ num_digits b ?m"
      using n(1) by (metis Suc_leI mult_le_mono2 order_trans)
    then show ?thesis using n(2) \<open>num_digits b ?m = Suc _\<close> by (simp add: d) (metis less_le_trans power_Suc)
  qed
qed

lemma floor_log_bounds:
  assumes b: "2 \<le> b" and x: "0 < x"
  shows "of_nat b powi floor_log b x \<le> x" and "x < of_nat b powi (floor_log b x + 1)"
proof -
  let ?b = "of_nat b :: rat"
  obtain p q where pq: "quotient_of x = (p, q)" by force
  have q: "0 < q" by (rule quotient_of_denom_pos [OF pq])
  have x': "x = of_int p / of_int q" by (rule quotient_of_div [OF pq])
  with x q have p: "0 < p" by (simp add: zero_less_divide_iff)
  define i j where "i = num_digits b (nat p)" and "j = num_digits b (nat q)"
  have bp: "b ^ (i - 1) \<le> nat p" "nat p < b ^ i" and bq: "b ^ (j - 1) \<le> nat q" "nat q < b ^ j"
    using num_digits_bounds [OF b] p q by (simp_all add: i_def j_def)
  have ij: "0 < i" "0 < j" using p q num_digits_step [OF b] by (simp_all add: i_def j_def)
  have rat: "?b ^ (i - 1) \<le> of_int p" "of_int p < ?b ^ i" "?b ^ (j - 1) \<le> of_int q" "of_int q < ?b ^ j"
    using bp bq p q
    by (metis of_int_of_nat_eq of_nat_le_iff of_nat_power pos_int_cases nat_int,
        metis of_int_of_nat_eq of_nat_less_iff of_nat_power pos_int_cases nat_int)+
  have b0: "0 < ?b" "1 < ?b" using b by simp_all
  let ?e = "int i - int j"
  have split: "int (i - 1) = int i - 1" "int (j - 1) = int j - 1" using ij by simp_all
  have exps: "?e - 1 = int (i - 1) - int j" "?e + 1 = int i - int (j - 1)" using split by simp_all
  have powers: "?b powi (?e - 1) = ?b ^ (i - 1) / ?b ^ j" "?b powi (?e + 1) = ?b ^ i / ?b ^ (j - 1)"
    unfolding exps by (subst power_int_diff; use b0 in simp)+
  have "?b ^ (i - 1) / ?b ^ j < of_int p / of_int q"
    by (rule frac_less2 [OF zero_less_power [OF b0(1)] rat(1) _ rat(4)]) (use q in simp)
  then have lower: "?b powi (?e - 1) < x" by (simp only: x' powers)
  have "of_int p / of_int q < ?b ^ i / ?b ^ (j - 1)"
    by (rule frac_less [OF _ rat(2) zero_less_power [OF b0(1)] rat(3)]) (use p in simp)
  then have upper: "x < ?b powi (?e + 1)" by (simp only: x' powers)
  have e: "floor_log b x = (if ?b powi ?e \<le> x then ?e else ?e - 1)"
    by (simp add: floor_log_def pq Let_def pow_int_powi i_def j_def)
  show "?b powi floor_log b x \<le> x" using lower by (simp add: e)
  show "x < ?b powi (floor_log b x + 1)" using upper by (simp add: e)
qed

lemma floor_log_unique:
  assumes b: "2 \<le> b" and x: "of_nat b powi e \<le> x" "x < of_nat b powi (e + 1)"
  shows "floor_log b x = e"
proof -
  have b1: "1 < (of_nat b :: rat)" using b by simp
  then have "0 < (of_nat b :: rat) powi e" by simp
  with x(1) have "0 < x" by linarith
  note bounds = floor_log_bounds [OF b this]
  have "\<not> floor_log b x + 1 \<le> e" "\<not> e + 1 \<le> floor_log b x"
    using power_int_increasing [of "floor_log b x + 1" e "of_nat b :: rat"]
      power_int_increasing [of "e + 1" "floor_log b x" "of_nat b :: rat"] bounds x b1 by linarith+
  then show ?thesis by linarith
qed

subsection \<open>Rounding to the nearest\<close>

text \<open>The exponent of the last place of a binary64 value next to \<open>x\<close>.\<close>

definition last_place :: "rat \<Rightarrow> int" where
  "last_place x = max (floor_log 2 x - 52) (- 1074)"

lemma fl_pos_last_place:
  "0 < x \<Longrightarrow> fl x = of_int (round_half_even (x / 2 powi last_place x)) * 2 powi last_place x"
  by (simp add: fl_def fl_pos_def last_place_def Let_def pow_int_powi)

lemma round_half_even_near: "\<bar>z - of_int m\<bar> < 1 / 2 \<Longrightarrow> round_half_even z = m"
proof -
  assume "\<bar>z - of_int m\<bar> < 1 / 2"
  then have "\<lfloor>z\<rfloor> = m \<and> z - of_int m < 1 / 2 \<or> \<lfloor>z\<rfloor> = m - 1 \<and> 1 / 2 < z - of_int (m - 1)"
    by (cases "of_int m \<le> z") (simp_all add: floor_eq_iff abs_if split: if_splits)
  then show ?thesis by (auto simp: round_half_even_def Let_def)
qed

text \<open>A positive binary64 value is a whole number below \<open>2 ^ 53\<close> of its last places.\<close>

lemma binary64_form:
  assumes "0 < x" and "fl x = x"
  obtains m where "x = of_int m * 2 powi last_place x" "0 < m" "m < 2 ^ 53"
proof -
  let ?u = "last_place x"
  define m where "m = round_half_even (x / 2 powi ?u)"
  have x: "x = of_int m * 2 powi ?u" using fl_pos_last_place [OF assms(1)] assms(2) by (simp add: m_def)
  have p: "0 < (2 :: rat) powi ?u" by simp
  have m: "0 < (of_int m :: rat)" using assms(1) p x by (metis zero_less_mult_pos2)
  have "x < 2 powi (floor_log 2 x + 1)" using floor_log_bounds(2) [of 2 x] assms(1) by simp
  moreover have "(2 :: rat) powi (floor_log 2 x + 1) \<le> 2 powi (?u + 53)"
    by (rule power_int_increasing) (simp_all add: last_place_def)
  ultimately have "x < 2 powi (?u + 53)" by linarith
  then have "of_int m * 2 powi ?u < (2 ^ 53 :: rat) * 2 powi ?u"
    by (simp add: power_int_add x [symmetric] mult.commute)
  then have "(of_int m :: rat) < of_int (2 ^ 53)" using p by simp
  with m show ?thesis using x by (intro that [of m]) (simp_all only: of_int_less_iff of_int_0_less_iff)
qed

text \<open>Rounding a number within half a last place of a whole number of its own last places.\<close>

lemma fl_whole:
  assumes "0 < y" and "\<bar>y - of_int m * 2 powi last_place y\<bar> < 2 powi last_place y / 2"
  shows "fl y = of_int m * 2 powi last_place y"
proof -
  let ?p = "(2 :: rat) powi last_place y"
  have p: "0 < ?p" by simp
  have "y / ?p - of_int m = (y - of_int m * ?p) / ?p" using p by (simp add: divide_simps)
  then have "\<bar>y / ?p - of_int m\<bar> = \<bar>y - of_int m * ?p\<bar> / ?p" using p by (simp add: abs_divide)
  also have "\<dots> < 1 / 2" using assms(2) p by (simp add: divide_simps)
  finally show ?thesis by (simp add: fl_pos_last_place [OF assms(1)] round_half_even_near)
qed

text \<open>A number within \<open>x / 2 ^ 54\<close> of a binary64 value \<open>x\<close> rounds to it.\<close>

lemma fl_near:
  assumes x: "0 < x" "fl x = x" and near: "\<bar>y - x\<bar> < x / 2 ^ 54"
  shows "fl y = x"
proof -
  define e u where "e = floor_log 2 x" and u: "u = last_place x"
  let ?E = "(2 :: rat) powi e" and ?P = "(2 :: rat) powi u"
  obtain m where m: "x = of_int m * ?P" "0 < m" "m < 2 ^ 53" unfolding u by (rule binary64_form [OF x])
  have P: "0 < ?P" by simp
  have "(of_int m :: rat) \<le> of_int (2 ^ 53 - 1)" using m(3) by (simp only: of_int_le_iff)
  then have "of_int m * ?P < 2 ^ 53 * ?P" using P by simp
  then have "x < 2 ^ 53 * ?P" by (simp only: m(1))
  then have "x / 2 ^ 54 < ?P / 2" by simp
  with near have half: "\<bar>y - x\<bar> < ?P / 2" by (rule less_trans)
  have "x / 2 ^ 54 < x / 2" using x(1) by simp
  then have big: "x / 2 < y" using near by linarith
  with x(1) have y: "0 < y" by linarith
  have E: "?E \<le> x" "x < ?E * 2" using floor_log_bounds [of 2 x] x(1) by (simp_all add: e_def power_int_add)
  have same: "fl y = x" if "last_place y = u"
    using fl_whole [OF y, of m] half by (simp add: that m(1))
  have "1 \<le> (of_int m :: rat)" using m(2) by (simp add: int_one_le_iff_zero_less)
  then have "1 * ?P \<le> of_int m * ?P" using P by (intro mult_right_mono) simp_all
  then have "?P \<le> x" by (simp only: m(1) [symmetric] mult_1)
  then have "?P < 2 powi (e + 1)" using E(2) by (simp add: power_int_add)
  then have "\<not> e + 1 \<le> u" using power_int_increasing [of "e + 1" u "2 :: rat"] by force
  then have eu: "u \<le> e" by simp
  have "y < ?E * 2"
  proof (rule ccontr)
    assume "\<not> y < ?E * 2"
    have "?E * 2 = 2 powi (e + 1 - u) * ?P" by (simp add: power_int_add power_int_diff)
    also have "(2 :: rat) powi (e + 1 - u) = of_int (2 ^ nat (e + 1 - u))"
      using eu by (simp add: power_int_def)
    finally have top: "?E * 2 = of_int (2 ^ nat (e + 1 - u)) * ?P" .
    have "of_int m * ?P < of_int (2 ^ nat (e + 1 - u)) * ?P"
      using E(2) unfolding top by (simp only: m(1) [symmetric])
    then have "(of_int m :: rat) < of_int (2 ^ nat (e + 1 - u))"
      using P by (simp only: mult_less_cancel_right_pos)
    then have "m + 1 \<le> 2 ^ nat (e + 1 - u)" by (simp only: of_int_less_iff zless_imp_add1_zle)
    then have "(of_int (m + 1) :: rat) \<le> of_int (2 ^ nat (e + 1 - u))" by (simp only: of_int_le_iff)
    then have "of_int (m + 1) * ?P \<le> ?E * 2" unfolding top using P by (simp only: mult_le_cancel_right_pos)
    then have "x + ?P \<le> ?E * 2" by (simp add: m(1) distrib_right)
    with half P \<open>\<not> y < ?E * 2\<close> show False by (simp add: abs_less_iff)
  qed
  show ?thesis
  proof (cases "?E \<le> y")
    case True
    then have "floor_log 2 y = e" using \<open>y < ?E * 2\<close> by (intro floor_log_unique) (simp_all add: power_int_add)
    then show ?thesis by (intro same) (simp add: last_place_def u e_def)
  next
    case False
    have "?E / 2 \<le> y" using big E(1) by linarith
    then have f: "floor_log 2 y = e - 1"
      using False by (intro floor_log_unique) (simp_all add: power_int_diff)
    show ?thesis
    proof (cases "e - 52 \<le> - 1074")
      case True
      then show ?thesis by (intro same) (simp add: last_place_def f u e_def)
    next
      case large: False
      then have u52: "u = e - 52" "last_place y = u - 1" by (simp_all add: last_place_def f u e_def)
      have EP: "?E = 2 ^ 52 * ?P" by (simp add: u52(1) power_int_diff)
      have "of_int (2 ^ 52) * ?P \<le> of_int m * ?P" using E(1) EP m(1) by simp
      moreover have "x < ?E + ?P" using half False P by linarith
      then have "of_int m * ?P < of_int (2 ^ 52 + 1) * ?P" by (simp add: m(1) EP distrib_right)
      ultimately have "m = 2 ^ 52" using P by (simp only: mult_le_cancel_right_pos mult_less_cancel_right_pos of_int_le_iff of_int_less_iff)
      then have x52: "x = 2 ^ 52 * ?P" using m(1) by simp
      have p: "(2 :: rat) powi (u - 1) = ?P / 2" by (simp add: power_int_diff)
      have "\<bar>y - of_int (2 ^ 53) * 2 powi last_place y\<bar> < 2 powi last_place y / 2"
        using near by (simp add: u52(2) p x52)
      from fl_whole [OF y this] show ?thesis by (simp add: u52(2) p x52)
    qed
  qed
qed

text \<open>Every value of \<open>fl\<close> is a binary64 value.\<close>

lemma fl_of_places:
  assumes "0 < r" "r < 2 ^ 53" "- 1074 \<le> u"
  shows "fl (of_int r * 2 powi u) = of_int r * 2 powi u"
proof -
  let ?x = "of_int r * 2 powi u :: rat" and ?v = "last_place (of_int r * 2 powi u)"
  have p: "0 < (2 :: rat) powi u" by simp
  have x: "0 < ?x" using assms(1) p by simp
  have "(of_int r :: rat) < of_int (2 ^ 53)" using assms(2) by (simp only: of_int_less_iff)
  then have "?x < 2 ^ 53 * 2 powi u" using p by simp
  also have "\<dots> = 2 powi (u + 53)" by (simp add: power_int_add)
  finally have "?x < 2 powi (u + 53)" .
  moreover have "(2 :: rat) powi floor_log 2 ?x \<le> ?x" using floor_log_bounds(1) [of 2 ?x] x by simp
  ultimately have "\<not> u + 53 \<le> floor_log 2 ?x"
    using power_int_increasing [of "u + 53" "floor_log 2 ?x" "2 :: rat"] by force
  then have v: "?v \<le> u" using assms(3) by (simp add: last_place_def)
  have "(2 :: rat) powi u = of_int (2 ^ nat (u - ?v)) * 2 powi ?v"
  proof -
    have "(2 :: rat) powi u = 2 powi ((u - ?v) + ?v)" by simp
    also have "\<dots> = 2 powi (u - ?v) * 2 powi ?v" by (subst power_int_add) simp_all
    finally show ?thesis using v by (simp add: power_int_def)
  qed
  then have whole: "?x = of_int (r * 2 ^ nat (u - ?v)) * 2 powi ?v" by simp
  have "fl ?x = of_int (r * 2 ^ nat (u - ?v)) * 2 powi ?v"
    by (rule fl_whole [OF x]) (simp only: whole [symmetric], simp)
  then show ?thesis by (simp only: whole [symmetric])
qed

lemma round_half_even_upto: "0 \<le> z \<Longrightarrow> z \<le> of_int k \<Longrightarrow> 0 \<le> round_half_even z \<and> round_half_even z \<le> k"
proof -
  assume z: "0 \<le> z" "z \<le> of_int k"
  have k: "\<lfloor>z\<rfloor> \<le> k" using z(2) by (metis floor_mono floor_of_int)
  have f: "0 \<le> \<lfloor>z\<rfloor>" using z(1) by simp
  show ?thesis
  proof (cases "\<lfloor>z\<rfloor> = k")
    case True
    then have "z = of_int k" using z(2) of_int_floor_le [of z] by simp
    then show ?thesis using f True by simp
  next
    case False
    then have "\<lfloor>z\<rfloor> + 1 \<le> k" using k by simp
    then show ?thesis using f by (simp add: round_half_even_def Let_def)
  qed
qed

lemma fl_of_0 [simp]: "fl 0 = 0"
  by (simp add: fl_def)

lemma fl_idem_pos: "0 < x \<Longrightarrow> fl (fl x) = fl x"
proof -
  assume x: "0 < x"
  let ?u = "last_place x" and ?r = "round_half_even (x / 2 powi last_place x)"
  have p: "0 < (2 :: rat) powi ?u" by simp
  have "x < 2 powi (floor_log 2 x + 1)" using floor_log_bounds(2) [of 2 x] x by simp
  moreover have "(2 :: rat) powi (floor_log 2 x + 1) \<le> 2 powi (?u + 53)"
    by (rule power_int_increasing) (simp_all add: last_place_def)
  ultimately have "x \<le> 2 ^ 53 * 2 powi ?u" by (simp add: power_int_add mult.commute)
  then have "x / 2 powi ?u \<le> of_int (2 ^ 53)" using p by (simp add: divide_simps)
  then have r: "0 \<le> ?r" "?r \<le> 2 ^ 53" using round_half_even_upto [of "x / 2 powi ?u" "2 ^ 53"] x p by simp_all
  have u: "- 1074 \<le> ?u" by (simp add: last_place_def)
  consider "?r = 0" | "0 < ?r" "?r < 2 ^ 53" | "?r = 2 ^ 53" using r by linarith
  then show ?thesis
  proof cases
    case 3
    have "fl x = of_int (2 ^ 52) * 2 powi (?u + 1)"
      by (simp add: fl_pos_last_place [OF x] 3 power_int_add)
    then show ?thesis using fl_of_places [of "2 ^ 52" "?u + 1"] u by simp
  qed (simp_all add: fl_pos_last_place [OF x] fl_of_places u)
qed

lemma fl_minus: "fl (- x) = - fl x"
  by (simp add: fl_def)

lemma fl_idem [simp]: "fl (fl x) = fl x"
proof (cases "x < 0")
  case True
  then have "fl (fl (- x)) = fl (- x)" by (intro fl_idem_pos) simp
  then show ?thesis by (simp add: fl_minus)
next
  case False
  then show ?thesis by (cases "x = 0") (simp_all add: fl_idem_pos)
qed

subsection \<open>The shortest decimal\<close>

lemma candidate_reads:
  assumes "0 < x" and "decimal_candidate x n = Some (c, s)"
  shows "fl (of_nat c * pow_int 10 s) = x"
proof -
  have "0 \<le> x / pow_int 10 k" for k using assms(1) by (simp add: pow_int_powi)
  then have "0 \<le> \<lfloor>x / pow_int 10 k\<rfloor>" for k by simp
  then show ?thesis
    using assms(2) by (auto simp: decimal_candidate_def Let_def split: if_splits)
qed

text \<open>Seventeen digits are enough.\<close>

lemma candidate_17:
  assumes "0 < x" and "fl x = x"
  shows "decimal_candidate x 17 \<noteq> None"
proof -
  define s where "s = floor_log 10 x - 16"
  let ?P = "(10 :: rat) powi s" and ?lo = "\<lfloor>x / 10 powi s\<rfloor>"
  have P: "0 < ?P" by simp
  have "10 powi floor_log 10 x \<le> x" using floor_log_bounds(1) [of 10 x] assms(1) by simp
  then have "10 ^ 16 * ?P \<le> x" by (simp add: s_def power_int_diff)
  moreover have "2 ^ 53 * ?P < 10 ^ 16 * ?P" using P by (intro mult_strict_right_mono) simp_all
  ultimately have "2 ^ 53 * ?P < x" by (rule less_le_trans [rotated])
  then have small: "?P / 2 < x / 2 ^ 54" by simp
  have "of_int ?lo * ?P \<le> x" "x < of_int (?lo + 1) * ?P"
    using P floor_correct [of "x / ?P"] by (simp_all add: divide_simps)
  then have "\<bar>of_int ?lo * ?P - x\<bar> \<le> ?P / 2 \<or> \<bar>of_int (?lo + 1) * ?P - x\<bar> \<le> ?P / 2"
    by (auto simp: distrib_right)
  then have "fl (of_int ?lo * ?P) = x \<or> fl (of_int (?lo + 1) * ?P) = x"
    using fl_near [OF assms] small by (meson le_less_trans)
  moreover have "floor_log 10 x - int 17 + 1 = s" by (simp add: s_def)
  ultimately show ?thesis unfolding decimal_candidate_def Let_def pow_int_powi by auto
qed

lemma strip_zeros_value: "strip_zeros (c, s) = (c', s') \<Longrightarrow> of_nat c' * pow_int 10 s' = of_nat c * pow_int 10 s"
proof (induction "(c, s)" arbitrary: c s rule: strip_zeros.induct)
  case (1 c s)
  show ?case
  proof (cases "c \<noteq> 0 \<and> c mod 10 = 0")
    case True
    then have "c = c div 10 * 10" by auto
    then have "of_nat c = (of_nat (c div 10) * 10 :: rat)" by (metis of_nat_mult of_nat_numeral)
    moreover have "of_nat c' * pow_int 10 s' = of_nat (c div 10) * pow_int 10 (s + 1)"
      using 1 True by (subst (asm) strip_zeros.simps) simp
    ultimately show ?thesis by (simp add: pow_int_powi power_int_add)
  next
    case False
    then show ?thesis using "1.prems" by (subst (asm) strip_zeros.simps) auto
  qed
qed

lemma shortest_from_reads:
  assumes "0 < x" and "n \<in> set ns" and "decimal_candidate x n \<noteq> None" and "shortest_from x ns = (c, s)"
  shows "fl (of_nat c * pow_int 10 s) = x"
  using assms(2,4)
proof (induction ns)
  case (Cons k ns)
  then show ?case using assms(1,3) candidate_reads by (cases "decimal_candidate x k") auto
qed simp

lemma shortest_reads:
  assumes "0 < x" and "fl x = x" and "shortest x = (c, s)"
  shows "fl (of_nat c * pow_int 10 s) = x" and "0 < c"
proof -
  obtain c0 s0 where f: "shortest_from x [1..<18] = (c0, s0)" by force
  have "fl (of_nat c0 * pow_int 10 s0) = x"
    by (rule shortest_from_reads [OF assms(1) _ candidate_17 [OF assms(1,2)] f]) simp
  moreover have "strip_zeros (c0, s0) = (c, s)" using assms(3) by (simp only: shortest_def f)
  ultimately show "fl (of_nat c * pow_int 10 s) = x" by (simp add: strip_zeros_value)
  then show "0 < c" using assms(1) by (cases "c = 0") (auto simp: fl_def)
qed

end
