(* ===== verification/JsonText.thy ===== *)
theory JsonText
  imports PyText FloatText
begin

section \<open>JSON texts: \<^verbatim>\<open>json.loads\<close> and \<^verbatim>\<open>json.dumps\<close>\<close>

text \<open>
  The decoder the code reads every file and provider answer with (CPython 3.12's \<^verbatim>\<open>json\<close>),
  on texts of 8-bit characters. A decoded text whose code points are all below 256 is \<open>JStr\<close>, any
  other \<open>JUni\<close>. What the document type cannot hold is reported as \<open>Outside\<close> and nothing is
  claimed of it: not-a-number, the infinities, a number beyond the largest float, a key with a code
  point above 255. The sign of a zero is lost, and the interpreter's recursion limit is not modelled.

  The scanners of values, of the items of an array and of the members of an object call each other on
  what is left of the text; their first argument is fuel. Twice the length of the text and one more
  is enough (\<open>scan_enough\<close>).
\<close>

datatype json_error = JSONDecodeError | DigitLimit | Outside | Out_of_fuel

lemma map_sum_iff [simp]:
  "map_sum id f x = Inr y \<longleftrightarrow> (\<exists>z. x = Inr z \<and> y = f z)" "map_sum id f x = Inl e \<longleftrightarrow> x = Inl e"
  "Inr y = map_sum id f x \<longleftrightarrow> (\<exists>z. x = Inr z \<and> y = f z)" "Inl e = map_sum id f x \<longleftrightarrow> x = Inl e"
  by (cases x; auto)+

subsection \<open>Strings\<close>

definition hex_value :: "char \<Rightarrow> nat" where
  "hex_value c = (let n = of_char (lower_char c) :: nat in if n < 58 then n - 48 else n - 87)"

text \<open>Four hexadecimal digits.\<close>

fun hex4 :: "string \<Rightarrow> (nat \<times> string) option" where
  "hex4 (a # b # c # d # r) =
     (if list_all is_hex [a, b, c, d] then
        Some (((hex_value a * 16 + hex_value b) * 16 + hex_value c) * 16 + hex_value d, r)
      else None)"
| "hex4 _ = None"

definition high_surrogate :: "nat \<Rightarrow> bool" where "high_surrogate n \<longleftrightarrow> 55296 \<le> n \<and> n < 56320"
definition low_surrogate :: "nat \<Rightarrow> bool" where "low_surrogate n \<longleftrightarrow> 56320 \<le> n \<and> n < 57344"

text \<open>What follows a backslash and a u. A high surrogate takes the low one behind it.\<close>

definition scan_unicode :: "string \<Rightarrow> json_error + nat \<times> string" where
  "scan_unicode s =
     (case hex4 s of
        None \<Rightarrow> Inl JSONDecodeError
      | Some (n, r) \<Rightarrow>
          if high_surrogate n \<and> take 2 r = [CHR 92, CHR ''u''] then
            (case hex4 (drop 2 r) of
               None \<Rightarrow> Inl JSONDecodeError
             | Some (m, t) \<Rightarrow>
                 if low_surrogate m then Inr (65536 + (n - 55296) * 1024 + (m - 56320), t) else Inr (n, r))
          else Inr (n, r))"

definition simple_escapes :: "(char \<times> nat) list" where
  "simple_escapes = [(CHR 34, 34), (CHR 92, 92), (CHR ''/'', 47), (CHR ''b'', 8), (CHR ''f'', 12),
     (CHR ''n'', 10), (CHR ''r'', 13), (CHR ''t'', 9)]"

text \<open>The next code point of a string, or its closing quote.\<close>

definition next_point :: "string \<Rightarrow> json_error + nat option \<times> string" where
  "next_point s =
     (case s of
        [] \<Rightarrow> Inl JSONDecodeError
      | c # r \<Rightarrow>
          if c = CHR 34 then Inr (None, r)
          else if c = CHR 92 then
            (case r of
               [] \<Rightarrow> Inl JSONDecodeError
             | d # t \<Rightarrow>
                 if d = CHR ''u'' then map_sum id (\<lambda>(n, u). (Some n, u)) (scan_unicode t)
                 else (case map_of simple_escapes d of
                         None \<Rightarrow> Inl JSONDecodeError | Some n \<Rightarrow> Inr (Some n, t)))
          else if (of_char c :: nat) < 32 then Inl JSONDecodeError
          else Inr (Some (of_char c), r))"

lemma hex4_shorter: "hex4 s = Some (n, r) \<Longrightarrow> length r < length s"
  by (cases s rule: hex4.cases) (auto split: if_splits)

lemma scan_unicode_shorter: "scan_unicode s = Inr (n, r) \<Longrightarrow> length r < length s"
  by (auto simp: scan_unicode_def split: option.splits if_splits dest!: hex4_shorter)

lemma next_point_shorter: "next_point s = Inr (p, r) \<Longrightarrow> length r < length s"
  by (auto simp: next_point_def split: list.splits if_splits option.splits sum.splits dest!: scan_unicode_shorter)

function scan_string :: "string \<Rightarrow> json_error + nat list \<times> string" where
  "scan_string s =
     (case next_point s of
        Inl e \<Rightarrow> Inl e
      | Inr (None, r) \<Rightarrow> Inr ([], r)
      | Inr (Some n, r) \<Rightarrow> map_sum id (\<lambda>(ns, t). (n # ns, t)) (scan_string r))"
  by auto
termination by (relation "measure length") (auto dest: next_point_shorter)

declare scan_string.simps [simp del]

definition text_of_points :: "nat list \<Rightarrow> json" where
  "text_of_points ns = (if list_all (\<lambda>n. n < 256) ns then JStr (map char_of ns) else JUni ns)"

subsection \<open>Numbers\<close>

text \<open>A fraction needs a digit, and so does an exponent; else the number ends before them.\<close>

definition scan_fraction :: "string \<Rightarrow> string \<times> string" where
  "scan_fraction s =
     (case s of
        c # d # r \<Rightarrow> if c = CHR ''.'' \<and> is_digit d then (takeWhile is_digit (d # r), dropWhile is_digit (d # r)) else ([], s)
      | _ \<Rightarrow> ([], s))"

definition scan_exponent :: "string \<Rightarrow> int option \<times> string" where
  "scan_exponent s =
     (case s of
        c # r \<Rightarrow>
          (let (neg, t) = signed r; ds = takeWhile is_digit t
           in if lower_char c = CHR ''e'' \<and> ds \<noteq> [] then
                (Some (if neg then - int (digits_value ds) else int (digits_value ds)), dropWhile is_digit t)
              else (None, s))
      | _ \<Rightarrow> (None, s))"

definition scan_number :: "string \<Rightarrow> json_error + json \<times> string" where
  "scan_number s =
     (let neg = (take 1 s = ''-''); t = (if neg then drop 1 s else s);
          ip = (if take 1 t = ''0'' then ''0'' else takeWhile is_digit t); r = drop (length ip) t;
          (fp, r1) = scan_fraction r; (e, r2) = scan_exponent r1
      in if ip = [] then Inl JSONDecodeError
         else if fp = [] \<and> e = None then
           (if 4300 < length ip then Inl DigitLimit
            else Inr (JInt (if neg then - int (digits_value ip) else int (digits_value ip)), r))
         else
           (let v = decimal_value ip fp (case e of None \<Rightarrow> 0 | Some k \<Rightarrow> k)
            in case binary64 (if neg then - v else v) of
                 Finite x \<Rightarrow> Inr (JFloat x, r2)
               | _ \<Rightarrow> Inl Outside))"

subsection \<open>Documents\<close>

definition skip :: "string \<Rightarrow> string" where
  "skip s = dropWhile (\<lambda>c. c \<in> {CHR 32, CHR 9, CHR 10, CHR 13}) s"

text \<open>Setting a key of a dictionary keeps its place.\<close>

fun dict_set :: "string \<Rightarrow> json \<Rightarrow> (string \<times> json) list \<Rightarrow> (string \<times> json) list" where
  "dict_set k v [] = [(k, v)]"
| "dict_set k v ((k', v') # kvs) = (if k = k' then (k, v) # kvs else (k', v') # dict_set k v kvs)"

definition dict_of :: "(string \<times> json) list \<Rightarrow> (string \<times> json) list" where
  "dict_of kvs = fold (\<lambda>(k, v). dict_set k v) kvs []"

definition literal_at :: "string \<Rightarrow> string \<Rightarrow> bool" where
  "literal_at word s \<longleftrightarrow> take (length word) s = word"

fun scan_value :: "nat \<Rightarrow> string \<Rightarrow> json_error + json \<times> string"
and scan_items :: "nat \<Rightarrow> string \<Rightarrow> json_error + json list \<times> string"
and scan_members :: "nat \<Rightarrow> string \<Rightarrow> json_error + (string \<times> json) list \<times> string"
where
  "scan_value 0 s = Inl Out_of_fuel"
| "scan_value (Suc k) s =
     (case s of
        [] \<Rightarrow> Inl JSONDecodeError
      | c # r \<Rightarrow>
          if c = CHR 34 then map_sum id (\<lambda>(ns, t). (text_of_points ns, t)) (scan_string r)
          else if c = CHR ''{'' then
            (if take 1 (skip r) = ''}'' then Inr (JObj [], drop 1 (skip r))
             else map_sum id (\<lambda>(kvs, t). (JObj (dict_of kvs), t)) (scan_members k (skip r)))
          else if c = CHR ''['' then
            (if take 1 (skip r) = '']'' then Inr (JList [], drop 1 (skip r))
             else map_sum id (\<lambda>(js, t). (JList js, t)) (scan_items k (skip r)))
          else if literal_at ''null'' s then Inr (JNull, drop 4 s)
          else if literal_at ''true'' s then Inr (JBool True, drop 4 s)
          else if literal_at ''false'' s then Inr (JBool False, drop 5 s)
          else if literal_at ''NaN'' s \<or> literal_at ''Infinity'' s \<or> literal_at ''-Infinity'' s then Inl Outside
          else scan_number s)"
| "scan_items 0 s = Inl Out_of_fuel"
| "scan_items (Suc k) s =
     (case scan_value k s of
        Inl e \<Rightarrow> Inl e
      | Inr (j, r) \<Rightarrow>
          (case skip r of
             [] \<Rightarrow> Inl JSONDecodeError
           | c # t \<Rightarrow>
               if c = CHR '']'' then Inr ([j], t)
               else if c = CHR '','' then map_sum id (\<lambda>(js, u). (j # js, u)) (scan_items k (skip t))
               else Inl JSONDecodeError))"
| "scan_members 0 s = Inl Out_of_fuel"
| "scan_members (Suc k) s =
     (if take 1 s \<noteq> [CHR 34] then Inl JSONDecodeError
      else case scan_string (drop 1 s) of
        Inl e \<Rightarrow> Inl e
      | Inr (ns, r) \<Rightarrow>
          if take 1 (skip r) \<noteq> '':'' then Inl JSONDecodeError
          else (case scan_value k (skip (drop 1 (skip r))) of
             Inl e \<Rightarrow> Inl e
           | Inr (j, t) \<Rightarrow>
               if \<not> list_all (\<lambda>n. n < 256) ns then Inl Outside
               else (case skip t of
                  [] \<Rightarrow> Inl JSONDecodeError
                | c # u \<Rightarrow>
                    if c = CHR ''}'' then Inr ([(map char_of ns, j)], u)
                    else if c = CHR '','' then
                      map_sum id (\<lambda>(kvs, w). ((map char_of ns, j) # kvs, w)) (scan_members k (skip u))
                    else Inl JSONDecodeError)))"

definition json_loads :: "string \<Rightarrow> json_error + json" where
  "json_loads text =
     (case scan_value (2 * length text + 1) (skip text) of
        Inl e \<Rightarrow> Inl e
      | Inr (j, r) \<Rightarrow> if skip r = [] then Inr j else Inl JSONDecodeError)"

text \<open>Every scanner consumes some of its text, and the fuel of \<open>json_loads\<close> is enough.\<close>

lemma scan_string_shorter: "scan_string s = Inr (ns, r) \<Longrightarrow> length r < length s"
proof (induction s arbitrary: ns r rule: scan_string.induct)
  case (1 s)
  then show ?case
    by (subst (asm) (2) scan_string.simps)
      (fastforce split: sum.splits prod.splits option.splits dest: next_point_shorter)
qed

lemma length_skip: "length (skip s) \<le> length s"
  by (simp add: skip_def length_dropWhile_le)

lemma scan_fraction_shorter: "scan_fraction s = (fp, r) \<Longrightarrow> length r \<le> length s"
  by (auto simp: scan_fraction_def length_dropWhile_le le_SucI split: list.splits if_splits)

lemma signed_shorter: "signed s = (neg, r) \<Longrightarrow> length r \<le> length s"
  by (cases s) (auto split: if_splits)

lemma scan_exponent_shorter: "scan_exponent s = (e, r) \<Longrightarrow> length r \<le> length s"
proof (cases s)
  case (Cons c t)
  assume e: "scan_exponent s = (e, r)"
  obtain neg u where "signed t = (neg, u)" by force
  moreover from this have "length (dropWhile is_digit u) \<le> length t"
    using signed_shorter length_dropWhile_le order_trans by metis
  ultimately show ?thesis using e by (auto simp: scan_exponent_def Cons Let_def split: if_splits)
qed (simp add: scan_exponent_def)

lemma scan_number_result:
  assumes "scan_number s = res"
  obtains t ip where "length t \<le> length s" "ip = (if take 1 t = ''0'' then ''0'' else takeWhile is_digit t)"
    and "res = Inl JSONDecodeError \<or> res = Inl DigitLimit \<or> res = Inl Outside
      \<or> ip \<noteq> [] \<and> (\<exists>j r. res = Inr (j, r) \<and> length r \<le> length (drop (length ip) t))"
proof -
  define t where "t = (if take 1 s = ''-'' then drop 1 s else s)"
  define ip where "ip = (if take 1 t = ''0'' then ''0'' else takeWhile is_digit t)"
  obtain fp r1 where f: "scan_fraction (drop (length ip) t) = (fp, r1)" by force
  obtain e r2 where e: "scan_exponent r1 = (e, r2)" by force
  have "length r2 \<le> length (drop (length ip) t)" using scan_fraction_shorter [OF f] scan_exponent_shorter [OF e] by simp
  then show ?thesis
    using assms unfolding scan_number_def Let_def t_def [symmetric] ip_def [symmetric] f prod.case e
    by (intro that [OF _ ip_def]) (auto simp: t_def split: if_splits pyfloat.splits)
qed

lemma scan_number_shorter:
  assumes "scan_number s = Inr (j, r)"
  shows "length r < length s"
proof (rule scan_number_result [OF assms])
  fix t ip
  assume t: "length t \<le> length s" and ip: "ip = (if take 1 t = ''0'' then ''0'' else takeWhile is_digit t)"
    and res: "(Inr (j, r) :: json_error + json \<times> string) = Inl JSONDecodeError \<or> (Inr (j, r) :: json_error + json \<times> string) = Inl DigitLimit
      \<or> (Inr (j, r) :: json_error + json \<times> string) = Inl Outside
      \<or> ip \<noteq> [] \<and> (\<exists>j' r'. Inr (j, r) = (Inr (j', r') :: json_error + json \<times> string) \<and> length r' \<le> length (drop (length ip) t))"
  then have "ip \<noteq> []" "length r \<le> length (drop (length ip) t)" by auto
  moreover from this(1) have "t \<noteq> []" by (auto simp: ip)
  ultimately show ?thesis using t by (cases ip; cases t) auto
qed

text \<open>The cases of a scan that succeeds or fails on its parts.\<close>

lemma scan_items_result:
  assumes "scan_items (Suc k) s = res"
  obtains (failed) e where "scan_value k s = Inl e" "res = Inl e"
  | (malformed) "res = Inl JSONDecodeError"
  | (ended) j t r where "scan_value k s = Inr (j, t)" "skip t = CHR '']'' # r" "res = Inr ([j], r)"
  | (goes_on) j t u where "scan_value k s = Inr (j, t)" "skip t = CHR '','' # u"
      "res = map_sum id (\<lambda>(js, u). (j # js, u)) (scan_items k (skip u))"
  using assms by (auto split: sum.splits list.splits if_splits)

lemma scan_members_result:
  assumes "scan_members (Suc k) s = res"
  obtains (malformed) "res = Inl JSONDecodeError \<or> res = Inl Outside"
  | (bad_key) e where "scan_string (drop 1 s) = Inl e" "res = Inl e"
  | (failed) ns r e where "scan_string (drop 1 s) = Inr (ns, r)" "take 1 (skip r) = '':''"
      "scan_value k (skip (drop 1 (skip r))) = Inl e" "res = Inl e"
  | (ended) ns r j t u where "scan_string (drop 1 s) = Inr (ns, r)" "take 1 (skip r) = '':''"
      "scan_value k (skip (drop 1 (skip r))) = Inr (j, t)" "skip t = CHR ''}'' # u"
      "res = Inr ([(map char_of ns, j)], u)"
  | (goes_on) ns r j t u where "scan_string (drop 1 s) = Inr (ns, r)" "take 1 (skip r) = '':''"
      "scan_value k (skip (drop 1 (skip r))) = Inr (j, t)" "skip t = CHR '','' # u"
      "res = map_sum id (\<lambda>(kvs, w). ((map char_of ns, j) # kvs, w)) (scan_members k (skip u))"
  using assms by (auto split: sum.splits list.splits if_splits)

lemma scan_value_result:
  assumes "scan_value (Suc k) s = res"
  obtains (flat) "\<And>j r. res = Inr (j, r) \<Longrightarrow> length r < length s" "res \<noteq> Inl Out_of_fuel"
  | (string) r where "s = CHR 34 # r" "res = map_sum id (\<lambda>(ns, t). (text_of_points ns, t)) (scan_string r)"
  | (object) r where "s = CHR ''{'' # r" "res = map_sum id (\<lambda>(kvs, t). (JObj (dict_of kvs), t)) (scan_members k (skip r))"
  | (array) r where "s = CHR ''['' # r" "res = map_sum id (\<lambda>(js, t). (JList js, t)) (scan_items k (skip r))"
  | (number) "res = scan_number s"
proof (cases s)
  case Nil
  then show ?thesis using assms flat by auto
next
  case (Cons c r)
  note eqs = assms [unfolded Cons scan_value.simps list.case, symmetric]
  consider "c = CHR 34" | "c = CHR ''{''" | "c = CHR ''[''" | "c \<noteq> CHR 34" "c \<noteq> CHR ''{''" "c \<noteq> CHR ''[''" by blast
  then show ?thesis
  proof cases
    case 1
    then show ?thesis using string [of r] eqs Cons by simp
  next
    case 2
    show ?thesis
    proof (cases "take 1 (skip r) = ''}''")
      case True
      with eqs 2 have "res = Inr (JObj [], drop 1 (skip r))" by simp
      then show ?thesis using flat length_skip [of r] Cons by simp
    next
      case False
      then show ?thesis using object [of r] eqs Cons 2 by simp
    qed
  next
    case 3
    show ?thesis
    proof (cases "take 1 (skip r) = '']''")
      case True
      with eqs 3 have "res = Inr (JList [], drop 1 (skip r))" by simp
      then show ?thesis using flat length_skip [of r] Cons by simp
    next
      case False
      then show ?thesis using array [of r] eqs Cons 3 by simp
    qed
  next
    case 4
    note rest = eqs [unfolded 4 [THEN eq_False [THEN iffD2]] if_False]
    show ?thesis
    proof (cases "res = scan_number s")
      case False
      then have "res \<in> {Inr (JNull, drop 4 s), Inr (JBool True, drop 4 s), Inr (JBool False, drop 5 s), Inl Outside}"
        using rest Cons False by (auto split: if_splits)
      then show ?thesis using flat Cons by fastforce
    qed (rule number)
  qed
qed

declare scan_value.simps [simp del] scan_items.simps [simp del] scan_members.simps [simp del]

lemma scan_0 [simp]: "scan_value 0 s = Inl Out_of_fuel" "scan_items 0 s = Inl Out_of_fuel" "scan_members 0 s = Inl Out_of_fuel"
  by (simp_all add: scan_value.simps scan_items.simps scan_members.simps)

lemma scan_shorter:
  "(scan_value k s = Inr (j, r) \<longrightarrow> length r < length s)
   \<and> (scan_items k s = Inr (js, r) \<longrightarrow> length r < length s)
   \<and> (scan_members k s = Inr (kvs, r) \<longrightarrow> length r < length s)"
proof (induction k arbitrary: s j js kvs r)
  case (Suc k)
  note skips = length_skip [THEN le_less_trans]
  have V: "length r < length s" if "scan_value k s = Inr (j, r)" for s j r using Suc that by blast
  have I: "length r < length s" if "scan_items k s = Inr (js, r)" for s js r using Suc that by blast
  have M: "length r < length s" if "scan_members k s = Inr (kvs, r)" for s kvs r using Suc that by blast
  have "length r < length s" if v: "scan_value (Suc k) s = Inr (j, r)"
  proof (use v in \<open>cases rule: scan_value_result\<close>)
    case flat
    from flat(1) [OF refl] show ?thesis .
  next
    case (string t)
    then show ?thesis using scan_string_shorter [of t] by fastforce
  next
    case (object t)
    then show ?thesis using M [of "skip t"] length_skip [of t] by fastforce
  next
    case (array t)
    then show ?thesis using I [of "skip t"] length_skip [of t] by fastforce
  next
    case number
    then show ?thesis by (metis scan_number_shorter)
  qed
  moreover have "length r < length s" if i: "scan_items (Suc k) s = Inr (js, r)"
  proof (use i in \<open>cases rule: scan_items_result\<close>)
    case (ended j t r')
    then show ?thesis using V [of s j t] length_skip [of t] by simp
  next
    case (goes_on j t u)
    then obtain js' where "scan_items k (skip u) = Inr (js', r)" by auto
    from I [OF this] show ?thesis using V [of s j t] goes_on(1,2) length_skip [of t] length_skip [of u] by simp
  qed simp_all
  moreover have "length r < length s" if m: "scan_members (Suc k) s = Inr (kvs, r)"
  proof (use m in \<open>cases rule: scan_members_result\<close>)
    case (ended ns r1 j t u)
    then show ?thesis
      using scan_string_shorter [OF ended(1)] V [OF ended(3)] length_skip [of t] length_skip [of r1]
        length_skip [of "drop 1 (skip r1)"] by simp
  next
    case (goes_on ns r1 j t u)
    then obtain kvs' where "scan_members k (skip u) = Inr (kvs', r)" by auto
    from M [OF this] show ?thesis
      using scan_string_shorter [OF goes_on(1)] V [OF goes_on(3)] goes_on(4) length_skip [of t] length_skip [of r1]
        length_skip [of "drop 1 (skip r1)"] length_skip [of u] by simp
  qed simp_all
  ultimately show ?case by blast
qed simp

text \<open>Strings and numbers need no fuel.\<close>

lemma no_fuel_needed: "scan_string s \<noteq> Inl Out_of_fuel" "scan_number s \<noteq> Inl Out_of_fuel"
proof -
  have "next_point s \<noteq> Inl Out_of_fuel" for s
    by (auto simp: next_point_def scan_unicode_def split: list.splits option.splits)
  then show "scan_string s \<noteq> Inl Out_of_fuel"
  proof (induction s rule: scan_string.induct)
    case (1 s)
    then show ?case
      by (subst scan_string.simps) (simp split: sum.split prod.split option.split; metis)
  qed
  show "scan_number s \<noteq> Inl Out_of_fuel"
    by (rule scan_number_result [OF refl, of s]) auto
qed

lemma scan_enough:
  "(2 * length s < k \<longrightarrow> scan_value k s \<noteq> Inl Out_of_fuel)
   \<and> (2 * length s + 1 < k \<longrightarrow> scan_items k s \<noteq> Inl Out_of_fuel)
   \<and> (2 * length s + 1 < k \<longrightarrow> scan_members k s \<noteq> Inl Out_of_fuel)"
proof (induction k arbitrary: s)
  case (Suc k)
  have V: "length r < length s" if "scan_value k s = Inr (j, r)" for s j r using scan_shorter that by blast
  have "scan_value (Suc k) s \<noteq> Inl Out_of_fuel" if "2 * length s < Suc k"
  proof (use refl [of "scan_value (Suc k) s"] in \<open>cases rule: scan_value_result\<close>)
    case (object t)
    then show ?thesis using Suc [of "skip t"] that length_skip [of t] by auto
  next
    case (array t)
    then show ?thesis using Suc [of "skip t"] that length_skip [of t] by auto
  qed (auto simp: no_fuel_needed)
  moreover have "scan_items (Suc k) s \<noteq> Inl Out_of_fuel" if "2 * length s + 1 < Suc k"
  proof (use refl [of "scan_items (Suc k) s"] in \<open>cases rule: scan_items_result\<close>)
    case (failed e)
    then show ?thesis using Suc [of s] that by auto
  next
    case (goes_on j t u)
    then show ?thesis using Suc [of "skip u"] V [OF goes_on(1)] that length_skip [of t] length_skip [of u] by auto
  qed auto
  moreover have "scan_members (Suc k) s \<noteq> Inl Out_of_fuel" if "2 * length s + 1 < Suc k"
  proof (use refl [of "scan_members (Suc k) s"] in \<open>cases rule: scan_members_result\<close>)
    case (bad_key e)
    then show ?thesis using no_fuel_needed by auto
  next
    case (failed ns r e)
    then show ?thesis
      using Suc [of "skip (drop 1 (skip r))"] that scan_string_shorter [OF failed(1)]
        length_skip [of r] length_skip [of "drop 1 (skip r)"] by auto
  next
    case (goes_on ns r j t u)
    then show ?thesis
      using Suc [of "skip u"] V [OF goes_on(3)] that scan_string_shorter [OF goes_on(1)]
        length_skip [of r] length_skip [of "drop 1 (skip r)"] length_skip [of t] length_skip [of u] by auto
  qed auto
  ultimately show ?case by blast
qed simp

lemma json_loads_ends: "json_loads text \<noteq> Inl Out_of_fuel"
proof -
  have "scan_value (2 * length text + 1) (skip text) \<noteq> Inl Out_of_fuel"
    using scan_enough [of "skip text" "2 * length text + 1"] length_skip [of "text"] by simp
  then show ?thesis by (auto simp: json_loads_def split: sum.splits)
qed

subsection \<open>Writing\<close>

text \<open>
  The separators of the code's calls of \<^verbatim>\<open>json.dumps\<close>, all with \<^verbatim>\<open>sort_keys\<close>:
  \<open>canonical_json\<close>'s, the default ones, and one item per line under an indentation.
\<close>

datatype json_style = Compact | Spaced | Indented nat

definition newline :: "json_style \<Rightarrow> nat \<Rightarrow> string" where
  "newline st level = (case st of Indented n \<Rightarrow> CHR 10 # replicate (n * level) (CHR 32) | _ \<Rightarrow> [])"

definition item_break :: "json_style \<Rightarrow> nat \<Rightarrow> string" where
  "item_break st level = (case st of Compact \<Rightarrow> [] | Spaced \<Rightarrow> '' '' | Indented n \<Rightarrow> newline st level)"

definition key_break :: "json_style \<Rightarrow> string" where
  "key_break st = (case st of Compact \<Rightarrow> [] | _ \<Rightarrow> '' '')"

fun join :: "string \<Rightarrow> string list \<Rightarrow> string" where
  "join sep [] = []"
| "join sep [x] = x"
| "join sep (x # y # xs) = x @ sep @ join sep (y # xs)"

fun json_dumps :: "json_style \<Rightarrow> nat \<Rightarrow> json \<Rightarrow> string" where
  "json_dumps st level (JList js) =
     (if js = [] then ''[]''
      else ''['' @ newline st (Suc level)
           @ join ('','' @ item_break st (Suc level)) (map (json_dumps st (Suc level)) js)
           @ newline st level @ '']'')"
| "json_dumps st level (JObj kvs) =
     (if kvs = [] then ''{}''
      else ''{'' @ newline st (Suc level)
           @ join ('','' @ item_break st (Suc level))
               (map (\<lambda>(k, t). json_string k @ '':'' @ key_break st @ t)
                 (sort_key fst (map (\<lambda>(k, v). (k, json_dumps st (Suc level) v)) kvs)))
           @ newline st level @ ''}'')"
| "json_dumps st level JNull = canonical_json JNull"
| "json_dumps st level (JBool b) = canonical_json (JBool b)"
| "json_dumps st level (JInt i) = canonical_json (JInt i)"
| "json_dumps st level (JFloat x) = canonical_json (JFloat x)"
| "json_dumps st level (JStr s) = canonical_json (JStr s)"
| "json_dumps st level (JUni ns) = canonical_json (JUni ns)"
| "json_dumps st level (JTime d) = canonical_json (JTime d)"

lemma join_comma: "join '','' xs = comma_sep xs"
  by (induction xs rule: comma_sep.induct) simp_all

text \<open>The hashed text is one of the three.\<close>

lemma canonical_json_dumps: "canonical_json j = json_dumps Compact level j"
proof (induction j arbitrary: level rule: canonical_json.induct)
  case (8 js)
  then have "map canonical_json js = map (json_dumps Compact (Suc level)) js" by simp
  then show ?case by (simp only: json_dumps.simps canonical_json.simps) (simp add: newline_def item_break_def join_comma)
next
  case (9 kvs)
  then have "map (\<lambda>(k, v). (k, canonical_json v)) kvs = map (\<lambda>(k, v). (k, json_dumps Compact (Suc level) v)) kvs"
    by fastforce
  then show ?case
    by (simp only: json_dumps.simps canonical_json.simps) (simp add: newline_def item_break_def key_break_def join_comma)
qed simp_all

end
