(* ===== verification/JsonRoundTrip.thy ===== *)
theory JsonRoundTrip
  imports JsonText
begin

section \<open>What \<^verbatim>\<open>json.dumps\<close> writes, \<^verbatim>\<open>json.loads\<close> reads back\<close>

text \<open>
  Every scanner is run on a written text followed by any rest, so that the lemmas compose: strings,
  numbers (a float through its shortest decimal, \<open>shortest_reads\<close>), then documents in each of the
  styles. What is read back is the document's normal form.
\<close>

subsection \<open>Strings\<close>

lemma hex_char_facts: "hex_value (hex_char d) = d mod 16 \<and> is_hex (hex_char d)"
proof -
  have "hex_value c = i \<and> is_hex c" if "(c, i) \<in> set (zip ''0123456789abcdef'' [0..<16])" for c i
    using that by (auto simp: upt_rec hex_value_def is_hex_def is_digit_def lower_char_def)
  moreover have "(hex_char d, d mod 16) \<in> set (zip ''0123456789abcdef'' [0..<16])"
    by (subst set_zip) (auto simp: hex_char_def intro!: exI [of _ "d mod 16"])
  ultimately show ?thesis by blast
qed

lemma hex4_digits: "n < 65536 \<Longrightarrow> hex4 (hex_digits 4 n @ r) = Some (n, r)"
proof -
  assume n: "n < 65536"
  have "hex_digits (Suc (Suc (Suc (Suc 0)))) n
      = [hex_char (n div 16 div 16 div 16), hex_char (n div 16 div 16), hex_char (n div 16), hex_char n]" by simp
  moreover have "Suc (Suc (Suc (Suc 0))) = 4" by simp
  ultimately have four: "hex_digits 4 n
      = [hex_char (n div 16 div 16 div 16), hex_char (n div 16 div 16), hex_char (n div 16), hex_char n]" by simp
  have "n div 16 div 16 div 16 mod 16 = n div 16 div 16 div 16" using n by (simp add: div_mult2_eq [symmetric])
  then have "((n div 16 div 16 div 16 mod 16 * 16 + n div 16 div 16 mod 16) * 16 + n div 16 mod 16) * 16 + n mod 16 = n"
    by (simp only: div_mult_mod_eq)
  then show ?thesis by (simp add: four hex_char_facts)
qed

definition scalar_point :: "nat \<Rightarrow> bool" where
  "scalar_point n \<longleftrightarrow> n < 1114112 \<and> \<not> (55296 \<le> n \<and> n < 57344)"

lemma scan_unicode_plain:
  "n < 65536 \<Longrightarrow> scalar_point n \<Longrightarrow> scan_unicode (hex_digits 4 n @ r) = Inr (n, r)"
  by (auto simp: scan_unicode_def hex4_digits high_surrogate_def scalar_point_def)

lemma scan_unicode_pair:
  assumes "m < 1048576"
  shows "scan_unicode (hex_digits 4 (55296 + m div 1024) @ [CHR 92, CHR ''u''] @ hex_digits 4 (56320 + m mod 1024) @ r)
    = Inr (65536 + m, r)"
proof -
  have d: "m div 1024 < 1024" "m mod 1024 < 1024" using assms by auto
  show ?thesis
    using d by (simp add: scan_unicode_def hex4_digits high_surrogate_def low_surrogate_def)
qed

lemma of_char_small: "(of_char c :: nat) < 256"
  using nat_of_char_less_256 by auto

lemma next_point_char: "next_point (escape_char c @ r) = Inr (Some (of_char c), r)"
proof -
  have u: "next_point ([CHR 92, CHR ''u''] @ hex_digits 4 (of_char c) @ r) = Inr (Some (of_char c), r)"
  proof -
    have "scan_unicode (hex_digits 4 (of_char c) @ r) = Inr (of_char c, r)"
    proof (rule scan_unicode_plain)
      show "(of_char c :: nat) < 65536" using of_char_small [of c] by linarith
      show "scalar_point (of_char c)" unfolding scalar_point_def using of_char_small [of c] by linarith
    qed
    then show ?thesis by (simp add: next_point_def)
  qed
  show ?thesis
  proof (cases "c \<in> {CHR 34, CHR 92, CHR 10, CHR 13, CHR 9, CHR 12, CHR 8}")
    case True
    then show ?thesis by (auto simp: escape_char_def next_point_def simple_escapes_def)
  next
    case False
    then show ?thesis using u by (auto simp: escape_char_def next_point_def)
  qed
qed

lemma next_point_escape:
  assumes "scalar_point n"
  shows "next_point (escape_point n @ r) = Inr (Some n, r)"
proof -
  consider "n < 128" | "128 \<le> n" "n < 65536" | "65536 \<le> n" by linarith
  then show ?thesis
  proof cases
    case 1
    then have "of_char (char_of n :: char) = n" by simp
    then show ?thesis using 1 next_point_char [of "char_of n" r] by (simp add: escape_point_def)
  next
    case 2
    then show ?thesis using scan_unicode_plain [OF _ assms, of r] by (simp add: escape_point_def next_point_def)
  next
    case 3
    then have "n - 65536 < 1048576" using assms by (simp add: scalar_point_def)
    from scan_unicode_pair [OF this, of r] 3 show ?thesis by (simp add: escape_point_def next_point_def Let_def)
  qed
qed

lemma scan_string_end: "scan_string (CHR 34 # r) = Inr ([], r)"
  by (subst scan_string.simps) (simp add: next_point_def)

lemma scan_string_points:
  "list_all scalar_point ns \<Longrightarrow> scan_string (concat (map escape_point ns) @ CHR 34 # r) = Inr (ns, r)"
proof (induction ns)
  case Nil
  show ?case using scan_string_end by simp
next
  case (Cons n ns)
  then have "next_point (concat (map escape_point (n # ns)) @ CHR 34 # r) = Inr (Some n, concat (map escape_point ns) @ CHR 34 # r)"
    by (simp add: next_point_escape)
  then show ?case using Cons by (subst scan_string.simps) simp
qed

lemma scan_string_chars: "scan_string (concat (map escape_char s) @ CHR 34 # r) = Inr (map of_char s, r)"
proof (induction s)
  case Nil
  show ?case using scan_string_end by simp
next
  case (Cons c s)
  have "next_point (concat (map escape_char (c # s)) @ CHR 34 # r) = Inr (Some (of_char c), concat (map escape_char s) @ CHR 34 # r)"
    by (simp add: next_point_char)
  then show ?case using Cons by (subst scan_string.simps) simp
qed

lemma points_of_chars: "list_all (\<lambda>n. n < 256) (map of_char s :: nat list) \<and> map char_of (map of_char s :: nat list) = s"
  by (simp add: list_all_iff comp_def of_char_small)

subsection \<open>Integers\<close>

lemma digit_char_facts:
  assumes "d < 10"
  shows "is_digit (digit_char d)" and "digit_value (digit_char d) = d" and "digit_char d = CHR ''0'' \<longleftrightarrow> d = 0"
proof -
  have "\<forall>d \<in> set [0..<10]. is_digit (digit_char d) \<and> digit_value (digit_char d) = d \<and> (digit_char d = CHR ''0'') = (d = 0)"
    by code_simp
  then have "is_digit (digit_char d) \<and> digit_value (digit_char d) = d \<and> (digit_char d = CHR ''0'') = (d = 0)"
    by (rule bspec) (use assms in simp)
  then show "is_digit (digit_char d)" "digit_value (digit_char d) = d" "digit_char d = CHR ''0'' \<longleftrightarrow> d = 0" by simp_all
qed

lemma digits_value_append: "digits_value (s @ t) = digits_value s * 10 ^ length t + digits_value t"
proof (induction t rule: rev_induct)
  case Nil
  show ?case by (simp add: digits_value_def)
next
  case (snoc c t)
  then show ?case by (simp add: digits_value_def algebra_simps)
qed

lemma digits_value_zeros: "digits_value (replicate k (CHR ''0'')) = 0"
proof (induction k)
  case (Suc k)
  have "replicate (Suc k) (CHR ''0'') = replicate k (CHR ''0'') @ ''0''" by (simp add: replicate_append_same)
  then show ?case using Suc by (simp only: digits_value_append) (simp add: digits_value_def digit_value_def)
qed (simp add: digits_value_def)

lemma nat_text_facts:
  "list_all is_digit (nat_text n) \<and> nat_text n \<noteq> [] \<and> digits_value (nat_text n) = n
   \<and> (n \<noteq> 0 \<longrightarrow> hd (nat_text n) \<noteq> CHR ''0'')"
proof (induction n rule: nat_text.induct)
  case (1 n)
  show ?case
  proof (cases "n < 10")
    case True
    then show ?thesis by (subst (1 2 3 4) nat_text.simps) (simp add: digit_char_facts digits_value_def)
  next
    case False
    then have "n div 10 \<noteq> 0" by auto
    moreover have "n mod 10 < 10" by simp
    ultimately show ?thesis
      using 1 False by (subst (1 2 3 4) nat_text.simps) (simp add: digit_char_facts digits_value_append digits_value_def [of "[_]"])
  qed
qed

text \<open>A number is read up to the first character that cannot go on.\<close>

definition ends_number :: "string \<Rightarrow> bool" where
  "ends_number r \<longleftrightarrow> (case r of [] \<Rightarrow> True | c # _ \<Rightarrow> c \<in> {CHR '','', CHR '']'', CHR ''}'', CHR 10, CHR 32, CHR 9, CHR 13})"

lemma ends_number_facts:
  assumes "ends_number r"
  shows "takeWhile is_digit r = []" "dropWhile is_digit r = r" "scan_fraction r = ([], r)" "scan_exponent r = (None, r)"
  using assms
  by (auto simp: ends_number_def scan_fraction_def scan_exponent_def Let_def is_digit_def lower_char_def
      less_eq_char_def less_char_def split: list.splits prod.splits)

lemma digits_then:
  assumes "list_all is_digit ds" and "takeWhile is_digit r = []"
  shows "takeWhile is_digit (ds @ r) = ds" and "dropWhile is_digit (ds @ r) = r"
proof -
  have "dropWhile is_digit r = r" using assms(2) by (cases r) (auto split: if_splits)
  then show "takeWhile is_digit (ds @ r) = ds" "dropWhile is_digit (ds @ r) = r"
    using assms by (simp_all add: list_all_iff)
qed

lemma minus_not_digit: "\<not> is_digit (CHR ''-'')"
  by (simp add: is_digit_def less_eq_char_def)

lemma nat_text_start: "take 1 (nat_text n @ r) \<noteq> ''-''"
proof -
  obtain c t where "nat_text n = c # t" "is_digit c" using nat_text_facts [of n] by (cases "nat_text n") auto
  then show ?thesis using minus_not_digit by auto
qed

text \<open>The integer part of a number is the digits of an integer.\<close>

lemma scan_number_digits:
  assumes "takeWhile is_digit r = []"
  shows "(if take 1 (nat_text n @ r) = ''0'' then ''0'' else takeWhile is_digit (nat_text n @ r)) = nat_text n"
proof (cases "n = 0")
  case True
  have "nat_text 0 = ''0''" using digit_char_facts(3) [of 0] by (subst nat_text.simps) simp
  then show ?thesis using True by simp
next
  case False
  then have "take 1 (nat_text n @ r) \<noteq> ''0''" using nat_text_facts [of n] by (cases "nat_text n") auto
  then show ?thesis using digits_then(1) [OF _ assms] nat_text_facts [of n] by simp
qed

lemma scan_number_parts:
  assumes "s = (if neg then CHR ''-'' # t else t)" and "take 1 t \<noteq> ''-''"
    and "(if take 1 t = ''0'' then ''0'' else takeWhile is_digit t) = ip" and "ip \<noteq> []"
    and "scan_fraction (drop (length ip) t) = (fp, r1)" and "scan_exponent r1 = (e, r2)"
  shows "scan_number s =
     (if fp = [] \<and> e = None then
        (if 4300 < length ip then Inl DigitLimit
         else Inr (JInt (if neg then - int (digits_value ip) else int (digits_value ip)), drop (length ip) t))
      else case binary64 (if neg then - decimal_value ip fp (case e of None \<Rightarrow> 0 | Some k \<Rightarrow> k)
                          else decimal_value ip fp (case e of None \<Rightarrow> 0 | Some k \<Rightarrow> k)) of
             Finite x \<Rightarrow> Inr (JFloat x, r2) | _ \<Rightarrow> Inl Outside)"
proof -
  have neg: "(take 1 s = ''-'') = neg" "(if neg then drop 1 s else s) = t" using assms(1,2) by simp_all
  show ?thesis
    unfolding scan_number_def Let_def neg assms(3) assms(5) prod.case assms(6) using assms(4) by simp
qed

lemma scan_number_int:
  assumes "length (nat_text (nat \<bar>i\<bar>)) \<le> 4300" and "ends_number r"
  shows "scan_number (int_text i @ r) = Inr (JInt i, r)"
proof -
  note r = ends_number_facts [OF assms(2)]
  let ?t = "nat_text (nat \<bar>i\<bar>)"
  have s: "int_text i @ r = (if i < 0 then CHR ''-'' # ?t @ r else ?t @ r)" by (simp add: int_text_def)
  have f: "scan_fraction (drop (length ?t) (?t @ r)) = ([], r)" by (simp add: r)
  have n: "?t \<noteq> []" using nat_text_facts by simp
  show ?thesis
    unfolding scan_number_parts [OF s nat_text_start scan_number_digits [OF r(1)] n f r(4)]
    using nat_text_facts [of "nat \<bar>i\<bar>"] assms(1) by (cases "i < 0") simp_all
qed

subsection \<open>Floats\<close>

text \<open>The four layouts of a decimal \<open>c * 10 ^ s\<close>: with an exponent, below one, whole, with a point inside.\<close>

lemma digits_plain: "list_all is_digit ds \<Longrightarrow> plain_digits ds = ds"
  by (simp add: plain_digits_def list_all_iff)

lemma decimal_value_digits:
  assumes "list_all is_digit ip" and "list_all is_digit fp"
  shows "decimal_value ip fp e = of_nat (digits_value (ip @ fp)) * 10 powi (e - int (length fp))"
  by (simp add: decimal_value_def digits_plain assms pow_int_powi)

lemma zero_digit [simp]: "is_digit (CHR ''0'')"
  by (simp add: is_digit_def)

lemma not_digits [simp]: "\<not> is_digit (CHR ''.'')" "\<not> is_digit (CHR ''e'')"
  by (simp_all add: is_digit_def less_eq_char_def)

lemma scan_fraction_digits:
  assumes "list_all is_digit ds" and "ds \<noteq> []" and "takeWhile is_digit r = []"
  shows "scan_fraction (CHR ''.'' # ds @ r) = (ds, r)"
  using assms digits_then [OF assms(1,3)] by (cases ds) (simp_all add: scan_fraction_def)

lemma padded_facts: "list_all is_digit (padded w n) \<and> padded w n \<noteq> [] \<and> digits_value (padded w n) = n"
  using nat_text_facts [of n] by (auto simp: padded_def Let_def digits_value_append digits_value_zeros list_all_iff)

lemma scan_exponent_text:
  assumes "ends_number r"
  shows "scan_exponent ((if e < 0 then ''e-'' else ''e+'') @ padded 2 (nat \<bar>e\<bar>) @ r) = (Some e, r)"
proof -
  note r = ends_number_facts [OF assms]
  have "lower_char (CHR ''e'') = CHR ''e''" by (simp add: lower_char_def)
  then show ?thesis
    using padded_facts [of 2 "nat \<bar>e\<bar>"] digits_then [of "padded 2 (nat \<bar>e\<bar>)", OF _ r(1)]
    by (cases "e < 0") (simp_all add: scan_exponent_def Let_def)
qed

text \<open>What a layout is scanned to: the digits before and behind the point, the exponent, the rest.\<close>

lemma layout_scanned:
  assumes "0 < c" and "ends_number r"
  defines "ds \<equiv> nat_text c"
  obtains ip fp e r1 where
    "(if take 1 (layout ds point @ r) = ''0'' then ''0'' else takeWhile is_digit (layout ds point @ r)) = ip"
    "ip \<noteq> []" "list_all is_digit ip" "list_all is_digit fp"
    "scan_fraction (drop (length ip) (layout ds point @ r)) = (fp, r1)" "scan_exponent r1 = (e, r)"
    "\<not> (fp = [] \<and> e = None)"
    "decimal_value ip fp (case e of None \<Rightarrow> 0 | Some k \<Rightarrow> k) = of_nat c * 10 powi (point - int (length ds))"
    "take 1 (layout ds point @ r) \<noteq> ''-''"
proof -
  note r = ends_number_facts [OF assms(2)]
  have ds: "list_all is_digit ds" "ds \<noteq> []" "digits_value ds = c" "hd ds \<noteq> CHR ''0''"
    using nat_text_facts [of c] assms(1) by (simp_all add: ds_def)
  obtain d t where d: "ds = d # t" "is_digit d" "d \<noteq> CHR ''0''" "list_all is_digit t" using ds by (cases ds) auto
  have minus: "d \<noteq> CHR ''-''" using d(2) minus_not_digit by auto
  have whole: "(if take 1 (u @ v) = ''0'' then ''0'' else takeWhile is_digit (u @ v)) = u"
    if "u = d # u'" "list_all is_digit u'" "takeWhile is_digit v = []" for u u' v
    using that d digits_then(1) [of u v] by simp
  consider "point \<le> - 4 \<or> 16 < point" | "\<not> (point \<le> - 4 \<or> 16 < point)" "point \<le> 0"
    | "\<not> (point \<le> - 4 \<or> 16 < point)" "0 < point" "int (length ds) \<le> point"
    | "\<not> (point \<le> - 4 \<or> 16 < point)" "0 < point" "point < int (length ds)" by linarith
  then show ?thesis
  proof cases
    case 1
    define x where x: "x = (if point - 1 < 0 then ''e-'' else ''e+'') @ padded 2 (nat \<bar>point - 1\<bar>) @ r"
    have end_x: "takeWhile is_digit x = []" "scan_fraction x = ([], x)" by (auto simp: x scan_fraction_def)
    have l: "layout ds point @ r = [d] @ (if t = [] then [] else ''.'' @ t) @ x"
      using 1 by (simp add: layout_def Let_def d(1) x)
    have f: "scan_fraction ((if t = [] then [] else ''.'' @ t) @ x) = (t, x)"
      using scan_fraction_digits [OF d(4) _ end_x(1)] end_x(2) by (cases "t = []") simp_all
    show ?thesis
    proof (rule that [of "[d]" t x "Some (point - 1)"])
      show "(if take 1 (layout ds point @ r) = ''0'' then ''0'' else takeWhile is_digit (layout ds point @ r)) = [d]"
        unfolding l by (rule whole [of _ "[]"]) (use end_x(1) in simp_all)
      show "scan_fraction (drop (length [d]) (layout ds point @ r)) = (t, x)" unfolding l using f by simp
      show "scan_exponent x = (Some (point - 1), r)" unfolding x by (rule scan_exponent_text [OF assms(2)])
      show "decimal_value [d] t (case Some (point - 1) of None \<Rightarrow> 0 | Some k \<Rightarrow> k)
          = of_nat c * 10 powi (point - int (length ds))"
        using d ds(3) by (simp add: decimal_value_digits diff_diff_eq)
      show "take 1 (layout ds point @ r) \<noteq> ''-''" unfolding l using minus by simp
    qed (use d in simp_all)
  next
    case 2
    let ?z = "replicate (nat (- point)) (CHR ''0'') @ ds"
    have z: "list_all is_digit ?z" "?z \<noteq> []" using ds by (auto simp: list_all_iff)
    have l: "layout ds point @ r = ''0'' @ CHR ''.'' # ?z @ r" using 2 by (simp add: layout_def Let_def)
    show ?thesis
    proof (rule that [of "''0''" ?z r None])
      show "scan_fraction (drop (length ''0'') (layout ds point @ r)) = (?z, r)"
        unfolding l using scan_fraction_digits [OF z r(1)] by simp
      have "digits_value (''0'' @ ?z) = c"
        using ds(3) digits_value_zeros [of 1] by (simp add: digits_value_append digits_value_zeros del: append_Cons)
      then show "decimal_value ''0'' ?z (case None of None \<Rightarrow> 0 | Some k \<Rightarrow> k) = of_nat c * 10 powi (point - int (length ds))"
        using z(1) 2(2) by (simp add: decimal_value_digits diff_diff_eq)
    qed (use l r ds z in \<open>simp_all add: list_all_iff\<close>)
  next
    case 3
    let ?z = "ds @ replicate (nat (point - int (length ds))) (CHR ''0'')"
    have z: "list_all is_digit ?z" using ds by (auto simp: list_all_iff)
    have l: "layout ds point @ r = ?z @ CHR ''.'' # ''0'' @ r" using 3 by (simp add: layout_def Let_def)
    have w: "(if take 1 (?z @ CHR ''.'' # ''0'' @ r) = ''0'' then ''0'' else takeWhile is_digit (?z @ CHR ''.'' # ''0'' @ r)) = ?z"
      by (rule whole [of _ "t @ replicate (nat (point - int (length ds))) (CHR ''0'')"]) (use d in \<open>auto simp: list_all_iff\<close>)
    show ?thesis
    proof (rule that [of ?z "''0''" r None])
      show "scan_fraction (drop (length ?z) (layout ds point @ r)) = (''0'', r)"
        unfolding l using scan_fraction_digits [of "''0''" r] r(1) by simp
      have "digits_value (?z @ ''0'') = c * 10 ^ nat (point - int (length ds)) * 10"
        using ds(3) digits_value_zeros [of 1] by (simp add: digits_value_append digits_value_zeros del: append_Cons append_assoc)
      moreover have "(10 :: rat) powi (point - int (length ds)) = 10 ^ nat (point - int (length ds))"
        using 3(3) by (simp add: power_int_def)
      ultimately show "decimal_value ?z ''0'' (case None of None \<Rightarrow> 0 | Some k \<Rightarrow> k)
          = of_nat c * 10 powi (point - int (length ds))"
        using z by (simp add: decimal_value_digits power_int_minus del: append_assoc)
    qed (use z w l r ds d minus in \<open>simp_all add: list_all_iff\<close>)
  next
    case 4
    let ?u = "take (nat point) ds" and ?v = "drop (nat point) ds"
    have v: "?v \<noteq> []" "list_all is_digit ?v" "list_all is_digit ?u" using 4 ds(1) by (auto simp: list_all_iff dest: in_set_takeD in_set_dropD)
    have u: "?u = d # take (nat point - 1) t" using 4(2) by (simp add: d(1) take_Cons')
    have l: "layout ds point @ r = ?u @ CHR ''.'' # ?v @ r" using 4 by (simp add: layout_def Let_def)
    have w: "(if take 1 (?u @ CHR ''.'' # ?v @ r) = ''0'' then ''0'' else takeWhile is_digit (?u @ CHR ''.'' # ?v @ r)) = ?u"
      by (rule whole [OF u]) (use d in \<open>auto simp: list_all_iff dest: in_set_takeD\<close>)
    show ?thesis
    proof (rule that [of ?u ?v r None])
      show "scan_fraction (drop (length ?u) (layout ds point @ r)) = (?v, r)"
        unfolding l using scan_fraction_digits [OF v(2,1) r(1)] by simp
      show "decimal_value ?u ?v (case None of None \<Rightarrow> 0 | Some k \<Rightarrow> k) = of_nat c * 10 powi (point - int (length ds))"
        using v ds(3) 4 by (simp add: decimal_value_digits)
      show "take 1 (layout ds point @ r) \<noteq> ''-''" unfolding l u using minus by simp
      show "?u \<noteq> []" unfolding u by simp
      show "(if take 1 (layout ds point @ r) = ''0'' then ''0'' else takeWhile is_digit (layout ds point @ r)) = ?u"
        unfolding l by (rule w)
    qed (use v r in simp_all)
  qed
qed

lemma scan_number_float:
  assumes "fl x = x" and "\<bar>x\<bar> < 2 ^ 1024" and "ends_number r"
  shows "scan_number (float_repr x @ r) = Inr (JFloat x, r)"
proof (cases "x = 0")
  case True
  note r = ends_number_facts [OF assms(3)]
  have f: "scan_fraction (drop (length ''0'') (''0.0'' @ r)) = (''0'', r)"
    using scan_fraction_digits [of "''0''" r] r(1) by simp
  have "decimal_value ''0'' ''0'' 0 = 0" using digits_value_zeros [of 2] by (simp add: decimal_value_digits numeral_2_eq_2)
  then show ?thesis
    unfolding True using scan_number_parts [of "''0.0'' @ r" False "''0.0'' @ r", OF _ _ _ _ f r(4)]
    by (simp add: float_repr_def binary64_def)
next
  case False
  let ?y = "\<bar>x\<bar>"
  obtain c k where cs: "shortest ?y = (c, k)" by force
  have y: "0 < ?y" "fl ?y = ?y" using False assms(1) fl_minus [of x] by (auto simp: abs_if)
  note shortest = shortest_reads [OF y cs]
  let ?t = "layout (nat_text c) (int (length (nat_text c)) + k)"
  have s: "float_repr x @ r = (if x < 0 then CHR ''-'' # ?t @ r else ?t @ r)"
    using False cs by (cases "x < 0") (simp_all add: float_repr_def float_repr_pos_def Let_def)
  show ?thesis
  proof (rule layout_scanned [OF shortest(2) assms(3), of "int (length (nat_text c)) + k"])
    fix ip fp e r1
    assume parts: "(if take 1 (?t @ r) = ''0'' then ''0'' else takeWhile is_digit (?t @ r)) = ip" "ip \<noteq> []"
      "scan_fraction (drop (length ip) (?t @ r)) = (fp, r1)" "scan_exponent r1 = (e, r)" "\<not> (fp = [] \<and> e = None)"
      "decimal_value ip fp (case e of None \<Rightarrow> 0 | Some k \<Rightarrow> k)
        = of_nat c * 10 powi (int (length (nat_text c)) + k - int (length (nat_text c)))"
      "take 1 (?t @ r) \<noteq> ''-''"
    let ?v = "of_nat c * pow_int 10 k"
    have v: "decimal_value ip fp (case e of None \<Rightarrow> 0 | Some k \<Rightarrow> k) = ?v" using parts(6) by (simp add: pow_int_powi)
    have "fl (if x < 0 then - ?v else ?v) = x" using shortest(1) by (simp add: fl_minus abs_if)
    then have "binary64 (if x < 0 then - ?v else ?v) = Finite x" using assms(2) by (simp add: binary64_def Let_def)
    then show "scan_number (float_repr x @ r) = Inr (JFloat x, r)"
      unfolding scan_number_parts [OF s parts(7,1,2,3,4)] v using parts(5) by simp
  qed
qed

subsection \<open>Documents\<close>

text \<open>What can be written and read: every dictionary has distinct keys, every float is finite.\<close>

fun readable :: "json \<Rightarrow> bool" where
  "readable (JInt i) \<longleftrightarrow> length (nat_text (nat \<bar>i\<bar>)) \<le> 4300"
| "readable (JFloat x) \<longleftrightarrow> fl x = x \<and> \<bar>x\<bar> < 2 ^ 1024"
| "readable (JUni ns) \<longleftrightarrow> list_all scalar_point ns"
| "readable (JList js) \<longleftrightarrow> list_all readable js"
| "readable (JObj kvs) \<longleftrightarrow> distinct (map fst kvs) \<and> list_all (\<lambda>(k, v). readable v) kvs"
| "readable _ \<longleftrightarrow> True"

text \<open>What is read back: keys in order, a datetime as its text, a text in its smallest alphabet.\<close>

fun normal :: "json \<Rightarrow> json" where
  "normal (JTime d) = JStr (json_time_text d)"
| "normal (JUni ns) = text_of_points ns"
| "normal (JList js) = JList (map normal js)"
| "normal (JObj kvs) = JObj (sort_key fst (map (\<lambda>(k, v). (k, normal v)) kvs))"
| "normal j = j"

lemma sort_key_map_snd: "sort_key fst (map (\<lambda>(k, v). (k, f v)) kvs) = map (\<lambda>(k, v). (k, f v)) (sort_key fst kvs)"
proof -
  have ins: "insort_key fst (k, f v) (map (\<lambda>(k, v). (k, f v)) xs) = map (\<lambda>(k, v). (k, f v)) (insort_key fst (k, v) xs)" for k v xs
    by (induction xs) auto
  show ?thesis by (induction kvs) (auto simp: ins)
qed

lemma dict_set_new: "k \<notin> fst ` set kvs \<Longrightarrow> dict_set k v kvs = kvs @ [(k, v)]"
  by (induction kvs) auto

lemma dict_of_distinct: "distinct (map fst kvs) \<Longrightarrow> dict_of kvs = kvs"
proof -
  have "distinct (map fst (acc @ kvs)) \<Longrightarrow> fold (\<lambda>(k, v). dict_set k v) kvs acc = acc @ kvs" for acc
    by (induction kvs arbitrary: acc) (auto simp: dict_set_new)
  from this [of "[]"] show "distinct (map fst kvs) \<Longrightarrow> dict_of kvs = kvs" by (simp add: dict_of_def)
qed

definition white :: "string \<Rightarrow> bool" where
  "white s \<longleftrightarrow> list_all (\<lambda>c. c \<in> {CHR 32, CHR 9, CHR 10, CHR 13}) s"

lemma skip_white: "white s \<Longrightarrow> skip (s @ r) = skip r"
  by (induction s) (auto simp: white_def skip_def)

lemma white_layout [simp]: "white []" "white (newline st n)" "white (item_break st n)" "white (key_break st)"
  by (auto simp: white_def newline_def item_break_def key_break_def list_all_iff split: json_style.splits)

text \<open>A written document starts with a character that is neither white nor closes a bracket.\<close>

definition starts_value :: "string \<Rightarrow> bool" where
  "starts_value s \<longleftrightarrow> s \<noteq> [] \<and> hd s \<notin> {CHR 32, CHR 9, CHR 10, CHR 13, CHR '']'', CHR ''}''}"

lemma starts_value_skip: "starts_value s \<Longrightarrow> skip (s @ r) = s @ r"
  by (cases s) (auto simp: starts_value_def skip_def)

lemma starts_Cons: "starts_value (c # s) \<longleftrightarrow> c \<notin> {CHR 32, CHR 9, CHR 10, CHR 13, CHR '']'', CHR ''}''}"
  by (simp add: starts_value_def)

lemma starts_value_open: "starts_value s \<Longrightarrow> take 1 (s @ r) \<noteq> '']'' \<and> take 1 (s @ r) \<noteq> ''}''"
  by (cases s) (auto simp: starts_value_def)

lemma starts_digit: "is_digit c \<Longrightarrow> starts_value (c # s)"
  by (auto simp: starts_value_def is_digit_def less_eq_char_def)

lemma starts_nat: "starts_value (nat_text n)"
  using nat_text_facts [of n] starts_digit by (cases "nat_text n") auto

lemma starts_layout: "list_all is_digit ds \<Longrightarrow> ds \<noteq> [] \<Longrightarrow> starts_value (layout ds point)"
proof -
  assume "list_all is_digit ds" "ds \<noteq> []"
  then obtain d t where "ds = d # t" "is_digit d" by (cases ds) auto
  then show ?thesis
    using starts_digit [of d] starts_digit [of "CHR ''0''"] by (auto simp: layout_def Let_def take_Cons')
qed

lemma starts_repr_pos: "starts_value (float_repr_pos x)"
  using nat_text_facts by (simp add: float_repr_pos_def Let_def starts_layout split: prod.split)

lemma starts_dumps: "starts_value (json_dumps st n j)"
  by (cases j) (simp_all add: starts_Cons starts_nat starts_repr_pos int_text_def float_repr_def json_string_def)

text \<open>An item list or member list that is written is read, given that its documents are.\<close>

definition reads_back :: "json_style \<Rightarrow> json \<Rightarrow> bool" where
  "reads_back st j \<longleftrightarrow> (\<forall>n r k. ends_number r \<and> 2 * length (json_dumps st n j) < k
     \<longrightarrow> scan_value k (json_dumps st n j @ r) = Inr (normal j, r))"

lemma reads_backI:
  assumes "\<And>n r k. ends_number r \<Longrightarrow> 2 * length (json_dumps st n j) < Suc k
    \<Longrightarrow> scan_value (Suc k) (json_dumps st n j @ r) = Inr (normal j, r)"
  shows "reads_back st j"
  unfolding reads_back_def
proof (intro allI impI, elim conjE)
  fix n r k assume "ends_number r" "2 * length (json_dumps st n j) < k"
  then show "scan_value k (json_dumps st n j @ r) = Inr (normal j, r)" using assms by (cases k) auto
qed

lemma ends_number_break [simp]:
  "ends_number (CHR '','' # r)" "ends_number (newline st n @ CHR '']'' # r)" "ends_number (newline st n @ CHR ''}'' # r)"
  by (auto simp: ends_number_def newline_def split: json_style.split)

lemma skip_break [simp]: "skip (newline st n @ CHR '']'' # r) = CHR '']'' # r"
  "skip (newline st n @ CHR ''}'' # r) = CHR ''}'' # r" "skip (CHR '','' # r) = CHR '','' # r" "skip (CHR '':'' # r) = CHR '':'' # r"
  by (simp_all add: skip_white) (simp_all add: skip_def)

lemma skip_to_value [simp]: "skip (json_dumps st n j @ r) = json_dumps st n j @ r"
  by (rule starts_value_skip) (rule starts_dumps)

lemma scan_items_written:
  assumes "\<And>j. j \<in> set js \<Longrightarrow> reads_back st j" and "js \<noteq> []"
    and "2 * length (join ('','' @ item_break st n) (map (json_dumps st n) js)) + 1 < k"
  shows "scan_items k (join ('','' @ item_break st n) (map (json_dumps st n) js) @ newline st m @ CHR '']'' # r)
    = Inr (map normal js, r)"
  using assms
proof (induction js arbitrary: k rule: induct_list012)
  case (2 j)
  then obtain k' where k: "k = Suc k'" by (cases k) auto
  show ?case
    using 2 by (subst k, subst scan_items.simps) (simp add: k reads_back_def)
next
  case (3 j j' js)
  then obtain k' where k: "k = Suc k'" by (cases k) auto
  let ?rest = "join ('','' @ item_break st n) (map (json_dumps st n) (j' # js))"
  have "scan_items k' (?rest @ newline st m @ CHR '']'' # r) = Inr (map normal (j' # js), r)"
    by (rule "3.IH") (use 3 k in auto)
  moreover have "skip (?rest @ newline st m @ CHR '']'' # r) = ?rest @ newline st m @ CHR '']'' # r"
    by (cases js) simp_all
  moreover have "scan_value k' (json_dumps st n j @ CHR '','' # item_break st n @ ?rest @ newline st m @ CHR '']'' # r)
      = Inr (normal j, CHR '','' # item_break st n @ ?rest @ newline st m @ CHR '']'' # r)"
    using 3 k by (simp add: reads_back_def)
  ultimately show ?case by (subst k, subst scan_items.simps) (simp add: skip_white)
qed simp

definition member_text :: "json_style \<Rightarrow> nat \<Rightarrow> string \<times> json \<Rightarrow> string" where
  "member_text st n kv = json_string (fst kv) @ '':'' @ key_break st @ json_dumps st n (snd kv)"

lemma scan_members_step:
  assumes "reads_back st v" and "ends_number r" and "2 * length (member_text st n (key, v)) < k"
  shows "scan_members (Suc k) (member_text st n (key, v) @ r) =
    (case skip r of
       [] \<Rightarrow> Inl JSONDecodeError
     | c # u \<Rightarrow>
         if c = CHR ''}'' then Inr ([(key, normal v)], u)
         else if c = CHR '','' then map_sum id (\<lambda>(kvs, w). ((key, normal v) # kvs, w)) (scan_members k (skip u))
         else Inl JSONDecodeError)"
proof -
  let ?t = "'':'' @ key_break st @ json_dumps st n v @ r"
  have lit: "member_text st n (key, v) @ r = CHR 34 # concat (map escape_char key) @ CHR 34 # ?t"
    by (simp add: member_text_def json_string_def)
  have v: "scan_value k (json_dumps st n v @ r) = Inr (normal v, r)"
    using assms by (simp add: reads_back_def member_text_def)
  show ?thesis
    unfolding lit
    by (subst scan_members.simps)
      (simp add: scan_string_chars v skip_white points_of_chars del: map_map split: list.split)
qed

lemma skip_member: "skip (member_text st n kv @ r) = member_text st n kv @ r"
  by (simp add: member_text_def json_string_def skip_def)

lemma scan_members_written:
  assumes "\<And>v. v \<in> snd ` set kvs \<Longrightarrow> reads_back st v" and "kvs \<noteq> []"
    and "2 * length (join ('','' @ item_break st n) (map (member_text st n) kvs)) + 1 < k"
  shows "scan_members k (join ('','' @ item_break st n) (map (member_text st n) kvs) @ newline st m @ CHR ''}'' # r)
    = Inr (map (\<lambda>(k, v). (k, normal v)) kvs, r)"
  using assms
proof (induction kvs arbitrary: k rule: induct_list012)
  case (2 kv)
  then obtain k' where k: "k = Suc k'" by (cases k) auto
  show ?case
    using 2 k scan_members_step [of st "snd kv" "newline st m @ CHR ''}'' # r" n "fst kv" k']
    by (simp add: split_beta)
next
  case (3 kv kv' kvs)
  then obtain k' where k: "k = Suc k'" by (cases k) auto
  let ?rest = "join ('','' @ item_break st n) (map (member_text st n) (kv' # kvs))"
  have "scan_members k' (?rest @ newline st m @ CHR ''}'' # r) = Inr (map (\<lambda>(k, v). (k, normal v)) (kv' # kvs), r)"
    by (rule "3.IH") (use 3 k in auto)
  moreover have "skip (?rest @ newline st m @ CHR ''}'' # r) = ?rest @ newline st m @ CHR ''}'' # r"
    by (cases kvs) (simp_all add: skip_member)
  ultimately show ?case
    using 3 k scan_members_step [of st "snd kv" "CHR '','' # item_break st n @ ?rest @ newline st m @ CHR ''}'' # r" n "fst kv" k']
    by (simp add: skip_white split_beta)
qed simp

text \<open>Any document, under any style, in front of any rest.\<close>

lemma scan_quoted:
  assumes "scan_string (body @ CHR 34 # r) = Inr (ns, r)"
  shows "scan_value (Suc k) ([CHR 34] @ body @ [CHR 34] @ r) = Inr (text_of_points ns, r)"
  using assms by (subst scan_value.simps) simp

lemma text_of_chars: "text_of_points (map of_char s) = JStr s"
  using points_of_chars [of s] by (simp add: text_of_points_def del: map_map)

lemma scan_as_number:
  assumes "s = (if neg then CHR ''-'' # d # u else d # u)" and "is_digit d"
  shows "scan_value (Suc k) s = scan_number s"
proof -
  have "d \<notin> {CHR 34, CHR ''{'', CHR ''['', CHR ''n'', CHR ''t'', CHR ''f'', CHR ''N'', CHR ''I'', CHR ''-''}"
    using assms(2) by (auto simp: is_digit_def less_eq_char_def)
  then show ?thesis
    by (cases neg) (subst scan_value.simps, simp add: assms(1) literal_at_def)+
qed

text \<open>Signs apart, a number's text starts with a digit.\<close>

lemma digit_first:
  "\<exists>d u. is_digit d \<and> nat_text n @ r = d # u"
  "list_all is_digit ds \<Longrightarrow> ds \<noteq> [] \<Longrightarrow> \<exists>d u. is_digit d \<and> layout ds point @ r = d # u"
proof -
  show "\<exists>d u. is_digit d \<and> nat_text n @ r = d # u" using nat_text_facts [of n] by (cases "nat_text n") auto
  assume "list_all is_digit ds" "ds \<noteq> []"
  then show "\<exists>d u. is_digit d \<and> layout ds point @ r = d # u" by (cases ds) (auto simp: layout_def Let_def take_Cons')
qed

lemma scan_value_number:
  "scan_value (Suc k) (int_text i @ r) = scan_number (int_text i @ r)"
  "scan_value (Suc k) (float_repr x @ r) = scan_number (float_repr x @ r)"
proof -
  obtain d u where "is_digit d" "nat_text (nat \<bar>i\<bar>) @ r = d # u" using digit_first(1) by blast
  then show "scan_value (Suc k) (int_text i @ r) = scan_number (int_text i @ r)"
    by (intro scan_as_number [where neg = "i < 0"]) (auto simp: int_text_def)
  obtain c s where "shortest \<bar>x\<bar> = (c, s)" by force
  moreover obtain d' u' where "is_digit d'" "layout (nat_text c) (int (length (nat_text c)) + s) @ r = d' # u'"
    using digit_first(2) nat_text_facts by blast
  ultimately have "x \<noteq> 0 \<Longrightarrow> float_repr x @ r = (if x < 0 then CHR ''-'' # d' # u' else d' # u') \<and> is_digit d'"
    by (cases "x < 0") (auto simp: float_repr_def float_repr_pos_def Let_def)
  moreover have "float_repr 0 @ r = (if False then [] else CHR ''0'' # ''.0'' @ r)" by (simp add: float_repr_def)
  ultimately show "scan_value (Suc k) (float_repr x @ r) = scan_number (float_repr x @ r)"
    using scan_as_number [of _ False "CHR ''0''" "''.0'' @ r"] by (cases "x = 0") (auto intro: scan_as_number)
qed

lemma json_reads_back: "readable j \<Longrightarrow> reads_back st j"
proof (induction j)
  case (JList js)
  then have js: "\<And>j. j \<in> set js \<Longrightarrow> reads_back st j" by (auto simp: list_all_iff)
  have "scan_value (Suc k) (json_dumps st n (JList js) @ r) = Inr (normal (JList js), r)"
    if fuel: "2 * length (json_dumps st n (JList js)) < Suc k" for n k r
  proof (cases "js = []")
    case True
    then show ?thesis by (subst scan_value.simps) (simp add: skip_def)
  next
    case False
    let ?body = "join ('','' @ item_break st (Suc n)) (map (json_dumps st (Suc n)) js)"
    let ?t = "?body @ newline st n @ CHR '']'' # r"
    have i: "scan_items k ?t = Inr (map normal js, r)"
      by (rule scan_items_written [OF js False]) (use fuel False in simp_all)
    obtain j js' where js': "js = j # js'" using False by (cases js) auto
    have body: "starts_value ?body" using starts_dumps [of st "Suc n" j] by (cases js') (auto simp: js' starts_value_def)
    then have "skip ?t = ?t" "take 1 ?t \<noteq> '']''"
      using starts_value_skip starts_value_open by blast+
    then have "scan_value (Suc k) (CHR ''['' # newline st (Suc n) @ ?t) = Inr (JList (map normal js), r)"
      using i by (subst scan_value.simps) (simp add: skip_white)
    then show ?thesis using False by simp
  qed
  then show ?case by (rule reads_backI)
next
  case (JObj kvs)
  let ?kvs = "sort_key fst kvs"
  have vs: "\<And>v. v \<in> snd ` set ?kvs \<Longrightarrow> reads_back st v" using JObj by (fastforce simp: list_all_iff)
  have "distinct (map fst ?kvs)"
    using JObj.prems by (metis readable.simps(5) distinct_map distinct_sort inj_on_def set_sort)
  then have dict: "dict_of (map (\<lambda>(k, v). (k, normal v)) ?kvs) = map (\<lambda>(k, v). (k, normal v)) ?kvs"
    by (intro dict_of_distinct) (simp add: case_prod_unfold comp_def)
  have nf: "normal (JObj kvs) = JObj (map (\<lambda>(k, v). (k, normal v)) ?kvs)" by (simp add: sort_key_map_snd)
  have "scan_value (Suc k) (json_dumps st n (JObj kvs) @ r) = Inr (normal (JObj kvs), r)"
    if fuel: "2 * length (json_dumps st n (JObj kvs)) < Suc k" for n k r
  proof (cases "kvs = []")
    case True
    then show ?thesis by (subst scan_value.simps) (simp add: skip_def)
  next
    case False
    let ?body = "join ('','' @ item_break st (Suc n)) (map (member_text st (Suc n)) ?kvs)"
    let ?t = "?body @ newline st n @ CHR ''}'' # r"
    have written: "json_dumps st n (JObj kvs) = ''{'' @ newline st (Suc n) @ ?body @ newline st n @ ''}''"
      using False by (simp add: sort_key_map_snd) (simp add: member_text_def [abs_def] case_prod_unfold comp_def)
    have ne: "?kvs \<noteq> []" using False by (metis set_empty set_sort)
    have m: "scan_members k ?t = Inr (map (\<lambda>(k, v). (k, normal v)) ?kvs, r)"
      by (rule scan_members_written [OF vs ne]) (use fuel [unfolded written] in simp_all)
    obtain kv kvs' where kvs': "?kvs = kv # kvs'" using ne by (cases ?kvs) auto
    have body: "starts_value ?body" by (cases kvs') (auto simp: kvs' member_text_def json_string_def starts_Cons)
    then have "skip ?t = ?t" "take 1 ?t \<noteq> ''}''"
      using starts_value_skip starts_value_open by blast+
    then have "scan_value (Suc k) (CHR ''{'' # newline st (Suc n) @ ?t) = Inr (normal (JObj kvs), r)"
      using m dict nf by (subst scan_value.simps) (simp add: skip_white)
    then show ?thesis unfolding written by (simp del: normal.simps)
  qed
  then show ?case by (rule reads_backI)
next
  case (JUni ns)
  then have "list_all scalar_point ns" by simp
  from scan_quoted [OF scan_string_points [OF this]] show ?case by (intro reads_backI) simp
next
  case (JStr s)
  show ?case using scan_quoted [OF scan_string_chars] by (intro reads_backI) (simp add: json_string_def text_of_chars)
next
  case (JTime d)
  show ?case using scan_quoted [OF scan_string_chars] by (intro reads_backI) (simp add: json_string_def text_of_chars)
next
  case (JInt i)
  then show ?case by (intro reads_backI) (simp add: scan_value_number scan_number_int)
next
  case (JFloat x)
  then show ?case by (intro reads_backI) (simp add: scan_value_number scan_number_float)
qed (rule reads_backI, subst scan_value.simps, simp add: literal_at_def)+

text \<open>A written file is read back as the normal form of the document, whatever blank it ends with.\<close>

lemma loads_dumps:
  assumes "readable j" and "white s"
  shows "json_loads (json_dumps st n j @ s) = Inr (normal j)"
proof -
  have s: "skip s = []" using skip_white [OF assms(2), of "[]"] by (simp add: skip_def)
  have "ends_number s" using assms(2) by (cases s) (auto simp: white_def ends_number_def)
  then have "scan_value (2 * length (json_dumps st n j @ s) + 1) (json_dumps st n j @ s) = Inr (normal j, s)"
    using json_reads_back [OF assms(1), of st] unfolding reads_back_def by simp
  then show ?thesis by (simp only: json_loads_def skip_to_value) (simp add: s)
qed

text \<open>The normal form is one, and writing does not see the difference.\<close>

lemma escape_char_point: "n < 256 \<Longrightarrow> escape_char (char_of n) = escape_point n"
proof -
  assume "n < 256"
  then have "c = char_of n \<Longrightarrow> of_char c = n" for c :: char by simp
  from this [OF refl] show ?thesis by (auto simp: escape_point_def escape_char_def dest: arg_cong [of _ _ "of_char :: char \<Rightarrow> nat"])
qed

lemma json_dumps_normal: "json_dumps st n (normal j) = json_dumps st n j"
proof (induction j arbitrary: n)
  case (JUni ns)
  have "list_all (\<lambda>n. n < 256) ns \<Longrightarrow> map (escape_char \<circ> char_of) ns = map escape_point ns"
    by (simp add: list_all_iff escape_char_point)
  then have "list_all (\<lambda>n. n < 256) ns \<Longrightarrow> concat (map (escape_char \<circ> char_of) ns) = concat (map escape_point ns)"
    by (rule arg_cong)
  then show ?case by (simp add: text_of_points_def json_string_def)
next
  case (JList js)
  then have "map (json_dumps st (Suc n) \<circ> normal) js = map (json_dumps st (Suc n)) js" by simp
  then have "join sep (map (json_dumps st (Suc n)) (map normal js)) = join sep (map (json_dumps st (Suc n)) js)" for sep
    by (simp only: map_map)
  then show ?case by (simp del: map_map)
next
  case (JObj kvs)
  let ?texts = "\<lambda>kvs. map (\<lambda>(k, v). (k, json_dumps st (Suc n) v)) kvs" and ?normal = "map (\<lambda>(k, v). (k, normal v)) kvs"
  have "json_dumps st (Suc n) (normal v) = json_dumps st (Suc n) v" if "(k, v) \<in> set kvs" for k v
    using JObj [OF that] by simp
  then have same: "?texts ?normal = ?texts kvs" by auto
  have "sort_key fst (?texts (sort_key fst ?normal)) = ?texts (sort_key fst (sort_key fst ?normal))"
    by (rule sort_key_map_snd)
  also have "\<dots> = ?texts (sort_key fst ?normal)" by (simp only: sort_key_id_if_sorted sorted_sort_key)
  also have "\<dots> = sort_key fst (?texts ?normal)" by (rule sort_key_map_snd [symmetric])
  finally have "sort_key fst (?texts (sort_key fst ?normal)) = sort_key fst (?texts kvs)" by (simp only: same)
  moreover have "sort_key fst (map (\<lambda>(k, v). (k, normal v)) kvs) = [] \<longleftrightarrow> kvs = []"
    by (metis length_0_conv length_map length_sort)
  ultimately show ?case by simp
qed simp_all

lemma canonical_json_normal: "canonical_json (normal j) = canonical_json j"
  by (simp add: canonical_json_dumps [of _ 0] json_dumps_normal)

text \<open>C35. The text that is hashed determines the document and nothing else: two documents have the same
  canonical text exactly when they are the same up to the order of keys (and the datatype's
  spellings of one text). Equal content hashes are therefore equal contents, collisions of SHA-256 apart.
\<close>

theorem canonical_json_faithful:
  assumes "readable j" and "readable j'"
  shows "canonical_json j = canonical_json j' \<longleftrightarrow> normal j = normal j'"
proof
  assume "canonical_json j = canonical_json j'"
  then have "json_dumps Compact 0 j @ [] = json_dumps Compact 0 j' @ []" by (simp add: canonical_json_dumps [of _ 0])
  then have "json_loads (json_dumps Compact 0 j @ []) = json_loads (json_dumps Compact 0 j' @ [])" by (rule arg_cong)
  then show "normal j = normal j'" by (simp only: loads_dumps [OF assms(1)] loads_dumps [OF assms(2)] white_layout sum.inject)
next
  assume "normal j = normal j'"
  then show "canonical_json j = canonical_json j'" by (metis canonical_json_normal)
qed

lemma short_number: "n < 10 ^ Suc k \<Longrightarrow> length (nat_text n) \<le> Suc k"
proof (induction k arbitrary: n)
  case 0
  then show ?case by (subst nat_text.simps) simp
next
  case (Suc k)
  then have "length (nat_text (n div 10)) \<le> Suc k" by (intro Suc.IH) (simp add: less_mult_imp_div_less)
  then show ?case by (subst nat_text.simps) simp
qed

lemma small_digits: "length (nat_text 0) \<le> 4300" "length (nat_text (Suc 0)) \<le> 4300"
  using short_number [of 0 0] short_number [of "Suc 0" 0] by simp_all

theorem canonical_json_faithful_witness:
  "canonical_json (JObj [(''b'', JInt 1), (''a'', JList [JNull])]) = canonical_json (JObj [(''a'', JList [JNull]), (''b'', JInt 1)])
   \<and> canonical_json (JObj [(''b'', JInt 1)]) \<noteq> canonical_json (JObj [(''b'', JInt 0)])"
proof
  have "normal (JObj [(''b'', JInt 1), (''a'', JList [JNull])]) = normal (JObj [(''a'', JList [JNull]), (''b'', JInt 1)])"
    by code_simp
  then show "canonical_json (JObj [(''b'', JInt 1), (''a'', JList [JNull])]) = canonical_json (JObj [(''a'', JList [JNull]), (''b'', JInt 1)])"
    by (subst canonical_json_faithful) (simp_all only: readable.simps, simp_all add: small_digits)
  show "canonical_json (JObj [(''b'', JInt 1)]) \<noteq> canonical_json (JObj [(''b'', JInt 0)])"
    by (subst canonical_json_faithful) (simp_all add: small_digits)
qed

end
