(* ===== verification/ReportFiles.thy ===== *)
theory ReportFiles
  imports JsonRoundTrip ReportProperties
begin

section \<open>Reports as files (\<^verbatim>\<open>shadow/report.py\<close>, \<^verbatim>\<open>alerting/report.py\<close>, \<^verbatim>\<open>shadow/collection.py\<close>)\<close>

text \<open>
  The JSON and Markdown files the three reports are written to, and the JSON files the code reads.
  A file is its text, a list of code points (the Markdown has em dashes), and the file system a map
  from paths. The operating system is a parameter, \<open>opens\<close>: the error it answers to making a directory or opening
  a file for writing at a path, if any (a path in a missing directory, one with a zero byte, a name that is too
  long). \<open>None\<close> where JSON is read: the text decodes to something the documents cannot hold (\<open>Outside\<close>).
\<close>

subsection \<open>Texts of code points\<close>

type_synonym points = "nat list"
type_synonym files = "string \<Rightarrow> points option"

definition points_of :: "string \<Rightarrow> points" where
  "points_of s = map of_char s"

definition utf8_point :: "nat \<Rightarrow> byte list" where
  "utf8_point n =
     (if n < 128 then [word_of_nat n]
      else if n < 2048 then [word_of_nat (192 + n div 64), word_of_nat (128 + n mod 64)]
      else if n < 65536 then
        [word_of_nat (224 + n div 4096), word_of_nat (128 + n div 64 mod 64), word_of_nat (128 + n mod 64)]
      else [word_of_nat (240 + n div 262144), word_of_nat (128 + n div 4096 mod 64),
            word_of_nat (128 + n div 64 mod 64), word_of_nat (128 + n mod 64)])"

definition file_sha256 :: "points \<Rightarrow> string" where
  "file_sha256 ns = sha256_hex (concat (map utf8_point ns))"

lemma file_sha256_text: "file_sha256 (points_of s) = sha256_text s"
proof -
  have "utf8_point (of_char c) = utf8_char c" for c :: char
  proof -
    have "(of_char c :: nat) < 2048" using of_char_small [of c] by linarith
    then show ?thesis by (simp only: utf8_point_def utf8_char_def Let_def if_True)
  qed
  then show ?thesis by (simp add: file_sha256_def points_of_def sha256_text_def utf8_def comp_def)
qed

text \<open>The text of a file as the decoder takes it: of 8-bit characters only.\<close>

definition text_of_file :: "points \<Rightarrow> string option" where
  "text_of_file ns = (if list_all (\<lambda>n. n < 256) ns then Some (map char_of ns) else None)"

lemma text_of_file_points [simp]: "text_of_file (points_of s) = Some s"
  using points_of_chars [of s] by (simp add: text_of_file_def points_of_def del: map_map)

text \<open>\<^verbatim>\<open>json.loads(path.read_text())\<close>; the messages of the decoder are not modelled.\<close>

definition parse_file :: "points \<Rightarrow> json_error + json" where
  "parse_file ns = (case text_of_file ns of None \<Rightarrow> Inl Outside | Some t \<Rightarrow> json_loads t)"

definition loads_file :: "points \<Rightarrow> json result option" where
  "loads_file ns =
     (case parse_file ns of
        Inr j \<Rightarrow> Some (Inr j)
      | Inl JSONDecodeError \<Rightarrow> Some (Inl (ValueError ''not valid JSON''))
      | Inl DigitLimit \<Rightarrow> Some (Inl (ValueError ''Exceeds the limit (4300 digits) for integer string conversion''))
      | Inl _ \<Rightarrow> None)"

text \<open>\<^verbatim>\<open>json.dumps(value, indent=2, sort_keys=True) + "\n"\<close>.\<close>

definition json_file :: "json \<Rightarrow> points" where
  "json_file j = points_of (json_dumps (Indented 2) 0 j @ [CHR 10])"

lemma parse_json_file: "readable j \<Longrightarrow> parse_file (json_file j) = Inr (normal j)"
  by (simp add: parse_file_def json_file_def loads_dumps white_def)

lemma loads_json_file: "readable j \<Longrightarrow> loads_file (json_file j) = Some (Inr (normal j))"
  by (simp add: loads_file_def parse_json_file)

definition load_alert_file :: "points \<Rightarrow> LoadedAlertSource result option" where
  "load_alert_file ns =
     map_option (\<lambda>r. and_then r (\<lambda>j. load_shadow_alert_source j (file_sha256 ns))) (loads_file ns)"

subsection \<open>Markdown\<close>

text \<open>
  A line is a row of pieces: a text of the source, the value at a path of the report as
  \<^verbatim>\<open>str()\<close> gives it, that text in lower case, the value with three decimals, or its JSON.
\<close>

datatype piece = Lit string | Dash | Value "string list" | Lowered "string list" | Fixed3 "string list" | Dumped "string list"

fun at_path :: "string list \<Rightarrow> json \<Rightarrow> json result" where
  "at_path [] j = Inr j"
| "at_path (k # ks) j =
     (case j of
        JObj kvs \<Rightarrow> (case map_of kvs k of None \<Rightarrow> Inl (KeyError (repr_text k)) | Some v \<Rightarrow> at_path ks v)
      | _ \<Rightarrow> Inl (TypeError ''indices must be integers or slices, not str''))"

definition py_points :: "json \<Rightarrow> points" where
  "py_points j = (case j of JUni ns \<Rightarrow> ns | _ \<Rightarrow> points_of (py_str j))"

text \<open>\<^verbatim>\<open>f"{x:.3f}"\<close>: the exact value of the float, rounded half to even.\<close>

definition fixed3 :: "rat \<Rightarrow> string" where
  "fixed3 x =
     (let n = nat (round_half_even (\<bar>x\<bar> * 1000))
      in (if x < 0 then ''-'' else []) @ nat_text (n div 1000) @ ''.'' @ padded 3 (n mod 1000))"

definition fixed3_of :: "json \<Rightarrow> points result" where
  "fixed3_of j =
     (case j of
        JFloat x \<Rightarrow> Inr (points_of (fixed3 x))
      | JInt i \<Rightarrow> Inr (points_of (fixed3 (of_int i)))
      | JBool b \<Rightarrow> Inr (points_of (fixed3 (if b then 1 else 0)))
      | JStr s \<Rightarrow> Inl (ValueError (''Unknown format code 'f' for object of type '' @ repr_text ''str''))
      | JUni ns \<Rightarrow> Inl (ValueError (''Unknown format code 'f' for object of type '' @ repr_text ''str''))
      | _ \<Rightarrow> Inl (TypeError ''unsupported format string passed to __format__''))"

fun piece_points :: "json \<Rightarrow> piece \<Rightarrow> points result" where
  "piece_points j (Lit s) = Inr (points_of s)"
| "piece_points j Dash = Inr [8212]"
| "piece_points j (Value p) = and_then (at_path p j) (\<lambda>v. Inr (py_points v))"
| "piece_points j (Lowered p) = and_then (at_path p j) (\<lambda>v. Inr (points_of (lower (py_str v))))"
| "piece_points j (Fixed3 p) = and_then (at_path p j) fixed3_of"
| "piece_points j (Dumped p) = and_then (at_path p j) (\<lambda>v. Inr (points_of (json_dumps Spaced 0 v)))"

fun row :: "json \<Rightarrow> piece list \<Rightarrow> points result" where
  "row j [] = Inr []"
| "row j (x # xs) = and_then (piece_points j x) (\<lambda>a. and_then (row j xs) (\<lambda>b. Inr (a @ b)))"

fun rows :: "(json \<times> piece list) list \<Rightarrow> points list result" where
  "rows [] = Inr []"
| "rows ((j, ps) # rest) = and_then (row j ps) (\<lambda>a. and_then (rows rest) (\<lambda>b. Inr (a # b)))"

definition members_of :: "json \<Rightarrow> (string \<times> json) list result" where
  "members_of j = (case j of JObj kvs \<Rightarrow> Inr kvs | _ \<Rightarrow> Inl (AttributeError (''object has no attribute '' @ repr_text ''items'')))"

text \<open>What a \<^verbatim>\<open>for\<close> goes through: elements, keys, characters.\<close>

definition elements_of :: "json \<Rightarrow> json list result" where
  "elements_of j =
     (case j of
        JList js \<Rightarrow> Inr js | JObj kvs \<Rightarrow> Inr (map (JStr \<circ> fst) kvs)
      | JStr s \<Rightarrow> Inr (map (\<lambda>c. JStr [c]) s) | JUni ns \<Rightarrow> Inr (map (\<lambda>n. JUni [n]) ns)
      | _ \<Rightarrow> Inl (TypeError ''object is not iterable''))"

text \<open>The \<^verbatim>\<open>key: value\<close> lines of a dictionary, in its order, and one line per element.\<close>

definition status_rows :: "(string \<times> json) list \<Rightarrow> (json \<times> piece list) list" where
  "status_rows kvs = map (\<lambda>(k, v). (v, [Lit (''- '' @ k @ '': ''), Value []])) kvs"

definition bullet_rows :: "json list \<Rightarrow> (json \<times> piece list) list" where
  "bullet_rows js = map (\<lambda>v. (v, [Lit ''- '', Value []])) js"

fun join_lines :: "points list \<Rightarrow> points" where
  "join_lines [] = []"
| "join_lines [l] = l"
| "join_lines (l # m # ls) = l @ [10] @ join_lines (m # ls)"

definition page :: "(json \<times> piece list) list \<Rightarrow> points result" where
  "page ls = and_then (rows ls) (\<lambda>ps. Inr (join_lines ps))"

definition empty_line :: "json \<times> piece list" where "empty_line = (JNull, [])"

definition spaced_out :: "json \<Rightarrow> piece list list \<Rightarrow> (json \<times> piece list) list" where
  "spaced_out j pss = concat (map (\<lambda>ps. [(j, ps), empty_line]) pss)"

definition fields_in :: "string list \<Rightarrow> json \<Rightarrow> unit result" where
  "fields_in ks j = foldr (\<lambda>k r. and_then (at_path [k] j) (\<lambda>_. r)) ks (Inr ())"

definition quoted :: "string \<Rightarrow> string list \<Rightarrow> piece list" where
  "quoted label p = [Lit (''- '' @ label @ '': `''), Value p, Lit ''`'']"

subsection \<open>The pilot's report\<close>

definition pilot_lines :: "json \<Rightarrow> (json \<times> piece list) list" where
  "pilot_lines j =
     spaced_out j
       [[Lit ''# M2 SHADOW FOUNDATION '', Dash, Lit '' SIMULATED ENGINEERING REHEARSAL''],
        [Lit ''Exact Git SHA: `'', Value [''exact_git_sha''], Lit ''`''],
        [Lit ''Generated at: `'', Value [''generated_at''], Lit ''`''],
        [Lit ''Evidence label: **'', Value [''evidence_label''], Lit ''**''],
        [Value [''claim_boundary'']], [Lit ''## Case pack and controls'']]
     @ map (Pair j)
       [quoted ''Version'' [''case_pack'', ''version''],
        quoted ''Cases SHA-256'' [''case_pack'', ''cases_sha256''],
        quoted ''Manifest SHA-256'' [''case_pack'', ''manifest_sha256''],
        quoted ''Case count'' [''case_pack'', ''case_count''],
        quoted ''Baseline source'' [''case_pack'', ''baseline_source''],
        quoted ''Provider'' [''controls'', ''provider''],
        [Lit ''- Execute: `'', Lowered [''controls'', ''execute''], Lit ''`''],
        quoted ''External action count'' [''controls'', ''external_action_count''],
        quoted ''OpenAI calls'' [''controls'', ''openai_calls'', ''count'']
          @ [Lit '' ('', Value [''controls'', ''openai_calls'', ''label''], Lit '')''],
        quoted ''AWS resources used'' [''controls'', ''aws_resources_used'', ''count'']
          @ [Lit '' ('', Value [''controls'', ''aws_resources_used'', ''label''], Lit '')'']]
     @ [empty_line, (j, [Lit ''## Deterministic diff metrics'']), empty_line]
     @ map (Pair j)
       [quoted ''Exact agreements'' [''metrics'', ''exact_agreements''],
        quoted ''Partial agreements'' [''metrics'', ''partial_agreements''],
        quoted ''Disagreements'' [''metrics'', ''disagreements''],
        quoted ''Escalation agreements'' [''metrics'', ''escalation_agreements''],
        [Lit ''- Citation coverage: `'', Fixed3 [''metrics'', ''citation_coverage''], Lit ''`''],
        quoted ''Unsupported claim count'' [''metrics'', ''unsupported_claim_count''],
        quoted ''Missing required evidence count'' [''metrics'', ''missing_required_evidence_count''],
        [Lit ''- Disagreement categories: `'', Dumped [''metrics'', ''disagreement_categories''], Lit ''`'']]
     @ [empty_line, (j, [Lit ''## Test evidence'']), empty_line, (j, [Value [''test_evidence'']]), empty_line,
        (j, [Lit ''## Limitations'']), empty_line]"

definition render_markdown :: "json \<Rightarrow> points result" where
  "render_markdown report =
     and_then (fields_in [''case_pack'', ''controls'', ''metrics'', ''m2_status'', ''limitations''] report) (\<lambda>_.
     and_then (at_path [''limitations''] report) (\<lambda>ls. and_then (at_path [''m2_status''] report) (\<lambda>st.
     and_then (rows (pilot_lines report)) (\<lambda>top.
     and_then (elements_of ls) (\<lambda>limits. and_then (members_of st) (\<lambda>status.
     and_then (rows (bullet_rows limits @ [empty_line, (report, [Lit ''## M2 status'']), empty_line] @ status_rows status @ [empty_line])) (\<lambda>rest.
       Inr (join_lines (top @ rest)))))))))"

record WrittenReports =
  aggregate_json :: string
  aggregate_markdown :: string
  per_case_directory :: string
  aggregate_json_sha256 :: string
  aggregate_markdown_sha256 :: string

type_synonym os_answers = "string \<Rightarrow> exn option"

text \<open>\<^verbatim>\<open>path.write_text\<close> and \<^verbatim>\<open>mkdir(parents=True, exist_ok=True)\<close>: a path that cannot be opened leaves no file.\<close>

definition write_file :: "os_answers \<Rightarrow> string \<Rightarrow> points \<Rightarrow> (files, unit) comp" where
  "write_file opens name ns fs =
     (case opens name of Some e \<Rightarrow> (Inl e, fs) | None \<Rightarrow> (Inr (), fs(name \<mapsto> ns)))"

definition make_directory :: "os_answers \<Rightarrow> string \<Rightarrow> (files, unit) comp" where
  "make_directory opens dir fs = (case opens dir of Some e \<Rightarrow> (Inl e, fs) | None \<Rightarrow> (Inr (), fs))"

text \<open>
  The name of a case's file is made of its identity as it is: nothing of the contracts keeps a slash out of it, and
  then \<open>opens\<close> answers for a path in another directory.
\<close>

definition case_path :: "string \<Rightarrow> json \<Rightarrow> json \<Rightarrow> string" where
  "case_path dir cid ver = dir @ ''/'' @ py_str cid @ ''-'' @ py_str ver @ ''.json''"

fun write_cases :: "os_answers \<Rightarrow> string \<Rightarrow> json list \<Rightarrow> (files, unit) comp" where
  "write_cases opens dir [] = returnE ()"
| "write_cases opens dir (item # rest) =
     bindE (liftE (at_path [''result'', ''case_id''] item)) (\<lambda>cid.
     bindE (liftE (at_path [''result'', ''case_version''] item)) (\<lambda>ver.
     bindE (write_file opens (case_path dir cid ver) (json_file item)) (\<lambda>_.
       write_cases opens dir rest)))"

definition write_reports :: "os_answers \<Rightarrow> json \<Rightarrow> string \<Rightarrow> (files, WrittenReports) comp" where
  "write_reports opens report dir =
     (let case_dir = dir @ ''/m2-shadow-foundation-cases'';
          json_path = dir @ ''/m2-shadow-foundation-pilot.json''; md_path = dir @ ''/m2-shadow-foundation-pilot.md''
      in bindE (make_directory opens dir) (\<lambda>_.
         bindE (make_directory opens case_dir) (\<lambda>_.
         bindE (liftE (and_then (at_path [''cases''] report) elements_of)) (\<lambda>cases.
         bindE (write_cases opens case_dir cases) (\<lambda>_.
         bindE (write_file opens json_path (json_file report)) (\<lambda>_.
         bindE (liftE (render_markdown report)) (\<lambda>md.
         bindE (write_file opens md_path md) (\<lambda>_. returnE
           \<lparr>aggregate_json = json_path, aggregate_markdown = md_path, per_case_directory = case_dir,
            aggregate_json_sha256 = file_sha256 (json_file report), aggregate_markdown_sha256 = file_sha256 md\<rparr>))))))))"

subsection \<open>The alerts' report\<close>

definition alert_lines :: "json \<Rightarrow> (json \<times> piece list) list" where
  "alert_lines j =
     spaced_out j
       [[Lit ''# '', Value [''title'']],
        [Lit ''Exact Git SHA: `'', Value [''exact_git_sha''], Lit ''`''],
        [Lit ''Generated at: `'', Value [''generated_at''], Lit ''`''],
        [Lit ''Evidence label: **'', Value [''evidence_label''], Lit ''**''],
        [Value [''claim_boundary'']], [Lit ''## Source and controls'']]
     @ map (Pair j)
       [quoted ''Shadow report SHA-256'' [''source'', ''shadow_report_sha256''],
        quoted ''Case pack'' [''source'', ''case_pack_version''],
        [Lit ''- Execute: `'', Lowered [''controls'', ''execute''], Lit ''`''],
        quoted ''External action count'' [''controls'', ''external_action_count''],
        quoted ''External alert delivery count'' [''controls'', ''external_alert_delivery_count''],
        [Lit ''- Live SLO evidence eligible: `'', Lowered [''controls'', ''live_slo_evidence_eligible''], Lit ''`'']]
     @ [empty_line, (j, [Lit ''## Evaluation summary'']), empty_line]
     @ map (Pair j)
       [quoted ''Evaluation count'' [''summary'', ''evaluation_count''],
        quoted ''Idempotent replays'' [''summary'', ''idempotent_replay_count''],
        [Lit ''- States: `'', Dumped [''summary'', ''state_counts''], Lit ''`''],
        [Lit ''- Measurement statuses: `'', Dumped [''summary'', ''measurement_status_counts''], Lit ''`''],
        [Lit ''- Firing by severity: `'', Dumped [''summary'', ''firing_by_severity''], Lit ''`'']]
     @ [empty_line, (j, [Lit ''## Policies'']), empty_line]"

definition policy_pieces :: "piece list" where
  "policy_pieces =
     [Lit ''- `'', Value [''policy_id''], Lit ''`: '', Value [''severity''], Lit '', '', Value [''metric_name''],
      Lit '' > '', Value [''threshold_value''], Lit '' '', Dash, Lit '' **'', Value [''threshold_classification''],
      Lit ''**'']"

definition signal_pieces :: "piece list" where
  "signal_pieces =
     [Lit ''- `'', Value [''signal''], Lit ''` '', Dash, Lit '' **'', Value [''status''], Lit ''**: '', Value [''reason'']]"

definition heading_rows :: "string \<Rightarrow> (json \<times> piece list) list" where
  "heading_rows h = [empty_line, (JNull, [Lit h]), empty_line]"

definition listed :: "string list \<Rightarrow> json \<Rightarrow> json list result" where
  "listed p j = and_then (at_path p j) elements_of"

definition render_alert_markdown :: "json \<Rightarrow> points result" where
  "render_alert_markdown report =
     and_then (fields_in [''controls'', ''summary'', ''source''] report) (\<lambda>_.
     and_then (rows (alert_lines report)) (\<lambda>top.
     and_then (listed [''policies''] report) (\<lambda>ps. and_then (rows (map (\<lambda>p. (p, policy_pieces)) ps)) (\<lambda>l1.
     and_then (listed [''unwired_unmeasured_future_signals''] report) (\<lambda>us.
     and_then (rows (heading_rows ''## Unwired / unmeasured / future signals'' @ map (\<lambda>u. (u, signal_pieces)) us)) (\<lambda>l2.
     and_then (listed [''limitations''] report) (\<lambda>ls.
     and_then (rows (heading_rows ''## Limitations'' @ bullet_rows ls)) (\<lambda>l3.
     and_then (and_then (at_path [''m2_status''] report) members_of) (\<lambda>st.
     and_then (rows (heading_rows ''## M2 status'' @ status_rows st @ [empty_line])) (\<lambda>l4.
       Inr (join_lines (top @ l1 @ l2 @ l3 @ l4))))))))))))"

record WrittenAlertReports =
  json_path :: string
  markdown_path :: string
  json_sha256 :: string
  markdown_sha256 :: string

definition write_alert_reports :: "os_answers \<Rightarrow> json \<Rightarrow> string \<Rightarrow> (files, WrittenAlertReports) comp" where
  "write_alert_reports opens report dir =
     (let json_at = dir @ ''/m2-slo-alert-foundation.json''; md_at = dir @ ''/m2-slo-alert-foundation.md''
      in bindE (make_directory opens dir) (\<lambda>_.
         bindE (write_file opens json_at (json_file report)) (\<lambda>_.
         bindE (liftE (render_alert_markdown report)) (\<lambda>md.
         bindE (write_file opens md_at md) (\<lambda>_. returnE
           \<lparr>json_path = json_at, markdown_path = md_at,
            json_sha256 = file_sha256 (json_file report), markdown_sha256 = file_sha256 md\<rparr>)))))"

subsection \<open>The readiness report\<close>

definition collection_lines :: "json \<Rightarrow> (json \<times> piece list) list" where
  "collection_lines j =
     spaced_out j
       [[Lit ''# '', Value [''title'']],
        [Lit ''Exact Git SHA: `'', Value [''exact_git_sha''], Lit ''`''],
        [Lit ''Generated at: `'', Value [''generated_at''], Lit ''`''],
        [Lit ''Evidence label: **'', Value [''evidence_label''], Lit ''**''],
        [Value [''claim_boundary'']], [Lit ''## Simulated versus genuine'']]
     @ map (Pair j)
       [quoted ''Simulated pack cases'' [''simulated'', ''case_count''],
        quoted ''Simulated pack SHA-256'' [''simulated'', ''cases_sha256''],
        quoted ''Genuine imported cases'' [''genuine_intake'', ''case_count''],
        quoted ''Genuine intake manifest SHA-256'' [''genuine_intake'', ''manifest_sha256''],
        quoted ''Official M2-05 eligible count'' [''official_m2_05'', ''eligible_count'']
          @ [Lit '' / `'', Value [''official_m2_05'', ''requirement''], Lit ''`''],
        [Lit ''- Official status: '', Value [''official_m2_05'', ''status'']]]
     @ [empty_line, (j, [Lit ''## Cumulative tracking'']), empty_line]
     @ map (Pair j)
       [[Lit ''- Provenance counts: `'', Dumped [''cumulative'', ''provenance_counts''], Lit ''`''],
        [Lit ''- Category distribution: `'', Dumped [''cumulative'', ''category_distribution''], Lit ''`''],
        quoted ''Analyst/reference coverage'' [''cumulative'', ''analyst_reference_coverage''],
        [Lit ''- Exclusion reasons: `'', Dumped [''cumulative'', ''exclusion_reasons''], Lit ''`''],
        quoted ''Invalid-case count'' [''cumulative'', ''invalid_case_count'']]
     @ [empty_line, (j, [Lit ''## M2 status'']), empty_line]"

definition render_collection_markdown :: "json \<Rightarrow> points result" where
  "render_collection_markdown report =
     and_then (fields_in [''official_m2_05'', ''simulated'', ''genuine_intake'', ''cumulative''] report) (\<lambda>_.
     and_then (rows (collection_lines report)) (\<lambda>top.
     and_then (and_then (at_path [''m2_status''] report) members_of) (\<lambda>st.
     and_then (rows (status_rows st @ [empty_line])) (\<lambda>rest. Inr (join_lines (top @ rest))))))"

definition write_collection_reports :: "os_answers \<Rightarrow> json \<Rightarrow> string \<Rightarrow> (files, json) comp" where
  "write_collection_reports opens report dir =
     (let json_at = dir @ ''/m2-first-100-readiness.json''; md_at = dir @ ''/m2-first-100-readiness.md''
      in bindE (make_directory opens dir) (\<lambda>_.
         bindE (write_file opens json_at (json_file report)) (\<lambda>_.
         bindE (liftE (render_collection_markdown report)) (\<lambda>md.
         bindE (write_file opens md_at md) (\<lambda>_.
         bindE (liftE (at_path [''genuine_intake'', ''manifest_sha256''] report)) (\<lambda>manifest.
         bindE (liftE (at_path [''report_sha256''] report)) (\<lambda>own. returnE (JObj
           [(''aggregate_json'', JStr json_at), (''aggregate_json_sha256'', JStr (file_sha256 (json_file report))),
            (''aggregate_markdown'', JStr md_at), (''aggregate_markdown_sha256'', JStr (file_sha256 md)),
            (''manifest_sha256'', manifest), (''report_sha256'', own)]))))))))"

end
