(* ===== verification/ReportTravel.thy ===== *)
theory ReportTravel
  imports ReportFiles
begin

section \<open>The report file travels\<close>

text \<open>
  The alerts read a shadow report from its file. What they load is what the pilot built, though the
  file spells the document differently: keys sorted, texts escaped, numbers in decimal.
\<close>

subsection \<open>Loading does not see the spelling\<close>

text \<open>A document without datetimes, and with the wide spelling only for texts that need it.\<close>

fun spelled :: "json \<Rightarrow> bool" where
  "spelled (JTime d) \<longleftrightarrow> False"
| "spelled (JUni ns) \<longleftrightarrow> \<not> list_all (\<lambda>n. n < 256) ns"
| "spelled (JList js) \<longleftrightarrow> list_all spelled js"
| "spelled (JObj kvs) \<longleftrightarrow> list_all (\<lambda>(k, v). spelled v) kvs"
| "spelled _ \<longleftrightarrow> True"

definition plain_member :: "string \<Rightarrow> json \<Rightarrow> bool" where
  "plain_member k j = (case field k j of Some (JList _) \<Rightarrow> False | Some (JObj _) \<Rightarrow> False | _ \<Rightarrow> True)"

definition clean :: "json \<Rightarrow> bool" where
  "clean j \<longleftrightarrow> readable j \<and> spelled j"

lemma clean_simps [simp]:
  "clean (JList js) \<longleftrightarrow> list_all clean js"
  "clean (JObj kvs) \<longleftrightarrow> distinct (map fst kvs) \<and> list_all (\<lambda>(k, v). clean v) kvs"
  by (auto simp: clean_def list_all_iff)

lemma clean_field: "clean j \<Longrightarrow> field k j = Some v \<Longrightarrow> clean v"
  by (cases j) (auto simp: list_all_iff dest: map_of_SomeD)

lemma map_of_sort: "distinct (map fst kvs) \<Longrightarrow> map_of (sort_key fst kvs) = map_of kvs"
  by (rule map_of_eqI) (auto simp: distinct_map inj_on_def map_of_eq_Some_iff)

lemma field_spelling: "clean j \<Longrightarrow> field k (normal j) = map_option normal (field k j)"
  by (cases j) (simp_all add: text_of_points_def sort_key_map_snd map_of_map map_of_sort)

lemma normal_scalar [simp]:
  "clean j \<Longrightarrow> normal j = JStr s \<longleftrightarrow> j = JStr s" "clean j \<Longrightarrow> normal j = JUni ns \<longleftrightarrow> j = JUni ns"
  "normal j = JBool b \<longleftrightarrow> j = JBool b"
  by (cases j; simp add: text_of_points_def clean_def)+

lemma field_scalar:
  "clean j \<Longrightarrow> field k (normal j) = Some (JStr s) \<longleftrightarrow> field k j = Some (JStr s)"
  "clean j \<Longrightarrow> field k (normal j) = Some (JUni ns) \<longleftrightarrow> field k j = Some (JUni ns)"
  "clean j \<Longrightarrow> field k (normal j) = Some (JBool b) \<longleftrightarrow> field k j = Some (JBool b)"
proof -
  assume j: "clean j"
  then have "clean v" if "field k j = Some v" for v using that by (rule clean_field)
  then show "field k (normal j) = Some (JStr s) \<longleftrightarrow> field k j = Some (JStr s)"
    "field k (normal j) = Some (JUni ns) \<longleftrightarrow> field k j = Some (JUni ns)"
    "field k (normal j) = Some (JBool b) \<longleftrightarrow> field k j = Some (JBool b)"
    by (auto simp: field_spelling [OF j] text_of_points_def clean_def)
qed

lemma mapping_normal: "mapping n (map_option normal x) = map_sum id normal (mapping n x)"
  by (cases x; cases "the x") (auto simp: mapping_def text_of_points_def)

lemma mapping_normal_Some: "mapping n (Some (normal j)) = map_sum id normal (mapping n (Some j))"
  using mapping_normal [of n "Some j"] by simp

lemma items_normal: "items n (map_option normal x) = map_sum id (map normal) (items n x)"
  by (cases x; cases "the x") (auto simp: items_def text_of_points_def)

lemma integer_normal: "integer n (map_option normal x) = integer n x"
  by (cases x; cases "the x") (auto simp: integer_def text_of_points_def)

lemma latency_normal: "latency_of (map_option normal x) = latency_of x"
  by (cases x; cases "the x") (auto simp: latency_of_def text_of_points_def Let_def)

lemma text_member_normal: "clean j \<Longrightarrow> plain_member k j \<Longrightarrow> text_member k (normal j) = text_member k j"
proof -
  assume j: "clean j" and plain: "plain_member k j"
  have "clean v" if "field k j = Some v" for v using j that by (rule clean_field)
  then show ?thesis
    using plain by (auto simp: text_member_def field_spelling [OF j] plain_member_def text_of_points_def clean_def
        split: option.splits json.splits)
qed

lemma and_then_sum: "and_then (map_sum id f r) g = and_then r (\<lambda>x. g (f x))"
  by (cases r) simp_all

lemma and_then_cong: "(\<And>x. r = Inr x \<Longrightarrow> f x = g x) \<Longrightarrow> and_then r f = and_then r g"
  by (cases r) simp_all

lemma mapped_clean: "mapping n x = Inr j \<Longrightarrow> x = Some j"
  by (auto simp: mapping_def split: option.splits json.splits)

lemma listed_clean: "items n x = Inr js \<Longrightarrow> x = Some (JList js)"
  by (auto simp: items_def split: option.splits json.splits)

lemma member_normal:
  assumes "clean j"
  shows "mapping n (field k (normal j)) = map_sum id normal (mapping n (field k j))"
    "items n (field k (normal j)) = map_sum id (map normal) (items n (field k j))"
    "integer n (field k (normal j)) = integer n (field k j)" "latency_of (field k (normal j)) = latency_of (field k j)"
  by (simp_all add: field_spelling [OF assms] mapping_normal items_normal integer_normal latency_normal)

lemmas spelling = member_normal field_scalar mapping_normal_Some and_then_sum

lemma escalated_normal: "clean e \<Longrightarrow> is_escalated_entry (normal e) \<longleftrightarrow> is_escalated_entry e"
  using field_scalar(1) [of e "''field_name''"]
  by (cases e) (simp_all add: is_escalated_entry_def text_of_points_def del: field.simps)

lemma find_escalated_normal:
  "list_all clean es \<Longrightarrow> List.find is_escalated_entry (map normal es) = map_option normal (List.find is_escalated_entry es)"
  by (induction es) (simp_all add: escalated_normal)

lemma find_clean: "list_all clean es \<Longrightarrow> List.find P es = Some e \<Longrightarrow> clean e"
  by (auto simp: find_Some_iff list_all_iff)

lemma escalated_member_normal:
  assumes "list_all clean es"
  shows "(case List.find is_escalated_entry (map normal es) of None \<Rightarrow> a
          | Some e \<Rightarrow> Inr \<lparr>tc_escalation = if field ''agreement'' e \<noteq> Some (JStr s) then 1 else 0, tc_missing = mis,
              tc_unsupported = uns, tc_external = ext, tc_latencies = lat\<rparr>)
    = (case List.find is_escalated_entry es of None \<Rightarrow> a
       | Some e \<Rightarrow> Inr \<lparr>tc_escalation = if field ''agreement'' e \<noteq> Some (JStr s) then 1 else 0, tc_missing = mis,
           tc_unsupported = uns, tc_external = ext, tc_latencies = lat\<rparr>)"
  using find_clean [OF assms]
  by (auto simp: find_escalated_normal [OF assms] field_scalar split: option.splits)

lemma result_counts_normal: "clean r \<Longrightarrow> result_counts (normal r) = result_counts r"
proof -
  assume r: "clean r"
  have m: "clean j" if "mapping n (field k r) = Inr j" for n k j using clean_field [OF r mapped_clean [OF that]] .
  have l: "list_all clean es" if "clean j" "items n (field k j) = Inr es" for n k j es
    using clean_field [OF that(1) listed_clean [OF that(2)]] by simp
  show ?thesis
    unfolding result_counts_def member_normal [OF r] and_then_sum
    by (intro and_then_cong, simp add: spelling m, intro and_then_cong)
       (use l m in \<open>blast intro: escalated_member_normal\<close>)
qed

lemma tenant_counts_normal: "list_all clean rs \<Longrightarrow> tenant_counts acc (map normal rs) = tenant_counts acc rs"
  by (induction rs arbitrary: acc) (auto simp: result_counts_normal intro!: and_then_cong)

lemma tenant_results_clean: "list_all clean cs \<Longrightarrow> tenant_results cs = Inr rs \<Longrightarrow> list_all (clean \<circ> snd) rs"
proof (induction cs arbitrary: rs)
  case (Cons c cs)
  then show ?case
    by (auto simp: and_then_Inr_iff Let_def guard_def dest!: mapped_clean dest: clean_field split: if_splits)
qed simp

lemma snapshots_normal:
  "list_all (clean \<circ> snd) rs \<Longrightarrow> snapshots_of w h (map (apsnd normal) rs) ts = snapshots_of w h rs ts"
proof (induction ts)
  case (Cons t ts)
  have own: "map snd (filter (\<lambda>x. fst x = t) (map (apsnd normal) rs)) = map normal (map snd (filter (\<lambda>x. fst x = t) rs))"
    by (induction rs) auto
  have "list_all clean (map snd (filter (\<lambda>x. fst x = t) rs))" using Cons.prems by (auto simp: list_all_iff)
  note counts = tenant_counts_normal [OF this]
  show ?case unfolding snapshots_of.simps own Let_def counts Cons.IH [OF Cons.prems] length_map ..
qed simp

definition plain_case :: "json \<Rightarrow> bool" where
  "plain_case c \<longleftrightarrow> (case field ''result'' c of None \<Rightarrow> True | Some r \<Rightarrow> plain_member ''tenant_id'' r)"

lemma tenant_results_normal:
  "list_all clean cs \<Longrightarrow> list_all plain_case cs \<Longrightarrow>
    tenant_results (map normal cs) = map_sum id (map (apsnd normal)) (tenant_results cs)"
proof (induction cs)
  case (Cons c cs)
  show ?case
  proof (cases "\<exists>r. mapping ''case.result'' (field ''result'' c) = Inr r")
    case True
    then obtain r where r: "mapping ''case.result'' (field ''result'' c) = Inr r" by blast
    then have f: "field ''result'' c = Some r" by (rule mapped_clean)
    then have "clean r" "plain_member ''tenant_id'' r" using Cons.prems clean_field by (auto simp: plain_case_def)
    note t = text_member_normal [OF this]
    have "mapping ''case'' (Some c) = Inr c" using f by (cases c) (simp_all add: mapping_def)
    then show ?thesis
      using Cons r f by (simp add: spelling t Let_def) (cases "tenant_results cs"; cases "text_member ''tenant_id'' r = []"; simp add: guard_def)
  next
    case False
    then obtain e where "mapping ''case.result'' (field ''result'' c) = Inl e" by (cases "mapping ''case.result'' (field ''result'' c)") auto
    then show ?thesis using Cons.prems
      by (cases "mapping ''case'' (Some c)") (auto simp: spelling dest: mapped_clean)
  qed
qed simp

definition plain_report :: "json \<Rightarrow> bool" where
  "plain_report j \<longleftrightarrow> plain_member ''generated_at'' j \<and> plain_member ''exact_git_sha'' j
     \<and> (case field ''case_pack'' j of None \<Rightarrow> True | Some p \<Rightarrow> plain_member ''version'' p)
     \<and> (case field ''cases'' j of Some (JList cs) \<Rightarrow> list_all plain_case cs | _ \<Rightarrow> True)"

lemma load_normal:
  assumes j: "clean j" and plain: "plain_report j"
  shows "load_shadow_alert_source (normal j) h = load_shadow_alert_source j h"
proof -
  have m: "clean p" if "mapping n (field k j) = Inr p" for n k p using clean_field [OF j mapped_clean [OF that]] .
  have l: "list_all clean cs" if "items n (field k j) = Inr cs" for n k cs
    using clean_field [OF j listed_clean [OF that]] by simp
  have v: "text_member ''version'' (normal p) = text_member ''version'' p" if "mapping n (field ''case_pack'' j) = Inr p" for n p
    using text_member_normal [OF m [OF that]] plain mapped_clean [OF that] by (simp add: plain_report_def)
  have c: "tenant_results (map normal cs) = map_sum id (map (apsnd normal)) (tenant_results cs)" if "items n (field ''cases'' j) = Inr cs" for n cs
    using tenant_results_normal [OF l [OF that]] plain listed_clean [OF that] by (simp add: plain_report_def)
  have t: "text_member ''generated_at'' (normal j) = text_member ''generated_at'' j"
    "text_member ''exact_git_sha'' (normal j) = text_member ''exact_git_sha'' j"
    using text_member_normal [OF j] plain by (simp_all add: plain_report_def)
  show ?thesis
  proof (cases "mapping ''shadow report'' (Some j)")
    case (Inr p)
    then have p: "p = j" using mapped_clean [OF Inr] by simp
    show ?thesis
      unfolding load_shadow_alert_source_def mapping_normal_Some Inr p map_sum.simps and_then_simps id_apply
        field_scalar [OF j] source_report_label_def t
      unfolding member_normal [OF j] and_then_sum
      by (intro and_then_cong, simp add: spelling m Let_def, intro and_then_cong, simp add: spelling c, intro and_then_cong,
          simp add: v snapshots_normal [OF tenant_results_clean [OF l]])
  qed (simp add: load_shadow_alert_source_def mapping_normal_Some)
qed

subsection \<open>What the pilot builds\<close>

lemma spelled_counter [simp]: "spelled (counter xs)"
  by (auto simp: counter_def list_all_iff)

lemma spelled_opt [simp]: "(\<And>y. spelled (f y)) \<Longrightarrow> spelled (opt_dump f x)"
  by (simp add: opt_dump_def split: option.split)

lemma spelled_result:
  assumes "processed loaded r"
  shows "spelled (shadow_result_dump r)"
proof -
  from assms obtain c where "compare c (res_actual r) = Inr (res_comparison r)" "valid_actual (res_actual r)"
    by (auto simp: processed_def)
  note es = compare_fields(1) [OF this]
  have "spelled (entry_dump e)" if "e \<in> set (entries (res_comparison r))" for e
    using that unfolding es by (auto simp: compare_entries_def Let_def diff_entry_def entry_dump_def list_all_iff)
  then show ?thesis
    by (simp add: shadow_result_dump_def actual_dump_def comparison_dump_def list_all_iff)
qed

lemma spelled_items:
  assumes "\<And>r. r \<in> set rs \<Longrightarrow> processed loaded r" and "per_case loaded rs = Inr its"
  shows "list_all spelled (map snd its) \<and> list_all plain_case (map snd its)"
  using assms
  by (induction rs arbitrary: its)
     (auto simp: and_then_Inr_iff plain_case_def plain_member_def intro!: spelled_result [of loaded])

lemma report_clean:
  assumes "aggregate_report rs loaded sha gat evidence = Inr report" and "readable report"
    and "\<And>r. r \<in> set rs \<Longrightarrow> processed loaded r" and "spelled evidence"
  shows "clean report" and "plain_report report"
proof -
  from assms(1) obtain its where its: "per_case loaded rs = Inr its" by (auto simp: aggregate_report_def and_then_Inr_iff)
  note spelled = spelled_items [OF assms(3) its]
  have report: "report = projr (aggregate_report rs loaded sha gat evidence)" using assms(1) by simp
  have "spelled report"
    unfolding report using spelled assms(4)
    by (simp add: aggregate_report_def its dashed_def pilot_controls_def pilot_metrics_def pilot_status_def Let_def)
  then show "clean report" using assms(2) by (simp add: clean_def)
  show "plain_report report"
    unfolding report using spelled by (simp add: aggregate_report_def its plain_report_def plain_member_def)
qed

subsection \<open>Writing\<close>

text \<open>The operating system opens every path the report is written to.\<close>

definition opens_report :: "os_answers \<Rightarrow> string \<Rightarrow> ShadowResult list \<Rightarrow> bool" where
  "opens_report opens dir rs \<longleftrightarrow>
     opens dir = None \<and> opens (dir @ ''/m2-shadow-foundation-cases'') = None
     \<and> list_all (\<lambda>r. opens (case_path (dir @ ''/m2-shadow-foundation-cases'')
                            (JStr (res_case_id r)) (JStr (res_case_version r))) = None) rs
     \<and> opens (dir @ ''/m2-shadow-foundation-pilot.json'') = None
     \<and> opens (dir @ ''/m2-shadow-foundation-pilot.md'') = None"

lemma write_cases_total:
  assumes "per_case loaded rs = Inr its"
    and "list_all (\<lambda>r. opens (case_path dir (JStr (res_case_id r)) (JStr (res_case_version r))) = None) rs"
  shows "\<exists>fs'. write_cases opens dir (map snd its) fs = (Inr (), fs')"
  using assms
  by (induction rs arbitrary: its fs)
     (auto simp: and_then_Inr_iff bindE_def liftE_def returnE_def write_file_def shadow_result_dump_def)

text \<open>One path that cannot be opened, and the report is not written.\<close>

lemma write_cases_stopped:
  assumes "opens (case_path dir (JStr (res_case_id r)) (JStr (res_case_version r))) = Some e" and "r \<in> set rs"
    and "per_case loaded rs = Inr its"
  shows "\<exists>e fs'. write_cases opens dir (map snd its) fs = (Inl e, fs')"
  using assms
  by (induction rs arbitrary: its fs)
     (auto simp: and_then_Inr_iff bindE_def liftE_def returnE_def write_file_def shadow_result_dump_def split: option.splits)

lemma render_total:
  assumes "aggregate_report rs loaded sha gat evidence = Inr report"
  shows "\<exists>md. render_markdown report = Inr md"
proof -
  from assms(1) obtain its where its: "per_case loaded rs = Inr its" by (auto simp: aggregate_report_def and_then_Inr_iff)
  have report: "report = projr (aggregate_report rs loaded sha gat evidence)" using assms(1) by simp
  show ?thesis
    unfolding report
    by (simp add: render_markdown_def aggregate_report_def its fields_in_def pilot_lines_def spaced_out_def quoted_def empty_line_def
        pilot_controls_def pilot_metrics_def pilot_status_def Let_def bullet_rows_def status_rows_def members_of_def
        elements_of_def fixed3_of_def)
qed

text \<open>What a writing that succeeds leaves.\<close>

lemma written_report:
  assumes "write_reports opens report dir fs = (Inr written, fs')"
  shows "aggregate_json written = dir @ ''/m2-shadow-foundation-pilot.json''
    \<and> fs' (aggregate_json written) = Some (json_file report)
    \<and> aggregate_json_sha256 written = file_sha256 (json_file report)"
  using assms
  by (auto simp: write_reports_def Let_def bindE_def liftE_def returnE_def write_file_def
      split: prod.splits sum.splits option.splits)

lemma report_written:
  assumes report: "aggregate_report rs loaded sha gat evidence = Inr report" and opens: "opens_report opens dir rs"
  shows "\<exists>written fs'. write_reports opens report dir fs = (Inr written, fs')"
proof -
  obtain its where its: "per_case loaded rs = Inr its" using report by (auto simp: aggregate_report_def and_then_Inr_iff)
  have cases: "and_then (at_path [''cases''] report) elements_of = Inr (map snd its)"
    using report by (auto simp: aggregate_report_def its elements_of_def)
  obtain fs1 where fs1: "write_cases opens (dir @ ''/m2-shadow-foundation-cases'') (map snd its) fs = (Inr (), fs1)"
    using write_cases_total [OF its] opens unfolding opens_report_def by blast
  obtain md where md: "render_markdown report = Inr md" using render_total [OF report] by blast
  show ?thesis
    using opens
    by (simp add: write_reports_def cases md bindE_def liftE_def returnE_def make_directory_def fs1 write_file_def Let_def
        opens_report_def del: at_path.simps)
qed

lemma load_file_report:
  assumes "aggregate_report rs loaded sha gat evidence = Inr report" and "readable report"
    and "\<And>r. r \<in> set rs \<Longrightarrow> processed loaded r" and "spelled evidence"
  shows "load_alert_file (json_file report)
    = Some (load_shadow_alert_source report (file_sha256 (json_file report)))"
  using load_normal [OF report_clean [OF assms]] by (simp add: load_alert_file_def loads_json_file [OF assms(2)])

lemma file_hash_hex: "is_hex64 (file_sha256 (json_file j))"
  by (simp add: json_file_def file_sha256_text)

text \<open>C34. The pilot's report reaches the alerts. The results come from processing cases of a valid pack, in any
  number but zero, with a version and a time that fit the window's id and mean latencies that did not round below
  zero; the report was built, its numbers are ones JSON text can carry and its members are plain JSON
  (\<open>readable\<close>, \<open>spelled\<close>); the operating system opens every path. Then the report is written, its file
  has the hash that is returned, and the alert side, loading that file, gets under that hash exactly one valid
  snapshot per tenant, with the counts and the latency of the tenant's results. (The file spells the document anew:
  sorted keys, escapes, decimals. A case whose file cannot be opened stops the writing.)\<close>

theorem pilot_report_travels:
  assumes "valid_case_pack (pack loaded)" and "rs \<noteq> []" and rs: "\<And>r. r \<in> set rs \<Longrightarrow> processed loaded r"
    and "length (case_pack_version (pack loaded)) + length (isoformat gat) < 200"
    and "\<And>t. 0 \<le> fl (py_sum (latencies (filter (\<lambda>r. res_tenant_id r = t) rs))
           / of_nat (length (filter (\<lambda>r. res_tenant_id r = t) rs)))"
    and report: "aggregate_report rs loaded sha gat evidence = Inr report"
    and "readable report" and "spelled evidence" and opens: "opens_report opens dir rs"
  shows "\<exists>written fs' ns. write_reports opens report dir fs = (Inr written, fs')
    \<and> fs' (aggregate_json written) = Some ns \<and> aggregate_json_sha256 written = file_sha256 ns
    \<and> load_alert_file ns = Some (Inr
        \<lparr>source_report_sha256 = file_sha256 ns, source_shadow_git_sha = sha,
         source_case_pack_version = case_pack_version (pack loaded),
         snapshots = map (tenant_window loaded gat (file_sha256 ns) rs) (sort (remdups (map res_tenant_id rs)))\<rparr>)
    \<and> list_all valid_snapshot
        (map (tenant_window loaded gat (file_sha256 ns) rs) (sort (remdups (map res_tenant_id rs))))"
proof -
  from report_written [OF report opens] obtain written fs' where w: "write_reports opens report dir fs = (Inr written, fs')"
    by blast
  have f: "fs' (aggregate_json written) = Some (json_file report)"
    "aggregate_json_sha256 written = file_sha256 (json_file report)" using written_report [OF w] by blast+
  let ?h = "file_sha256 (json_file report)" and ?ts = "sort (remdups (map res_tenant_id rs))"
  have "\<exists>report'. aggregate_report rs loaded sha gat evidence = Inr report'
      \<and> load_shadow_alert_source report' ?h = Inr
          \<lparr>source_report_sha256 = ?h, source_shadow_git_sha = sha,
           source_case_pack_version = case_pack_version (pack loaded),
           snapshots = map (tenant_window loaded gat ?h rs) ?ts\<rparr>
      \<and> list_all valid_snapshot (map (tenant_window loaded gat ?h rs) ?ts)"
    by (rule report_read_back [OF assms(1,2) rs file_hash_hex assms(4,5)])
  then show ?thesis
    using report w f load_file_report [OF report assms(7) rs assms(8)]
    by (intro exI [of _ written] exI [of _ fs'] exI [of _ "json_file report"]) simp
qed

subsection \<open>A concrete report\<close>

lemma readable_items:
  assumes "per_case loaded rs = Inr its" and "\<And>r. r \<in> set rs \<Longrightarrow> readable (shadow_result_dump r)"
  shows "list_all readable (map snd its)"
  using assms by (induction rs arbitrary: its) (auto simp: and_then_Inr_iff)

lemma readable_counter: "length xs < 10 ^ 20 \<Longrightarrow> readable (counter xs)"
proof -
  assume "length xs < 10 ^ 20"
  then have "count_list xs k < 10 ^ Suc 19" for k using count_le_length [of xs k] by simp
  then have "length (nat_text (count_list xs k)) \<le> 4300" for k using short_number [of "count_list xs k" 19] by fastforce
  then show ?thesis by (auto simp: counter_def list_all_iff comp_def)
qed

lemma half: "fl (1 / 2) = 1 / 2" "fl 1 = 1"
  by code_simp+

lemma w_compared_facts:
  "entries w_compared = compare_entries (w_pack_case 0) w_actual" "cmp_citation_coverage w_compared = 1 / 2"
  "cmp_unsupported_citation_count w_compared = 0" "cmp_missing_required_count w_compared = 1"
  by (simp_all add: w_compared_def compare_def Let_def half missing_required_count_def w_pack_case_def w_case_def w_actual_def
      BOUNDED_EVIDENCE_TOOLS_def)

lemma w_result_readable: "readable (shadow_result_dump w_reported)"
  by (simp add: shadow_result_dump_def actual_dump_def comparison_dump_def w_reported_def w_result_def w_compared_facts
      compare_entries_def Let_def diff_entry_def entry_dump_def w_pack_case_def w_case_def w_actual_def small_digits half
      opt_dump_def list_all_iff)

lemma readable_counts: "length es < 20 \<Longrightarrow> readable (counter (map g (filter P es)))"
proof -
  assume "length es < 20"
  then have "length (filter P es) < 20" using length_filter_le [of P es] by linarith
  then show ?thesis by (intro readable_counter) simp
qed

lemma w_entries: "length (entries w_compared) < 20" "length (disagreement_categories w_compared) < 20"
proof -
  have e: "length (compare_entries c a) = 11" for c a by (simp add: compare_entries_def Let_def)
  show "length (entries w_compared) < 20" by (simp add: w_compared_facts e)
  have d: "disagreement_categories w_compared
      = sorted_texts (map de_category (filter (\<lambda>e. agreement e \<noteq> Exact) (compare_entries (w_pack_case 0) w_actual)))"
    by (simp add: w_compared_def compare_def Let_def missing_required_count_def w_pack_case_def w_case_def w_actual_def
        BOUNDED_EVIDENCE_TOOLS_def)
  have "length (sorted_texts xs) \<le> length xs" for xs by (simp add: sorted_texts_def length_remdups_leq)
  then have "length (disagreement_categories w_compared) \<le> 11"
    unfolding d using e length_filter_le order_trans length_map by metis
  then show "length (disagreement_categories w_compared) < 20" by simp
qed

lemma w_metrics_readable: "readable (pilot_metrics [w_reported])"
proof -
  have f: "mean_coverage [w_reported] = 1 / 2" "latencies [w_reported] = [0]" "unsupported_total [w_reported] = 0"
    "missing_total [w_reported] = 1"
    by (simp_all add: mean_coverage_def latencies_def unsupported_total_def missing_total_def w_reported_def w_result_def
        w_compared_facts w_actual_def half)
  have c: "readable (counter (all_categories [w_reported]))"
    by (rule readable_counter) (use w_entries(2) in \<open>simp add: all_categories_def w_reported_def\<close>)
  have g: "readable (counter (map field_name (filter (\<lambda>e. agreement e \<noteq> Exact) (entries (res_comparison w_reported)))))"
    by (rule readable_counts) (simp add: w_reported_def w_entries(1))
  show ?thesis by (simp add: pilot_metrics_def small_digits half f c g py_min_def py_max_def)
qed

lemma w_pilot_report:
  "\<exists>report. aggregate_report [w_reported] w_loaded ''sha'' (utc 0) (JStr ''UNMEASURED'') = Inr report \<and> readable report"
proof -
  obtain its where its: "per_case w_loaded [w_reported] = Inr its"
    using per_case_items [of "[w_reported]" w_loaded] w_processed by auto
  have "length its = 1" using its by (auto simp: and_then_Inr_iff)
  then have "readable (counter (map (category \<circ> fst) its))" by (intro readable_counter) simp
  moreover have "list_all readable (map snd its)"
    by (rule readable_items [OF its]) (simp add: w_result_readable)
  ultimately show ?thesis
    using w_metrics_readable
    by (simp add: aggregate_report_def its pilot_controls_def pilot_status_def dashed_def small_digits scalar_point_def
        del: per_case.simps)
qed

text \<open>A system that refuses a zero byte anywhere, and a slash below the directory of the cases.\<close>

definition w_opens :: os_answers where
  "w_opens name =
     (if CHR 0x00 \<in> set name then Some (ValueError ''embedded null byte'')
      else if take 31 name = ''out/m2-shadow-foundation-cases/'' \<and> CHR ''/'' \<in> set (drop 31 name)
        then Some (FileNotFoundError name) else None)"

lemma w_opens_report: "opens_report w_opens ''out'' [w_reported]"
  by (simp add: opens_report_def w_opens_def case_path_def w_reported_def w_result_def)

theorem pilot_report_travels_witness:
  "\<exists>report. aggregate_report [w_reported] w_loaded ''sha'' (utc 0) (JStr ''UNMEASURED'') = Inr report
    \<and> (\<exists>written fs' ns. write_reports w_opens report ''out'' (\<lambda>_. None) = (Inr written, fs')
      \<and> fs' (aggregate_json written) = Some ns \<and> aggregate_json_sha256 written = file_sha256 ns
      \<and> load_alert_file ns = Some (Inr
          \<lparr>source_report_sha256 = file_sha256 ns, source_shadow_git_sha = ''sha'',
           source_case_pack_version = case_pack_version (pack w_loaded),
           snapshots = map (tenant_window w_loaded (utc 0) (file_sha256 ns) [w_reported])
             (sort (remdups (map res_tenant_id [w_reported])))\<rparr>)
      \<and> list_all valid_snapshot
          (map (tenant_window w_loaded (utc 0) (file_sha256 ns) [w_reported])
            (sort (remdups (map res_tenant_id [w_reported])))))"
proof -
  obtain report where r: "aggregate_report [w_reported] w_loaded ''sha'' (utc 0) (JStr ''UNMEASURED'') = Inr report"
    "readable report" using w_pilot_report by blast
  show ?thesis
    by (intro exI [of _ report] conjI r(1))
       (rule pilot_report_travels [OF w_pack_valid _ _ w_versions w_latency r _ w_opens_report]; simp add: w_processed)
qed

end
