(* ===== verification/CommandLines.thy ===== *)
theory CommandLines
  imports Pilot DeliverySettings ReportTravel
begin

section \<open>The command lines over files (\<^verbatim>\<open>main\<close> of the four programs)\<close>

text \<open>
  What the programs do once their arguments are parsed: they read files and the environment, run the
  services, write the reports and print a summary, whose text is their result. The arguments, the
  commit's hash, the time and Pydantic's decoding of a text into fields are parameters. \<open>None\<close>: the
  fuel ran out, or a file holds a document outside the model (\<open>Outside\<close>).
\<close>

subsection \<open>Files and the environment\<close>

definition read_text :: "files \<Rightarrow> string \<Rightarrow> points result" where
  "read_text fs name = (case fs name of None \<Rightarrow> Inl (FileNotFoundError name) | Some ns \<Rightarrow> Inr ns)"

definition read_json :: "files \<Rightarrow> string \<Rightarrow> json result option" where
  "read_json fs name = (case read_text fs name of Inl e \<Rightarrow> Some (Inl e) | Inr ns \<Rightarrow> loads_file ns)"

definition then_outside :: "'a result option \<Rightarrow> ('a \<Rightarrow> 'b result option) \<Rightarrow> 'b result option" where
  "then_outside r f = (case r of None \<Rightarrow> None | Some (Inl e) \<Rightarrow> Some (Inl e) | Some (Inr x) \<Rightarrow> f x)"

text \<open>\<^verbatim>\<open>os.environ[name]\<close>.\<close>

definition env_required :: "(string \<Rightarrow> string option) \<Rightarrow> string \<Rightarrow> string result" where
  "env_required env name = (case env name of None \<Rightarrow> Inl (KeyError (repr_text name)) | Some v \<Rightarrow> Inr v)"

text \<open>A program's state is the files and the tables; each of its calls sees one of the two.\<close>

definition on_files :: "(files, 'a) comp \<Rightarrow> (files \<times> 'w, 'a) comp" where
  "on_files m w = (case m (fst w) of (r, fs) \<Rightarrow> (r, (fs, snd w)))"

definition on_tables :: "('w, 'a) comp \<Rightarrow> (files \<times> 'w, 'a) comp" where
  "on_tables m w = (case m (snd w) of (r, d) \<Rightarrow> (r, (fst w, d)))"

text \<open>What was read from the files comes before the rest; \<open>print\<close> ends the text with a newline, as a file does.\<close>

definition given :: "(files \<Rightarrow> 'a result option) \<Rightarrow> ('a \<Rightarrow> (files \<times> 'w, 'b option) comp) \<Rightarrow> (files \<times> 'w, 'b option) comp" where
  "given read f w =
     (case read (fst w) of None \<Rightarrow> (Inr None, w) | Some (Inl e) \<Rightarrow> (Inl e, w) | Some (Inr x) \<Rightarrow> f x w)"

definition printed :: "json \<Rightarrow> points" where
  "printed j = json_file j"

subsection \<open>Case packs, intake documents, earlier results\<close>

text \<open>The hash of \<^verbatim>\<open>cases.json\<close> is needed only once the manifest has its two keys.\<close>

definition load_case_pack_file :: "(points \<Rightarrow> ShadowCasePack option) \<Rightarrow> string \<Rightarrow> files \<Rightarrow> LoadedCasePack result option" where
  "load_case_pack_file decode dir fs =
     (let manifest_path = dir @ ''/manifest.json''; cases_path = dir @ ''/cases.json''
      in then_outside (read_json fs manifest_path) (\<lambda>manifest.
           Some (case fs cases_path of
             Some cs \<Rightarrow> load_case_pack manifest (file_sha256 (the (fs manifest_path))) (decode cs) (file_sha256 cs)
           | None \<Rightarrow> and_then (iterated manifest) (\<lambda>ks.
               if ks \<noteq> {JStr ''case_pack_version'', JStr ''files''} then
                 Inl (ValueError ''Shadow case manifest has unexpected fields'')
               else case manifest of
                 JObj _ \<Rightarrow> Inl (FileNotFoundError cases_path)
               | _ \<Rightarrow> Inl (TypeError ''list indices must be integers or slices, not str'')))))"

definition load_intake_document :: "(json \<Rightarrow> ShadowCase list option) \<Rightarrow> string \<Rightarrow> files \<Rightarrow> ShadowCase list result option" where
  "load_intake_document decode name fs =
     then_outside
       (case read_text fs name of
          Inl e \<Rightarrow> Some (Inl e)
        | Inr ns \<Rightarrow> (if parse_file ns = Inl JSONDecodeError then
              Some (Inl (ValidationError ''SHADOW_INTAKE_INVALID_JSON'' ''Intake file is not valid JSON''))
            else loads_file ns))
       (\<lambda>raw.
          let doc = (case raw of
                JList _ \<Rightarrow> JObj [(''intake_document_version'', JStr ''m2-uat-intake-v1''), (''execute'', JBool False), (''cases'', raw)]
              | _ \<Rightarrow> raw)
          in Some (case decode doc of
               Some cs \<Rightarrow> (if valid_intake_document cs then Inr cs
                          else Inl (ValidationError ''SHADOW_INTAKE_SCHEMA_INVALID'' []))
             | None \<Rightarrow> Inl (ValidationError ''SHADOW_INTAKE_SCHEMA_INVALID'' [])))"

fun decode_results :: "(json \<Rightarrow> ShadowResult option) \<Rightarrow> json list \<Rightarrow> ShadowResult list result" where
  "decode_results decode [] = Inr []"
| "decode_results decode (item # rest) =
     (case item of
        JObj _ \<Rightarrow>
          (case decode (case field ''result'' item of None \<Rightarrow> item | Some r \<Rightarrow> r) of
             None \<Rightarrow> Inl PydanticValidationError
           | Some r \<Rightarrow> and_then (decode_results decode rest) (\<lambda>rs. Inr (r # rs)))
      | _ \<Rightarrow> Inl (AttributeError (''object has no attribute '' @ repr_text ''get'')))"

definition load_optional_results :: "(json \<Rightarrow> ShadowResult option) \<Rightarrow> string \<Rightarrow> files \<Rightarrow> ShadowResult list result option" where
  "load_optional_results decode name fs =
     (if fs name = None then Some (Inr [])
      else then_outside (read_json fs name) (\<lambda>payload. Some
        (case payload of
           JObj _ \<Rightarrow> and_then (elements_of (case field ''cases'' payload of None \<Rightarrow> JList [] | Some cs \<Rightarrow> cs)) (decode_results decode)
         | _ \<Rightarrow> Inl (AttributeError (''object has no attribute '' @ repr_text ''get'')))))"

subsection \<open>The pilot\<close>

definition pilot_summary :: "ShadowResult list \<Rightarrow> WrittenReports \<Rightarrow> json" where
  "pilot_summary rs w = JObj
     [(''case_count'', JInt (int (length rs))), (''execute'', JBool False), (''external_action_count'', JInt 0),
      (''provider'', JStr ''deterministic-stub-v1''),
      (''aggregate_json'', JStr (aggregate_json w)), (''aggregate_json_sha256'', JStr (aggregate_json_sha256 w)),
      (''aggregate_markdown'', JStr (aggregate_markdown w)),
      (''aggregate_markdown_sha256'', JStr (aggregate_markdown_sha256 w))]"

definition pilot_main ::
  "os_answers \<Rightarrow> (string \<Rightarrow> string option) \<Rightarrow> (points \<Rightarrow> ShadowCasePack option) \<Rightarrow> (rat \<Rightarrow> rat) \<Rightarrow> nat \<Rightarrow> (nat \<Rightarrow> string)
   \<Rightarrow> (nat \<Rightarrow> string) \<Rightarrow> string \<Rightarrow> string \<Rightarrow> string \<Rightarrow> datetime \<Rightarrow> json \<Rightarrow> (files \<times> shadow_world, points option) comp"
where
  "pilot_main opens env decode num fuel sids rids cases_dir out sha gat evidence =
     bindE (liftE (env_required env ''MIGRATION_DATABASE_URL'')) (\<lambda>_.
     bindE (liftE (env_required env ''DATABASE_URL'')) (\<lambda>_.
     given (load_case_pack_file decode cases_dir) (\<lambda>loaded.
     bindE (on_tables (run_pilot num fuel loaded sids rids sha gat evidence)) (\<lambda>res. case res of
         None \<Rightarrow> returnE None
       | Some (rs, report) \<Rightarrow>
           bindE (on_files (write_reports opens report out)) (\<lambda>w. returnE (Some (printed (pilot_summary rs w))))))))"

subsection \<open>The alert rehearsal\<close>

text \<open>\<^verbatim>\<open>value.replace("Z", "+00:00")\<close>; \<open>fromiso\<close> is \<^verbatim>\<open>datetime.fromisoformat\<close>.\<close>

definition timestamp :: "(string \<Rightarrow> datetime result) \<Rightarrow> datetime \<Rightarrow> string option \<Rightarrow> datetime result" where
  "timestamp fromiso now arg =
     (case arg of
        None \<Rightarrow> Inr now
      | Some v \<Rightarrow> and_then (fromiso (concat (map (\<lambda>c. if c = CHR ''Z'' then ''+00:00'' else [c]) v))) (\<lambda>parsed.
          if tz_naive parsed then Inl (ValueError ''--generated-at requires an ISO-8601 timezone'') else Inr parsed))"

definition alert_summary_text :: "AlertEvaluation list \<Rightarrow> json \<Rightarrow> WrittenAlertReports \<Rightarrow> points result" where
  "alert_summary_text evs report w =
     and_then (at_path [''controls'', ''external_action_count''] report) (\<lambda>n. Inr (printed (JObj
       [(''evaluation_count'', JInt (int (length evs))),
        (''idempotent_replay_count'', JInt (count_where idempotent_replay evs)),
        (''execute'', JBool False), (''external_action_count'', n), (''external_alert_delivery_count'', JInt 0),
        (''live_slo_evidence_eligible'', JBool False),
        (''json_path'', JStr (json_path w)), (''json_sha256'', JStr (json_sha256 w)),
        (''markdown_path'', JStr (markdown_path w)), (''markdown_sha256'', JStr (markdown_sha256 w))])))"

definition alert_main ::
  "os_answers \<Rightarrow> (string \<Rightarrow> string option) \<Rightarrow> (string \<Rightarrow> datetime result) \<Rightarrow> datetime \<Rightarrow> (rat \<Rightarrow> rat) \<Rightarrow> string \<Rightarrow> string \<Rightarrow> string
   \<Rightarrow> string option \<Rightarrow> (files \<times> alert_db, points option) comp"
where
  "alert_main opens env fromiso now num shadow_report out sha gen_arg =
     given (\<lambda>fs. case read_text fs shadow_report of Inl e \<Rightarrow> Some (Inl e) | Inr ns \<Rightarrow> load_alert_file ns) (\<lambda>source.
     bindE (liftE (timestamp fromiso now gen_arg)) (\<lambda>gat.
     bindE (liftE (env_required env ''DATABASE_URL'')) (\<lambda>_.
     bindE (liftE (and_then (delivery_from_env env) (\<lambda>s. build_delivery_enqueuer s DEFAULT_MAX_ATTEMPTS))) (\<lambda>enq.
     bindE (on_tables (rehearse num enq (instant gat) (source_report_sha256 source) (snapshots source))) (\<lambda>evs.
     let report = build_alert_report source evs sha gat
     in bindE (on_files (write_alert_reports opens report out)) (\<lambda>w.
        bindE (liftE (alert_summary_text evs report w)) (\<lambda>t. returnE (Some t))))))))"

subsection \<open>The readiness report\<close>

definition collection_summary :: "json \<Rightarrow> json \<Rightarrow> points result" where
  "collection_summary written report =
     and_then (at_path [''official_m2_05'', ''eligible_count''] report) (\<lambda>n.
     and_then (members_of written) (\<lambda>kvs. Inr (printed (JObj (kvs @ [(''official_m2_05_eligible_count'', n)])))))"

text \<open>The intakes are read only where a database is named.\<close>

definition collection_main ::
  "os_answers \<Rightarrow> (string \<Rightarrow> string option) \<Rightarrow> (points \<Rightarrow> ShadowCasePack option) \<Rightarrow> (json \<Rightarrow> ShadowResult option) \<Rightarrow> string \<Rightarrow> string
   \<Rightarrow> string \<Rightarrow> string \<Rightarrow> datetime \<Rightarrow> (files \<times> intake_db, points option) comp"
where
  "collection_main opens env decode decode_result cases_dir shadow_results out sha gat =
     given (load_case_pack_file decode cases_dir) (\<lambda>loaded.
     bindE (on_tables (\<lambda>d. (Inr (if env_or env ''DATABASE_URL'' [] = [] then ([], {}, [])
                               else (list_all_intakes d, accepted_intake_ids d, excluded_intake_ids d)), d)))
       (\<lambda>(records, accepted, excluded1).
     given (load_optional_results decode_result shadow_results) (\<lambda>results.
     bindE (liftE (aggregate_collection loaded sha gat records accepted excluded1 results [])) (\<lambda>report.
     bindE (on_files (write_collection_reports opens report out)) (\<lambda>written.
     bindE (liftE (collection_summary written report)) (\<lambda>t. returnE (Some t)))))))"

subsection \<open>The intake\<close>

definition imported_case :: "ShadowIntakeRecord \<times> bool \<Rightarrow> json" where
  "imported_case x = (case x of (r, created) \<Rightarrow> JObj
     [(''intake_id'', JStr (intake_id r)), (''case_id'', JStr (in_case_id r)),
      (''case_version'', JStr (in_case_version r)), (''payload_hash'', JStr (in_payload_hash r)),
      (''created'', JBool created)])"

definition intake_summary :: "(ShadowIntakeRecord \<times> bool) list \<Rightarrow> json" where
  "intake_summary rs = JObj
     [(''imported_count'', JInt (count_where snd rs)), (''replayed_count'', JInt (count_where (\<lambda>x. \<not> snd x) rs)),
      (''execute'', JBool False), (''external_action_count'', JInt 0), (''accepted_for_m2_05'', JBool False),
      (''cases'', JList (map imported_case rs))]"

definition intake_main ::
  "(string \<Rightarrow> string option) \<Rightarrow> (json \<Rightarrow> ShadowCase list option) \<Rightarrow> (nat \<Rightarrow> int) \<Rightarrow> (nat \<Rightarrow> string) \<Rightarrow> string
   \<Rightarrow> (files \<times> intake_db, points option) comp"
where
  "intake_main env decode clk uuids input =
     given (load_intake_document decode input) (\<lambda>cases.
     bindE (liftE (env_required env ''DATABASE_URL'')) (\<lambda>_.
     bindE (on_tables (import_document clk uuids cases False)) (\<lambda>rs.
       returnE (Some (printed (intake_summary rs))))))"

definition owner_principal :: "string \<Rightarrow> Principal" where
  "owner_principal tenant = \<lparr>actor_id = ''owner-shadow-intake-operator'', principal_tenant = tenant, roles = {''operator''}\<rparr>"

definition exclude_main ::
  "(string \<Rightarrow> string option) \<Rightarrow> string \<Rightarrow> string \<Rightarrow> string \<Rightarrow> int \<Rightarrow> (intake_db, points) comp"
where
  "exclude_main env iid tenant reason now =
     bindE (liftE (env_required env ''DATABASE_URL'')) (\<lambda>_.
     bindE (exclude_case (owner_principal tenant) iid reason now) (\<lambda>(r, created). returnE (printed (JObj
       [(''intake_id'', JStr (intake_id r)), (''tenant_id'', JStr (in_tenant_id r)), (''reason'', JStr reason),
        (''excluded'', JBool True), (''created'', JBool created), (''execute'', JBool False),
        (''external_action_count'', JInt 0)]))))"

subsection \<open>The pilot's file\<close>

lemma loaded_valid: "load_case_pack_file decode dir fs = Some (Inr loaded) \<Longrightarrow> valid_case_pack (pack loaded)"
  by (auto simp: load_case_pack_file_def then_outside_def Let_def load_case_pack_def and_then_Inr_iff
      split: option.splits sum.splits if_splits json.splits)

text \<open>The pilot's command always comes to an end: over case-pack files
  that load, from any reachable run tables and shadow tables that are empty or hold only results of this pack, it
  never runs out of fuel; when it succeeds the shadow tables hold one result per case and no lock, the printed
  summary names the report's file and its hash, and the alert side, loading that file when its numbers are ones
  JSON can carry, gets the
  snapshots of the pack's tenants, unless one is out of its bounds, which is a validation error.\<close>

theorem pilot_main_travels:
  assumes "load_case_pack_file decode dir fs = Some (Inr loaded)" and "pilot_tables loaded (sw_db w)"
    and "db (sw_world w) = fold repo_step before_ops (empty_db i d s)" and "8 < fuel" and "spelled evidence"
  shows "case pilot_main opens env decode num fuel sids rids dir out sha gat evidence (fs, w) of
     (Inl e, w') \<Rightarrow> True
   | (Inr None, w') \<Rightarrow> False
   | (Inr (Some shown), (fs', w')) \<Rightarrow> \<exists>rs report written.
       length rs = length (pack_cases (pack loaded)) \<and> pilot_tables loaded (sw_db w')
       \<and> shown = printed (pilot_summary rs written)
       \<and> aggregate_json written = out @ ''/m2-shadow-foundation-pilot.json''
       \<and> fs' (aggregate_json written) = Some (json_file report)
       \<and> aggregate_json_sha256 written = file_sha256 (json_file report)
       \<and> (if readable report then load_alert_file (json_file report) = Some
           (if list_all valid_snapshot (map (tenant_window loaded gat (aggregate_json_sha256 written) rs) (tenants_of rs)) then
              Inr \<lparr>source_report_sha256 = aggregate_json_sha256 written, source_shadow_git_sha = sha,
                   source_case_pack_version = case_pack_version (pack loaded),
                   snapshots = map (tenant_window loaded gat (aggregate_json_sha256 written) rs) (tenants_of rs)\<rparr>
            else Inl PydanticValidationError) else True)"
proof (cases "env_required env ''MIGRATION_DATABASE_URL''"; cases "env_required env ''DATABASE_URL''")
  fix url url'
  assume env: "env_required env ''MIGRATION_DATABASE_URL'' = Inr url" "env_required env ''DATABASE_URL'' = Inr url'"
  note ends = pilot_report_loads [OF loaded_valid [OF assms(1)] assms(2-4)]
  obtain r w' where run: "run_pilot num fuel loaded sids rids sha gat evidence w = (r, w')" by force
  show ?thesis
  proof (cases "\<exists>rs report. r = Inr (Some (rs, report))")
    case False
    then show ?thesis
      using ends [where num = num and sids = sids and rids = rids and sha = sha and gat = gat and evidence = evidence and h = "[]"] run env assms(1)
      by (auto simp: pilot_main_def given_def on_tables_def comp_defs split: sum.splits option.splits)
  next
    case True
    then obtain rs report where r: "r = Inr (Some (rs, report))" by blast
    from pilot_parts [OF run [unfolded r]] obtain w1 where w1: "sw_db w1 = sw_db w"
      and cases1: "run_cases fuel (case_pack_version (pack loaded)) sids rids 0 (pack_cases (pack loaded)) w1 = (Inr (Some rs), w')"
      and report: "aggregate_report rs loaded sha gat evidence = Inr report" by metis
    from run_cases_sound [OF _ subset_refl cases1] assms(2) have sound: "\<And>r. r \<in> set rs \<Longrightarrow> processed loaded r"
      by (auto simp: w1)
    have main: "pilot_main opens env decode num fuel sids rids dir out sha gat evidence (fs, w)
        = (case write_reports opens report out fs of
             (Inl e, fs') \<Rightarrow> (Inl e, (fs', w'))
           | (Inr written, fs') \<Rightarrow> (Inr (Some (printed (pilot_summary rs written))), (fs', w')))"
      using run r env assms(1)
      by (simp add: pilot_main_def given_def on_tables_def on_files_def comp_defs split: prod.split sum.split)
    show ?thesis
    proof (cases "write_reports opens report out fs")
      case wr: (Pair x fs')
      show ?thesis
      proof (cases x)
        case (Inl e)
        with main wr show ?thesis by simp
      next
        case (Inr written)
        note written = wr [unfolded Inr] written_report [OF wr [unfolded Inr]]
        from main written(1) show ?thesis
      using ends [where num = num and sids = sids and rids = rids and sha = sha and gat = gat and evidence = evidence
          and h = "file_sha256 (json_file report)"] run r written
        load_file_report [OF report _ sound assms(5)]
      by (auto intro!: exI [of _ rs] exI [of _ report] exI [of _ written])
      qed
    qed
  qed
qed (simp_all add: pilot_main_def comp_defs)

end
