(* ===== verification/IdentityFile.thy ===== *)
theory IdentityFile
  imports ReportFiles "HOL-Library.AList"
begin

section \<open>The identity fixture file (\<^verbatim>\<open>SimulatedIdentityProvider.from_file\<close>)\<close>

text \<open>
  Tokens, principals and reviewer assignments of a local JSON file. \<open>None\<close>: an entry has a member that
  is not a text where the provider holds one, or the file is outside the model (\<open>Outside\<close>).
\<close>

fun text_only :: "json \<Rightarrow> string option" where
  "text_only (JStr s) = Some s"
| "text_only _ = None"

fun texts_only :: "json list \<Rightarrow> string list option" where
  "texts_only [] = Some []"
| "texts_only (j # js) =
     (case (text_only j, texts_only js) of (Some s, Some ss) \<Rightarrow> Some (s # ss) | _ \<Rightarrow> None)"

definition identity_entry :: "json \<Rightarrow> (string \<times> Principal) result option" where
  "identity_entry item =
     (case item of
        JObj _ \<Rightarrow>
          (case (field ''token'' item, field ''roles'' item) of
             (Some tok, Some (JList rs)) \<Rightarrow>
               if \<not> truthy (Some tok) then Some (Inl (ConfigurationError ''Invalid identity fixture entry''))
               else (case (field ''actor_id'' item, field ''tenant_id'' item) of
                 (None, _) \<Rightarrow> Some (Inl (KeyError (repr_text ''actor_id'')))
               | (Some _, None) \<Rightarrow> Some (Inl (KeyError (repr_text ''tenant_id'')))
               | (Some a, Some t) \<Rightarrow>
                   (case (text_only tok, text_only a, text_only t, texts_only rs) of
                      (Some tok, Some a, Some t, Some rs) \<Rightarrow>
                        Some (Inr (tok, \<lparr>actor_id = a, principal_tenant = t, roles = set rs\<rparr>))
                    | _ \<Rightarrow> None))
           | _ \<Rightarrow> Some (Inl (ConfigurationError ''Invalid identity fixture entry'')))
      | _ \<Rightarrow> Some (Inl (AttributeError (''object has no attribute '' @ repr_text ''get''))))"

text \<open>A dictionary: a token people again takes the later principal.\<close>

fun identity_tokens :: "json list \<Rightarrow> (string \<times> Principal) list \<Rightarrow> (string \<times> Principal) list result option" where
  "identity_tokens [] tokens = Some (Inr tokens)"
| "identity_tokens (item # rest) tokens =
     (case identity_entry item of
        None \<Rightarrow> None
      | Some (Inl e) \<Rightarrow> Some (Inl e)
      | Some (Inr (tok, p)) \<Rightarrow> identity_tokens rest (AList.update tok p tokens))"

definition provider_of :: "string \<Rightarrow> json \<Rightarrow> SimulatedIdentityProvider result option" where
  "provider_of env doc =
     (case doc of
        JObj _ \<Rightarrow>
          (case (field ''identities'' doc, field ''reviewer_assignments'' doc) of
             (Some (JList people), Some (JObj kvs)) \<Rightarrow>
               (case identity_tokens people [] of
                  None \<Rightarrow> None
                | Some (Inl e) \<Rightarrow> Some (Inl e)
                | Some (Inr tokens) \<Rightarrow>
                    (case texts_only (map snd kvs) of
                       None \<Rightarrow> None
                     | Some vs \<Rightarrow> Some (make_provider tokens (zip (map fst kvs) vs) env)))
           | _ \<Rightarrow> Some (Inl (ConfigurationError ''Invalid local identity fixture structure'')))
      | _ \<Rightarrow> Some (Inl (AttributeError (''object has no attribute '' @ repr_text ''get''))))"

definition from_file :: "files \<Rightarrow> string \<Rightarrow> string \<Rightarrow> SimulatedIdentityProvider result option" where
  "from_file fs name env =
     (let unable = Some (Inl (ConfigurationError (''Unable to load ignored local identity fixture: '' @ name)))
      in case fs name of
        None \<Rightarrow> unable
      | Some ns \<Rightarrow>
          if parse_file ns = Inl JSONDecodeError then unable
          else (case loads_file ns of
            None \<Rightarrow> None
          | Some (Inl e) \<Rightarrow> Some (Inl e)
          | Some (Inr doc) \<Rightarrow> provider_of env doc))"

subsection \<open>Who a token is\<close>

lemma entry_token: "identity_entry item = Some (Inr (tok, p)) \<Longrightarrow> field ''token'' item = Some (JStr tok) \<and> tok \<noteq> []"
  by (auto simp: identity_entry_def split: json.splits option.splits if_splits elim!: text_only.elims)

definition lists_token :: "string \<Rightarrow> json \<Rightarrow> bool" where
  "lists_token tok item \<longleftrightarrow> field ''token'' item = Some (JStr tok)"

lemma find_snoc: "List.find P (xs @ [x]) = (case List.find P xs of None \<Rightarrow> if P x then Some x else None | Some y \<Rightarrow> Some y)"
  by (induction xs) auto

lemma tokens_last:
  assumes "identity_tokens people tokens = Some (Inr out)"
  shows "case select_last (lists_token tok) people of
      None \<Rightarrow> map_of out tok = map_of tokens tok
    | Some item \<Rightarrow> \<exists>p. identity_entry item = Some (Inr (tok, p)) \<and> map_of out tok = Some p"
  using assms
proof (induction people arbitrary: tokens)
  case (Cons item people)
  then obtain tok' p where e: "identity_entry item = Some (Inr (tok', p))"
    and rest: "identity_tokens people (AList.update tok' p tokens) = Some (Inr out)"
    by (auto split: option.splits sum.splits)
  have here: "lists_token tok item \<longleftrightarrow> tok = tok'" using entry_token [OF e] by (auto simp: lists_token_def)
  have "select_last (lists_token tok) (item # people)
      = (case select_last (lists_token tok) people of None \<Rightarrow> if tok = tok' then Some item else None | Some i \<Rightarrow> Some i)"
    by (simp add: select_last_def find_snoc here)
  then show ?case
    using Cons.IH [OF rest] e by (auto simp: update_conv' split: option.splits)
qed simp

lemma provider_parts:
  "provider_of env doc = Some (Inr idp) \<Longrightarrow> \<exists>people tokens assignments. field ''identities'' doc = Some (JList people)
    \<and> identity_tokens people [] = Some (Inr tokens) \<and> make_provider tokens assignments env = Inr idp"
  by (cases doc) (auto simp: provider_of_def simp del: field.simps split: option.splits sum.splits json.splits)

lemma provider_tokens: "make_provider tokens assignments env = Inr idp \<Longrightarrow> env = ''local'' \<and> token_map idp = tokens"
  by (auto simp: make_provider_def split: if_splits)

text \<open>C38. The identity file decides who a caller is: a provider loaded from it exists only where the
  application runs locally, and a bearer token authenticates exactly as the last entry of the file
  that lists it, with that entry's actor, tenant and roles; any other token is unauthenticated.
\<close>

theorem file_decides_identity:
  assumes "from_file fs name env = Some (Inr idp)" and "tok \<noteq> []"
  shows "env = ''local'' \<and> (\<exists>ns doc people. fs name = Some ns \<and> loads_file ns = Some (Inr doc)
    \<and> field ''identities'' doc = Some (JList people)
    \<and> (case select_last (lists_token tok) people of
           None \<Rightarrow> resolve idp (Some (''Bearer '' @ tok)) = Inl (AuthenticationError ''Missing or invalid bearer token'')
         | Some item \<Rightarrow> \<exists>p. identity_entry item = Some (Inr (tok, p)) \<and> resolve idp (Some (''Bearer '' @ tok)) = Inr p))"
proof -
  from assms(1) obtain ns doc where doc: "fs name = Some ns" "loads_file ns = Some (Inr doc)"
    and loaded: "provider_of env doc = Some (Inr idp)"
    by (auto simp: from_file_def Let_def split: option.splits if_splits sum.splits)
  from provider_parts [OF loaded] obtain people tokens assignments where
    doc': "field ''identities'' doc = Some (JList people)" and tokens: "identity_tokens people [] = Some (Inr tokens)"
    and idp: "make_provider tokens assignments env = Inr idp" by blast
  from provider_tokens [OF idp] tokens_last [OF tokens, of tok]
  show ?thesis unfolding resolve_bearer [OF assms(2)] using doc doc' by (auto split: option.splits)
qed

definition w_identities :: json where
  "w_identities = JObj
     [(''identities'', JList
        [JObj [(''actor_id'', JStr ''operator-alpha''), (''roles'', JList [JStr ''operator'']), (''tenant_id'', JStr ''t_alpha''),
               (''token'', JStr ''local-only-1'')]]),
      (''reviewer_assignments'', JObj [(''t_alpha'', JStr ''reviewer-alpha-primary'')])]"

definition w_provider :: SimulatedIdentityProvider where
  "w_provider = \<lparr>token_map = [(''local-only-1'', \<lparr>actor_id = ''operator-alpha'', principal_tenant = ''t_alpha'', roles = {''operator''}\<rparr>)],
     reviewer_assignments = [(''t_alpha'', ''reviewer-alpha-primary'')]\<rparr>"

lemma w_identities_loaded:
  "from_file [''identities.json'' \<mapsto> json_file w_identities] ''identities.json'' ''local'' = Some (Inr w_provider)"
proof -
  have "readable w_identities" "normal w_identities = w_identities"
    by (simp_all add: w_identities_def)
  then have "loads_file (json_file w_identities) = Some (Inr w_identities)" "parse_file (json_file w_identities) \<noteq> Inl JSONDecodeError"
    using loads_json_file parse_json_file by simp_all
  then show ?thesis
    by (simp add: from_file_def Let_def) (simp add: w_identities_def provider_of_def identity_entry_def make_provider_def w_provider_def)
qed

theorem file_decides_identity_witness:
  "''local'' = ''local'' \<and> (\<exists>ns doc people. [''identities.json'' \<mapsto> json_file w_identities] ''identities.json'' = Some ns
    \<and> loads_file ns = Some (Inr doc) \<and> field ''identities'' doc = Some (JList people)
    \<and> (case select_last (lists_token ''local-only-1'') people of
           None \<Rightarrow> resolve w_provider (Some (''Bearer '' @ ''local-only-1''))
             = Inl (AuthenticationError ''Missing or invalid bearer token'')
         | Some item \<Rightarrow> \<exists>p. identity_entry item = Some (Inr (''local-only-1'', p))
             \<and> resolve w_provider (Some (''Bearer '' @ ''local-only-1'')) = Inr p))"
  by (rule file_decides_identity [OF w_identities_loaded]) simp

end
