(* ===== verification/Spec2Isabelle.thy ===== *)
theory Spec2Isabelle
  imports Prelude StateMachine Identity Schemas Evidence ServiceContracts ServiceWaiting
    AlertProperties ShadowProcessing ShadowIntakeProperties ReportProperties Fixtures LoaderProperties
    DeliverySettings ApiProperties Pilot OpenAIAdapter ReportTravel CommandLines IdentityFile
begin

section \<open>StockoutOps Live: what is verified, and where\<close>

text \<open>
  StockoutOps Live investigates simulated stockouts under human supervision. The code is under
  \<^verbatim>\<open>src/src/stockoutops\<close>; paths below are relative to it. It has four parts, all over one
  PostgreSQL database.

  \<^item> \<^bold>\<open>Investigation.\<close> An operator posts a request (\<^verbatim>\<open>schemas.py\<close>) as a principal
    (\<^verbatim>\<open>identity.py\<close>). The service (\<^verbatim>\<open>service.py\<close>) drives a run through the state machine
    (\<^verbatim>\<open>state_machine.py\<close>): it calls three evidence tools (\<^verbatim>\<open>evidence/\<close>), checks the bundle,
    asks a reasoning adapter (\<^verbatim>\<open>reasoning/\<close>) for a cited hypothesis and a draft recommendation, and
    stops in front of the assigned human reviewer. Every step is one transaction of \<^verbatim>\<open>repository.py\<close>.
  \<^item> \<^bold>\<open>Shadow evaluation.\<close> \<^verbatim>\<open>shadow/\<close> processes labelled cases with the investigation
    service in a mode that no review may follow, compares each outcome with a reference, stores it once,
    imports cases labelled by analysts, and writes the aggregate and the readiness report.
  \<^item> \<^bold>\<open>Alerting.\<close> \<^verbatim>\<open>alerting/\<close> reads an aggregate report, evaluates five frozen policies on
    each tenant's counts, and appends every evaluation to a history; what fired or resolved is put on an outbox in
    the same transaction.
  \<^item> \<^bold>\<open>Delivery.\<close> A worker leases outbox rows, posts each one to a webhook outside any transaction, and
    records the outcome; attempts, re-drives and the terminal ledger are append-only.
\<close>

subsection \<open>Theories and code\<close>

text \<open>
  \<^item> \<open>Prelude\<close>: exceptions as the values of the sum type \<open>exn + 'a\<close>; \<open>('s, 'a) comp\<close>, a transaction that
    returns its result and the next database (a failed one returns the database it was given, unless the code has
    committed); list and SQL helpers; the interfaces \<open>op_invariant\<close> and \<open>op_progress\<close>.
  \<^item> \<open>PyFloat\<close>, \<open>FloatBounds\<close>, \<open>PyValues\<close>, \<open>Sha256\<close>, \<open>Provenance\<close>: the parts of Python the code leans on
    (rounding to binary64 and \<^verbatim>\<open>repr\<close>, \<^verbatim>\<open>sum\<close> with its compensation, \<^verbatim>\<open>str\<close> of loaded values,
    SHA-256 on 32-bit words, canonical JSON) and \<^verbatim>\<open>evidence/provenance.py\<close>. \<open>FloatText\<close> (the shortest decimal
    of a float reads back), \<open>JsonText\<close> (CPython's scanner of JSON texts and its writer) and \<open>JsonRoundTrip\<close> (what is
    written is read back as its normal form) are the text layer on which files and answers rest.
  \<^item> \<open>StateMachine\<close>, \<open>Identity\<close>, \<open>Schemas\<close>, \<open>Evidence\<close>, \<open>Reasoning\<close>: \<^verbatim>\<open>state_machine.py\<close>;
    \<^verbatim>\<open>identity.py\<close>, \<^verbatim>\<open>config.py\<close> and \<^verbatim>\<open>errors.py\<close>; \<^verbatim>\<open>schemas.py\<close>; \<^verbatim>\<open>evidence/contracts.py\<close>
    and \<^verbatim>\<open>evidence/tools.py\<close>; \<^verbatim>\<open>reasoning/\<close>.
  \<^item> \<open>RunRepository\<close>: \<^verbatim>\<open>repository.py\<close>, one definition per transaction over a record of tables
    (\<open>run_db\<close>), with the constraints of \<^verbatim>\<open>migrations/\<close> that can refuse a write. \<open>RunInvariants\<close>,
    \<open>RunHistory\<close> and \<open>RunProperties\<close> hold its invariant, the order in which its tables only grow, and what follows.
  \<^item> \<open>InvestigationService\<close>: \<^verbatim>\<open>service.py\<close> over a world (database, calls so far, bundles the adapter was
    asked about) and an environment \<open>env\<close> (clock, adapter, reviewers, and what other callers do to the database right
    before each call). \<open>ServiceProperties\<close>, \<open>ServiceTermination\<close> and \<open>ServiceWaiting\<close> hold the proof that the
    loops end under interference and that the one wait, for the lock of a tool claim, ends where others let go; \<open>Investigation\<close> holds the abstract specification of an intake and the
    simulation; \<open>ServiceContracts\<close> the properties.
  \<^item> \<open>AlertPolicies\<close>, \<open>AlertTables\<close>, \<open>Outbox\<close>, \<open>AlertDelivery\<close>, \<open>AlertRepository\<close>, \<open>AlertWorker\<close>,
    \<open>AlertReport\<close>: \<^verbatim>\<open>alerting/contracts.py\<close> and \<^verbatim>\<open>policies.py\<close>; the tables; \<^verbatim>\<open>outbox.py\<close>;
    \<^verbatim>\<open>delivery.py\<close>, \<^verbatim>\<open>enqueue.py\<close> and the payload of \<^verbatim>\<open>webhook.py\<close>;
    \<^verbatim>\<open>repository.py\<close> and \<^verbatim>\<open>service.py\<close>; \<^verbatim>\<open>worker.py\<close> and \<^verbatim>\<open>webhook.py\<close>;
    \<^verbatim>\<open>report.py\<close> and \<^verbatim>\<open>cli.py\<close>. \<open>AlertInvariants\<close>, \<open>AlertHistory\<close>, \<open>OutboxDelivery\<close>,
    \<open>AlertStories\<close>, \<open>AlertProperties\<close> and \<open>LoaderProperties\<close> hold their invariants and properties.
  \<^item> \<open>ShadowContracts\<close>, \<open>ShadowRepository\<close>, \<open>ShadowService\<close>, \<open>ShadowIntake\<close>, \<open>ShadowReport\<close>,
    \<open>ShadowCollection\<close>: \<^verbatim>\<open>shadow/contracts.py\<close>, \<^verbatim>\<open>metrics.py\<close> and \<^verbatim>\<open>diff.py\<close>;
    \<^verbatim>\<open>repository.py\<close>; \<^verbatim>\<open>service.py\<close>; \<^verbatim>\<open>intake.py\<close>; \<^verbatim>\<open>cases.py\<close> and \<^verbatim>\<open>report.py\<close>;
    \<^verbatim>\<open>collection.py\<close>. \<open>ShadowHistory\<close>, \<open>ShadowProperties\<close>, \<open>ShadowProcessing\<close>,
    \<open>ShadowIntakeProperties\<close> and \<open>ReportProperties\<close> hold their invariants and properties.
  \<^item> \<open>Fixtures\<close>: \<^verbatim>\<open>database.py\<close> (migrations), \<^verbatim>\<open>evidence/manifest.py\<close>, \<^verbatim>\<open>evidence/seed.py\<close>
    and the seeding of a case pack.
  \<^item> \<open>PyText\<close>, \<open>DeliverySettings\<close>: what the settings use of \<^verbatim>\<open>int\<close>, \<^verbatim>\<open>float\<close> and \<^verbatim>\<open>urlparse\<close>;
    \<^verbatim>\<open>alerting/delivery_settings.py\<close>, what is built from the settings, and \<^verbatim>\<open>alerting/worker_cli.py\<close>.
  \<^item> \<open>Api\<close>, \<open>ApiProperties\<close>: \<^verbatim>\<open>api.py\<close> over requests as the web framework hands them over.
  \<^item> \<open>Pilot\<close>: \<^verbatim>\<open>shadow/cli.py\<close>, from the seeding of a pack to the report, and how the alert side reads it.
  \<^item> \<open>OpenAIAdapter\<close>: \<^verbatim>\<open>reasoning/openai_adapter.py\<close> and the schema of \<^verbatim>\<open>reasoning/schemas.py\<close> it sends,
    over an arbitrary client, with the meaning of the schema as its specification.
  \<^item> \<open>ReportFiles\<close>, \<open>ReportTravel\<close>: the JSON and Markdown files of the three reports, over a file system that
    is a map from paths to texts under an operating system that may refuse a path, and the proof that the alert side does not see how a file spells its document.
  \<^item> \<open>CommandLines\<close>, \<open>IdentityFile\<close>: the \<^verbatim>\<open>main\<close> functions of \<^verbatim>\<open>shadow/cli.py\<close>, \<^verbatim>\<open>shadow/collection.py\<close>,
    \<^verbatim>\<open>shadow/intake.py\<close> and \<^verbatim>\<open>alerting/cli.py\<close> over files and the environment, and \<^verbatim>\<open>from_file\<close> of
    \<^verbatim>\<open>identity.py\<close>.
\<close>

subsection \<open>Interfaces\<close>

text \<open>
  \<^item> \<open>op_invariant\<close> and \<open>op_progress\<close> (\<open>Prelude\<close>): a step function whose every operation keeps an invariant and moves
    the state up in an order; both then hold along any sequence of operations. Interpreted on the run tables (\<open>repo\<close>),
    the alert tables (\<open>alerts\<close>, \<open>deliveries\<close>, \<open>stories\<close>, \<open>histories\<close>), the shadow tables (\<open>shadows\<close>) and
    the intake tables (\<open>intakes\<close>).
  \<^item> \<open>identity_provider\<close>, \<open>fixture_reader\<close> and \<open>reasoning_adapter\<close> are the protocols the service is written against;
    interpreted on the simulated provider (\<open>sim\<close>), the repository's reads (\<open>fixtures\<close>), the stub (\<open>stub\<close>) and the
    OpenAI adapter over any client (\<open>openai\<close>).
  \<^item> \<open>shared_repository\<close>, extended by \<open>service_env\<close> (with a lawful adapter) and \<open>quiet_service\<close> (without
    interference) and by \<open>letting_go\<close> (others that release what they claim): what the service may assume of its surroundings. Interpreted on environments in which the other callers are any operations
    of the repository (\<open>busy\<close>, \<open>busy_stub\<close>), or none (\<open>quiet_stub\<close>, \<open>alone\<close>).
\<close>

subsection \<open>Conventions and bounds\<close>

text \<open>
  \<^item> \<^bold>\<open>Integers\<close> of Python are unbounded (\<open>int\<close>); the words of SHA-256 are 32 bits wide. \<^bold>\<open>Floats\<close> are the
    rationals of binary64 with \<open>fl\<close> rounding to nearest even; infinity and NaN are not in the model, except
    where a text of the settings is read (\<open>pyfloat\<close>); \<^verbatim>\<open>float\<close> of an integer beyond binary64 raises (\<open>float_of_int\<close>);
    products and sums that would overflow to infinity are left out. A \<^bold>\<open>datetime\<close> is an instant in microseconds and an offset; the
    database returns instants in UTC. \<^bold>\<open>Strings\<close> are lists of characters below code point 256; the few constant texts
    with a dash outside it are the JSON value \<open>JUni\<close>. \<^verbatim>\<open>ORDER BY\<close> on text is by code point.
  \<^item> \<open>num\<close> is what a column of PostgreSQL's type \<^verbatim>\<open>numeric\<close> gives back of a float: a parameter.
  \<^item> \<^bold>\<open>Concurrency.\<close> Each repository call is one atomic transaction; between any two of them the other callers do
    any operations. A tool claim whose advisory lock is held by somebody else does not return: its call is the value
    \<open>StillWaiting\<close>, which no handler catches. The refinement of the abstract intake and the happy path are
    about a service that is alone; the invariants, idempotency and the end of the loops hold under interference.
    The advisory locks of the shadow and intake repositories make their operations atomic; the
    beginning of a shadow run waits until its locks are free.
  \<^item> \<^bold>\<open>Alert tables\<close> are reached by recordings, leases, reports and re-drives (\<open>alert_op\<close>): the program never calls
    \<^verbatim>\<open>claim\<close> and \<^verbatim>\<open>complete\<close> of \<^verbatim>\<open>delivery.py\<close> on their own, which only tests do. The worker is run against receivers
    that answer with a status from 100 to 599; what a larger one does is a lemma (\<open>status_out_of_range\<close>).
  \<^item> \<^bold>\<open>Fuel.\<close> The resume loop of the service takes its number of steps as an argument, \<open>None\<close> when it runs
    out. Eight steps, nine for a whole intake, are enough from any state: the transition table has no cycle, and a
    retry after a lost race finds the row strictly further on. That the loops end is a property, not an assumption.
\<close>

subsection \<open>What the properties show\<close>

text \<open>
  \<^item> \<^bold>\<open>Investigation.\<close> An intake ends, is idempotent under its key (also over HTTP, for a retried POST, which writes
    nothing) and, alone, refines its specification, leaves no claim held and calls the adapter on fresh evidence of the
    tenant only. A run is closed
    exactly by the one decision of its assigned reviewer, and of several callers with one snapshot at most one moves the run.
    No tenant touches another's rows.
  \<^item> \<^bold>\<open>Alerting and delivery.\<close> Recording is idempotent and fails closed; every announcement has exactly one intent; one
    run of the worker accounts for its leases; a delivered intent is final; the ledger agrees; budgets are kept;
    thresholds compared in binary64 mean what the exact rates say; delivery is off or goes to the one checked destination.
  \<^item> \<^bold>\<open>Shadow evaluation.\<close> A case is begun and completed once, its result is what is stored, its comparison is exact
    exactly when the outcome agrees; the official count is exactly the accepted and not excluded intakes; the file the pilot
    writes, when the system opens its paths, is what the alert side reads.
  \<^item> \<^bold>\<open>Data in and out.\<close> Loading a report is typed and total; seeding is read back and idempotent; equal canonical texts are
    equal documents; the schema sent to the model provider accepts what the result model accepts, and a valid answer is
    read as it was written; the identity file decides who a token is.
\<close>

subsection \<open>Not modelled\<close>

text \<open>
  The parsing of command-line arguments and the commit read from git, whose results are parameters; Pydantic's decoding of a
  document into the fields of a case pack, an intake document or an earlier result, a parameter too (their validators are modelled);
  the routing of the web framework and its JSON encoding, the page of the reviewer, the health check; the smoke
  script and the script that creates local tokens; the alert sink, which does nothing; the CSV reader and the connection
  handling of \<^verbatim>\<open>database.py\<close>. The answers of the HTTP client and of the model provider are arguments of the definitions that
  use them. Where JSON text is read, \<open>Outside\<close> stands for what the documents of the model do not hold: NaN and the infinities,
  keys beyond 8-bit characters, and floats beyond the largest; the recursion limit of the scanner is left out.
  Texts with a code point beyond 255 in a provider's answer are refused like invalid output (\<open>decoded_result\<close>), where the
  code would accept them. Writing a Markdown text with a lone surrogate, which raises, is left out.
  The messages of Python's own errors and of Pydantic's are left out.
\<close>

end
